(* ===== verification/Oto_Prelude.thy ===== *)
theory Oto_Prelude
  imports Main "HOL-Library.Word" "HOL-Library.AList"
begin

text \<open>
  The prelude of the oto development: what the components share.

  \<^item> Errors as values (\<^verbatim>\<open>internal/platform/errs\<close>): an error is its kind, its code and the field
    violations it carries; the human-readable message text is not modelled.
  \<^item> Go's \<^verbatim>\<open>time.Time\<close> and \<^verbatim>\<open>time.Duration\<close>: an instant is the number of nanoseconds since Go's
    zero time (1 January of year 1, UTC), so \<^verbatim>\<open>IsZero\<close> is equality with 0; the location of a
    \<^verbatim>\<open>Time\<close> only changes how it prints, so \<^verbatim>\<open>UTC()\<close> is the identity on instants.
    \<^verbatim>\<open>Sub\<close> saturates at the 64-bit bounds of \<^verbatim>\<open>Duration\<close>.
  \<^item> Go strings are byte sequences, as \<open>string\<close> is: \<^verbatim>\<open>strings.TrimSpace\<close>,
    \<^verbatim>\<open>strings.ToLower\<close>, \<^verbatim>\<open>strconv.Itoa\<close>, RFC 3339 rendering.
  \<^item> The third-party package \<^verbatim>\<open>github.com/google/uuid\<close> is a parameter (\<open>uuidlib\<close>); what the
    code relies on is the locale \<open>uuid_codec\<close>, which the canonical textual form satisfies.
  \<^item> Two interfaces every component reuses: \<open>wire_enum\<close> / \<open>closed_enum\<close> (a closed set of
    values with a wire spelling) and \<open>step_machine\<close> (an operation that keeps an invariant).
\<close>

section \<open>Automation collections\<close>

named_theorems oto_defs \<open>definitions of small predicates that proofs unfold\<close>
named_theorems oto_bounds \<open>numeric constants of the source\<close>

section \<open>Errors and results\<close>

text \<open>The kinds of \<^verbatim>\<open>errs.Kind\<close>, in the source's order.\<close>

datatype errkind =
    KindValidation | KindMalformed | KindUnauthorized | KindForbidden | KindNotFound
  | KindConflict | KindPrecondition | KindTooLarge | KindUnsupported | KindRateLimited
  | KindInternal | KindUpstreamDown | KindUnavailable | KindUpstreamSlow

text \<open>A field violation: the field's wire name and the violation's code.\<close>

datatype violation = Violation (vField: string) (vCode: string)

datatype error = Error (errKind: errkind) (errCode: string) (errViolations: "violation list")

type_synonym 'a result = "error + 'a"

definition errs_New :: "errkind \<Rightarrow> string \<Rightarrow> error" where
  "errs_New k c = Error k c []"

definition errs_Validation :: "string \<Rightarrow> violation list \<Rightarrow> error" where
  "errs_Validation c vs = Error KindValidation c vs"

lemma errs_New_sel [simp]:
  "errKind (errs_New k c) = k" "errCode (errs_New k c) = c" "errViolations (errs_New k c) = []"
  by (simp_all add: errs_New_def)

lemma errs_New_eq_iff [simp]: "errs_New k c = errs_New k' c' \<longleftrightarrow> k = k' \<and> c = c'"
  by (simp add: errs_New_def)

lemma errs_Validation_sel [simp]:
  "errKind (errs_Validation c vs) = KindValidation" "errCode (errs_Validation c vs) = c"
  "errViolations (errs_Validation c vs) = vs"
  by (simp_all add: errs_Validation_def)

text \<open>
  A Go function that checks a row of conditions and returns at the first that fails: each entry
  pairs the condition of an \<^verbatim>\<open>if\<close> with the error its body returns.
\<close>

primrec first_err :: "(bool \<times> error) list \<Rightarrow> error option" where
  "first_err [] = None"
| "first_err (x # xs) = (if fst x then Some (snd x) else first_err xs)"

lemma first_err_None_iff: "first_err xs = None \<longleftrightarrow> (\<forall>x\<in>set xs. \<not> fst x)"
  by (induction xs) auto

lemma first_err_append: "first_err (xs @ ys) = (case first_err xs of None \<Rightarrow> first_err ys | e \<Rightarrow> e)"
  by (induction xs) auto

lemma first_err_Some_mem: "first_err xs = Some e \<Longrightarrow> e \<in> snd ` set xs"
  by (induction xs) (auto split: if_splits)

text \<open>\<^verbatim>\<open>if err != nil { return err }\<close> followed by the rest of the body.\<close>

definition or_fail :: "error option \<Rightarrow> 'a result \<Rightarrow> 'a result" where
  "or_fail e k = (case e of Some x \<Rightarrow> Inl x | None \<Rightarrow> k)"

lemma or_fail_simps [simp]: "or_fail None k = k" "or_fail (Some e) k = Inl e"
  by (simp_all add: or_fail_def)

lemma or_fail_Inr_iff [simp]: "or_fail e k = Inr y \<longleftrightarrow> e = None \<and> k = Inr y"
  by (cases e) simp_all

lemma or_fail_Inl_iff: "or_fail e k = Inl x \<longleftrightarrow> e = Some x \<or> (e = None \<and> k = Inl x)"
  by (cases e) auto

text \<open>\<^verbatim>\<open>v, err := f(); if err != nil { return err }\<close>: the first failure is the result.\<close>

definition rbind :: "'a result \<Rightarrow> ('a \<Rightarrow> 'b result) \<Rightarrow> 'b result" where
  "rbind m f = (case m of Inl e \<Rightarrow> Inl e | Inr x \<Rightarrow> f x)"

lemma rbind_simps [simp]: "rbind (Inl e) f = Inl e" "rbind (Inr x) f = f x"
  by (simp_all add: rbind_def)

lemma rbind_Inr_iff: "rbind m f = Inr y \<longleftrightarrow> (\<exists>x. m = Inr x \<and> f x = Inr y)"
  by (cases m) simp_all

lemma rbind_Inl_iff: "rbind m f = Inl e \<longleftrightarrow> m = Inl e \<or> (\<exists>x. m = Inr x \<and> f x = Inl e)"
  by (cases m) auto

text \<open>The violations a validator appends, one per condition that holds.\<close>

primrec collect :: "(bool \<times> 'v) list \<Rightarrow> 'v list" where
  "collect [] = []"
| "collect (x # xs) = (if fst x then snd x # collect xs else collect xs)"

lemma collect_Nil_iff: "collect xs = [] \<longleftrightarrow> (\<forall>x\<in>set xs. \<not> fst x)"
  by (induction xs) auto

text \<open>The tail of every validator: no violation is no error.\<close>

definition violations_err :: "string \<Rightarrow> violation list \<Rightarrow> error option" where
  "violations_err c vs = (if vs = [] then None else Some (errs_Validation c vs))"

lemma violations_err_None_iff [simp]: "violations_err c vs = None \<longleftrightarrow> vs = []"
  by (simp add: violations_err_def)

section \<open>Instants and durations\<close>

type_synonym time = int
type_synonym duration = int

definition Nanosecond :: duration where "Nanosecond = 1"
definition Millisecond :: duration where "Millisecond = 1000000"
definition Second :: duration where "Second = 1000000000"
definition Minute :: duration where "Minute = 60 * 1000000000"
definition Hour :: duration where "Hour = 3600 * 1000000000"

lemmas duration_units = Nanosecond_def Millisecond_def Second_def Minute_def Hour_def

definition max_duration :: duration where "max_duration = 2 ^ 63 - 1"
definition min_duration :: duration where "min_duration = - (2 ^ 63)"

definition IsZero :: "time \<Rightarrow> bool" where
  "IsZero t \<longleftrightarrow> t = 0"

lemma IsZero_iff [simp]: "IsZero t \<longleftrightarrow> t = 0"
  by (simp add: IsZero_def)

text \<open>\<^verbatim>\<open>t.Sub(u)\<close>: the difference, saturating at the bounds of a 64-bit duration.\<close>

definition t_sub :: "time \<Rightarrow> time \<Rightarrow> duration" where
  "t_sub t u = max min_duration (min max_duration (t - u))"

lemma t_sub_self [simp]: "t_sub t t = 0"
  by (simp add: t_sub_def min_duration_def max_duration_def)

lemma t_sub_pos_iff [simp]: "0 < t_sub t u \<longleftrightarrow> u < t"
  by (auto simp: t_sub_def min_duration_def max_duration_def)

lemma t_sub_nonneg_iff [simp]: "0 \<le> t_sub t u \<longleftrightarrow> u \<le> t"
  by (auto simp: t_sub_def min_duration_def max_duration_def)

lemma t_sub_le_iff:
  "0 \<le> d \<Longrightarrow> d < max_duration \<Longrightarrow> t_sub t u \<le> d \<longleftrightarrow> t - u \<le> d"
  by (auto simp: t_sub_def min_duration_def max_duration_def)

lemma t_sub_less_iff:
  "0 \<le> d \<Longrightarrow> d \<le> max_duration \<Longrightarrow> t_sub t u < d \<longleftrightarrow> t - u < d"
  by (auto simp: t_sub_def min_duration_def max_duration_def)

lemma t_sub_exact: "min_duration \<le> t - u \<Longrightarrow> t - u \<le> max_duration \<Longrightarrow> t_sub t u = t - u"
  by (simp add: t_sub_def)

lemma t_sub_mono: "t \<le> t' \<Longrightarrow> t_sub t u \<le> t_sub t' u"
  by (auto simp: t_sub_def min_duration_def max_duration_def)

text \<open>Go's integer division and remainder truncate towards zero.\<close>

definition go_div :: "int \<Rightarrow> int \<Rightarrow> int" where
  "go_div a b = sgn a * sgn b * (\<bar>a\<bar> div \<bar>b\<bar>)"

definition go_mod :: "int \<Rightarrow> int \<Rightarrow> int" where
  "go_mod a b = a - b * go_div a b"

lemma go_div_nonneg: "0 \<le> a \<Longrightarrow> 0 < b \<Longrightarrow> go_div a b = a div b"
  by (cases "a = 0") (simp_all add: go_div_def)

lemma go_mod_nonneg: "0 \<le> a \<Longrightarrow> 0 < b \<Longrightarrow> go_mod a b = a mod b"
  by (simp add: go_mod_def go_div_nonneg minus_mult_div_eq_mod)

lemma go_mod_eq_0_iff: "b \<noteq> 0 \<Longrightarrow> go_mod a b = 0 \<longleftrightarrow> b dvd a"
proof -
  assume b: "b \<noteq> 0"
  have "sgn a * sgn b * (\<bar>a\<bar> div \<bar>b\<bar>) * b = sgn a * (\<bar>a\<bar> div \<bar>b\<bar> * \<bar>b\<bar>)"
    by (simp add: abs_sgn [of b] algebra_simps)
  then have eq: "b * go_div a b = sgn a * (\<bar>a\<bar> - \<bar>a\<bar> mod \<bar>b\<bar>)"
    by (simp add: go_div_def mult.commute minus_mod_eq_mult_div)
  have "go_mod a b = sgn a * (\<bar>a\<bar> mod \<bar>b\<bar>)"
    using eq by (simp add: go_mod_def right_diff_distrib sgn_mult_abs)
  then show ?thesis using b
    by (auto simp: sgn_if dvd_eq_mod_eq_0 [symmetric])
qed

section \<open>Interfaces the components share\<close>

text \<open>
  A closed set of wire values: a struct with one unexported string, a printer \<^verbatim>\<open>String\<close> and a
  parser \<^verbatim>\<open>NewX\<close>. The zero value of the struct is a value too, and no string parses to it, so
  the laws speak of the values in \<open>valid\<close>. \<open>wire_enum\<close> is what a reader of persisted rows needs
  (every printed value parses back); \<open>closed_enum\<close> adds that nothing else parses.
\<close>

locale wire_enum =
  fixes str :: "'x \<Rightarrow> string"
    and parse :: "string \<Rightarrow> 'x result"
    and valid :: "'x \<Rightarrow> bool"
  assumes parse_str: "valid x \<Longrightarrow> parse (str x) = Inr x"
    and parse_valid: "parse s = Inr x \<Longrightarrow> valid x"
begin

lemma str_inj: "valid x \<Longrightarrow> valid y \<Longrightarrow> str x = str y \<Longrightarrow> x = y"
  using parse_str by (metis sum.inject(2))

lemma inj_on_str: "inj_on str {x. valid x}"
  by (rule inj_onI) (auto intro: str_inj)

end

locale closed_enum = wire_enum +
  assumes str_parse: "parse s = Inr x \<Longrightarrow> str x = s"
begin

lemma parse_iff: "parse s = Inr x \<longleftrightarrow> valid x \<and> str x = s"
  using parse_str parse_valid str_parse by auto

lemma accepted_iff: "(\<exists>x. parse s = Inr x) \<longleftrightarrow> s \<in> str ` {x. valid x}"
  by (auto simp: parse_iff)

end

text \<open>
  The shape every parser of a closed set has in the source: a \<^verbatim>\<open>switch\<close> over the spellings of the
  listed values, and the validation error \<^verbatim>\<open>enum\<close> by default.
\<close>

definition enum_parse :: "('x \<Rightarrow> string) \<Rightarrow> 'x list \<Rightarrow> string \<Rightarrow> 'x result" where
  "enum_parse str all s =
     (case find (\<lambda>x. str x = s) all of Some x \<Rightarrow> Inr x | None \<Rightarrow> Inl (errs_New KindValidation ''enum''))"

lemma enum_parse_Inr: "enum_parse str all s = Inr x \<Longrightarrow> x \<in> set all \<and> str x = s"
  by (auto simp: enum_parse_def find_Some_iff split: option.splits)

lemma enum_parse_str:
  assumes "distinct (map str all)" "x \<in> set all"
  shows "enum_parse str all (str x) = Inr x"
proof -
  have "find (\<lambda>y. str y = str x) all \<noteq> None"
    using assms(2) by (auto simp: find_None_iff)
  then obtain y where y: "find (\<lambda>y. str y = str x) all = Some y" by blast
  then have "y \<in> set all" "str y = str x" by (auto simp: find_Some_iff)
  with assms have "y = x" by (auto simp: distinct_map dest: inj_onD)
  with y show ?thesis by (simp add: enum_parse_def)
qed

lemma enum_parse_closed:
  "distinct (map str all) \<Longrightarrow> closed_enum str (enum_parse str all) (\<lambda>x. x \<in> set all)"
  by unfold_locales (simp_all add: enum_parse_str enum_parse_Inr)

lemma enum_parse_error:
  "enum_parse str all s = Inl e \<longleftrightarrow> (s \<notin> str ` set all \<and> e = errs_New KindValidation ''enum'')"
proof (cases "find (\<lambda>x. str x = s) all")
  case None
  then have "s \<notin> str ` set all" by (auto simp: find_None_iff)
  with None show ?thesis by (auto simp: enum_parse_def)
next
  case (Some x)
  then have "s \<in> str ` set all" by (auto simp: find_Some_iff)
  with Some show ?thesis by (simp add: enum_parse_def)
qed

text \<open>
  A component with state: an operation that may refuse, and an invariant it keeps. \<open>run\<close> applies
  a sequence of commands and stops at the first refusal, as a Go caller that returns its error.
\<close>

fun run_steps :: "('s \<Rightarrow> 'c \<Rightarrow> 's result) \<Rightarrow> 's \<Rightarrow> 'c list \<Rightarrow> 's result" where
  "run_steps f s [] = Inr s"
| "run_steps f s (c # cs) = rbind (f s c) (\<lambda>s'. run_steps f s' cs)"

lemma run_steps_append:
  "run_steps f s (xs @ ys) = rbind (run_steps f s xs) (\<lambda>s'. run_steps f s' ys)"
proof (induction xs arbitrary: s)
  case (Cons x xs)
  then show ?case by (cases "f s x") simp_all
qed simp

lemma run_steps_inv:
  assumes "run_steps f s cs = Inr s'" "P s" "\<And>t c t'. c \<in> set cs \<Longrightarrow> P t \<Longrightarrow> f t c = Inr t' \<Longrightarrow> P t'"
  shows "P s'"
  using assms
proof (induction cs arbitrary: s)
  case (Cons c cs)
  from Cons.prems(1) obtain t where t: "f s c = Inr t" "run_steps f t cs = Inr s'"
    by (auto simp: rbind_Inr_iff)
  have "P t" using Cons.prems(2,3) t(1) by auto
  with t(2) show ?case by (rule Cons.IH) (use Cons.prems(3) in auto)
qed simp

locale step_machine =
  fixes step :: "'s \<Rightarrow> 'c \<Rightarrow> 's result"
    and inv :: "'s \<Rightarrow> bool"
  assumes step_inv: "inv s \<Longrightarrow> step s c = Inr s' \<Longrightarrow> inv s'"
begin

lemma run_inv: "inv s \<Longrightarrow> run_steps step s cs = Inr s' \<Longrightarrow> inv s'"
  by (erule run_steps_inv, assumption, blast intro: step_inv)

end

text \<open>
  A machine whose states are ordered by what they can still do: once a state is \<open>final\<close> every
  accepted step leaves it as it is.
\<close>

locale terminal_machine = step_machine +
  fixes final :: "'a \<Rightarrow> bool"
  assumes final_step: "inv s \<Longrightarrow> final s \<Longrightarrow> step s c = Inr s' \<Longrightarrow> s' = s"
begin

lemma final_run: "inv s \<Longrightarrow> final s \<Longrightarrow> run_steps step s cs = Inr s' \<Longrightarrow> s' = s"
proof (induction cs arbitrary: s)
  case (Cons c cs)
  from Cons.prems(3) obtain t where t: "step s c = Inr t" "run_steps step t cs = Inr s'"
    by (auto simp: rbind_Inr_iff)
  with final_step Cons.prems(1,2) have "t = s" by blast
  with t(2) Cons show ?case by blast
qed simp

end

section \<open>Tables\<close>

text \<open>
  A table is the list of its rows. \<open>update_where P f\<close> is an \<^verbatim>\<open>UPDATE ... WHERE\<close>: the rows \<open>P\<close> admits are rewritten by
  \<open>f\<close>, the others and the order stay.
\<close>

definition update_where :: "('a \<Rightarrow> bool) \<Rightarrow> ('a \<Rightarrow> 'a) \<Rightarrow> 'a list \<Rightarrow> 'a list" where
  "update_where P f rows = map (\<lambda>r. if P r then f r else r) rows"

lemma find_SomeD: "find P xs = Some x \<Longrightarrow> x \<in> set xs \<and> P x"
  by (auto simp: find_Some_iff)

lemma find_NoneD: "find P xs = None \<Longrightarrow> x \<in> set xs \<Longrightarrow> \<not> P x"
  by (auto simp: find_None_iff)

lemma update_where_sel:
  "map g (update_where P f rows) = map (\<lambda>r. if P r then g (f r) else g r) rows"
  by (simp add: update_where_def if_distrib)

lemma set_update_where: "set (update_where P f rows) = {f r |r. r \<in> set rows \<and> P r} \<union> {r \<in> set rows. \<not> P r}"
  by (auto simp: update_where_def)

lemma keys_update_where [simp]:
  "(\<And>r. key (f r) = key r) \<Longrightarrow> map key (update_where P f rows) = map key rows"
  by (simp add: update_where_sel)

lemma find_app: "find P (xs @ ys) = (case find P xs of None \<Rightarrow> find P ys | Some x \<Rightarrow> Some x)"
  by (induction xs) simp_all

lemma find_update_where:
  "(\<And>r. Q (f r) = Q r) \<Longrightarrow>
    find Q (update_where P f rows) = map_option (\<lambda>r. if P r then f r else r) (find Q rows)"
  by (induction rows) (auto simp: update_where_def)

lemma filter_update_where:
  "(\<And>r. Q (f r) = Q r) \<Longrightarrow> (\<And>r. g (f r) = g r) \<Longrightarrow> map g (filter Q (update_where P f rows)) = map g (filter Q rows)"
  by (induction rows) (auto simp: update_where_def)

lemma update_where_none: "(\<And>r. r \<in> set rows \<Longrightarrow> \<not> P r) \<Longrightarrow> update_where P f rows = rows"
  by (simp add: update_where_def map_idI)

lemma update_where_fresh:
  "(\<And>x. x \<in> set rows \<Longrightarrow> \<not> P x) \<Longrightarrow> P d \<Longrightarrow> update_where P f (rows @ [d]) = rows @ [f d]"
  by (simp add: update_where_def map_idI)

end
