(* ===== verification/Go_Strings.thy ===== *)
theory Go_Strings
  imports Oto_Prelude "HOL-Library.Char_ord" "HOL-Library.List_Lexorder"
begin

text \<open>
  What the source uses of Go's standard string library, on byte strings, and the interface to the
  third-party uuid package.

  \<^item> \<open>TrimSpace\<close> removes the encodings of every Unicode white-space rune at both ends; the rune
    set is written out as its UTF-8 byte sequences.
  \<^item> \<open>ToLower\<close> lower-cases ASCII letters and the two non-ASCII runes whose lower case is
    ASCII (U+0130 and U+212A). Every other rune stays outside ASCII in Go as it does here, so the
    two agree on every comparison with an ASCII constant, the only use the source makes of it.
  \<^item> \<open>itoa\<close> is \<^verbatim>\<open>strconv.Itoa\<close>, \<open>RFC3339Nano\<close> is \<^verbatim>\<open>Time.Format(time.RFC3339Nano)\<close> of a UTC time.
\<close>

section \<open>White space and case\<close>

definition byte :: "nat \<Rightarrow> char" where
  "byte n = char_of n"

text \<open>The runes of \<^verbatim>\<open>unicode.IsSpace\<close>, each as its UTF-8 encoding.\<close>

definition space_runes :: "string list" where
  "space_runes =
     [[byte 9], [byte 10], [byte 11], [byte 12], [byte 13], [byte 32],
      [byte 194, byte 133], [byte 194, byte 160], [byte 225, byte 154, byte 128]] @
     map (\<lambda>k. [byte 226, byte 128, byte k]) [128, 129, 130, 131, 132, 133, 134, 135, 136, 137, 138,
       168, 169, 175] @
     [[byte 226, byte 129, byte 159], [byte 227, byte 128, byte 128]]"

text \<open>The first rune of the list that is a prefix of the string, if any.\<close>

definition leading_rune :: "string list \<Rightarrow> string \<Rightarrow> string option" where
  "leading_rune rs s = find (\<lambda>r. r \<noteq> [] \<and> take (length r) s = r) rs"

function trim_left :: "string list \<Rightarrow> string \<Rightarrow> string" where
  "trim_left rs s = (case leading_rune rs s of None \<Rightarrow> s | Some r \<Rightarrow> trim_left rs (drop (length r) s))"
  by pat_completeness auto
termination
proof (relation "measure (\<lambda>(rs, s). length s)", simp)
  fix rs s r assume "leading_rune rs s = Some r"
  then have "r \<noteq> []" "take (length r) s = r"
    by (auto simp: leading_rune_def find_Some_iff)
  then have "0 < length r" "length r \<le> length s"
    by (auto, metis length_take min.cobounded1)
  then have "length s - length r < length s" by arith
  then show "((rs, drop (length r) s), rs, s) \<in> measure (\<lambda>(rs, s). length s)"
    by simp
qed

declare trim_left.simps [simp del]

definition TrimSpace :: "string \<Rightarrow> string" where
  "TrimSpace s = rev (trim_left (map rev space_runes) (rev (trim_left space_runes s)))"

lemma trim_left_suffix: "\<exists>p. s = p @ trim_left rs s"
proof (induction rs s rule: trim_left.induct)
  case (1 rs s)
  show ?case
  proof (cases "leading_rune rs s")
    case None
    then show ?thesis by (simp add: trim_left.simps [of rs s])
  next
    case (Some r)
    with 1 obtain p where "drop (length r) s = p @ trim_left rs (drop (length r) s)" by blast
    with Some have "s = (take (length r) s @ p) @ trim_left rs s"
      by (metis append.assoc append_take_drop_id option.simps(5) trim_left.simps)
    then show ?thesis by blast
  qed
qed

lemma length_trim_left: "length (trim_left rs s) \<le> length s"
  using trim_left_suffix [of s rs] by (metis le_add2 length_append)

lemma length_TrimSpace: "length (TrimSpace s) \<le> length s"
  unfolding TrimSpace_def
  by (metis length_rev length_trim_left order_trans)

lemma leading_rune_Nil [simp]: "leading_rune rs [] = None"
  by (auto simp: leading_rune_def find_None_iff)

lemma trim_left_Nil [simp]: "trim_left rs [] = []"
  by (subst trim_left.simps) simp

lemma TrimSpace_Nil [simp]: "TrimSpace [] = []"
  unfolding TrimSpace_def by (simp only: trim_left_Nil rev.simps)

text \<open>A string whose first and last bytes start no white-space rune is left as it is.\<close>

definition printable :: "char \<Rightarrow> bool" where
  "printable c \<longleftrightarrow> 33 \<le> (of_char c :: nat) \<and> (of_char c :: nat) \<le> 127"

lemma space_runes_ends:
  "list_all (\<lambda>r. r \<noteq> [] \<and> \<not> printable (hd r) \<and> \<not> printable (last r)) space_runes"
  by (simp add: space_runes_def byte_def printable_def)

lemma trim_left_plain:
  assumes "list_all (\<lambda>r. r \<noteq> [] \<and> \<not> printable (hd r)) rs" "s \<noteq> [] \<Longrightarrow> printable (hd s)"
  shows "trim_left rs s = s"
proof -
  have "\<not> (r \<noteq> [] \<and> take (length r) s = r)" if "r \<in> set rs" for r
    using assms that by (cases s; cases r) (auto simp: list_all_iff)
  then have "leading_rune rs s = None"
    by (auto simp: leading_rune_def find_None_iff)
  then show ?thesis by (simp add: trim_left.simps [of rs s])
qed

lemma TrimSpace_plain:
  assumes "s \<noteq> []" "printable (hd s)" "printable (last s)"
  shows "TrimSpace s = s"
proof -
  have "trim_left space_runes s = s"
    using assms space_runes_ends by (intro trim_left_plain) (auto simp: list_all_iff)
  moreover have "trim_left (map rev space_runes) (rev s) = rev s"
    using assms space_runes_ends by (intro trim_left_plain) (auto simp: list_all_iff hd_rev)
  ultimately show ?thesis by (simp add: TrimSpace_def)
qed

definition lower_char :: "char \<Rightarrow> char" where
  "lower_char c = (let n = of_char c :: nat in if 65 \<le> n \<and> n \<le> 90 then char_of (n + 32) else c)"

fun ToLower :: "string \<Rightarrow> string" where
  "ToLower [] = []"
| "ToLower (c # cs) =
     (if c = byte 196 \<and> take 1 cs = [byte 176] then CHR ''i'' # ToLower (drop 1 cs)
      else if c = byte 226 \<and> take 2 cs = [byte 132, byte 170] then CHR ''k'' # ToLower (drop 2 cs)
      else lower_char c # ToLower cs)"

section \<open>Decimal numbers\<close>

definition digit :: "int \<Rightarrow> char" where
  "digit d = char_of (48 + d)"

text \<open>The digits of a number that is not negative.\<close>

function utoa :: "int \<Rightarrow> string" where
  "utoa n = (if n < 10 then [digit n] else utoa (n div 10) @ [digit (n mod 10)])"
  by pat_completeness auto
termination
  by (relation "measure nat") (auto simp: nat_less_eq_zless)

declare utoa.simps [simp del]

definition itoa :: "int \<Rightarrow> string" where
  "itoa i = (if i < 0 then CHR ''-'' # utoa (- i) else utoa i)"

definition undigit :: "char \<Rightarrow> int" where
  "undigit c = of_char c - 48"

definition atou :: "string \<Rightarrow> int" where
  "atou s = foldl (\<lambda>n c. 10 * n + undigit c) 0 s"

lemma undigit_digit [simp]: "0 \<le> d \<Longrightarrow> d < 10 \<Longrightarrow> undigit (digit d) = d"
  by (simp add: undigit_def digit_def)

lemma atou_utoa [simp]: "0 \<le> n \<Longrightarrow> atou (utoa n) = n"
proof (induction n rule: utoa.induct)
  case (1 n)
  show ?case
  proof (cases "n < 10")
    case True
    with 1 show ?thesis by (simp add: utoa.simps [of n] atou_def)
  next
    case False
    with 1 have "foldl (\<lambda>n c. 10 * n + undigit c) 0 (utoa (n div 10)) = n div 10"
      by (simp add: atou_def)
    with False show ?thesis by (simp add: utoa.simps [of n] atou_def)
  qed
qed

lemma utoa_inj: "0 \<le> m \<Longrightarrow> 0 \<le> n \<Longrightarrow> utoa m = utoa n \<longleftrightarrow> m = n"
  by (metis atou_utoa)

definition is_digit :: "char \<Rightarrow> bool" where
  "is_digit c \<longleftrightarrow> 48 \<le> (of_char c :: nat) \<and> (of_char c :: nat) \<le> 57"

lemma is_digit_digit: "0 \<le> d \<Longrightarrow> d < 10 \<Longrightarrow> is_digit (digit d)"
proof -
  assume d: "0 \<le> d" "d < 10"
  have "(of_char (digit d) :: nat) = nat (of_char (digit d) :: int)"
    by (metis nat_int of_nat_of_char)
  also have "(of_char (digit d) :: int) = 48 + d"
    using d by (simp add: digit_def)
  finally show ?thesis using d by (auto simp: is_digit_def)
qed

lemma utoa_digits: "0 \<le> n \<Longrightarrow> c \<in> set (utoa n) \<Longrightarrow> is_digit c"
proof (induction n rule: utoa.induct)
  case (1 n)
  then show ?case
    by (cases "n < 10") (auto simp: utoa.simps [of n] is_digit_digit)
qed

lemma utoa_nonempty [simp]: "utoa n \<noteq> []"
  by (simp add: utoa.simps [of n])

lemma itoa_nonneg: "0 \<le> i \<Longrightarrow> itoa i = utoa i"
  by (simp add: itoa_def)

lemma itoa_nonneg_inj: "0 \<le> i \<Longrightarrow> 0 \<le> j \<Longrightarrow> itoa i = itoa j \<longleftrightarrow> i = j"
  by (simp add: itoa_nonneg utoa_inj)

lemma length_utoa_le: "n < 10 ^ k \<Longrightarrow> 0 < k \<Longrightarrow> length (utoa n) \<le> k"
proof (induction k arbitrary: n)
  case (Suc k)
  show ?case
  proof (cases "n < 10")
    case False
    then have "0 < k" using Suc.prems(1) by (cases k) auto
    moreover have "n div 10 < 10 ^ k" using Suc.prems(1) by auto
    ultimately have "length (utoa (n div 10)) \<le> k" using Suc.IH by blast
    with False show ?thesis by (simp add: utoa.simps [of n])
  qed (simp add: utoa.simps [of n])
qed simp

section \<open>RFC 3339 timestamps\<close>

text \<open>\<^verbatim>\<open>time.appendInt\<close>: a sign, then the digits padded with zeros to the width.\<close>

definition appendInt :: "int \<Rightarrow> nat \<Rightarrow> string" where
  "appendInt x width = (let ds = utoa \<bar>x\<bar> in
     (if x < 0 then ''-'' else []) @ replicate (width - length ds) (CHR ''0'') @ ds)"

text \<open>
  The proleptic Gregorian date of a day counted from 1 January of year 1: the era of 400 years,
  the year of the era, and the month counted from March.
\<close>

definition civil_date :: "int \<Rightarrow> int \<times> int \<times> int" where
  "civil_date days =
     (let z = days + 306;
          era = z div 146097;
          doe = z mod 146097;
          yoe = (doe - doe div 1460 + doe div 36524 - doe div 146096) div 365;
          doy = doe - (365 * yoe + yoe div 4 - yoe div 100);
          mp = (5 * doy + 2) div 153;
          d = doy - (153 * mp + 2) div 5 + 1;
          m = (if mp < 10 then mp + 3 else mp - 9)
      in (yoe + era * 400 + (if m \<le> 2 then 1 else 0), m, d))"

text \<open>The fraction of a second: nine digits with the trailing zeros removed, nothing if zero.\<close>

definition frac_second :: "int \<Rightarrow> string" where
  "frac_second ns =
     (if ns = 0 then [] else CHR ''.'' # rev (dropWhile (\<lambda>c. c = CHR ''0'') (rev (appendInt ns 9))))"

definition RFC3339Nano :: "time \<Rightarrow> string" where
  "RFC3339Nano t =
     (let days = t div (86400 * Second);
          ns = t mod (86400 * Second);
          secs = ns div Second;
          (y, m, d) = civil_date days
      in appendInt y 4 @ ''-'' @ appendInt m 2 @ ''-'' @ appendInt d 2 @ ''T'' @
         appendInt (secs div 3600) 2 @ '':'' @ appendInt (secs div 60 mod 60) 2 @ '':'' @
         appendInt (secs mod 60) 2 @ frac_second (ns mod Second) @ ''Z'')"

section \<open>The uuid package\<close>

type_synonym uuid = "128 word"

abbreviation (input) uuid_Nil :: uuid where "uuid_Nil \<equiv> 0"

record uuidlib =
  uuidString :: "uuid \<Rightarrow> string"
  uuidParse :: "string \<Rightarrow> uuid option"

text \<open>What the code relies on: a uuid prints in 36 bytes, and its text parses back to it.\<close>

locale uuid_codec =
  fixes str :: "uuid \<Rightarrow> string"
    and parse :: "string \<Rightarrow> uuid option"
  assumes parse_str: "parse (str u) = Some u"
    and length_str: "length (str u) = 36"
begin

lemma str_inj: "str u = str v \<longleftrightarrow> u = v"
  by (metis option.inject parse_str)

end

text \<open>The canonical form: 32 lower-case hexadecimal digits in groups of 8, 4, 4, 4 and 12.\<close>

definition hexdigit :: "int \<Rightarrow> char" where
  "hexdigit d = (if d < 10 then char_of (48 + d) else char_of (87 + d))"

definition unhex :: "char \<Rightarrow> int" where
  "unhex c = (let n = of_char c :: int in if n < 58 then n - 48 else n - 87)"

primrec hexdigits :: "nat \<Rightarrow> int \<Rightarrow> string" where
  "hexdigits 0 n = []"
| "hexdigits (Suc k) n = hexdigits k (n div 16) @ [hexdigit (n mod 16)]"

definition of_hex :: "string \<Rightarrow> int" where
  "of_hex s = foldl (\<lambda>n c. 16 * n + unhex c) 0 s"

definition canonical_uuid :: "uuid \<Rightarrow> string" where
  "canonical_uuid u = (let h = hexdigits 32 (uint u) in
     take 8 h @ ''-'' @ take 4 (drop 8 h) @ ''-'' @ take 4 (drop 12 h) @ ''-'' @
     take 4 (drop 16 h) @ ''-'' @ drop 20 h)"

definition parse_canonical_uuid :: "string \<Rightarrow> uuid option" where
  "parse_canonical_uuid s =
     (let h = take 8 s @ take 4 (drop 9 s) @ take 4 (drop 14 s) @ take 4 (drop 19 s) @ drop 24 s;
          u = word_of_int (of_hex h)
      in if canonical_uuid u = s then Some u else None)"

lemma unhex_hexdigit: "0 \<le> d \<Longrightarrow> d < 16 \<Longrightarrow> unhex (hexdigit d) = d"
  by (auto simp: unhex_def hexdigit_def Let_def)

lemma length_hexdigits [simp]: "length (hexdigits k n) = k"
  by (induction k arbitrary: n) simp_all

lemma of_hex_hexdigits: "0 \<le> n \<Longrightarrow> n < 16 ^ k \<Longrightarrow> of_hex (hexdigits k n) = n"
proof (induction k arbitrary: n)
  case (Suc k)
  then have "of_hex (hexdigits k (n div 16)) = n div 16"
    by (auto intro: Suc.IH)
  then show ?case by (simp add: of_hex_def unhex_hexdigit)
qed (simp add: of_hex_def)

lemma length_canonical_uuid: "length (canonical_uuid u) = 36"
  by (simp add: canonical_uuid_def Let_def)

lemma regroup_canonical:
  assumes "length h = 32"
  defines "s \<equiv> take 8 h @ ''-'' @ take 4 (drop 8 h) @ ''-'' @ take 4 (drop 12 h) @ ''-'' @
     take 4 (drop 16 h) @ ''-'' @ drop 20 h"
  shows "take 8 s @ take 4 (drop 9 s) @ take 4 (drop 14 s) @ take 4 (drop 19 s) @ drop 24 s = h"
proof -
  have split: "h = take 8 h @ take 4 (drop 8 h) @ take 4 (drop 12 h) @ take 4 (drop 16 h) @ drop 20 h"
  proof -
    have "take 4 (drop n h) @ drop (n + 4) h = drop n h" for n
      by (metis add.commute append_take_drop_id drop_drop)
    from this [of 8] this [of 12] this [of 16] show ?thesis
      by (simp add: append_take_drop_id)
  qed
  show ?thesis using assms(1) split by (simp add: s_def)
qed

lemma parse_canonical: "parse_canonical_uuid (canonical_uuid u) = Some u"
proof -
  have "0 \<le> uint u" "uint u < 16 ^ 32"
    using uint_lt2p [of u] by simp_all
  then have "word_of_int (of_hex (hexdigits 32 (uint u))) = u"
    by (simp add: of_hex_hexdigits)
  then show ?thesis
    using regroup_canonical [of "hexdigits 32 (uint u)"]
    by (simp add: parse_canonical_uuid_def canonical_uuid_def Let_def)
qed

interpretation canonical: uuid_codec canonical_uuid parse_canonical_uuid
  by unfold_locales (simp_all add: parse_canonical length_canonical_uuid)

definition canonical_lib :: uuidlib where
  "canonical_lib = \<lparr>uuidString = canonical_uuid, uuidParse = parse_canonical_uuid\<rparr>"

end
