(* ===== verification/Alert_Enums.thy ===== *)
theory Alert_Enums
  imports Go_Strings
begin

text \<open>
  The value types of \<^verbatim>\<open>internal/alerts/domain/enums.go\<close>: each Go struct with one unexported string
  is a datatype whose first constructor is the struct's zero value; \<open>X_String\<close> is its
  \<^verbatim>\<open>String\<close> method and \<open>NewX\<close> its parser. The lemmas at the end of each group are the interpretation
  of \<open>closed_enum\<close>: printing and parsing are inverse on the closed set and nothing else parses.
\<close>

section \<open>State: what the world is doing to an alert\<close>

datatype State = StateNone | StateFiring | StateSuppressed | StateResolved | StateExpired

fun State_String :: "State \<Rightarrow> string" where
  "State_String StateNone = ''''"
| "State_String StateFiring = ''firing''"
| "State_String StateSuppressed = ''suppressed''"
| "State_String StateResolved = ''resolved''"
| "State_String StateExpired = ''expired''"

definition NewState :: "string \<Rightarrow> State result" where
  "NewState = enum_parse State_String [StateFiring, StateSuppressed, StateResolved, StateExpired]"

definition State_IsTerminal :: "State \<Rightarrow> bool" where
  "State_IsTerminal s \<longleftrightarrow> s = StateResolved \<or> s = StateExpired"

definition State_IsOpen :: "State \<Rightarrow> bool" where
  "State_IsOpen s \<longleftrightarrow> s = StateFiring \<or> s = StateSuppressed"

section \<open>CaseState: what an episode says about itself\<close>

datatype CaseState = CaseStateZero | CaseOpen | CaseClosed

fun CaseState_String :: "CaseState \<Rightarrow> string" where
  "CaseState_String CaseStateZero = ''''"
| "CaseState_String CaseOpen = ''open''"
| "CaseState_String CaseClosed = ''closed''"

definition NewCaseState :: "string \<Rightarrow> CaseState result" where
  "NewCaseState = enum_parse CaseState_String [CaseOpen, CaseClosed]"

definition CaseState_IsZero :: "CaseState \<Rightarrow> bool" where
  "CaseState_IsZero c \<longleftrightarrow> c = CaseStateZero"

definition CaseState_IsOpen :: "CaseState \<Rightarrow> bool" where
  "CaseState_IsOpen c \<longleftrightarrow> c = CaseOpen"

definition CaseState_IsClosed :: "CaseState \<Rightarrow> bool" where
  "CaseState_IsClosed c \<longleftrightarrow> c = CaseClosed"

text \<open>\<^verbatim>\<open>State.CaseState\<close>: the projection of an alert state onto the two values a case may hold.\<close>

definition State_CaseState :: "State \<Rightarrow> CaseState" where
  "State_CaseState s =
     (if State_IsOpen s then CaseOpen else if State_IsTerminal s then CaseClosed else CaseStateZero)"

section \<open>AckState: what humans have done\<close>

datatype AckState = AckStateZero | AckStateUnacked | AckStateAcked

fun AckState_String :: "AckState \<Rightarrow> string" where
  "AckState_String AckStateZero = ''''"
| "AckState_String AckStateUnacked = ''unacked''"
| "AckState_String AckStateAcked = ''acked''"

definition NewAckState :: "string \<Rightarrow> AckState result" where
  "NewAckState = enum_parse AckState_String [AckStateUnacked, AckStateAcked]"

definition AckState_IsZero :: "AckState \<Rightarrow> bool" where
  "AckState_IsZero a \<longleftrightarrow> a = AckStateZero"

definition IsAcked :: "AckState \<Rightarrow> bool" where
  "IsAcked a \<longleftrightarrow> a = AckStateAcked"

section \<open>Severity: strict in the domain, lenient at the boundary\<close>

definition MaxRawSeverityBytes :: nat where "MaxRawSeverityBytes = 256"

datatype Severity =
    SeverityZero | SeverityCritical | SeverityPage | SeverityWarning | SeverityInfo | SeverityNone
  | SeverityUnknown

fun Severity_String :: "Severity \<Rightarrow> string" where
  "Severity_String SeverityZero = ''''"
| "Severity_String SeverityCritical = ''critical''"
| "Severity_String SeverityPage = ''page''"
| "Severity_String SeverityWarning = ''warning''"
| "Severity_String SeverityInfo = ''info''"
| "Severity_String SeverityNone = ''none''"
| "Severity_String SeverityUnknown = ''unknown''"

definition NewSeverity :: "string \<Rightarrow> Severity result" where
  "NewSeverity = enum_parse Severity_String
     [SeverityCritical, SeverityPage, SeverityWarning, SeverityInfo, SeverityNone, SeverityUnknown]"

definition SeverityFromLabel :: "string \<Rightarrow> Severity" where
  "SeverityFromLabel label =
     (let s = ToLower (TrimSpace label) in
      if s \<in> {Severity_String SeverityCritical, ''crit'', ''fatal'', ''p1'', ''sev1''} then SeverityCritical
      else if s = Severity_String SeverityPage then SeverityPage
      else if s \<in> {Severity_String SeverityWarning, ''warn'', ''p2'', ''sev2''} then SeverityWarning
      else if s \<in> {Severity_String SeverityInfo, ''informational'', ''p3'', ''p4'', ''p5''} then SeverityInfo
      else if s = Severity_String SeverityNone then SeverityNone
      else SeverityUnknown)"

text \<open>\<^verbatim>\<open>NewRawSeverity\<close> returns a pointer: \<open>None\<close> is the nil pointer of an absent label.\<close>

definition NewRawSeverity :: "string \<Rightarrow> string option result" where
  "NewRawSeverity raw =
     (if TrimSpace raw = [] then Inr None
      else if length raw > MaxRawSeverityBytes then Inl (errs_New KindValidation ''max_length'')
      else Inr (Some raw))"

section \<open>SuppressionReason and ResolveReason\<close>

datatype SuppressionReason =
    SuppressionZero | SuppressionSilence | SuppressionInhibition | SuppressionMuteTimeInterval
  | SuppressionActiveTimeInterval

fun SuppressionReason_String :: "SuppressionReason \<Rightarrow> string" where
  "SuppressionReason_String SuppressionZero = ''''"
| "SuppressionReason_String SuppressionSilence = ''silence''"
| "SuppressionReason_String SuppressionInhibition = ''inhibition''"
| "SuppressionReason_String SuppressionMuteTimeInterval = ''mute_time_interval''"
| "SuppressionReason_String SuppressionActiveTimeInterval = ''active_time_interval''"

definition NewSuppressionReason :: "string \<Rightarrow> SuppressionReason result" where
  "NewSuppressionReason = enum_parse SuppressionReason_String
     [SuppressionSilence, SuppressionInhibition, SuppressionMuteTimeInterval,
      SuppressionActiveTimeInterval]"

definition SuppressionReason_IsZero :: "SuppressionReason \<Rightarrow> bool" where
  "SuppressionReason_IsZero r \<longleftrightarrow> r = SuppressionZero"

datatype ResolveReason =
    ResolveZero | ResolveUpstream | ResolveTimeout | ResolveSilent | ResolveSourceRemoved

fun ResolveReason_String :: "ResolveReason \<Rightarrow> string" where
  "ResolveReason_String ResolveZero = ''''"
| "ResolveReason_String ResolveUpstream = ''upstream''"
| "ResolveReason_String ResolveTimeout = ''timeout''"
| "ResolveReason_String ResolveSilent = ''silent''"
| "ResolveReason_String ResolveSourceRemoved = ''source_removed''"

definition NewResolveReason :: "string \<Rightarrow> ResolveReason result" where
  "NewResolveReason = enum_parse ResolveReason_String
     [ResolveUpstream, ResolveTimeout, ResolveSilent, ResolveSourceRemoved]"

definition ResolveReason_IsZero :: "ResolveReason \<Rightarrow> bool" where
  "ResolveReason_IsZero r \<longleftrightarrow> r = ResolveZero"

definition IsExpiry :: "ResolveReason \<Rightarrow> bool" where
  "IsExpiry r \<longleftrightarrow> r = ResolveTimeout \<or> r = ResolveSilent \<or> r = ResolveSourceRemoved"

section \<open>Actors\<close>

datatype ActorKind =
    ActorZero | ActorSystem | ActorIngest | ActorReconciler | ActorReaper | ActorEnricher
  | ActorNotifier | ActorUser | ActorSlack

fun ActorKind_String :: "ActorKind \<Rightarrow> string" where
  "ActorKind_String ActorZero = ''''"
| "ActorKind_String ActorSystem = ''system''"
| "ActorKind_String ActorIngest = ''ingest''"
| "ActorKind_String ActorReconciler = ''reconciler''"
| "ActorKind_String ActorReaper = ''reaper''"
| "ActorKind_String ActorEnricher = ''enricher''"
| "ActorKind_String ActorNotifier = ''notifier''"
| "ActorKind_String ActorUser = ''user''"
| "ActorKind_String ActorSlack = ''slack''"

definition NewActorKind :: "string \<Rightarrow> ActorKind result" where
  "NewActorKind = enum_parse ActorKind_String
     [ActorSystem, ActorIngest, ActorReconciler, ActorReaper, ActorEnricher, ActorNotifier, ActorUser,
      ActorSlack]"

definition ActorKind_IsZero :: "ActorKind \<Rightarrow> bool" where
  "ActorKind_IsZero k \<longleftrightarrow> k = ActorZero"

definition IsHuman :: "ActorKind \<Rightarrow> bool" where
  "IsHuman k \<longleftrightarrow> k = ActorUser \<or> k = ActorSlack"

record Actor =
  a_kind :: ActorKind
  a_id :: string
  a_label :: string

definition NewActor :: "ActorKind \<Rightarrow> string \<Rightarrow> string \<Rightarrow> Actor result" where
  "NewActor kind i label = or_fail
     (first_err
       [(ActorKind_IsZero kind, errs_New KindValidation ''required''),
        (IsHuman kind \<and> (TrimSpace i = [] \<or> TrimSpace label = []), errs_New KindValidation ''required'')])
     (Inr \<lparr>a_kind = kind, a_id = i, a_label = label\<rparr>)"

definition SystemActor :: "ActorKind \<Rightarrow> Actor result" where
  "SystemActor kind = NewActor kind '''' ''''"

definition Actor_IsZero :: "Actor \<Rightarrow> bool" where
  "Actor_IsZero a \<longleftrightarrow> ActorKind_IsZero (a_kind a)"

section \<open>The two clocks of an observation, and time windows\<close>

record ObservationTime =
  occurredAt :: time
  recordedAt :: time

definition NewObservationTime :: "time \<Rightarrow> time \<Rightarrow> ObservationTime result" where
  "NewObservationTime occurred recorded = or_fail
     (first_err
       [(IsZero occurred, errs_New KindValidation ''required''),
        (IsZero recorded, errs_New KindValidation ''required'')])
     (Inr \<lparr>occurredAt = occurred, recordedAt = recorded\<rparr>)"

definition ObservationTime_Skew :: "ObservationTime \<Rightarrow> duration" where
  "ObservationTime_Skew t = t_sub (recordedAt t) (occurredAt t)"

definition ObservationTime_IsZero :: "ObservationTime \<Rightarrow> bool" where
  "ObservationTime_IsZero t \<longleftrightarrow> IsZero (occurredAt t) \<and> IsZero (recordedAt t)"

record TimeWindow =
  w_from :: time
  w_to :: time

definition NewTimeWindow :: "time \<Rightarrow> time \<Rightarrow> TimeWindow result" where
  "NewTimeWindow f t = or_fail
     (first_err
       [(IsZero f, errs_New KindValidation ''required''),
        (\<not> t > f, errs_New KindValidation ''field_order'')])
     (Inr \<lparr>w_from = f, w_to = t\<rparr>)"

definition TimeWindow_Duration :: "TimeWindow \<Rightarrow> duration" where
  "TimeWindow_Duration w = t_sub (w_to w) (w_from w)"

definition TimeWindow_Contains :: "TimeWindow \<Rightarrow> time \<Rightarrow> bool" where
  "TimeWindow_Contains w t \<longleftrightarrow> \<not> t < w_from w \<and> t < w_to w"

definition requireID :: "uuid \<Rightarrow> error option" where
  "requireID i = (if i = uuid_Nil then Some (errs_New KindValidation ''required'') else None)"

lemma requireID_None_iff [simp]: "requireID i = None \<longleftrightarrow> i \<noteq> 0"
  by (simp add: requireID_def)

section \<open>The closed sets\<close>

lemmas [oto_defs] =
  State_IsTerminal_def State_IsOpen_def CaseState_IsZero_def CaseState_IsOpen_def
  CaseState_IsClosed_def AckState_IsZero_def IsAcked_def SuppressionReason_IsZero_def
  ResolveReason_IsZero_def IsExpiry_def ActorKind_IsZero_def IsHuman_def Actor_IsZero_def
  ObservationTime_IsZero_def

interpretation state: closed_enum State_String NewState
  "\<lambda>s. s \<in> set [StateFiring, StateSuppressed, StateResolved, StateExpired]"
  unfolding NewState_def by (rule enum_parse_closed) simp

interpretation caseState: closed_enum CaseState_String NewCaseState
  "\<lambda>s. s \<in> set [CaseOpen, CaseClosed]"
  unfolding NewCaseState_def by (rule enum_parse_closed) simp

interpretation ackState: closed_enum AckState_String NewAckState
  "\<lambda>s. s \<in> set [AckStateUnacked, AckStateAcked]"
  unfolding NewAckState_def by (rule enum_parse_closed) simp

interpretation severity: closed_enum Severity_String NewSeverity
  "\<lambda>s. s \<in> set [SeverityCritical, SeverityPage, SeverityWarning, SeverityInfo, SeverityNone,
     SeverityUnknown]"
  unfolding NewSeverity_def by (rule enum_parse_closed) simp

interpretation suppression: closed_enum SuppressionReason_String NewSuppressionReason
  "\<lambda>s. s \<in> set [SuppressionSilence, SuppressionInhibition, SuppressionMuteTimeInterval,
      SuppressionActiveTimeInterval]"
  unfolding NewSuppressionReason_def by (rule enum_parse_closed) simp

interpretation resolveReason: closed_enum ResolveReason_String NewResolveReason
  "\<lambda>s. s \<in> set [ResolveUpstream, ResolveTimeout, ResolveSilent, ResolveSourceRemoved]"
  unfolding NewResolveReason_def by (rule enum_parse_closed) simp

interpretation actorKind: closed_enum ActorKind_String NewActorKind
  "\<lambda>s. s \<in> set [ActorSystem, ActorIngest, ActorReconciler, ActorReaper, ActorEnricher, ActorNotifier,
     ActorUser, ActorSlack]"
  unfolding NewActorKind_def by (rule enum_parse_closed) simp

text \<open>A human actor always carries an id and a label; that is what makes every ack attributable.\<close>

lemma NewActor_human:
  "NewActor k i l = Inr a \<Longrightarrow> IsHuman (a_kind a) \<Longrightarrow> TrimSpace (a_id a) \<noteq> [] \<and> TrimSpace (a_label a) \<noteq> []"
  by (auto simp: NewActor_def split: if_splits)

lemma NewActor_nonzero: "NewActor k i l = Inr a \<Longrightarrow> \<not> Actor_IsZero a"
  by (auto simp: NewActor_def Actor_IsZero_def split: if_splits)

lemma NewObservationTime_ok:
  "NewObservationTime o' r = Inr t \<Longrightarrow> occurredAt t \<noteq> 0 \<and> recordedAt t \<noteq> 0"
  by (auto simp: NewObservationTime_def split: if_splits)

text \<open>The lenient reading agrees with the strict one on everything the strict one accepts.\<close>

lemma SeverityFromLabel_total: "SeverityFromLabel l \<noteq> SeverityZero"
  by (simp add: SeverityFromLabel_def Let_def)

end
