(* ===== verification/Alert_Event.thy ===== *)
theory Alert_Event
  imports Alert_Enums
begin

text \<open>
  The timeline's facts, \<^verbatim>\<open>internal/alerts/domain/event.go\<close>: the closed enum of event types with its
  retired and its legacy spellings, and the constructor \<open>NewEvent\<close>, which every operation that
  appends a fact goes through. An event's payload is a JSON object: an association list from keys
  to the values the code stores.
\<close>

definition MaxEventSummaryBytes :: nat where "MaxEventSummaryBytes = 500"
definition MaxDedupeKeyBytes :: nat where "MaxDedupeKeyBytes = 200"

lemmas event_bounds [oto_bounds] = MaxEventSummaryBytes_def MaxDedupeKeyBytes_def

section \<open>The closed enum of event types\<close>

datatype EventType =
    EventTypeZero
  | EventAlertCreated
  | EventAlertMutated
  | EventCaseOpened
  | EventCaseReopened
  | EventCaseSuppressed
  | EventCaseUnsuppressed
  | EventCaseResolved
  | EventCaseExpired
  | EventCaseAcknowledged
  | EventCaseUnacknowledged
  | EventAlertSnoozed
  | EventAlertUnsnoozed
  | EventGroupOpened
  | EventGroupClosed
  | EventGroupMemberJoined
  | EventGroupMemberLeft
  | EventRuleSnapshotCaptured
  | EventRuleDefinitionChanged
  | EventRuleLookupFailed
  | EventEnrichmentCompleted
  | EventEnrichmentFailed
  | EventNotificationCreated
  | EventNotificationSuppressed
  | EventDeliverySent
  | EventDeliveryUpdated
  | EventDeliveryFailed
  | EventDeliverySkipped
  | EventDeliveryDead
  | EventCommentAdded
  | EventSourceUnreachable
  | EventSourceRecovered
  | EventSourceClockSkew
  | EventIncidentCaseAdded
  | EventIncidentCaseRemoved
  | EventIncidentCaseMoved

fun EventType_String :: "EventType \<Rightarrow> string" where
  "EventType_String EventTypeZero = ''''"
| "EventType_String EventAlertCreated = ''alert.created''"
| "EventType_String EventAlertMutated = ''alert.mutated''"
| "EventType_String EventCaseOpened = ''case.opened''"
| "EventType_String EventCaseReopened = ''case.reopened''"
| "EventType_String EventCaseSuppressed = ''case.suppressed''"
| "EventType_String EventCaseUnsuppressed = ''case.unsuppressed''"
| "EventType_String EventCaseResolved = ''case.resolved''"
| "EventType_String EventCaseExpired = ''case.expired''"
| "EventType_String EventCaseAcknowledged = ''case.acknowledged''"
| "EventType_String EventCaseUnacknowledged = ''case.unacknowledged''"
| "EventType_String EventAlertSnoozed = ''alert.snoozed''"
| "EventType_String EventAlertUnsnoozed = ''alert.unsnoozed''"
| "EventType_String EventGroupOpened = ''group.opened''"
| "EventType_String EventGroupClosed = ''group.closed''"
| "EventType_String EventGroupMemberJoined = ''group.member_joined''"
| "EventType_String EventGroupMemberLeft = ''group.member_left''"
| "EventType_String EventRuleSnapshotCaptured = ''rule.snapshot_captured''"
| "EventType_String EventRuleDefinitionChanged = ''rule.definition_changed''"
| "EventType_String EventRuleLookupFailed = ''rule.lookup_failed''"
| "EventType_String EventEnrichmentCompleted = ''enrichment.completed''"
| "EventType_String EventEnrichmentFailed = ''enrichment.failed''"
| "EventType_String EventNotificationCreated = ''notification.created''"
| "EventType_String EventNotificationSuppressed = ''notification.suppressed''"
| "EventType_String EventDeliverySent = ''delivery.sent''"
| "EventType_String EventDeliveryUpdated = ''delivery.updated''"
| "EventType_String EventDeliveryFailed = ''delivery.failed''"
| "EventType_String EventDeliverySkipped = ''delivery.skipped''"
| "EventType_String EventDeliveryDead = ''delivery.dead''"
| "EventType_String EventCommentAdded = ''comment.added''"
| "EventType_String EventSourceUnreachable = ''source.unreachable''"
| "EventType_String EventSourceRecovered = ''source.recovered''"
| "EventType_String EventSourceClockSkew = ''source.clock_skew''"
| "EventType_String EventIncidentCaseAdded = ''incident.case_added''"
| "EventType_String EventIncidentCaseRemoved = ''incident.case_removed''"
| "EventType_String EventIncidentCaseMoved = ''incident.case_moved''"

definition AllEventTypes :: "EventType list" where
  "AllEventTypes =
     [EventAlertCreated, EventAlertMutated, EventCaseOpened, EventCaseReopened,
      EventCaseSuppressed, EventCaseUnsuppressed, EventCaseResolved, EventCaseExpired,
      EventCaseAcknowledged, EventCaseUnacknowledged, EventAlertSnoozed, EventAlertUnsnoozed,
      EventGroupOpened, EventGroupClosed, EventGroupMemberJoined, EventGroupMemberLeft,
      EventRuleSnapshotCaptured, EventRuleDefinitionChanged, EventRuleLookupFailed,
      EventEnrichmentCompleted, EventEnrichmentFailed, EventNotificationCreated,
      EventNotificationSuppressed, EventDeliverySent, EventDeliveryUpdated,
      EventDeliveryFailed, EventDeliverySkipped, EventDeliveryDead, EventCommentAdded,
      EventSourceUnreachable, EventSourceRecovered, EventSourceClockSkew,
      EventIncidentCaseAdded, EventIncidentCaseRemoved, EventIncidentCaseMoved]"

definition legacySpellings :: "(string \<times> EventType) list" where
  "legacySpellings =
     [(''occurrence.opened'', EventCaseOpened),
      (''occurrence.reopened'', EventCaseReopened),
      (''occurrence.suppressed'', EventCaseSuppressed),
      (''occurrence.unsuppressed'', EventCaseUnsuppressed),
      (''occurrence.resolved'', EventCaseResolved),
      (''occurrence.expired'', EventCaseExpired),
      (''occurrence.acknowledged'', EventCaseAcknowledged),
      (''occurrence.unacknowledged'', EventCaseUnacknowledged)]"

definition retiredEventTypes :: "EventType list" where
  "retiredEventTypes =
     [EventGroupOpened, EventGroupClosed, EventGroupMemberJoined, EventGroupMemberLeft,
      EventCaseReopened]"

definition Retired :: "EventType \<Rightarrow> bool" where
  "Retired t \<longleftrightarrow> t \<in> set retiredEventTypes"

text \<open>
  \<^verbatim>\<open>spellingsByType\<close>: a type's own spelling first, then its legacy spellings sorted. The map is
  built by the package's \<^verbatim>\<open>init\<close>; only types with a legacy spelling have an entry.
\<close>

definition legacyOf :: "EventType \<Rightarrow> string list" where
  "legacyOf t = sort (map fst (filter (\<lambda>p. snd p = t) legacySpellings))"

definition PersistedSpellings :: "EventType \<Rightarrow> string list" where
  "PersistedSpellings t = EventType_String t # legacyOf t"

definition AllPersistedEventTypes :: "string list" where
  "AllPersistedEventTypes = sort (map EventType_String AllEventTypes @ map fst legacySpellings)"

definition NewEventType :: "string \<Rightarrow> EventType result" where
  "NewEventType s =
     (case find (\<lambda>t. EventType_String t = s) AllEventTypes of
        Some t \<Rightarrow> Inr t
      | None \<Rightarrow> (case map_of legacySpellings s of
          Some t \<Rightarrow> Inr t
        | None \<Rightarrow> Inl (errs_New KindValidation ''enum'')))"

definition EventType_IsZero :: "EventType \<Rightarrow> bool" where
  "EventType_IsZero t \<longleftrightarrow> t = EventTypeZero"

text \<open>\<^verbatim>\<open>validate.EventTypeRe\<close>, the pattern \<^verbatim>\<open>^[a-z_]+\.[a-z_]+$\<close>.\<close>

definition event_char :: "char \<Rightarrow> bool" where
  "event_char c \<longleftrightarrow> (let n = of_char c :: nat in 97 \<le> n \<and> n \<le> 122 \<or> n = 95)"

definition EventTypeRe :: "string \<Rightarrow> bool" where
  "EventTypeRe s \<longleftrightarrow>
     (let a = takeWhile event_char s; r = dropWhile event_char s in
      a \<noteq> [] \<and> (case r of c # b \<Rightarrow> c = CHR ''.'' \<and> b \<noteq> [] \<and> list_all event_char b | [] \<Rightarrow> False))"

section \<open>Payloads\<close>

datatype jval = JBool bool | JInt int | JStr string | JStrs "string list"

type_synonym payload = "(string \<times> jval) list"

text \<open>\<^verbatim>\<open>mergePayload\<close>: the machine's keys are laid over the caller's.\<close>

definition mergePayload :: "payload \<Rightarrow> payload \<Rightarrow> payload" where
  "mergePayload base extra = fold (\<lambda>(k, v) m. AList.update k v m) extra base"

lemma map_of_mergePayload:
  "distinct (map fst extra) \<Longrightarrow>
   map_of (mergePayload base extra) k = (case map_of extra k of None \<Rightarrow> map_of base k | v \<Rightarrow> v)"
proof (induction extra arbitrary: base)
  case (Cons p extra)
  obtain a v where p: "p = (a, v)" by (cases p)
  from Cons.prems have "distinct (map fst extra)" and nin: "a \<notin> fst ` set extra"
    by (simp_all add: p)
  then have "map_of (mergePayload (AList.update a v base) extra) k =
      (case map_of extra k of None \<Rightarrow> map_of (AList.update a v base) k | v \<Rightarrow> v)"
    using Cons.IH by blast
  moreover have "map_of extra a = None"
    using nin by (simp add: map_of_eq_None_iff)
  ultimately show ?case
    by (auto simp: mergePayload_def p update_conv' split: option.splits)
qed (simp add: mergePayload_def)

lemma mergePayload_Nil [simp]: "mergePayload base [] = base"
  by (simp add: mergePayload_def)

section \<open>Events\<close>

record Event =
  ev_id :: uuid
  ev_orgID :: uuid
  ev_alertID :: uuid
  ev_caseID :: uuid
  ev_groupID :: uuid
  ev_typ :: EventType
  ev_at :: ObservationTime
  ev_actor :: Actor
  ev_summary :: string
  ev_payload :: payload
  ev_dedupeKey :: string

text \<open>
  \<^verbatim>\<open>NewEvent\<close>. Its parameter struct \<^verbatim>\<open>EventParams\<close> has the fields of the event itself, so it is
  modelled by the record: the constructor returns it with the summary trimmed, or refuses it.
\<close>

definition NewEvent :: "Event \<Rightarrow> Event result" where
  "NewEvent p = or_fail (requireID (ev_id p)) (or_fail (requireID (ev_orgID p))
     (let summary = TrimSpace (ev_summary p) in
      or_fail (first_err
        [(EventType_IsZero (ev_typ p), errs_New KindValidation ''required''),
         (ev_alertID p = uuid_Nil \<and> ev_caseID p = uuid_Nil \<and> ev_groupID p = uuid_Nil,
            errs_New KindValidation ''required''),
         (ObservationTime_IsZero (ev_at p), errs_New KindValidation ''required''),
         (Actor_IsZero (ev_actor p), errs_New KindValidation ''required''),
         (summary = [], errs_New KindValidation ''not_blank''),
         (length summary > MaxEventSummaryBytes, errs_New KindValidation ''max_length''),
         (length (ev_dedupeKey p) > MaxDedupeKeyBytes, errs_New KindValidation ''max_length''),
         (\<not> EventTypeRe (EventType_String (ev_typ p)), errs_New KindInternal ''event_type_shape'')])
      (Inr (p\<lparr>ev_summary := summary\<rparr>))))"

section \<open>Facts\<close>

lemma AllEventTypes_complete: "t \<in> set AllEventTypes \<longleftrightarrow> t \<noteq> EventTypeZero"
  by (cases t) (simp_all add: AllEventTypes_def)

lemma distinct_event_strings: "distinct (map EventType_String AllEventTypes)"
  by code_simp

lemma legacy_disjoint: "list_all (\<lambda>p. fst p \<notin> EventType_String ` set AllEventTypes) legacySpellings"
  by code_simp

lemma distinct_legacy: "distinct (map fst legacySpellings)"
  by code_simp

lemma all_types_match: "list_all (\<lambda>t. EventTypeRe (EventType_String t)) AllEventTypes"
  by code_simp

text \<open>Every type but the zero one has the pattern's shape, so \<open>NewEvent\<close> never refuses by shape.\<close>

lemma EventTypeRe_String: "t \<noteq> EventTypeZero \<Longrightarrow> EventTypeRe (EventType_String t)"
  using all_types_match AllEventTypes_complete by (simp add: list_all_iff)

lemma find_event_string:
  "t \<noteq> EventTypeZero \<Longrightarrow> find (\<lambda>t'. EventType_String t' = EventType_String t) AllEventTypes = Some t"
proof -
  assume "t \<noteq> EventTypeZero"
  then have mem: "t \<in> set AllEventTypes" by (simp add: AllEventTypes_complete)
  then have "find (\<lambda>t'. EventType_String t' = EventType_String t) AllEventTypes \<noteq> None"
    by (auto simp: find_None_iff)
  then obtain u where u: "find (\<lambda>t'. EventType_String t' = EventType_String t) AllEventTypes = Some u"
    by blast
  then have "u \<in> set AllEventTypes" "EventType_String u = EventType_String t"
    by (auto simp: find_Some_iff)
  with mem distinct_event_strings have "u = t"
    by (auto simp: distinct_map dest: inj_onD)
  with u show ?thesis by simp
qed

lemma find_legacy_None:
  "(s, t) \<in> set legacySpellings \<Longrightarrow> find (\<lambda>t'. EventType_String t' = s) AllEventTypes = None"
  using legacy_disjoint by (auto simp: list_all_iff find_None_iff)

interpretation eventType: wire_enum EventType_String NewEventType "\<lambda>t. t \<noteq> EventTypeZero"
proof unfold_locales
  fix t assume "t \<noteq> EventTypeZero"
  then show "NewEventType (EventType_String t) = Inr t"
    by (simp add: NewEventType_def find_event_string)
next
  fix s t assume "NewEventType s = Inr t"
  then have "t \<in> set AllEventTypes \<or> t \<in> snd ` set legacySpellings"
    by (auto simp: NewEventType_def find_Some_iff split: option.splits dest: map_of_SomeD intro: rev_image_eqI)
  then show "t \<noteq> EventTypeZero"
    by (auto simp: AllEventTypes_complete legacySpellings_def)
qed

text \<open>Both constructors' facts about an event that was built.\<close>

lemma NewEvent_Inr:
  assumes "NewEvent p = Inr e"
  shows "e = p\<lparr>ev_summary := TrimSpace (ev_summary p)\<rparr>" "ev_typ p \<noteq> EventTypeZero"
    "ev_summary e \<noteq> []" "length (ev_summary e) \<le> MaxEventSummaryBytes"
    "length (ev_dedupeKey e) \<le> MaxDedupeKeyBytes" "ev_id e \<noteq> 0" "ev_orgID e \<noteq> 0"
  using assms
  by (auto simp: NewEvent_def Let_def EventType_IsZero_def split: if_splits)

lemma NewEvent_ok_iff:
  "(\<exists>e. NewEvent p = Inr e) \<longleftrightarrow>
     ev_id p \<noteq> 0 \<and> ev_orgID p \<noteq> 0 \<and> ev_typ p \<noteq> EventTypeZero \<and>
     (ev_alertID p \<noteq> 0 \<or> ev_caseID p \<noteq> 0 \<or> ev_groupID p \<noteq> 0) \<and>
     \<not> ObservationTime_IsZero (ev_at p) \<and> \<not> Actor_IsZero (ev_actor p) \<and>
     TrimSpace (ev_summary p) \<noteq> [] \<and> length (TrimSpace (ev_summary p)) \<le> MaxEventSummaryBytes \<and>
     length (ev_dedupeKey p) \<le> MaxDedupeKeyBytes"
  by (auto simp: NewEvent_def Let_def EventType_IsZero_def EventTypeRe_String)

lemma NewEvent_ok:
  assumes "ev_id p \<noteq> 0" "ev_orgID p \<noteq> 0" "ev_typ p \<noteq> EventTypeZero"
    "ev_alertID p \<noteq> 0 \<or> ev_caseID p \<noteq> 0 \<or> ev_groupID p \<noteq> 0"
    "\<not> ObservationTime_IsZero (ev_at p)" "\<not> Actor_IsZero (ev_actor p)"
    "TrimSpace (ev_summary p) \<noteq> []" "length (TrimSpace (ev_summary p)) \<le> MaxEventSummaryBytes"
    "length (ev_dedupeKey p) \<le> MaxDedupeKeyBytes"
  shows "NewEvent p = Inr (p\<lparr>ev_summary := TrimSpace (ev_summary p)\<rparr>)"
  using assms NewEvent_ok_iff [of p] NewEvent_Inr(1) by metis

lemma NewEvent_Inl_kind: "NewEvent p = Inl e \<Longrightarrow> errKind e = KindValidation"
  by (auto simp: NewEvent_def Let_def EventType_IsZero_def EventTypeRe_String or_fail_Inl_iff
      requireID_def split: if_splits)

end
