(* ===== verification/Alert_Case.thy ===== *)
theory Alert_Case
  imports Alert_Event
begin

text \<open>
  The episode, \<^verbatim>\<open>internal/alerts/domain/case.go\<close>: the record \<open>Case\<close>, its constructor \<open>NewCase\<close>, the
  invariant \<open>check\<close> that every construction and every transition re-proves, and the readings of
  a case (\<open>AlertState\<close>, \<open>lifecyclePhase\<close>, \<open>CloseDue\<close>, \<open>Duration\<close>).
  \<open>case_ok\<close> is the invariant as a predicate, \<open>check_None_iff\<close> its reading as a conjunction.
\<close>

definition MaxAckNoteBytes :: nat where "MaxAckNoteBytes = 2000"

text \<open>Which upstream objects suppress an episode (\<^verbatim>\<open>contracts.go\<close>).\<close>

record SuppressedBy =
  SilencedBy :: "string list"
  InhibitedBy :: "string list"
  MutedBy :: "string list"

definition noSuppressedBy :: SuppressedBy where
  "noSuppressedBy = \<lparr>SilencedBy = [], InhibitedBy = [], MutedBy = []\<rparr>"

definition SuppressedBy_IsZero :: "SuppressedBy \<Rightarrow> bool" where
  "SuppressedBy_IsZero s \<longleftrightarrow> SilencedBy s = [] \<and> InhibitedBy s = [] \<and> MutedBy s = []"

text \<open>A sample value is only ever copied, so a float64 is its 64 bits.\<close>

type_synonym float64 = "64 word"

record Case =
  c_id :: uuid
  c_orgID :: uuid
  c_alertID :: uuid
  c_seq :: int
  c_number :: int
  c_state :: CaseState
  c_suppressionReason :: SuppressionReason
  c_suppressedBy :: SuppressedBy
  c_startedAt :: time
  c_endedAt :: time
  c_lastObservedAt :: time
  c_sourceStartsAt :: time
  c_sourceEndsAt :: time
  c_sourceUpdatedAt :: time
  c_resolveReason :: ResolveReason
  c_resolvePendingAt :: time
  c_resolvePendingEndAt :: time
  c_stateVersion :: int
  c_suppressCount :: int
  c_ackState :: AckState
  c_ackedBy :: uuid
  c_ackedByLabel :: string
  c_ackedAt :: time
  c_ackNote :: string
  c_ruleSnapshotID :: uuid
  c_value :: "float64 option"
  c_observedSkew :: duration

definition zeroCase :: Case where
  "zeroCase = \<lparr>c_id = 0, c_orgID = 0, c_alertID = 0, c_seq = 0, c_number = 0,
     c_state = CaseStateZero, c_suppressionReason = SuppressionZero, c_suppressedBy = noSuppressedBy,
     c_startedAt = 0, c_endedAt = 0, c_lastObservedAt = 0, c_sourceStartsAt = 0, c_sourceEndsAt = 0,
     c_sourceUpdatedAt = 0, c_resolveReason = ResolveZero, c_resolvePendingAt = 0,
     c_resolvePendingEndAt = 0, c_stateVersion = 0, c_suppressCount = 0, c_ackState = AckStateZero,
     c_ackedBy = 0, c_ackedByLabel = [], c_ackedAt = 0, c_ackNote = [], c_ruleSnapshotID = 0,
     c_value = None, c_observedSkew = 0\<rparr>"

section \<open>The invariant\<close>

text \<open>\<^verbatim>\<open>Case.check\<close>, one entry per \<^verbatim>\<open>if\<close> of the source, in its order.\<close>

definition check :: "Case \<Rightarrow> error option" where
  "check o' = first_err
     [(CaseState_IsClosed (c_state o') \<noteq> (\<not> IsZero (c_endedAt o')),
         errs_New KindInternal ''case_terminal_ended''),
      (\<not> IsZero (c_endedAt o') \<and> c_endedAt o' < c_startedAt o', errs_New KindInternal ''case_order''),
      (c_lastObservedAt o' < c_startedAt o', errs_New KindInternal ''case_observed_order''),
      (\<not> IsZero (c_sourceEndsAt o') \<and> c_sourceEndsAt o' < c_sourceStartsAt o',
         errs_New KindInternal ''case_source_order''),
      (\<not> SuppressionReason_IsZero (c_suppressionReason o') \<and> \<not> CaseState_IsOpen (c_state o'),
         errs_New KindInternal ''case_suppression''),
      (CaseState_IsClosed (c_state o') \<noteq> (\<not> ResolveReason_IsZero (c_resolveReason o')),
         errs_New KindInternal ''case_resolve_reason''),
      (IsZero (c_resolvePendingAt o') \<noteq> IsZero (c_resolvePendingEndAt o'),
         errs_New KindInternal ''case_pending_pair''),
      (\<not> IsZero (c_resolvePendingAt o') \<and> \<not> CaseState_IsOpen (c_state o'),
         errs_New KindInternal ''case_pending_open''),
      (\<not> IsZero (c_resolvePendingAt o') \<and> c_resolvePendingEndAt o' < c_startedAt o',
         errs_New KindInternal ''case_pending_order''),
      (\<not> IsZero (c_resolvePendingAt o') \<and> \<not> SuppressionReason_IsZero (c_suppressionReason o'),
         errs_New KindInternal ''case_pending_supp''),
      (IsAcked (c_ackState o') \<noteq> (\<not> IsZero (c_ackedAt o')), errs_New KindInternal ''case_ack''),
      (IsZero (c_ackedAt o') \<noteq> (c_ackedByLabel o' = []), errs_New KindInternal ''case_ack_label''),
      (\<not> IsZero (c_ackedAt o') \<and> c_ackedAt o' < c_startedAt o',
         errs_New KindInternal ''case_ack_order''),
      (length (c_ackNote o') > MaxAckNoteBytes, errs_New KindValidation ''max_length'')]"

definition case_ok :: "Case \<Rightarrow> bool" where
  "case_ok o' \<longleftrightarrow> check o' = None"

lemma check_None_iff:
  "check o' = None \<longleftrightarrow>
     (c_state o' = CaseClosed \<longleftrightarrow> c_endedAt o' \<noteq> 0) \<and>
     (c_endedAt o' \<noteq> 0 \<longrightarrow> c_startedAt o' \<le> c_endedAt o') \<and>
     c_startedAt o' \<le> c_lastObservedAt o' \<and>
     (c_sourceEndsAt o' \<noteq> 0 \<longrightarrow> c_sourceStartsAt o' \<le> c_sourceEndsAt o') \<and>
     (c_suppressionReason o' \<noteq> SuppressionZero \<longrightarrow> c_state o' = CaseOpen) \<and>
     (c_state o' = CaseClosed \<longleftrightarrow> c_resolveReason o' \<noteq> ResolveZero) \<and>
     (c_resolvePendingAt o' = 0 \<longleftrightarrow> c_resolvePendingEndAt o' = 0) \<and>
     (c_resolvePendingAt o' \<noteq> 0 \<longrightarrow> c_state o' = CaseOpen \<and>
        c_startedAt o' \<le> c_resolvePendingEndAt o' \<and> c_suppressionReason o' = SuppressionZero) \<and>
     (c_ackState o' = AckStateAcked \<longleftrightarrow> c_ackedAt o' \<noteq> 0) \<and>
     (c_ackedAt o' = 0 \<longleftrightarrow> c_ackedByLabel o' = []) \<and>
     (c_ackedAt o' \<noteq> 0 \<longrightarrow> c_startedAt o' \<le> c_ackedAt o') \<and>
     length (c_ackNote o') \<le> MaxAckNoteBytes"
  unfolding check_def first_err_None_iff
  by (simp add: oto_defs not_less) blast

lemma check_cong:
  assumes "c_state a = c_state b" "c_endedAt a = c_endedAt b" "c_startedAt a = c_startedAt b"
    "c_lastObservedAt a = c_lastObservedAt b" "c_sourceEndsAt a = c_sourceEndsAt b"
    "c_sourceStartsAt a = c_sourceStartsAt b" "c_suppressionReason a = c_suppressionReason b"
    "c_resolveReason a = c_resolveReason b" "c_resolvePendingAt a = c_resolvePendingAt b"
    "c_resolvePendingEndAt a = c_resolvePendingEndAt b" "c_ackState a = c_ackState b"
    "c_ackedAt a = c_ackedAt b" "c_ackedByLabel a = c_ackedByLabel b" "c_ackNote a = c_ackNote b"
  shows "check a = check b"
  unfolding check_def by (simp only: assms)

section \<open>The constructor\<close>

text \<open>
  \<^verbatim>\<open>NewCase\<close>. \<^verbatim>\<open>CaseParams\<close> has exactly the fields of the case, so the record models both: the
  constructor returns it with the version raised to at least 1, the label trimmed and a missing
  acknowledgement state read as unacked.
\<close>

definition NewCase :: "Case \<Rightarrow> Case result" where
  "NewCase p = or_fail (requireID (c_id p)) (or_fail (requireID (c_orgID p))
    (or_fail (requireID (c_alertID p)) (or_fail (first_err
      [(c_seq p < 1, errs_New KindValidation ''min''),
       (c_suppressCount p < 0, errs_New KindValidation ''min''),
       (c_stateVersion p < 0, errs_New KindValidation ''min''),
       (CaseState_IsZero (c_state p), errs_New KindValidation ''required''),
       (IsZero (c_startedAt p), errs_New KindValidation ''required''),
       (IsZero (c_lastObservedAt p), errs_New KindValidation ''required''),
       (IsZero (c_sourceStartsAt p), errs_New KindValidation ''required'')])
     (let o' = p\<lparr>c_stateVersion := max (c_stateVersion p) 1,
                 c_ackedByLabel := TrimSpace (c_ackedByLabel p),
                 c_ackState := (if AckState_IsZero (c_ackState p) then AckStateUnacked else c_ackState p)\<rparr>
      in or_fail (check o') (Inr o')))))"

section \<open>Readings of a case\<close>

definition AlertState :: "Case \<Rightarrow> State" where
  "AlertState o' =
     (if CaseState_IsOpen (c_state o') then StateFiring
      else if CaseState_IsClosed (c_state o') \<and> IsExpiry (c_resolveReason o') then StateExpired
      else if CaseState_IsClosed (c_state o') then StateResolved
      else StateNone)"

definition lifecyclePhase :: "Case \<Rightarrow> State" where
  "lifecyclePhase o' =
     (if CaseState_IsOpen (c_state o') \<and> \<not> SuppressionReason_IsZero (c_suppressionReason o')
      then StateSuppressed else AlertState o')"

definition Case_SuppressedBy :: "Case \<Rightarrow> SuppressedBy" where
  "Case_SuppressedBy o' =
     (if SuppressionReason_IsZero (c_suppressionReason o') then noSuppressedBy else c_suppressedBy o')"

definition ClosePending :: "Case \<Rightarrow> bool" where
  "ClosePending o' \<longleftrightarrow> \<not> IsZero (c_resolvePendingAt o')"

definition CloseDue :: "Case \<Rightarrow> time \<Rightarrow> bool" where
  "CloseDue o' asOf \<longleftrightarrow> ClosePending o' \<and> \<not> asOf < c_resolvePendingAt o'"

definition Case_IsOpen :: "Case \<Rightarrow> bool" where
  "Case_IsOpen o' \<longleftrightarrow> IsZero (c_endedAt o')"

definition Duration :: "Case \<Rightarrow> time \<Rightarrow> duration" where
  "Duration o' asOf =
     (if \<not> IsZero (c_endedAt o') then t_sub (c_endedAt o') (c_startedAt o')
      else t_sub asOf (c_startedAt o'))"

definition WithRuleSnapshot :: "Case \<Rightarrow> uuid \<Rightarrow> Case result" where
  "WithRuleSnapshot o' s = or_fail (requireID s) (Inr (o'\<lparr>c_ruleSnapshotID := s\<rparr>))"

text \<open>The optimistic lock a transition is written under (\<^verbatim>\<open>contracts.go\<close>).\<close>

definition PreconditionFor :: "Case \<Rightarrow> int" where
  "PreconditionFor o' = c_stateVersion o'"

lemmas case_readings =
  AlertState_def lifecyclePhase_def Case_SuppressedBy_def ClosePending_def CloseDue_def
  Case_IsOpen_def Duration_def

section \<open>Facts\<close>

lemma NewCase_ok: "NewCase p = Inr o' \<Longrightarrow> case_ok o'"
  by (auto simp: NewCase_def case_ok_def Let_def)

lemma NewCase_fields:
  assumes "NewCase p = Inr o'"
  shows "c_id o' = c_id p" "c_orgID o' = c_orgID p" "c_alertID o' = c_alertID p" "c_seq o' = c_seq p"
    "c_state o' = c_state p" "c_startedAt o' = c_startedAt p" "c_endedAt o' = c_endedAt p"
    "c_suppressCount o' = c_suppressCount p" "c_suppressionReason o' = c_suppressionReason p"
    "c_resolveReason o' = c_resolveReason p" "c_resolvePendingAt o' = c_resolvePendingAt p"
    "c_ackedAt o' = c_ackedAt p" "c_lastObservedAt o' = c_lastObservedAt p"
    "c_sourceEndsAt o' = c_sourceEndsAt p" "c_sourceStartsAt o' = c_sourceStartsAt p"
    "1 \<le> c_seq o'" "0 \<le> c_suppressCount o'" "1 \<le> c_stateVersion o'" "c_state o' \<noteq> CaseStateZero"
    "c_id o' \<noteq> 0" "c_orgID o' \<noteq> 0" "c_alertID o' \<noteq> 0" "c_startedAt o' \<noteq> 0"
    "c_sourceStartsAt o' \<noteq> 0"
  using assms by (auto simp: NewCase_def Let_def oto_defs split: if_splits)

text \<open>The values a case holds once it was built: what \<open>NewCase\<close> demands beyond \<open>check\<close>.\<close>

definition case_wf :: "Case \<Rightarrow> bool" where
  "case_wf o' \<longleftrightarrow> case_ok o' \<and> c_id o' \<noteq> 0 \<and> c_orgID o' \<noteq> 0 \<and> c_alertID o' \<noteq> 0 \<and> 1 \<le> c_seq o' \<and>
     0 \<le> c_suppressCount o' \<and> 1 \<le> c_stateVersion o' \<and> c_state o' \<noteq> CaseStateZero \<and>
     c_startedAt o' \<noteq> 0 \<and> c_sourceStartsAt o' \<noteq> 0 \<and>
     c_ackState o' \<noteq> AckStateZero"

lemma NewCase_wf: "NewCase p = Inr o' \<Longrightarrow> case_wf o'"
  by (auto simp: NewCase_def case_wf_def case_ok_def Let_def oto_defs split: if_splits)

lemma case_wf_ok: "case_wf o' \<Longrightarrow> case_ok o'"
  by (simp add: case_wf_def)

text \<open>A well-formed case reads as exactly one of the states its row may hold.\<close>

lemma AlertState_cases:
  assumes "case_ok o'" "c_state o' \<noteq> CaseStateZero"
  shows "AlertState o' = (if c_endedAt o' = 0 then StateFiring
      else if c_resolveReason o' = ResolveUpstream then StateResolved else StateExpired)"
  using assms
  by (cases "c_state o'"; cases "c_resolveReason o'")
    (simp_all add: case_ok_def check_None_iff AlertState_def oto_defs)

lemma phase_suppressed_iff:
  "lifecyclePhase o' = StateSuppressed \<longleftrightarrow> c_state o' = CaseOpen \<and> c_suppressionReason o' \<noteq> SuppressionZero"
  by (auto simp: lifecyclePhase_def AlertState_def oto_defs)

lemma phase_firing_iff:
  "lifecyclePhase o' = StateFiring \<longleftrightarrow> c_state o' = CaseOpen \<and> c_suppressionReason o' = SuppressionZero"
  by (auto simp: lifecyclePhase_def AlertState_def oto_defs)

lemma phase_none_iff: "lifecyclePhase o' = StateNone \<longleftrightarrow> c_state o' = CaseStateZero"
  by (cases "c_state o'") (simp_all add: lifecyclePhase_def AlertState_def oto_defs)

lemma phase_expired_iff:
  "lifecyclePhase o' = StateExpired \<longleftrightarrow> c_state o' = CaseClosed \<and> IsExpiry (c_resolveReason o')"
  by (cases "c_state o'") (simp_all add: lifecyclePhase_def AlertState_def oto_defs)

lemma phase_resolved_iff:
  "lifecyclePhase o' = StateResolved \<longleftrightarrow> c_state o' = CaseClosed \<and> \<not> IsExpiry (c_resolveReason o')"
  by (cases "c_state o'") (simp_all add: lifecyclePhase_def AlertState_def oto_defs)

lemmas phase_iffs = phase_suppressed_iff phase_firing_iff phase_none_iff phase_expired_iff
  phase_resolved_iff

lemma phase_terminal_iff: "State_IsTerminal (lifecyclePhase o') \<longleftrightarrow> c_state o' = CaseClosed"
  by (auto simp: State_IsTerminal_def phase_iffs)

lemma ClosePending_firing: "case_ok o' \<Longrightarrow> ClosePending o' \<Longrightarrow> lifecyclePhase o' = StateFiring"
  by (simp add: case_ok_def check_None_iff ClosePending_def phase_firing_iff)

lemma CloseDue_mono: "CloseDue o' t \<Longrightarrow> t \<le> t' \<Longrightarrow> CloseDue o' t'"
  by (auto simp: CloseDue_def)

end
