(* ===== verification/Lifecycle.thy ===== *)
theory Lifecycle
  imports Alert_Case
begin

text \<open>
  The lifecycle machine, \<^verbatim>\<open>internal/alerts/domain/lifecycle.go\<close>: the transition table, \<open>Apply\<close>
  (one definition per arm of its \<^verbatim>\<open>switch\<close>), \<open>Decide\<close>, \<open>OpenNewCase\<close>, \<open>Acknowledge\<close> and
  \<open>Unacknowledge\<close>. The uuid package is the parameter \<open>U\<close> of the operations that print or parse
  an id. This theory holds the definitions and the branch-by-branch facts; the invariants and the
  properties of whole runs are in \<open>Lifecycle_Runs\<close>.
\<close>

definition DefaultResolveGrace :: duration where
  "DefaultResolveGrace = 300 * Second"

section \<open>Triggers, transitions and the table\<close>

datatype Trigger =
    TriggerZero | TriggerObserveFiring | TriggerObserveSuppressed | TriggerObserveResolved
  | TriggerReap | TriggerCloseDue

fun Trigger_String :: "Trigger \<Rightarrow> string" where
  "Trigger_String TriggerZero = ''''"
| "Trigger_String TriggerObserveFiring = ''observe_firing''"
| "Trigger_String TriggerObserveSuppressed = ''observe_suppressed''"
| "Trigger_String TriggerObserveResolved = ''observe_resolved''"
| "Trigger_String TriggerReap = ''reap''"
| "Trigger_String TriggerCloseDue = ''close_due''"

definition NewTrigger :: "string \<Rightarrow> Trigger result" where
  "NewTrigger = enum_parse Trigger_String
     [TriggerObserveFiring, TriggerObserveSuppressed, TriggerObserveResolved, TriggerReap,
      TriggerCloseDue]"

interpretation trigger: closed_enum Trigger_String NewTrigger
  "\<lambda>s. s \<in> set [TriggerObserveFiring, TriggerObserveSuppressed, TriggerObserveResolved, TriggerReap,
      TriggerCloseDue]"
  unfolding NewTrigger_def by (rule enum_parse_closed) simp

datatype TransitionID =
    TransitionT1 | TransitionT2 | TransitionT3 | TransitionT4 | TransitionT5 | TransitionT6
  | TransitionT7 | TransitionT9 | TransitionT10

record transitionRule =
  r_from :: State
  r_to :: State
  r_trigger :: Trigger
  r_id :: TransitionID
  r_actors :: "ActorKind list"
  r_event :: EventType
  r_opensNewCase :: bool

definition transitionTable :: "transitionRule list" where
  "transitionTable =
    [\<lparr>r_from = StateNone, r_to = StateFiring, r_trigger = TriggerObserveFiring, r_id = TransitionT1,
      r_actors = [ActorIngest, ActorReconciler], r_event = EventCaseOpened, r_opensNewCase = True\<rparr>,
     \<lparr>r_from = StateFiring, r_to = StateFiring, r_trigger = TriggerObserveFiring, r_id = TransitionT2,
      r_actors = [ActorIngest, ActorReconciler], r_event = EventTypeZero, r_opensNewCase = False\<rparr>,
     \<lparr>r_from = StateFiring, r_to = StateSuppressed, r_trigger = TriggerObserveSuppressed,
      r_id = TransitionT3, r_actors = [ActorReconciler], r_event = EventCaseSuppressed,
      r_opensNewCase = False\<rparr>,
     \<lparr>r_from = StateSuppressed, r_to = StateFiring, r_trigger = TriggerObserveFiring,
      r_id = TransitionT4, r_actors = [ActorReconciler, ActorIngest], r_event = EventCaseUnsuppressed,
      r_opensNewCase = False\<rparr>,
     \<lparr>r_from = StateFiring, r_to = StateResolved, r_trigger = TriggerObserveResolved,
      r_id = TransitionT5, r_actors = [ActorIngest], r_event = EventCaseResolved,
      r_opensNewCase = False\<rparr>,
     \<lparr>r_from = StateSuppressed, r_to = StateResolved, r_trigger = TriggerObserveResolved,
      r_id = TransitionT5, r_actors = [ActorIngest], r_event = EventCaseResolved,
      r_opensNewCase = False\<rparr>,
     \<lparr>r_from = StateFiring, r_to = StateResolved, r_trigger = TriggerCloseDue, r_id = TransitionT5,
      r_actors = [ActorReaper], r_event = EventCaseResolved, r_opensNewCase = False\<rparr>,
     \<lparr>r_from = StateFiring, r_to = StateExpired, r_trigger = TriggerReap, r_id = TransitionT6,
      r_actors = [ActorReaper], r_event = EventCaseExpired, r_opensNewCase = False\<rparr>,
     \<lparr>r_from = StateSuppressed, r_to = StateExpired, r_trigger = TriggerReap, r_id = TransitionT6,
      r_actors = [ActorReaper], r_event = EventCaseExpired, r_opensNewCase = False\<rparr>,
     \<lparr>r_from = StateResolved, r_to = StateFiring, r_trigger = TriggerObserveFiring,
      r_id = TransitionT7, r_actors = [ActorIngest], r_event = EventTypeZero, r_opensNewCase = True\<rparr>,
     \<lparr>r_from = StateExpired, r_to = StateFiring, r_trigger = TriggerObserveFiring,
      r_id = TransitionT7, r_actors = [ActorIngest], r_event = EventTypeZero, r_opensNewCase = True\<rparr>]"

definition CanTransition :: "State \<Rightarrow> State \<Rightarrow> Trigger \<Rightarrow> bool" where
  "CanTransition from to trigger \<longleftrightarrow>
     list_ex (\<lambda>r. r_from r = from \<and> r_to r = to \<and> r_trigger r = trigger) transitionTable"

definition containsState :: "State list \<Rightarrow> State \<Rightarrow> bool" where
  "containsState xs s \<longleftrightarrow> list_ex (\<lambda>x. x = s) xs"

definition TransitionsFrom :: "State \<Rightarrow> Trigger \<Rightarrow> State list" where
  "TransitionsFrom from trigger = foldl (\<lambda>out r.
     if r_from r = from \<and> r_trigger r = trigger \<and> \<not> containsState out (r_to r) then out @ [r_to r] else out)
     [] transitionTable"

section \<open>Commands and results\<close>

record TransitionCommand =
  cmd_Trigger :: Trigger
  cmd_Actor :: Actor
  cmd_At :: ObservationTime
  cmd_EventID :: uuid
  cmd_SuppressionReason :: SuppressionReason
  cmd_SuppressedBy :: SuppressedBy
  cmd_SourceEndsAt :: time
  cmd_SourceUpdatedAt :: time
  cmd_ResolveGrace :: duration
  cmd_CaseRetention :: duration
  cmd_SourceHealthy :: bool
  cmd_ExpireAs :: ResolveReason
  cmd_MaxSilence :: duration
  cmd_NoLiveSource :: bool
  cmd_MaterialChange :: bool
  cmd_Value :: "float64 option"
  cmd_ObservedSkew :: duration
  cmd_Summary :: string
  cmd_Payload :: payload

record TransitionResult =
  tr_ID :: TransitionID
  tr_From :: State
  tr_To :: State
  tr_Case :: Case
  tr_Before :: Case
  tr_OpensNewCase :: bool
  tr_Events :: "Event list"
  tr_DetectedBy :: string
  tr_Clamped :: bool
  tr_ClampSkew :: duration
  tr_CloseDeferred :: bool

section \<open>Helpers of the machine\<close>

definition resolveGrace :: "TransitionCommand \<Rightarrow> duration" where
  "resolveGrace cmd = (if cmd_ResolveGrace cmd \<le> 0 then DefaultResolveGrace else cmd_ResolveGrace cmd)"

definition permits :: "ActorKind list \<Rightarrow> ActorKind \<Rightarrow> bool" where
  "permits actors actor \<longleftrightarrow> list_ex (\<lambda>a. a = actor) actors"

text \<open>\<^verbatim>\<open>Case.observe\<close>: a field the observation did not supply is preserved.\<close>

definition observe :: "Case \<Rightarrow> TransitionCommand \<Rightarrow> Case" where
  "observe o' cmd = o'\<lparr>
     c_sourceEndsAt := (if \<not> IsZero (cmd_SourceEndsAt cmd) then cmd_SourceEndsAt cmd else c_sourceEndsAt o'),
     c_sourceUpdatedAt :=
       (if \<not> IsZero (cmd_SourceUpdatedAt cmd) then cmd_SourceUpdatedAt cmd else c_sourceUpdatedAt o'),
     c_value := (case cmd_Value cmd of Some v \<Rightarrow> Some v | None \<Rightarrow> c_value o'),
     c_observedSkew := (if cmd_ObservedSkew cmd \<noteq> 0 then cmd_ObservedSkew cmd else c_observedSkew o')\<rparr>"

definition clampEnd :: "time \<Rightarrow> time \<Rightarrow> time \<times> duration" where
  "clampEnd t floor' = (if t < floor' then (floor', t_sub floor' t) else (t, 0))"

definition notBefore :: "time \<Rightarrow> time \<Rightarrow> time" where
  "notBefore t floor' = fst (clampEnd t floor')"

definition recordClamp :: "payload \<Rightarrow> time \<Rightarrow> duration \<Rightarrow> payload" where
  "recordClamp payload raw delta =
     (if delta \<le> 0 then payload
      else mergePayload payload
        [(''clamped'', JBool True), (''source_ends_at'', JStr (RFC3339Nano raw)),
         (''clock_skew_ms'', JInt (go_div delta Millisecond))])"

definition detectedBy :: "ActorKind \<Rightarrow> string" where
  "detectedBy k =
     (case k of ActorIngest \<Rightarrow> ''webhook'' | ActorReconciler \<Rightarrow> ''reconciler'' | _ \<Rightarrow> ActorKind_String k)"

definition summaryOr :: "string \<Rightarrow> string \<Rightarrow> string" where
  "summaryOr s fallback = (if TrimSpace s \<noteq> [] then s else fallback)"

definition defaultSummary :: "TransitionID \<Rightarrow> State \<Rightarrow> State \<Rightarrow> ResolveReason \<Rightarrow> string" where
  "defaultSummary i from to reason =
     (case i of
        TransitionT1 \<Rightarrow> ''Case opened''
      | TransitionT7 \<Rightarrow> ''Case opened''
      | TransitionT2 \<Rightarrow> ''Alert details changed''
      | TransitionT3 \<Rightarrow> ''Case suppressed''
      | TransitionT4 \<Rightarrow> ''Case no longer suppressed''
      | TransitionT5 \<Rightarrow> ''Case resolved upstream''
      | TransitionT6 \<Rightarrow>
          (case reason of
             ResolveSilent \<Rightarrow> ''Case expired: its source went silent about it''
           | ResolveSourceRemoved \<Rightarrow> ''Case expired: its source was removed''
           | _ \<Rightarrow> ''Case expired: oto stopped hearing about it'')
      | _ \<Rightarrow> ''Case moved from '' @ State_String from @ '' to '' @ State_String to)"

definition dedupeKeyFor :: "uuidlib \<Rightarrow> TransitionID \<Rightarrow> Case \<Rightarrow> string" where
  "dedupeKeyFor U i o' =
     (case i of
        TransitionT1 \<Rightarrow> ''case:'' @ uuidString U (c_id o') @ '':opened''
      | TransitionT7 \<Rightarrow> ''case:'' @ uuidString U (c_id o') @ '':opened''
      | TransitionT3 \<Rightarrow> ''case:'' @ uuidString U (c_id o') @ '':suppressed:'' @ itoa (c_suppressCount o')
      | TransitionT4 \<Rightarrow> ''case:'' @ uuidString U (c_id o') @ '':unsuppressed:'' @ itoa (c_suppressCount o')
      | TransitionT5 \<Rightarrow> ''case:'' @ uuidString U (c_id o') @ '':resolved''
      | TransitionT6 \<Rightarrow> ''case:'' @ uuidString U (c_id o') @ '':expired''
      | _ \<Rightarrow> [])"

text \<open>T6's precondition, per expiry.\<close>

definition expiryAdmits :: "Case \<Rightarrow> TransitionCommand \<Rightarrow> ResolveReason \<Rightarrow> error option" where
  "expiryAdmits o' cmd reason =
     (case reason of
        ResolveTimeout \<Rightarrow> first_err
          [(\<not> cmd_SourceHealthy cmd, errs_New KindPrecondition ''source_not_healthy''),
           (IsZero (c_sourceEndsAt o'), errs_New KindPrecondition ''no_source_ends_at''),
           (\<not> recordedAt (cmd_At cmd) > c_sourceEndsAt o' + resolveGrace cmd,
              errs_New KindPrecondition ''resolve_grace_not_elapsed'')]
      | ResolveSilent \<Rightarrow> first_err
          [(\<not> cmd_SourceHealthy cmd, errs_New KindPrecondition ''source_not_healthy''),
           (cmd_MaxSilence cmd \<le> 0, errs_New KindPrecondition ''max_silence_off''),
           (\<not> recordedAt (cmd_At cmd) > c_lastObservedAt o' + cmd_MaxSilence cmd,
              errs_New KindPrecondition ''max_silence_not_elapsed'')]
      | ResolveSourceRemoved \<Rightarrow> first_err
          [(\<not> cmd_NoLiveSource cmd, errs_New KindPrecondition ''live_source_remains'')]
      | _ \<Rightarrow> Some (errs_New KindInternal ''expiry_reason_invalid''))"

definition selectRule :: "Case \<Rightarrow> TransitionCommand \<Rightarrow> transitionRule result" where
  "selectRule o' cmd =
     (case find (\<lambda>r. r_from r = lifecyclePhase o' \<and> r_trigger r = cmd_Trigger cmd) transitionTable of
        Some r \<Rightarrow> Inr r
      | None \<Rightarrow> Inl (errs_New KindPrecondition ''illegal_transition''))"

section \<open>The arms of Apply\<close>

text \<open>
  An arm returns the next case, the machine's own payload keys, the clamp's distance and whether
  the close was deferred.
\<close>

type_synonym arm = "Case \<times> payload \<times> duration \<times> bool"

definition arm_T2 :: "Case \<Rightarrow> TransitionCommand \<Rightarrow> arm result" where
  "arm_T2 o' cmd =
     Inr ((observe (o'\<lparr>c_lastObservedAt := recordedAt (cmd_At cmd)\<rparr>) cmd)
            \<lparr>c_resolvePendingAt := 0, c_resolvePendingEndAt := 0\<rparr>, [], 0, False)"

definition dropPending :: "bool \<Rightarrow> Case \<Rightarrow> Case" where
  "dropPending b o' = (if b then o'\<lparr>c_resolvePendingAt := 0, c_resolvePendingEndAt := 0\<rparr> else o')"

definition arm_T3 :: "Case \<Rightarrow> TransitionCommand \<Rightarrow> arm result" where
  "arm_T3 o' cmd =
     (if SuppressionReason_IsZero (cmd_SuppressionReason cmd) then Inl (errs_New KindValidation ''required'')
      else Inr (dropPending (ClosePending o')
             (observe (o'\<lparr>c_state := CaseOpen,
                c_suppressionReason := cmd_SuppressionReason cmd,
                c_suppressedBy := cmd_SuppressedBy cmd,
                c_suppressCount := c_suppressCount o' + 1,
                c_lastObservedAt := recordedAt (cmd_At cmd)\<rparr>) cmd), [], 0, False))"

definition arm_T4 :: "Case \<Rightarrow> TransitionCommand \<Rightarrow> arm result" where
  "arm_T4 o' cmd =
     Inr (observe (o'\<lparr>c_state := CaseOpen, c_suppressionReason := SuppressionZero,
            c_suppressedBy := noSuppressedBy,
            c_lastObservedAt := recordedAt (cmd_At cmd)\<rparr>) cmd,
          [(''detected_by'', JStr (detectedBy (a_kind (cmd_Actor cmd))))], 0, False)"

text \<open>The three branches of T5: the due close, the deferral, the immediate close.\<close>

definition arm_T5_due :: "Case \<Rightarrow> arm result" where
  "arm_T5_due o' =
     (if \<not> ClosePending o' then Inl (errs_New KindPrecondition ''no_pending_close'')
      else Inr (o'\<lparr>c_state := CaseClosed, c_resolveReason := ResolveUpstream,
                  c_suppressionReason := SuppressionZero, c_suppressedBy := noSuppressedBy,
                  c_endedAt := c_resolvePendingEndAt o',
                  c_resolvePendingAt := 0, c_resolvePendingEndAt := 0\<rparr>, [], 0, False))"

definition arm_T5_defer :: "Case \<Rightarrow> TransitionCommand \<Rightarrow> arm" where
  "arm_T5_defer o' cmd =
     (let (pendingEnd, delta) = clampEnd (occurredAt (cmd_At cmd)) (c_startedAt o') in
      (observe (o'\<lparr>c_resolvePendingAt := recordedAt (cmd_At cmd) + cmd_CaseRetention cmd,
                  c_resolvePendingEndAt := pendingEnd,
                  c_lastObservedAt := recordedAt (cmd_At cmd)\<rparr>) cmd,
       recordClamp [] (occurredAt (cmd_At cmd)) delta, delta, True))"

definition arm_T5_close :: "Case \<Rightarrow> TransitionCommand \<Rightarrow> arm" where
  "arm_T5_close o' cmd =
     (let (ended, delta) = clampEnd (occurredAt (cmd_At cmd)) (c_startedAt o') in
      (dropPending (ClosePending o')
         (observe (o'\<lparr>c_state := CaseClosed, c_resolveReason := ResolveUpstream,
                     c_suppressionReason := SuppressionZero, c_suppressedBy := noSuppressedBy,
                     c_endedAt := ended, c_lastObservedAt := recordedAt (cmd_At cmd)\<rparr>) cmd),
       recordClamp [] (occurredAt (cmd_At cmd)) delta, delta, False))"

definition arm_T5 :: "Case \<Rightarrow> TransitionCommand \<Rightarrow> arm result" where
  "arm_T5 o' cmd =
     (if cmd_Trigger cmd = TriggerCloseDue then arm_T5_due o'
      else if cmd_CaseRetention cmd > 0 \<and> lifecyclePhase o' \<noteq> StateSuppressed
      then Inr (arm_T5_defer o' cmd)
      else Inr (arm_T5_close o' cmd))"

definition expireReason :: "TransitionCommand \<Rightarrow> ResolveReason" where
  "expireReason cmd =
     (if ResolveReason_IsZero (cmd_ExpireAs cmd) then ResolveTimeout else cmd_ExpireAs cmd)"

definition arm_T6 :: "Case \<Rightarrow> TransitionCommand \<Rightarrow> arm result" where
  "arm_T6 o' cmd =
     (if ClosePending o' then Inl (errs_New KindPrecondition ''close_pending'')
      else let reason = expireReason cmd in
        or_fail (expiryAdmits o' cmd reason)
          (let (ended, delta) = clampEnd (recordedAt (cmd_At cmd)) (c_startedAt o') in
           Inr (o'\<lparr>c_state := CaseClosed, c_resolveReason := reason,
                  c_suppressionReason := SuppressionZero, c_suppressedBy := noSuppressedBy,
                  c_endedAt := ended\<rparr>,
                recordClamp [(''resolve_reason'', JStr (ResolveReason_String reason))]
                  (recordedAt (cmd_At cmd)) delta, delta, False)))"

text \<open>The \<^verbatim>\<open>switch rule.id\<close>; T7 returns from the function itself, so it is not an arm here.\<close>

definition applyArm :: "transitionRule \<Rightarrow> Case \<Rightarrow> TransitionCommand \<Rightarrow> arm result" where
  "applyArm rule o' cmd =
     (case r_id rule of
        TransitionT1 \<Rightarrow> Inl (errs_New KindPrecondition ''no_open_case'')
      | TransitionT2 \<Rightarrow> arm_T2 o' cmd
      | TransitionT3 \<Rightarrow> arm_T3 o' cmd
      | TransitionT4 \<Rightarrow> arm_T4 o' cmd
      | TransitionT5 \<Rightarrow> arm_T5 o' cmd
      | TransitionT6 \<Rightarrow> arm_T6 o' cmd
      | _ \<Rightarrow> Inl (errs_New KindInternal ''unhandled_transition''))"

definition resultT7 :: "transitionRule \<Rightarrow> Case \<Rightarrow> TransitionCommand \<Rightarrow> TransitionResult" where
  "resultT7 rule o' cmd =
     \<lparr>tr_ID = r_id rule, tr_From = lifecyclePhase o', tr_To = r_to rule, tr_Case = o', tr_Before = o',
      tr_OpensNewCase = True, tr_Events = [], tr_DetectedBy = detectedBy (a_kind (cmd_Actor cmd)),
      tr_Clamped = False, tr_ClampSkew = 0, tr_CloseDeferred = False\<rparr>"

text \<open>What follows the \<^verbatim>\<open>switch\<close>: the invariant, the result, and the event of the edge.\<close>

definition finishApply ::
  "uuidlib \<Rightarrow> transitionRule \<Rightarrow> Case \<Rightarrow> TransitionCommand \<Rightarrow> arm \<Rightarrow> TransitionResult result" where
  "finishApply U rule o' cmd a =
     (case a of (nxt, extra, clampDelta, deferred) \<Rightarrow>
      or_fail (check nxt)
       (let from = lifecyclePhase o';
            res = \<lparr>tr_ID = r_id rule, tr_From = from, tr_To = lifecyclePhase nxt, tr_Case = nxt,
                   tr_Before = o', tr_OpensNewCase = False, tr_Events = [],
                   tr_DetectedBy = detectedBy (a_kind (cmd_Actor cmd)),
                   tr_Clamped = (clampDelta > 0), tr_ClampSkew = clampDelta,
                   tr_CloseDeferred = deferred\<rparr>;
            eventType = (if r_id rule = TransitionT2 then EventAlertMutated else r_event rule)
        in
        if deferred \<and> from = StateSuppressed then Inl (errs_New KindInternal ''deferred_from_suppressed'')
        else if deferred then Inr res
        else if r_id rule = TransitionT2 \<and> \<not> cmd_MaterialChange cmd then Inr res
        else if EventType_IsZero eventType then Inr res
        else rbind (NewEvent
               \<lparr>ev_id = cmd_EventID cmd, ev_orgID = c_orgID nxt, ev_alertID = c_alertID nxt,
                ev_caseID = c_id nxt, ev_groupID = uuid_Nil, ev_typ = eventType, ev_at = cmd_At cmd,
                ev_actor = cmd_Actor cmd,
                ev_summary = summaryOr (cmd_Summary cmd)
                  (defaultSummary (r_id rule) from (lifecyclePhase nxt) (c_resolveReason nxt)),
                ev_payload = mergePayload (cmd_Payload cmd) extra,
                ev_dedupeKey = dedupeKeyFor U (r_id rule) nxt\<rparr>)
             (\<lambda>ev. Inr (res\<lparr>tr_Events := [ev]\<rparr>))))"

definition Apply :: "uuidlib \<Rightarrow> Case \<Rightarrow> TransitionCommand \<Rightarrow> TransitionResult result" where
  "Apply U o' cmd =
     or_fail (first_err
       [(cmd_Trigger cmd = TriggerZero, errs_New KindValidation ''required''),
        (Actor_IsZero (cmd_Actor cmd), errs_New KindValidation ''required''),
        (ObservationTime_IsZero (cmd_At cmd), errs_New KindValidation ''required'')])
      (rbind (selectRule o' cmd) (\<lambda>rule.
        if \<not> permits (r_actors rule) (a_kind (cmd_Actor cmd))
        then Inl (errs_New KindInternal ''wrong_actor'')
        else if r_id rule = TransitionT7 then Inr (resultT7 rule o' cmd)
        else rbind (applyArm rule o' cmd) (finishApply U rule o' cmd)))"

section \<open>Decide and opening an episode\<close>

record Decision =
  d_ID :: TransitionID
  d_From :: State
  d_OpensEpisode :: bool
  d_Seq :: int
  d_DropsAck :: bool

definition Decide :: "Case \<Rightarrow> TransitionCommand \<Rightarrow> Decision result" where
  "Decide current cmd = rbind (selectRule current cmd) (\<lambda>rule.
     if \<not> r_opensNewCase rule
     then Inr \<lparr>d_ID = r_id rule, d_From = lifecyclePhase current, d_OpensEpisode = False, d_Seq = 0,
               d_DropsAck = False\<rparr>
     else Inr \<lparr>d_ID = r_id rule, d_From = lifecyclePhase current, d_OpensEpisode = True,
               d_Seq = c_seq current + 1, d_DropsAck = IsAcked (c_ackState current)\<rparr>)"

record OpenCaseParams =
  p_ID :: uuid
  p_OrgID :: uuid
  p_AlertID :: uuid
  p_Seq :: int
  p_Actor :: Actor
  p_At :: ObservationTime
  p_SourceStartsAt :: time
  p_SourceEndsAt :: time
  p_SourceUpdatedAt :: time
  p_Value :: "float64 option"
  p_ObservedSkew :: duration
  p_EventID :: uuid
  p_Summary :: string
  p_Payload :: payload

definition openCaseParams :: "OpenCaseParams \<Rightarrow> Case" where
  "openCaseParams p = zeroCase\<lparr>c_id := p_ID p, c_orgID := p_OrgID p, c_alertID := p_AlertID p,
     c_seq := p_Seq p, c_state := CaseOpen, c_startedAt := recordedAt (p_At p),
     c_lastObservedAt := recordedAt (p_At p),
     c_sourceStartsAt := (if IsZero (p_SourceStartsAt p) then occurredAt (p_At p) else p_SourceStartsAt p),
     c_sourceEndsAt := p_SourceEndsAt p, c_sourceUpdatedAt := p_SourceUpdatedAt p,
     c_ackState := AckStateUnacked, c_value := p_Value p, c_observedSkew := p_ObservedSkew p\<rparr>"

definition OpenNewCase :: "uuidlib \<Rightarrow> OpenCaseParams \<Rightarrow> (Case \<times> Event list) result" where
  "OpenNewCase U p =
     or_fail (first_err
       [(Actor_IsZero (p_Actor p), errs_New KindValidation ''required''),
        (\<not> permits [ActorIngest, ActorReconciler] (a_kind (p_Actor p)), errs_New KindInternal ''wrong_actor''),
        (ObservationTime_IsZero (p_At p), errs_New KindValidation ''required'')])
     (rbind (NewCase (openCaseParams p)) (\<lambda>o'.
       let i = (if p_Seq p > 1 then TransitionT7 else TransitionT1) in
       rbind (NewEvent
         \<lparr>ev_id = p_EventID p, ev_orgID = c_orgID o', ev_alertID = c_alertID o', ev_caseID = c_id o',
          ev_groupID = uuid_Nil, ev_typ = EventCaseOpened, ev_at = p_At p, ev_actor = p_Actor p,
          ev_summary = summaryOr (p_Summary p) (defaultSummary i StateNone StateFiring ResolveZero),
          ev_payload = p_Payload p, ev_dedupeKey = dedupeKeyFor U i o'\<rparr>)
         (\<lambda>ev. Inr (o', [ev]))))"

section \<open>Acknowledgement\<close>

record AckCommand =
  ack_Actor :: Actor
  ack_At :: ObservationTime
  ack_EventID :: uuid
  ack_Note :: string
  ack_Reason :: string
  ack_Payload :: payload

definition ackedCase :: "uuidlib \<Rightarrow> Case \<Rightarrow> AckCommand \<Rightarrow> Case" where
  "ackedCase U o' cmd = o'\<lparr>c_ackState := AckStateAcked,
     c_ackedAt := notBefore (recordedAt (ack_At cmd)) (c_startedAt o'),
     c_ackedByLabel := a_label (ack_Actor cmd),
     c_ackNote := ack_Note cmd,
     c_ackedBy := (case uuidParse U (a_id (ack_Actor cmd)) of Some i \<Rightarrow> i | None \<Rightarrow> c_ackedBy o')\<rparr>"

definition Acknowledge :: "uuidlib \<Rightarrow> Case \<Rightarrow> AckCommand \<Rightarrow> (Case \<times> Event list) result" where
  "Acknowledge U o' cmd =
     or_fail (first_err
       [(Actor_IsZero (ack_Actor cmd) \<or> \<not> IsHuman (a_kind (ack_Actor cmd)), errs_New KindValidation ''required''),
        (ObservationTime_IsZero (ack_At cmd), errs_New KindValidation ''required''),
        (CaseState_IsClosed (c_state o'), errs_New KindPrecondition ''case_terminal''),
        (IsAcked (c_ackState o'), errs_New KindPrecondition ''already_acked''),
        (length (ack_Note cmd) > MaxAckNoteBytes, errs_New KindValidation ''max_length'')])
     (let nxt = ackedCase U o' cmd in
      or_fail (check nxt)
       (rbind (NewEvent
         \<lparr>ev_id = ack_EventID cmd, ev_orgID = c_orgID nxt, ev_alertID = c_alertID nxt,
          ev_caseID = c_id nxt, ev_groupID = uuid_Nil, ev_typ = EventCaseAcknowledged,
          ev_at = ack_At cmd, ev_actor = ack_Actor cmd,
          ev_summary = ''Acknowledged by '' @ a_label (ack_Actor cmd), ev_payload = ack_Payload cmd,
          ev_dedupeKey = ''case:'' @ uuidString U (c_id nxt) @ '':acknowledged:'' @ RFC3339Nano (c_ackedAt nxt)\<rparr>)
         (\<lambda>ev. Inr (nxt, [ev]))))"

definition unackReason :: "AckCommand \<Rightarrow> string result" where
  "unackReason cmd =
     (let r = ack_Reason cmd in
      if r = ''manual'' \<or> r = ''new_case'' then Inr r
      else if r = '''' then Inr ''manual''
      else Inl (errs_New KindValidation ''enum''))"

definition unackedCase :: "Case \<Rightarrow> Case" where
  "unackedCase o' = o'\<lparr>c_ackState := AckStateUnacked, c_ackedAt := 0, c_ackedBy := uuid_Nil,
     c_ackedByLabel := [], c_ackNote := []\<rparr>"

definition Unacknowledge :: "uuidlib \<Rightarrow> Case \<Rightarrow> AckCommand \<Rightarrow> (Case \<times> Event list) result" where
  "Unacknowledge U o' cmd =
     or_fail (first_err
       [(Actor_IsZero (ack_Actor cmd), errs_New KindValidation ''required''),
        (ObservationTime_IsZero (ack_At cmd), errs_New KindValidation ''required''),
        (\<not> IsAcked (c_ackState o'), errs_New KindPrecondition ''not_acked'')])
     (rbind (unackReason cmd) (\<lambda>reason.
       or_fail (first_err [(length (ack_Note cmd) > MaxAckNoteBytes, errs_New KindValidation ''max_length'')])
        (let nxt = unackedCase o' in
         or_fail (check nxt)
          (rbind (NewEvent
            \<lparr>ev_id = ack_EventID cmd, ev_orgID = c_orgID nxt, ev_alertID = c_alertID nxt,
             ev_caseID = c_id nxt, ev_groupID = uuid_Nil, ev_typ = EventCaseUnacknowledged,
             ev_at = ack_At cmd, ev_actor = ack_Actor cmd,
             ev_summary = ''Acknowledgement removed ('' @ reason @ '')'',
             ev_payload = mergePayload ((''reason'', JStr reason) #
                 (if ack_Note cmd \<noteq> [] then [(''note'', JStr (ack_Note cmd))] else []))
               (ack_Payload cmd),
             ev_dedupeKey = ''case:'' @ uuidString U (c_id nxt) @ '':unacknowledged:'' @
               RFC3339Nano (recordedAt (ack_At cmd))\<rparr>)
            (\<lambda>ev. Inr (nxt, [ev]))))))"

end
