(* ===== verification/Lifecycle_Facts.thy ===== *)
theory Lifecycle_Facts
  imports Lifecycle
begin

text \<open>
  Branch-by-branch facts of the lifecycle machine, shared by every property: which rule a phase and
  a trigger select, what each arm changes, what \<open>Apply\<close> returns when it returns.
\<close>

section \<open>The table\<close>

lemma selectRule_Inr:
  "selectRule o' cmd = Inr r \<Longrightarrow>
     r \<in> set transitionTable \<and> r_from r = lifecyclePhase o' \<and> r_trigger r = cmd_Trigger cmd"
  by (auto simp: selectRule_def find_Some_iff split: option.splits)

lemma table_functional:
  "list_all (\<lambda>r. list_all (\<lambda>s. r_from r = r_from s \<and> r_trigger r = r_trigger s \<longrightarrow> r = s) transitionTable)
     transitionTable"
  by (simp add: transitionTable_def)

lemma selectRule_eq:
  assumes "r \<in> set transitionTable" "r_from r = lifecyclePhase o'" "r_trigger r = cmd_Trigger cmd"
  shows "selectRule o' cmd = Inr r"
proof -
  let ?P = "\<lambda>r. r_from r = lifecyclePhase o' \<and> r_trigger r = cmd_Trigger cmd"
  have "find ?P transitionTable \<noteq> None" using assms by (auto simp: find_None_iff)
  then obtain s where s: "find ?P transitionTable = Some s" by blast
  then have "s \<in> set transitionTable" "?P s" by (auto simp: find_Some_iff)
  with table_functional assms have "s = r" by (auto simp: list_all_iff)
  with s show ?thesis by (simp add: selectRule_def)
qed

text \<open>The row each identifier stands for: its trigger, its source phase and its actors.\<close>

lemma table_row:
  assumes "r \<in> set transitionTable"
  shows "case r_id r of
      TransitionT1 \<Rightarrow> r_from r = StateNone \<and> r_trigger r = TriggerObserveFiring \<and> r_opensNewCase r
    | TransitionT2 \<Rightarrow> r_from r = StateFiring \<and> r_trigger r = TriggerObserveFiring \<and>
        r_actors r = [ActorIngest, ActorReconciler] \<and> r_event r = EventTypeZero \<and> \<not> r_opensNewCase r
    | TransitionT3 \<Rightarrow> r_from r = StateFiring \<and> r_trigger r = TriggerObserveSuppressed \<and>
        r_actors r = [ActorReconciler] \<and> r_event r = EventCaseSuppressed \<and> \<not> r_opensNewCase r
    | TransitionT4 \<Rightarrow> r_from r = StateSuppressed \<and> r_trigger r = TriggerObserveFiring \<and>
        r_actors r = [ActorReconciler, ActorIngest] \<and> r_event r = EventCaseUnsuppressed \<and>
        \<not> r_opensNewCase r
    | TransitionT5 \<Rightarrow> r_event r = EventCaseResolved \<and> \<not> r_opensNewCase r \<and>
        (r_trigger r = TriggerObserveResolved \<and> (r_from r = StateFiring \<or> r_from r = StateSuppressed) \<and>
           r_actors r = [ActorIngest] \<or>
         r_trigger r = TriggerCloseDue \<and> r_from r = StateFiring \<and> r_actors r = [ActorReaper])
    | TransitionT6 \<Rightarrow> (r_from r = StateFiring \<or> r_from r = StateSuppressed) \<and> r_trigger r = TriggerReap \<and>
        r_actors r = [ActorReaper] \<and> r_event r = EventCaseExpired \<and> \<not> r_opensNewCase r
    | TransitionT7 \<Rightarrow> (r_from r = StateResolved \<or> r_from r = StateExpired) \<and>
        r_trigger r = TriggerObserveFiring \<and> r_actors r = [ActorIngest] \<and> r_to r = StateFiring \<and>
        r_opensNewCase r
    | _ \<Rightarrow> False"
  using assms unfolding transitionTable_def by auto

lemma permits_simps [simp]:
  "permits [] k = False" "permits (a # as) k = (a = k \<or> permits as k)"
  by (simp_all add: permits_def)

section \<open>Clamping\<close>

lemma clampEnd_max: "fst (clampEnd t f) = max t f"
  by (simp add: clampEnd_def)

lemma clampEnd_skew: "snd (clampEnd t f) = (if t < f then t_sub f t else 0)"
  by (simp add: clampEnd_def)

lemma clampEnd_eq: "clampEnd t f = (max t f, if t < f then t_sub f t else 0)"
  by (simp add: clampEnd_def)

lemma notBefore_max: "notBefore t f = max t f"
  by (simp add: notBefore_def clampEnd_max)

section \<open>What an observation leaves alone\<close>

lemma observe_fields [simp]:
  "c_id (observe o' cmd) = c_id o'" "c_orgID (observe o' cmd) = c_orgID o'"
  "c_alertID (observe o' cmd) = c_alertID o'" "c_seq (observe o' cmd) = c_seq o'"
  "c_number (observe o' cmd) = c_number o'"
  "c_state (observe o' cmd) = c_state o'"
  "c_suppressionReason (observe o' cmd) = c_suppressionReason o'"
  "c_suppressedBy (observe o' cmd) = c_suppressedBy o'"
  "c_startedAt (observe o' cmd) = c_startedAt o'" "c_endedAt (observe o' cmd) = c_endedAt o'"
  "c_lastObservedAt (observe o' cmd) = c_lastObservedAt o'"
  "c_sourceStartsAt (observe o' cmd) = c_sourceStartsAt o'"
  "c_resolveReason (observe o' cmd) = c_resolveReason o'"
  "c_resolvePendingAt (observe o' cmd) = c_resolvePendingAt o'"
  "c_resolvePendingEndAt (observe o' cmd) = c_resolvePendingEndAt o'"
  "c_stateVersion (observe o' cmd) = c_stateVersion o'"
  "c_suppressCount (observe o' cmd) = c_suppressCount o'" "c_ackState (observe o' cmd) = c_ackState o'"
  "c_ackedBy (observe o' cmd) = c_ackedBy o'" "c_ackedByLabel (observe o' cmd) = c_ackedByLabel o'"
  "c_ackedAt (observe o' cmd) = c_ackedAt o'" "c_ackNote (observe o' cmd) = c_ackNote o'"
  "c_ruleSnapshotID (observe o' cmd) = c_ruleSnapshotID o'"
  by (simp_all add: observe_def)

lemma observe_sourceEndsAt:
  "c_sourceEndsAt (observe o' cmd) = (if cmd_SourceEndsAt cmd = 0 then c_sourceEndsAt o' else cmd_SourceEndsAt cmd)"
  by (simp add: observe_def)

lemma dropPending_simps [simp]:
  "dropPending False o' = o'"
  "dropPending True o' = o'\<lparr>c_resolvePendingAt := 0, c_resolvePendingEndAt := 0\<rparr>"
  by (simp_all add: dropPending_def)

lemmas arm_defs = arm_T2_def arm_T3_def arm_T4_def arm_T5_def arm_T5_due_def arm_T5_defer_def
  arm_T5_close_def arm_T6_def

section \<open>What Apply returns\<close>

lemma finishApply_Inr:
  assumes "finishApply U rule o' cmd (nxt, extra, delta, deferred) = Inr r"
  shows "check nxt = None" "tr_Case r = nxt" "tr_Before r = o'" "tr_ID r = r_id rule"
    "tr_From r = lifecyclePhase o'" "tr_To r = lifecyclePhase nxt" "\<not> tr_OpensNewCase r"
    "tr_Clamped r = (0 < delta)" "tr_ClampSkew r = delta" "tr_CloseDeferred r = deferred"
    "deferred \<Longrightarrow> tr_Events r = []"
    "tr_Events r = [] \<or>
      (\<exists>ev. tr_Events r = [ev] \<and> ev_dedupeKey ev = dedupeKeyFor U (r_id rule) nxt \<and>
         ev_typ ev = (if r_id rule = TransitionT2 then EventAlertMutated else r_event rule) \<and>
         ev_caseID ev = c_id nxt)"
  using assms
  by (auto simp: finishApply_def Let_def rbind_Inr_iff dest: NewEvent_Inr(1) split: if_splits)

lemma finishApply_event:
  assumes "finishApply U rule o' cmd (nxt, extra, delta, False) = Inr r"
    and "r_id rule \<noteq> TransitionT2" "r_event rule \<noteq> EventTypeZero"
  shows "\<exists>ev. tr_Events r = [ev] \<and> ev_typ ev = r_event rule \<and> ev_caseID ev = c_id nxt \<and>
      ev_dedupeKey ev = dedupeKeyFor U (r_id rule) nxt \<and> ev_payload ev = mergePayload (cmd_Payload cmd) extra"
  using assms
  by (auto simp: finishApply_def Let_def rbind_Inr_iff EventType_IsZero_def dest: NewEvent_Inr(1) split: if_splits)

lemma Apply_Inr:
  assumes "Apply U o' cmd = Inr r"
  obtains (T7) rule where "rule \<in> set transitionTable" "r_from rule = lifecyclePhase o'"
      "r_trigger rule = cmd_Trigger cmd" "permits (r_actors rule) (a_kind (cmd_Actor cmd))"
      "r_id rule = TransitionT7" "r = resultT7 rule o' cmd"
  | (edge) rule nxt extra delta deferred where "rule \<in> set transitionTable"
      "r_from rule = lifecyclePhase o'"
      "r_trigger rule = cmd_Trigger cmd" "permits (r_actors rule) (a_kind (cmd_Actor cmd))"
      "r_id rule \<noteq> TransitionT7" "applyArm rule o' cmd = Inr (nxt, extra, delta, deferred)"
      "finishApply U rule o' cmd (nxt, extra, delta, deferred) = Inr r"
proof -
  from assms obtain rule where rule: "selectRule o' cmd = Inr rule"
    and act: "permits (r_actors rule) (a_kind (cmd_Actor cmd))"
    and rest: "(if r_id rule = TransitionT7 then Inr (resultT7 rule o' cmd)
      else rbind (applyArm rule o' cmd) (finishApply U rule o' cmd)) = Inr r"
    by (auto simp: Apply_def rbind_Inr_iff split: if_splits)
  note sel = selectRule_Inr [OF rule]
  show thesis
  proof (cases "r_id rule = TransitionT7")
    case True
    with rest sel act show thesis by (intro T7) auto
  next
    case False
    with rest obtain a where "applyArm rule o' cmd = Inr a" "finishApply U rule o' cmd a = Inr r"
      by (auto simp: rbind_Inr_iff)
    with False sel act show thesis by (cases a) (blast intro: edge)
  qed
qed

text \<open>
  The edges of \<open>Apply\<close>, one per branch, with the next case written out. This is the case analysis
  the properties below use.
\<close>

lemma Apply_edges [consumes 1, case_names T2 T3 T4 T5_due T5_defer T5_close T6 T7]:
  assumes "Apply U o' cmd = Inr r"
    and T2: "\<lbrakk>tr_ID r = TransitionT2; cmd_Trigger cmd = TriggerObserveFiring;
        lifecyclePhase o' = StateFiring; a_kind (cmd_Actor cmd) = ActorIngest \<or> a_kind (cmd_Actor cmd) = ActorReconciler;
        tr_Case r = (observe (o'\<lparr>c_lastObservedAt := recordedAt (cmd_At cmd)\<rparr>) cmd)
          \<lparr>c_resolvePendingAt := 0, c_resolvePendingEndAt := 0\<rparr>; check (tr_Case r) = None;
        \<not> cmd_MaterialChange cmd \<Longrightarrow> tr_Events r = [];
        tr_Events r = [] \<or> (\<exists>ev. tr_Events r = [ev] \<and> ev_typ ev = EventAlertMutated \<and> ev_dedupeKey ev = [])\<rbrakk> \<Longrightarrow> P"
    and T3: "\<lbrakk>tr_ID r = TransitionT3; cmd_Trigger cmd = TriggerObserveSuppressed;
        lifecyclePhase o' = StateFiring; a_kind (cmd_Actor cmd) = ActorReconciler;
        cmd_SuppressionReason cmd \<noteq> SuppressionZero;
        tr_Case r = dropPending (ClosePending o')
          (observe (o'\<lparr>c_state := CaseOpen, c_suppressionReason := cmd_SuppressionReason cmd,
             c_suppressedBy := cmd_SuppressedBy cmd, c_suppressCount := c_suppressCount o' + 1,
             c_lastObservedAt := recordedAt (cmd_At cmd)\<rparr>) cmd); check (tr_Case r) = None;
        \<exists>ev. tr_Events r = [ev] \<and> ev_typ ev = EventCaseSuppressed \<and>
          ev_dedupeKey ev = dedupeKeyFor U TransitionT3 (tr_Case r)\<rbrakk> \<Longrightarrow> P"
    and T4: "\<lbrakk>tr_ID r = TransitionT4; cmd_Trigger cmd = TriggerObserveFiring;
        lifecyclePhase o' = StateSuppressed; a_kind (cmd_Actor cmd) = ActorIngest \<or> a_kind (cmd_Actor cmd) = ActorReconciler;
        tr_Case r = observe (o'\<lparr>c_state := CaseOpen, c_suppressionReason := SuppressionZero,
            c_suppressedBy := noSuppressedBy, c_lastObservedAt := recordedAt (cmd_At cmd)\<rparr>) cmd; check (tr_Case r) = None;
        \<exists>ev. tr_Events r = [ev] \<and> ev_typ ev = EventCaseUnsuppressed \<and>
          ev_dedupeKey ev = dedupeKeyFor U TransitionT4 (tr_Case r)\<rbrakk> \<Longrightarrow> P"
    and T5_due: "\<lbrakk>tr_ID r = TransitionT5; cmd_Trigger cmd = TriggerCloseDue;
        lifecyclePhase o' = StateFiring; a_kind (cmd_Actor cmd) = ActorReaper; ClosePending o';
        tr_Case r = o'\<lparr>c_state := CaseClosed, c_resolveReason := ResolveUpstream,
            c_suppressionReason := SuppressionZero, c_suppressedBy := noSuppressedBy,
            c_endedAt := c_resolvePendingEndAt o', c_resolvePendingAt := 0, c_resolvePendingEndAt := 0\<rparr>; check (tr_Case r) = None;
        \<exists>ev. tr_Events r = [ev] \<and> ev_typ ev = EventCaseResolved \<and>
          ev_dedupeKey ev = dedupeKeyFor U TransitionT5 (tr_Case r)\<rbrakk> \<Longrightarrow> P"
    and T5_defer: "\<lbrakk>tr_ID r = TransitionT5; cmd_Trigger cmd = TriggerObserveResolved;
        lifecyclePhase o' = StateFiring; a_kind (cmd_Actor cmd) = ActorIngest;
        0 < cmd_CaseRetention cmd; tr_CloseDeferred r; tr_Events r = [];
        tr_Case r = observe (o'\<lparr>c_resolvePendingAt := recordedAt (cmd_At cmd) + cmd_CaseRetention cmd,
            c_resolvePendingEndAt := max (occurredAt (cmd_At cmd)) (c_startedAt o'),
            c_lastObservedAt := recordedAt (cmd_At cmd)\<rparr>) cmd; check (tr_Case r) = None\<rbrakk> \<Longrightarrow> P"
    and T5_close: "\<lbrakk>tr_ID r = TransitionT5; cmd_Trigger cmd = TriggerObserveResolved;
        lifecyclePhase o' = StateFiring \<and> cmd_CaseRetention cmd \<le> 0 \<or> lifecyclePhase o' = StateSuppressed;
        a_kind (cmd_Actor cmd) = ActorIngest; \<not> tr_CloseDeferred r;
        tr_Case r = dropPending (ClosePending o')
          (observe (o'\<lparr>c_state := CaseClosed, c_resolveReason := ResolveUpstream,
             c_suppressionReason := SuppressionZero, c_suppressedBy := noSuppressedBy,
             c_endedAt := max (occurredAt (cmd_At cmd)) (c_startedAt o'),
             c_lastObservedAt := recordedAt (cmd_At cmd)\<rparr>) cmd); check (tr_Case r) = None;
        \<exists>ev. tr_Events r = [ev] \<and> ev_typ ev = EventCaseResolved \<and>
          ev_dedupeKey ev = dedupeKeyFor U TransitionT5 (tr_Case r)\<rbrakk> \<Longrightarrow> P"
    and T6: "\<lbrakk>tr_ID r = TransitionT6; cmd_Trigger cmd = TriggerReap;
        lifecyclePhase o' = StateFiring \<or> lifecyclePhase o' = StateSuppressed;
        a_kind (cmd_Actor cmd) = ActorReaper; \<not> ClosePending o';
        expiryAdmits o' cmd (expireReason cmd) = None;
        tr_Case r = o'\<lparr>c_state := CaseClosed, c_resolveReason := expireReason cmd,
            c_suppressionReason := SuppressionZero, c_suppressedBy := noSuppressedBy,
            c_endedAt := max (recordedAt (cmd_At cmd)) (c_startedAt o')\<rparr>; check (tr_Case r) = None;
        \<exists>ev. tr_Events r = [ev] \<and> ev_typ ev = EventCaseExpired \<and>
          ev_dedupeKey ev = dedupeKeyFor U TransitionT6 (tr_Case r)\<rbrakk> \<Longrightarrow> P"
    and T7: "\<lbrakk>tr_ID r = TransitionT7; cmd_Trigger cmd = TriggerObserveFiring;
        lifecyclePhase o' = StateResolved \<or> lifecyclePhase o' = StateExpired;
        a_kind (cmd_Actor cmd) = ActorIngest; tr_Case r = o'; tr_OpensNewCase r; tr_Events r = []\<rbrakk> \<Longrightarrow> P"
  shows P
  using assms(1)
proof (cases rule: Apply_Inr)
  case (T7 rule)
  with table_row [OF T7(1)] show ?thesis
    by (intro assms(9)) (auto simp: resultT7_def)
next
  case (edge rule nxt extra delta deferred)
  note f = finishApply_Inr [OF edge(7)] and row = table_row [OF edge(1)]
  have ev: "deferred = False \<Longrightarrow> r_id rule \<noteq> TransitionT2 \<Longrightarrow> r_event rule \<noteq> EventTypeZero \<Longrightarrow>
      \<exists>ev. tr_Events r = [ev] \<and> ev_typ ev = r_event rule \<and> ev_dedupeKey ev = dedupeKeyFor U (r_id rule) nxt"
    using finishApply_event edge(7) by blast
  have quiet: "r_id rule = TransitionT2 \<Longrightarrow> \<not> cmd_MaterialChange cmd \<Longrightarrow> tr_Events r = []"
    using edge(7) by (auto simp: finishApply_def Let_def split: if_splits)
  show ?thesis
  proof (cases "r_id rule")
    case TransitionT2
    with edge row f quiet show ?thesis
      by (intro assms(2)) (auto simp: applyArm_def arm_T2_def dedupeKeyFor_def)
  next
    case TransitionT3
    with edge row f ev show ?thesis
      by (intro assms(3)) (auto simp: applyArm_def arm_T3_def SuppressionReason_IsZero_def split: if_splits)
  next
    case TransitionT4
    with edge row f ev show ?thesis
      by (intro assms(4)) (auto simp: applyArm_def arm_T4_def)
  next
    case TransitionT5
    consider (due) "cmd_Trigger cmd = TriggerCloseDue"
      | (deferral) "cmd_Trigger cmd = TriggerObserveResolved" "0 < cmd_CaseRetention cmd"
          "lifecyclePhase o' \<noteq> StateSuppressed"
      | (closing) "cmd_Trigger cmd = TriggerObserveResolved"
          "\<not> (0 < cmd_CaseRetention cmd \<and> lifecyclePhase o' \<noteq> StateSuppressed)"
      using TransitionT5 edge row by auto
    then show ?thesis
    proof cases
      case due
      with TransitionT5 edge row f ev show ?thesis
        by (intro assms(5)) (auto simp: applyArm_def arm_T5_def arm_T5_due_def split: if_splits)
    next
      case deferral
      with TransitionT5 edge have a: "arm_T5_defer o' cmd = (nxt, extra, delta, deferred)"
        by (simp add: applyArm_def arm_T5_def)
      then have deferred by (auto simp: arm_T5_defer_def split: prod.splits)
      with a TransitionT5 deferral edge row f show ?thesis
        by (intro assms(6)) (auto simp: arm_T5_defer_def clampEnd_eq)
    next
      case closing
      with TransitionT5 edge have a: "arm_T5_close o' cmd = (nxt, extra, delta, deferred)"
        by (auto simp: applyArm_def arm_T5_def)
      then have "\<not> deferred" by (auto simp: arm_T5_close_def split: prod.splits)
      with a TransitionT5 closing edge row f ev show ?thesis
        by (intro assms(7)) (auto simp: arm_T5_close_def clampEnd_eq)
    qed
  next
    case TransitionT6
    then have a: "arm_T6 o' cmd = Inr (nxt, extra, delta, deferred)"
      using edge by (simp add: applyArm_def)
    then have "\<not> ClosePending o'" "expiryAdmits o' cmd (expireReason cmd) = None" "\<not> deferred"
      by (auto simp: arm_T6_def Let_def split: if_splits prod.splits)
    with a TransitionT6 edge row f ev show ?thesis
      by (intro assms(8)) (auto simp: arm_T6_def clampEnd_eq Let_def split: if_splits)
  qed (use edge row in \<open>auto simp: applyArm_def\<close>)
qed

text \<open>The parts of the answer that do not depend on the edge.\<close>

lemma Apply_result:
  assumes "Apply U o' cmd = Inr r"
  shows "tr_From r = lifecyclePhase o'" "tr_Before r = o'" "tr_OpensNewCase r \<longleftrightarrow> c_state o' = CaseClosed"
    "tr_To r = (if c_state o' = CaseClosed then StateFiring else lifecyclePhase (tr_Case r))"
    "\<exists>rule. selectRule o' cmd = Inr rule \<and> r_id rule = tr_ID r \<and> r_opensNewCase rule = tr_OpensNewCase r \<and>
       permits (r_actors rule) (a_kind (cmd_Actor cmd))"
proof -
  have "tr_From r = lifecyclePhase o' \<and> tr_Before r = o' \<and> (tr_OpensNewCase r \<longleftrightarrow> c_state o' = CaseClosed) \<and>
      tr_To r = (if c_state o' = CaseClosed then StateFiring else lifecyclePhase (tr_Case r)) \<and>
      (\<exists>rule. selectRule o' cmd = Inr rule \<and> r_id rule = tr_ID r \<and> r_opensNewCase rule = tr_OpensNewCase r \<and>
         permits (r_actors rule) (a_kind (cmd_Actor cmd)))"
    using assms
  proof (cases rule: Apply_Inr)
    case (T7 rule)
    have "r_from rule = StateResolved \<or> r_from rule = StateExpired" "r_opensNewCase rule" "r_to rule = StateFiring"
      using table_row [OF T7(1)] T7(5) by simp_all
    then have "c_state o' = CaseClosed" using T7(2) by (auto simp: phase_iffs)
    with T7 selectRule_eq [OF T7(1-3)] \<open>r_opensNewCase rule\<close> \<open>r_to rule = StateFiring\<close> show ?thesis
      by (auto simp: resultT7_def)
  next
    case (edge rule nxt extra delta deferred)
    have "r_from rule = StateFiring \<or> r_from rule = StateSuppressed" "\<not> r_opensNewCase rule"
      using table_row [OF edge(1)] edge(5,6) by (cases "r_id rule"; auto simp: applyArm_def)+
    then have "c_state o' = CaseOpen" using edge(2) by (auto simp: phase_iffs)
    with edge selectRule_eq [OF edge(1-3)] finishApply_Inr [OF edge(7)] \<open>\<not> r_opensNewCase rule\<close> show ?thesis
      by auto
  qed
  then show "tr_From r = lifecyclePhase o'" "tr_Before r = o'" "tr_OpensNewCase r \<longleftrightarrow> c_state o' = CaseClosed"
    "tr_To r = (if c_state o' = CaseClosed then StateFiring else lifecyclePhase (tr_Case r))"
    "\<exists>rule. selectRule o' cmd = Inr rule \<and> r_id rule = tr_ID r \<and> r_opensNewCase rule = tr_OpensNewCase r \<and>
       permits (r_actors rule) (a_kind (cmd_Actor cmd))"
    by blast+
qed

end
