(* ===== verification/Lifecycle_Runs.thy ===== *)
theory Lifecycle_Runs
  imports Lifecycle_Facts
begin

text \<open>
  Properties of the lifecycle machine over one step and over whole histories of an episode.

  \<^item> \<open>episode\<close> and \<open>episode_step\<close> are the abstract specification: what an episode is to a reader
    of the product (firing, muted, waiting out a receipt, ended), and the moves it may make.
    \<open>episode_of\<close> reads a case as one, and \<open>Apply_refines\<close> is the simulation.
  \<^item> \<open>CaseOp\<close> and \<open>case_step\<close> put the operations on a case side by side with the timeline events they
    append, as the service does with each loaded row. \<open>opened\<close> is the state after \<open>OpenNewCase\<close>.
    The interpretations \<open>life\<close> and \<open>applied\<close> discharge the contracts of the machine locales.
\<close>

section \<open>The abstract episode\<close>

datatype episode =
    Firing
  | Muted SuppressionReason
  | Receipt time time
  | Ended ResolveReason time

datatype signal =
    Fires
  | Mutes SuppressionReason
  | Clears time time duration
  | ReceiptDue
  | Vanishes ResolveReason time

inductive episode_step :: "time \<Rightarrow> episode \<Rightarrow> signal \<Rightarrow> episode \<Rightarrow> bool" for start :: time where
  still_firing: "episode_step start Firing Fires Firing"
| unmute: "episode_step start (Muted q) Fires Firing"
| refire: "episode_step start (Receipt d e) Fires Firing"
| mute: "q \<noteq> SuppressionZero \<Longrightarrow> e = Firing \<or> e = Receipt d f \<Longrightarrow> episode_step start e (Mutes q) (Muted q)"
| defer_close: "0 < w \<Longrightarrow> e = Firing \<or> e = Receipt d f \<Longrightarrow>
    episode_step start e (Clears claimed heard w) (Receipt (heard + w) (max claimed start))"
| close_now: "w \<le> 0 \<Longrightarrow> e = Firing \<or> e = Receipt d f \<Longrightarrow>
    episode_step start e (Clears claimed heard w) (Ended ResolveUpstream (max claimed start))"
| close_muted: "episode_step start (Muted q) (Clears claimed heard w) (Ended ResolveUpstream (max claimed start))"
| close_due: "episode_step start (Receipt d f) ReceiptDue (Ended ResolveUpstream f)"
| expire: "IsExpiry why \<Longrightarrow> e = Firing \<or> e = Muted q \<Longrightarrow>
    episode_step start e (Vanishes why heard) (Ended why (max heard start))"
| next_episode: "episode_step start (Ended why t) Fires (Ended why t)"

inductive_cases episode_step_endedE: "episode_step start (Ended why t) s e"

definition episode_of :: "Case \<Rightarrow> episode" where
  "episode_of o' =
     (if c_state o' = CaseClosed then Ended (c_resolveReason o') (c_endedAt o')
      else if c_suppressionReason o' \<noteq> SuppressionZero then Muted (c_suppressionReason o')
      else if ClosePending o' then Receipt (c_resolvePendingAt o') (c_resolvePendingEndAt o')
      else Firing)"

definition signal_of :: "TransitionCommand \<Rightarrow> signal" where
  "signal_of cmd =
     (case cmd_Trigger cmd of
        TriggerObserveSuppressed \<Rightarrow> Mutes (cmd_SuppressionReason cmd)
      | TriggerObserveResolved \<Rightarrow>
          Clears (occurredAt (cmd_At cmd)) (recordedAt (cmd_At cmd)) (cmd_CaseRetention cmd)
      | TriggerCloseDue \<Rightarrow> ReceiptDue
      | TriggerReap \<Rightarrow> Vanishes (expireReason cmd) (recordedAt (cmd_At cmd))
      | _ \<Rightarrow> Fires)"

lemma episode_of_phase:
  "lifecyclePhase o' = StateFiring \<Longrightarrow>
     episode_of o' = (if ClosePending o' then Receipt (c_resolvePendingAt o') (c_resolvePendingEndAt o')
                      else Firing)"
  "lifecyclePhase o' = StateSuppressed \<Longrightarrow> episode_of o' = Muted (c_suppressionReason o')"
  "lifecyclePhase o' = StateResolved \<or> lifecyclePhase o' = StateExpired \<Longrightarrow>
     episode_of o' = Ended (c_resolveReason o') (c_endedAt o')"
  by (auto simp: episode_of_def phase_iffs)

lemma expiryAdmits_expiry: "expiryAdmits o' cmd q = None \<Longrightarrow> IsExpiry q"
  by (cases q) (simp_all add: expiryAdmits_def oto_defs)

lemma Apply_simulates:
  assumes "Apply U o' cmd = Inr r" and ok: "case_ok o'" and start: "0 < c_startedAt o'"
  shows "episode_step (c_startedAt o') (episode_of o') (signal_of cmd) (episode_of (tr_Case r))"
  using assms(1)
proof (cases rule: Apply_edges)
  case T2
  then have "episode_of (tr_Case r) = Firing"
    by (simp add: episode_of_def ClosePending_def phase_iffs)
  with T2 show ?thesis
    by (auto simp: signal_of_def episode_of_phase intro: episode_step.intros)
next
  case T3
  then have "episode_of (tr_Case r) = Muted (cmd_SuppressionReason cmd)"
    and "cmd_SuppressionReason cmd \<noteq> SuppressionZero"
    by (simp_all add: episode_of_def dropPending_def)
  with T3 show ?thesis
    by (auto simp: signal_of_def episode_of_phase intro: episode_step.mute)
next
  case T4
  then have "episode_of (tr_Case r) = Firing"
    using ClosePending_firing [OF ok] by (auto simp: episode_of_def ClosePending_def phase_iffs)
  with T4 show ?thesis
    by (auto simp: signal_of_def episode_of_phase intro: episode_step.intros)
next
  case T5_due
  then have "episode_of (tr_Case r) = Ended ResolveUpstream (c_resolvePendingEndAt o')"
    by (simp add: episode_of_def)
  with T5_due show ?thesis
    by (auto simp: signal_of_def episode_of_phase intro: episode_step.intros)
next
  case T5_defer
  let ?heard = "recordedAt (cmd_At cmd)" and ?claim = "max (occurredAt (cmd_At cmd)) (c_startedAt o')"
  from T5_defer have "episode_of (tr_Case r) = Receipt (?heard + cmd_CaseRetention cmd) ?claim"
    using start by (simp add: episode_of_def ClosePending_def phase_iffs check_None_iff)
  with T5_defer show ?thesis
    by (auto simp: signal_of_def episode_of_phase intro: episode_step.defer_close)
next
  case T5_close
  then have "episode_of (tr_Case r) = Ended ResolveUpstream (max (occurredAt (cmd_At cmd)) (c_startedAt o'))"
    by (simp add: episode_of_def dropPending_def)
  with T5_close show ?thesis
    by (auto simp: signal_of_def episode_of_phase intro: episode_step.close_now episode_step.close_muted)
next
  case T6
  then have "episode_of (tr_Case r) = Ended (expireReason cmd) (max (recordedAt (cmd_At cmd)) (c_startedAt o'))"
    by (simp add: episode_of_def)
  with T6 expiryAdmits_expiry [OF T6(6)] show ?thesis
    by (auto simp: signal_of_def episode_of_phase intro: episode_step.expire)
next
  case T7
  then show ?thesis
    by (auto simp: signal_of_def episode_of_phase intro: episode_step.intros)
qed

section \<open>What a step keeps\<close>

text \<open>The columns that say which episode this is.\<close>

definition same_episode :: "Case \<Rightarrow> Case \<Rightarrow> bool" where
  "same_episode a b \<longleftrightarrow> c_id a = c_id b \<and> c_orgID a = c_orgID b \<and> c_alertID a = c_alertID b \<and>
     c_seq a = c_seq b \<and> c_number a = c_number b \<and> c_startedAt a = c_startedAt b \<and>
     c_sourceStartsAt a = c_sourceStartsAt b \<and> c_stateVersion a = c_stateVersion b"

lemma same_episode_refl [simp]: "same_episode a a"
  by (simp add: same_episode_def)

lemma same_episode_trans: "same_episode a b \<Longrightarrow> same_episode b c \<Longrightarrow> same_episode a c"
  by (simp add: same_episode_def)

lemma dropPending_fields [simp]:
  "c_id (dropPending b o') = c_id o'" "c_orgID (dropPending b o') = c_orgID o'"
  "c_alertID (dropPending b o') = c_alertID o'" "c_seq (dropPending b o') = c_seq o'"
  "c_number (dropPending b o') = c_number o'" "c_startedAt (dropPending b o') = c_startedAt o'"
  "c_sourceStartsAt (dropPending b o') = c_sourceStartsAt o'"
  "c_stateVersion (dropPending b o') = c_stateVersion o'" "c_state (dropPending b o') = c_state o'"
  "c_suppressCount (dropPending b o') = c_suppressCount o'"
  "c_suppressionReason (dropPending b o') = c_suppressionReason o'"
  "c_lastObservedAt (dropPending b o') = c_lastObservedAt o'"
  "c_resolveReason (dropPending b o') = c_resolveReason o'" "c_endedAt (dropPending b o') = c_endedAt o'"
  "c_ackState (dropPending b o') = c_ackState o'"
  by (simp_all add: dropPending_def)

lemma Apply_same_episode: "Apply U o' cmd = Inr r \<Longrightarrow> same_episode (tr_Case r) o'"
  by (erule Apply_edges) (simp_all add: same_episode_def)

lemma Apply_check: "Apply U o' cmd = Inr r \<Longrightarrow> case_ok o' \<Longrightarrow> case_ok (tr_Case r)"
  by (erule Apply_edges) (simp_all add: case_ok_def)

lemma Apply_wf:
  assumes "case_wf o'" "Apply U o' cmd = Inr r"
  shows "case_wf (tr_Case r)"
proof -
  note ok = Apply_check [OF assms(2)] and same = Apply_same_episode [OF assms(2)]
  from assms(2) assms(1)
  have "0 \<le> c_suppressCount (tr_Case r)" "c_state (tr_Case r) \<noteq> CaseStateZero"
    "c_ackState (tr_Case r) \<noteq> AckStateZero"
    by (auto elim!: Apply_edges simp: case_wf_def phase_iffs)
  with ok same assms(1) show ?thesis by (simp add: case_wf_def same_episode_def)
qed

section \<open>Histories of an episode\<close>

text \<open>
  The operations on a loaded case, each with the events it appends to the timeline. A T7 answer
  leaves this episode as it is: the caller opens the next one with \<open>OpenNewCase\<close>.
\<close>

datatype CaseOp =
    OpApply TransitionCommand
  | OpAck AckCommand
  | OpUnack AckCommand
  | OpSnapshot uuid

fun case_step :: "uuidlib \<Rightarrow> Case \<times> Event list \<Rightarrow> CaseOp \<Rightarrow> (Case \<times> Event list) result" where
  "case_step U (o', log) (OpApply cmd) = rbind (Apply U o' cmd) (\<lambda>r. Inr (tr_Case r, log @ tr_Events r))"
| "case_step U (o', log) (OpAck cmd) = rbind (Acknowledge U o' cmd) (\<lambda>(n, evs). Inr (n, log @ evs))"
| "case_step U (o', log) (OpUnack cmd) = rbind (Unacknowledge U o' cmd) (\<lambda>(n, evs). Inr (n, log @ evs))"
| "case_step U (o', log) (OpSnapshot s) = rbind (WithRuleSnapshot o' s) (\<lambda>n. Inr (n, log))"

definition history :: "uuidlib \<Rightarrow> OpenCaseParams \<Rightarrow> CaseOp list \<Rightarrow> (Case \<times> Event list) result" where
  "history U p ops = rbind (OpenNewCase U p) (\<lambda>s. run_steps (case_step U) s ops)"

lemma history_snoc: "history U p (ops @ [op]) = rbind (history U p ops) (\<lambda>s. case_step U s op)"
  by (cases "OpenNewCase U p") (simp_all add: history_def run_steps_append rbind_def split: sum.splits)

lemma history_induct [consumes 1, case_names opened step]:
  assumes "history U p ops = Inr s"
    and "\<And>o' log. OpenNewCase U p = Inr (o', log) \<Longrightarrow> P [] o' log"
    and "\<And>ops op o' log n log'. \<lbrakk>history U p ops = Inr (o', log); P ops o' log;
      case_step U (o', log) op = Inr (n, log')\<rbrakk> \<Longrightarrow> P (ops @ [op]) n log'"
  shows "P ops (fst s) (snd s)"
  using assms(1)
proof (induction ops arbitrary: s rule: rev_induct)
  case Nil
  then show ?case using assms(2) [of "fst s" "snd s"] by (auto simp: history_def rbind_Inr_iff)
next
  case (snoc op ops)
  from snoc.prems obtain t where t: "history U p ops = Inr t" "case_step U t op = Inr s"
    by (auto simp: history_snoc rbind_Inr_iff)
  show ?case using assms(3) [of ops "fst t" "snd t" op "fst s" "snd s"] snoc.IH [OF t(1)] t by simp
qed

lemma Acknowledge_Inr:
  assumes "Acknowledge U o' cmd = Inr (n, evs)"
  shows "n = ackedCase U o' cmd" "check n = None" "c_state o' \<noteq> CaseClosed" "IsHuman (a_kind (ack_Actor cmd))"
    "c_ackState o' \<noteq> AckStateAcked" "\<exists>ev. evs = [ev] \<and> ev_typ ev = EventCaseAcknowledged"
  using assms
  by (auto simp: Acknowledge_def Let_def rbind_Inr_iff oto_defs dest: NewEvent_Inr(1) split: if_splits)

lemma Unacknowledge_Inr:
  assumes "Unacknowledge U o' cmd = Inr (n, evs)"
  shows "n = unackedCase o'" "check n = None" "c_ackState o' = AckStateAcked"
    "\<exists>ev. evs = [ev] \<and> ev_typ ev = EventCaseUnacknowledged"
  using assms
  by (auto simp: Unacknowledge_def Let_def rbind_Inr_iff oto_defs dest: NewEvent_Inr(1) split: if_splits)

lemma WithRuleSnapshot_Inr: "WithRuleSnapshot o' s = Inr n \<Longrightarrow> n = o'\<lparr>c_ruleSnapshotID := s\<rparr>"
  by (simp add: WithRuleSnapshot_def)

lemma OpenNewCase_Inr:
  assumes "OpenNewCase U p = Inr (o', log)"
  shows "NewCase (openCaseParams p) = Inr o'"
    "\<exists>ev. log = [ev] \<and> ev_typ ev = EventCaseOpened \<and>
       ev_dedupeKey ev = ''case:'' @ uuidString U (c_id o') @ '':opened''"
  using assms
  by (auto simp: OpenNewCase_def Let_def rbind_Inr_iff dedupeKeyFor_def dest: NewEvent_Inr(1) split: if_splits)

text \<open>A step of the history that is not a transition touches neither the episode nor its state.\<close>

definition same_lifecycle :: "Case \<Rightarrow> Case \<Rightarrow> bool" where
  "same_lifecycle a b \<longleftrightarrow> same_episode a b \<and> episode_of a = episode_of b \<and> c_state a = c_state b \<and>
     c_suppressCount a = c_suppressCount b \<and> c_resolveReason a = c_resolveReason b \<and>
     c_suppressionReason a = c_suppressionReason b \<and> c_endedAt a = c_endedAt b"

definition lifecycle_types :: "EventType list" where
  "lifecycle_types = [EventCaseOpened, EventCaseSuppressed, EventCaseUnsuppressed, EventCaseResolved, EventCaseExpired]"

definition lifecycle_log :: "Event list \<Rightarrow> Event list" where
  "lifecycle_log log = filter (\<lambda>ev. ev_typ ev \<in> set lifecycle_types) log"

lemma lifecycle_log_append [simp]: "lifecycle_log (xs @ ys) = lifecycle_log xs @ lifecycle_log ys"
  by (simp add: lifecycle_log_def)

lemma lifecycle_log_Nil [simp]: "lifecycle_log [] = []"
  by (simp add: lifecycle_log_def)

lemma case_step_cases:
  assumes "case_step U (o', log) op = Inr (n, log')"
  obtains (transition) cmd r where "op = OpApply cmd" "Apply U o' cmd = Inr r" "n = tr_Case r"
      "log' = log @ tr_Events r"
  | (other) evs where "\<And>cmd. op \<noteq> OpApply cmd" "same_lifecycle n o'" "log' = log @ evs"
      "case_wf o' \<Longrightarrow> case_wf n"
      "lifecycle_log evs = []"
proof (cases op)
  case (OpApply cmd)
  with assms show thesis by (auto simp: rbind_Inr_iff intro: transition)
next
  case (OpAck cmd)
  with assms obtain evs where "Acknowledge U o' cmd = Inr (n, evs)" "log' = log @ evs"
    by (auto simp: rbind_Inr_iff)
  with Acknowledge_Inr [of U o' cmd n evs] OpAck show thesis
    by (intro other [of evs])
      (auto simp: ackedCase_def same_lifecycle_def same_episode_def episode_of_def ClosePending_def
        case_wf_def case_ok_def lifecycle_types_def lifecycle_log_def)
next
  case (OpUnack cmd)
  with assms obtain evs where "Unacknowledge U o' cmd = Inr (n, evs)" "log' = log @ evs"
    by (auto simp: rbind_Inr_iff)
  with Unacknowledge_Inr [of U o' cmd n evs] OpUnack show thesis
    by (intro other [of evs])
      (auto simp: unackedCase_def same_lifecycle_def same_episode_def episode_of_def ClosePending_def
        case_wf_def case_ok_def lifecycle_types_def lifecycle_log_def)
next
  case (OpSnapshot s)
  with assms have "n = o'\<lparr>c_ruleSnapshotID := s\<rparr>" "log' = log"
    by (auto simp: rbind_Inr_iff dest: WithRuleSnapshot_Inr)
  with OpSnapshot show thesis
    by (intro other [of "[]"])
      (auto simp: same_lifecycle_def same_episode_def episode_of_def ClosePending_def
        case_wf_def case_ok_def check_def)
qed

lemma case_step_wf:
  assumes "case_wf o'" "case_step U (o', log) op = Inr (n, log')"
  shows "case_wf n" "same_episode n o'"
  using assms(2)
  by (cases rule: case_step_cases;
      use assms(1) in \<open>auto simp: same_lifecycle_def intro: Apply_wf Apply_same_episode\<close>)+

text \<open>The invariant of a whole history: the row is well formed and still is the same episode.\<close>

interpretation life: step_machine "case_step U" "\<lambda>s. case_wf (fst s) \<and> same_episode (fst s) a" for U a
proof unfold_locales
  fix s op s'
  assume inv: "case_wf (fst s) \<and> same_episode (fst s) a" and step: "case_step U s op = Inr s'"
  have "case_wf (fst s')" "same_episode (fst s') (fst s)"
    using inv step case_step_wf [of "fst s" U "snd s" op "fst s'" "snd s'"] by simp_all
  with inv show "case_wf (fst s') \<and> same_episode (fst s') a"
    by (blast intro: same_episode_trans)
qed

definition apply_step :: "uuidlib \<Rightarrow> Case \<Rightarrow> TransitionCommand \<Rightarrow> Case result" where
  "apply_step U o' cmd = rbind (Apply U o' cmd) (\<lambda>r. Inr (tr_Case r))"

lemma Apply_closed:
  assumes "c_state o' = CaseClosed" "Apply U o' cmd = Inr r"
  shows "tr_Case r = o'" "tr_Events r = []" "tr_OpensNewCase r" "tr_ID r = TransitionT7"
    "cmd_Trigger cmd = TriggerObserveFiring" "a_kind (cmd_Actor cmd) = ActorIngest"
  using assms(2)
  by (cases rule: Apply_edges; use assms(1) in \<open>auto simp: phase_iffs\<close>)+

interpretation applied: terminal_machine "apply_step U" case_wf "\<lambda>o'. c_state o' = CaseClosed" for U
  by unfold_locales (auto simp: apply_step_def rbind_Inr_iff intro: Apply_wf dest: Apply_closed(1))

text \<open>A closed case under every operation: the lifecycle part of the row and of the log is frozen.\<close>

lemma case_step_closed:
  assumes "case_step U (o', log) op = Inr (n, log')" "c_state o' = CaseClosed"
  shows "same_lifecycle n o'" "lifecycle_log log' = lifecycle_log log"
proof -
  from assms(1) have "same_lifecycle n o' \<and> lifecycle_log log' = lifecycle_log log"
  proof (cases rule: case_step_cases)
    case (transition cmd r)
    with Apply_closed [OF assms(2)] show ?thesis by (simp add: same_lifecycle_def)
  next
    case (other evs)
    then show ?thesis by simp
  qed
  then show "same_lifecycle n o'" "lifecycle_log log' = lifecycle_log log" by blast+
qed

interpretation frozen: step_machine "case_step U"
  "\<lambda>s. c_state a = CaseClosed \<and> same_lifecycle (fst s) a \<and> lifecycle_log (snd s) = L" for U a L
proof unfold_locales
  fix s op s'
  assume inv: "c_state a = CaseClosed \<and> same_lifecycle (fst s) a \<and> lifecycle_log (snd s) = L"
    and step: "case_step U s op = Inr s'"
  then have "c_state (fst s) = CaseClosed" by (simp add: same_lifecycle_def)
  with step case_step_closed [of U "fst s" "snd s" op "fst s'" "snd s'"] inv
  show "c_state a = CaseClosed \<and> same_lifecycle (fst s') a \<and> lifecycle_log (snd s') = L"
    by (simp add: same_lifecycle_def same_episode_def)
qed

section \<open>What a history proves about its end\<close>

text \<open>Some ingest command of the history reported the clearing, and its claim, clamped, is \<open>t\<close>.\<close>

definition upstream_said :: "CaseOp list \<Rightarrow> time \<Rightarrow> time \<Rightarrow> bool" where
  "upstream_said ops start t \<longleftrightarrow> (\<exists>cmd. OpApply cmd \<in> set ops \<and> cmd_Trigger cmd = TriggerObserveResolved \<and>
     a_kind (cmd_Actor cmd) = ActorIngest \<and> t = max (occurredAt (cmd_At cmd)) start)"

text \<open>What the reaper had in hand when it expired the case \<open>o'\<close> for the reason \<open>why\<close>.\<close>

definition reaped_on_evidence :: "Case \<Rightarrow> TransitionCommand \<Rightarrow> ResolveReason \<Rightarrow> bool" where
  "reaped_on_evidence o' cmd why \<longleftrightarrow> cmd_Trigger cmd = TriggerReap \<and> a_kind (cmd_Actor cmd) = ActorReaper \<and>
     \<not> ClosePending o' \<and>
     (why = ResolveTimeout \<and> cmd_SourceHealthy cmd \<and> c_sourceEndsAt o' \<noteq> 0 \<and>
        c_sourceEndsAt o' + resolveGrace cmd < recordedAt (cmd_At cmd) \<or>
      why = ResolveSilent \<and> cmd_SourceHealthy cmd \<and> 0 < cmd_MaxSilence cmd \<and>
        c_lastObservedAt o' + cmd_MaxSilence cmd < recordedAt (cmd_At cmd) \<or>
      why = ResolveSourceRemoved \<and> cmd_NoLiveSource cmd)"

lemma upstream_said_mono: "upstream_said ops start t \<Longrightarrow> upstream_said (ops @ [op]) start t"
  by (auto simp: upstream_said_def)

lemma history_wf:
  assumes "history U p ops = Inr (o', log)"
  shows "case_wf o'" "c_startedAt o' = recordedAt (p_At p)" "c_id o' = p_ID p" "c_orgID o' = p_OrgID p"
    "c_alertID o' = p_AlertID p" "c_seq o' = p_Seq p"
proof -
  obtain s where s: "OpenNewCase U p = Inr s" "run_steps (case_step U) s ops = Inr (o', log)"
    using assms by (auto simp: history_def rbind_Inr_iff)
  then have new: "NewCase (openCaseParams p) = Inr (fst s)"
    using OpenNewCase_Inr(1) [of U p "fst s" "snd s"] by simp
  have "case_wf o' \<and> same_episode o' (fst s)"
    using life.run_inv [OF _ s(2), of "fst s"] NewCase_wf [OF new] by simp
  with NewCase_fields [OF new] show "case_wf o'" "c_startedAt o' = recordedAt (p_At p)" "c_id o' = p_ID p"
    "c_orgID o' = p_OrgID p" "c_alertID o' = p_AlertID p" "c_seq o' = p_Seq p"
    by (simp_all add: same_episode_def openCaseParams_def)
qed

lemma opened_episode:
  assumes "OpenNewCase U p = Inr (o', log)"
  shows "episode_of o' = Firing" "c_state o' = CaseOpen" "c_suppressCount o' = 0"
    "c_suppressionReason o' = SuppressionZero"
  using NewCase_fields [OF OpenNewCase_Inr(1) [OF assms]]
  by (simp_all add: openCaseParams_def zeroCase_def episode_of_def ClosePending_def)

lemma resolved_trigger_actor:
  "Apply U o' cmd = Inr r \<Longrightarrow> signal_of cmd = Clears c h w \<Longrightarrow>
     cmd_Trigger cmd = TriggerObserveResolved \<and> a_kind (cmd_Actor cmd) = ActorIngest \<and> c = occurredAt (cmd_At cmd)"
  by (erule Apply_edges) (auto simp: signal_of_def)

lemma history_upstream:
  assumes "history U p ops = Inr s" "0 < recordedAt (p_At p)"
  shows "(\<forall>d e. episode_of (fst s) = Receipt d e \<longrightarrow> upstream_said ops (recordedAt (p_At p)) e) \<and>
    (\<forall>t. episode_of (fst s) = Ended ResolveUpstream t \<longrightarrow> upstream_said ops (recordedAt (p_At p)) t)"
  (is "?P ops (fst s)")
  using assms(1)
proof (induction rule: history_induct)
  case (opened o' log)
  then show ?case by (simp add: opened_episode)
next
  case (step ops op o' log n log')
  note wf = history_wf(1,2) [OF step(1)]
  from step(2) show ?case
  proof (cases rule: case_step_cases)
    case (transition cmd r)
    have "episode_step (c_startedAt o') (episode_of o') (signal_of cmd) (episode_of n)"
      using Apply_simulates [OF transition(2)] wf assms(2) transition(3) by (simp add: case_wf_ok)
    then show ?thesis
      using step(3) resolved_trigger_actor [OF transition(2)] transition(1) wf(2)
      by cases (auto simp: upstream_said_def oto_defs)
  next
    case (other evs)
    then show ?thesis using step(3) by (simp add: same_lifecycle_def upstream_said_mono)
  qed
qed

lemma Apply_expires:
  assumes "Apply U o' cmd = Inr r" "IsExpiry why" "episode_of (tr_Case r) = Ended why t"
    "c_state o' \<noteq> CaseClosed"
  shows "reaped_on_evidence o' cmd why"
  using assms(1)
proof (cases rule: Apply_edges)
  case T6
  from T6(6,7) assms(3) show ?thesis
    by (simp add: reaped_on_evidence_def T6(2,4,5) episode_of_def)
      (cases why; simp add: expiryAdmits_def split: if_splits)
qed (use assms in \<open>auto simp: episode_of_def phase_iffs oto_defs dropPending_def split: if_splits\<close>)

lemma history_expired:
  assumes "history U p ops = Inr s" "IsExpiry why"
  shows "episode_of (fst s) = Ended why t \<longrightarrow>
    (\<exists>ops1 cmd ops2 o1 log1. ops = ops1 @ OpApply cmd # ops2 \<and> history U p ops1 = Inr (o1, log1) \<and>
       reaped_on_evidence o1 cmd why)"
  using assms(1)
proof (induction rule: history_induct)
  case (opened o' log)
  then show ?case by (simp add: opened_episode)
next
  case (step ops op o' log n log')
  show ?case
  proof (cases "c_state o' = CaseClosed")
    case True
    with case_step_closed(1) [OF step(2)] have "episode_of n = episode_of o'"
      by (simp add: same_lifecycle_def)
    with step(3) show ?thesis by (metis append.assoc append_Cons)
  next
    case False
    from step(2) show ?thesis
    proof (cases rule: case_step_cases)
      case (transition cmd r)
      with Apply_expires [OF transition(2) assms(2) _ False] step(1) show ?thesis by blast
    next
      case (other evs)
      with False have "episode_of n \<noteq> Ended why t" by (simp add: same_lifecycle_def episode_of_def)
      then show ?thesis by simp
    qed
  qed
qed

section \<open>The dedupe keys of one episode\<close>

text \<open>The keys an episode may have written so far: \<open>m\<close> suppressions, \<open>u\<close> of them lifted, closed or not.\<close>

definition key_set :: "uuidlib \<Rightarrow> uuid \<Rightarrow> int \<Rightarrow> int \<Rightarrow> bool \<Rightarrow> string set" where
  "key_set U i m u c = (\<lambda>suf. ''case:'' @ uuidString U i @ suf) `
     ({'':opened''} \<union> {'':suppressed:'' @ itoa k | k. 0 \<le> k \<and> k \<le> m} \<union>
      {'':unsuppressed:'' @ itoa k | k. 0 \<le> k \<and> k \<le> u} \<union> (if c then {'':resolved'', '':expired''} else {}))"

definition lifted :: "Case \<Rightarrow> int" where
  "lifted o' = (if c_suppressionReason o' = SuppressionZero then c_suppressCount o' else c_suppressCount o' - 1)"

definition keys_inv :: "uuidlib \<Rightarrow> Case \<Rightarrow> Event list \<Rightarrow> bool" where
  "keys_inv U o' log \<longleftrightarrow> distinct (map ev_dedupeKey (lifecycle_log log)) \<and>
     ev_dedupeKey ` set (lifecycle_log log) \<subseteq>
       key_set U (c_id o') (c_suppressCount o') (lifted o') (c_state o' = CaseClosed)"

lemma key_set_mono: "m \<le> m' \<Longrightarrow> u \<le> u' \<Longrightarrow> c \<le> c' \<Longrightarrow> key_set U i m u c \<subseteq> key_set U i m' u' c'"
  unfolding key_set_def by (intro image_mono Un_mono) (auto split: if_splits)

lemma fresh_keys:
  "0 \<le> m \<Longrightarrow> ''case:'' @ uuidString U i @ '':suppressed:'' @ itoa (m + 1) \<notin> key_set U i m u c"
  "0 \<le> m \<Longrightarrow> ''case:'' @ uuidString U i @ '':unsuppressed:'' @ itoa m \<notin> key_set U i m (m - 1) c"
  "''case:'' @ uuidString U i @ '':resolved'' \<notin> key_set U i m u False"
  "''case:'' @ uuidString U i @ '':expired'' \<notin> key_set U i m u False"
  by (auto simp: key_set_def itoa_nonneg_inj)

lemma written_keys:
  "0 \<le> m \<Longrightarrow> ''case:'' @ uuidString U i @ '':suppressed:'' @ itoa (m + 1) \<in> key_set U i (m + 1) u c"
  "0 \<le> u \<Longrightarrow> ''case:'' @ uuidString U i @ '':unsuppressed:'' @ itoa u \<in> key_set U i m u c"
  "''case:'' @ uuidString U i @ '':resolved'' \<in> key_set U i m u True"
  "''case:'' @ uuidString U i @ '':expired'' \<in> key_set U i m u True"
  by (auto simp: key_set_def image_iff)

lemma keys_inv_quiet:
  assumes "keys_inv U o' log" "lifecycle_log evs = []" "c_id n = c_id o'"
    "c_suppressCount o' \<le> c_suppressCount n" "lifted o' \<le> lifted n"
    "c_state o' = CaseClosed \<longrightarrow> c_state n = CaseClosed"
  shows "keys_inv U n (log @ evs)"
proof -
  have "key_set U (c_id o') (c_suppressCount o') (lifted o') (c_state o' = CaseClosed) \<subseteq>
      key_set U (c_id n) (c_suppressCount n) (lifted n) (c_state n = CaseClosed)"
    unfolding assms(3) using assms by (intro key_set_mono) auto
  with assms(1,2) show ?thesis by (auto simp: keys_inv_def)
qed

lemma keys_inv_event:
  assumes "keys_inv U o' log" "ev_typ ev \<in> set lifecycle_types" "c_id n = c_id o'"
    "c_suppressCount o' \<le> c_suppressCount n" "lifted o' \<le> lifted n"
    "c_state o' = CaseClosed \<longrightarrow> c_state n = CaseClosed"
    "ev_dedupeKey ev \<notin> key_set U (c_id o') (c_suppressCount o') (lifted o') (c_state o' = CaseClosed)"
    "ev_dedupeKey ev \<in> key_set U (c_id o') (c_suppressCount n) (lifted n) (c_state n = CaseClosed)"
  shows "keys_inv U n (log @ [ev])"
proof -
  have "keys_inv U n (log @ [])"
    by (rule keys_inv_quiet [OF assms(1)]) (use assms in auto)
  moreover have "lifecycle_log [ev] = [ev]" using assms(2) by (simp add: lifecycle_log_def)
  ultimately show ?thesis using assms(1,3,7,8) by (auto simp: keys_inv_def)
qed

lemma Apply_keys:
  assumes "Apply U o' cmd = Inr r" "case_wf o'" "keys_inv U o' log"
  shows "keys_inv U (tr_Case r) (log @ tr_Events r)"
proof -
  have m: "0 \<le> c_suppressCount o'" using assms(2) by (simp add: case_wf_def)
  note quiet = keys_inv_quiet [OF assms(3)] and event = keys_inv_event [OF assms(3)]
  note evs = lifecycle_types_def lifted_def phase_iffs dedupeKeyFor_def
  from assms(1) show ?thesis
  proof (cases rule: Apply_edges)
    case T2
    then show ?thesis
      by (intro quiet) (auto simp: lifecycle_log_def lifecycle_types_def lifted_def)
  next
    case T3
    then obtain ev where "tr_Events r = [ev]" "ev_typ ev = EventCaseSuppressed"
      "ev_dedupeKey ev = dedupeKeyFor U TransitionT3 (tr_Case r)" by blast
    with T3 fresh_keys(1) [OF m] written_keys(1) [OF m] show ?thesis
      by (simp only:) (intro event; simp add: evs)
  next
    case T4
    then obtain ev where "tr_Events r = [ev]" "ev_typ ev = EventCaseUnsuppressed"
      "ev_dedupeKey ev = dedupeKeyFor U TransitionT4 (tr_Case r)" by blast
    with T4 fresh_keys(2) [OF m] written_keys(2) [OF m] show ?thesis
      by (simp only:) (intro event; simp add: evs)
  next
    case T5_due
    then obtain ev where "tr_Events r = [ev]" "ev_typ ev = EventCaseResolved"
      "ev_dedupeKey ev = dedupeKeyFor U TransitionT5 (tr_Case r)" by blast
    with T5_due fresh_keys(3) written_keys(3) show ?thesis
      by (simp only:) (intro event; simp add: evs)
  next
    case T5_defer
    then show ?thesis by (intro quiet) (simp_all add: lifted_def)
  next
    case T5_close
    then obtain ev where "tr_Events r = [ev]" "ev_typ ev = EventCaseResolved"
      "ev_dedupeKey ev = dedupeKeyFor U TransitionT5 (tr_Case r)" by blast
    with T5_close fresh_keys(3) written_keys(3) show ?thesis
      by (simp only:) (intro event; auto simp: evs)
  next
    case T6
    then obtain ev where "tr_Events r = [ev]" "ev_typ ev = EventCaseExpired"
      "ev_dedupeKey ev = dedupeKeyFor U TransitionT6 (tr_Case r)" by blast
    with T6 fresh_keys(4) written_keys(4) show ?thesis
      by (simp only:) (intro event; auto simp: evs)
  next
    case T7
    then show ?thesis using assms(3) by simp
  qed
qed

interpretation keys: step_machine "case_step U" "\<lambda>s. case_wf (fst s) \<and> keys_inv U (fst s) (snd s)" for U
proof unfold_locales
  fix s op s'
  assume inv: "case_wf (fst s) \<and> keys_inv U (fst s) (snd s)" and step: "case_step U s op = Inr s'"
  then have step': "case_step U (fst s, snd s) op = Inr (fst s', snd s')" by simp
  then have "keys_inv U (fst s') (snd s')"
  proof (cases rule: case_step_cases)
    case (transition cmd r)
    with inv Apply_keys [OF transition(2)] show ?thesis by simp
  next
    case (other evs)
    with inv show ?thesis
      by (auto intro!: keys_inv_quiet simp: same_lifecycle_def same_episode_def lifted_def)
  qed
  with inv step' show "case_wf (fst s') \<and> keys_inv U (fst s') (snd s')"
    using case_step_wf(1) by blast
qed

end
