(* ===== verification/Lifecycle_Correct.thy ===== *)
theory Lifecycle_Correct
  imports Lifecycle_Runs
begin

text \<open>
  The correctness properties of the alert lifecycle (\<^verbatim>\<open>internal/alerts/domain/lifecycle.go\<close> and
  \<^verbatim>\<open>case.go\<close>), each with a concrete run on which its hypotheses hold. The runs share the example
  episode of the first section.
\<close>

section \<open>An example episode\<close>

definition ingest :: Actor where
  "ingest = \<lparr>a_kind = ActorIngest, a_id = ''src'', a_label = ''alertmanager''\<rparr>"

definition reconciler :: Actor where
  "reconciler = \<lparr>a_kind = ActorReconciler, a_id = ''src'', a_label = ''reconciler''\<rparr>"

definition reaper :: Actor where
  "reaper = \<lparr>a_kind = ActorReaper, a_id = ''oto'', a_label = ''reaper''\<rparr>"

definition at :: "time \<Rightarrow> time \<Rightarrow> ObservationTime" where
  "at occurred recorded = \<lparr>occurredAt = occurred, recordedAt = recorded\<rparr>"

definition ex_open :: OpenCaseParams where
  "ex_open = \<lparr>p_ID = 7, p_OrgID = 1, p_AlertID = 3, p_Seq = 1, p_Actor = ingest, p_At = at 100 110,
     p_SourceStartsAt = 0, p_SourceEndsAt = 0, p_SourceUpdatedAt = 0, p_Value = None,
     p_ObservedSkew = 0, p_EventID = 50, p_Summary = [], p_Payload = []\<rparr>"

definition ex_cmd :: "Trigger \<Rightarrow> Actor \<Rightarrow> time \<Rightarrow> TransitionCommand" where
  "ex_cmd tg who t = \<lparr>cmd_Trigger = tg, cmd_Actor = who, cmd_At = at (t - 5) t, cmd_EventID = 51,
     cmd_SuppressionReason = SuppressionSilence, cmd_SuppressedBy = noSuppressedBy,
     cmd_SourceEndsAt = 0, cmd_SourceUpdatedAt = 0, cmd_ResolveGrace = 0, cmd_CaseRetention = 0,
     cmd_SourceHealthy = True, cmd_ExpireAs = ResolveSilent, cmd_MaxSilence = 30, cmd_NoLiveSource = False,
     cmd_MaterialChange = False, cmd_Value = None, cmd_ObservedSkew = 0, cmd_Summary = [], cmd_Payload = []\<rparr>"

definition ex_resolve :: "duration \<Rightarrow> TransitionCommand" where
  "ex_resolve w = (ex_cmd TriggerObserveResolved ingest 200)\<lparr>cmd_CaseRetention := w\<rparr>"

definition ex_run :: "CaseOp list \<Rightarrow> (Case \<times> Event list) result" where
  "ex_run ops = history canonical_lib ex_open ops"

definition ex_case :: Case where
  "ex_case = (openCaseParams ex_open)\<lparr>c_stateVersion := 1\<rparr>"

text \<open>The equations that evaluate the example runs.\<close>

lemma ex_lib: "uuidString canonical_lib = canonical_uuid"
  by (simp add: canonical_lib_def)

lemmas ex_data = ex_run_def ex_case_def ex_open_def ex_cmd_def ex_resolve_def at_def ingest_def
  reconciler_def reaper_def openCaseParams_def zeroCase_def noSuppressedBy_def

lemmas ex_eval = ex_data ex_lib history_def OpenNewCase_def NewCase_def requireID_def check_def
  MaxAckNoteBytes_def Let_def NewEvent_ok event_bounds summaryOr_def defaultSummary_def
  TrimSpace_plain printable_def dedupeKeyFor_def length_canonical_uuid
  Apply_def selectRule_def transitionTable_def case_readings applyArm_def arm_defs finishApply_def
  observe_def dropPending_def clampEnd_def expireReason_def expiryAdmits_def resolveGrace_def
  recordClamp_def EventType_IsZero_def itoa_nonneg utoa.simps [of 1] oto_defs

lemma ex_case_wf: "case_wf ex_case" "0 < c_startedAt ex_case"
  by (simp_all add: ex_data case_wf_def case_ok_def check_None_iff)

section \<open>Refinement and invariants\<close>

text \<open>
  C1. Every transition \<open>Apply\<close> accepts is a move of the abstract episode: a firing, muted or receipted
  episode moves only as \<open>episode_step\<close> allows, the clearing of a firing episode under a retention
  window becomes a receipt due that much later, an expiry ends it at the reaper's clock, and every
  end is clamped to the start.
\<close>

theorem Apply_refines:
  assumes "case_wf o'" "0 < c_startedAt o'" "Apply U o' cmd = Inr r"
  shows "episode_step (c_startedAt o') (episode_of o') (signal_of cmd) (episode_of (tr_Case r))"
  using assms by (intro Apply_simulates) (simp_all add: case_wf_ok)

theorem Apply_refines_witness:
  "\<exists>r. Apply canonical_lib ex_case (ex_resolve 10) = Inr r \<and>
     episode_step 110 Firing (Clears 195 200 10) (episode_of (tr_Case r)) \<and>
     episode_of (tr_Case r) = Receipt 210 195"
proof -
  obtain r where r: "Apply canonical_lib ex_case (ex_resolve 10) = Inr r"
    and e: "episode_of (tr_Case r) = Receipt 210 195"
    by (simp add: ex_eval episode_of_def)
  have "c_startedAt ex_case = 110" "episode_of ex_case = Firing" "signal_of (ex_resolve 10) = Clears 195 200 10"
    by (simp_all add: ex_eval episode_of_def signal_of_def)
  with Apply_refines [OF ex_case_wf r] r e show ?thesis by auto
qed

text \<open>
  C2. Whatever sequence of transitions, acknowledgements and rule snapshots is applied to an opened
  episode, its row satisfies the invariant \<open>check\<close>, its counters stay legal, and its identity (id,
  organisation, alert, sequence number, start) is the one it was opened with.
\<close>

theorem history_invariant:
  assumes "history U p ops = Inr (o', log)"
  shows "case_wf o' \<and> c_id o' = p_ID p \<and> c_orgID o' = p_OrgID p \<and> c_alertID o' = p_AlertID p \<and>
    c_seq o' = p_Seq p \<and> c_startedAt o' = recordedAt (p_At p)"
  using history_wf [OF assms] by simp

theorem history_invariant_witness:
  "\<exists>o' log. ex_run [OpApply (ex_cmd TriggerObserveSuppressed reconciler 150), OpApply (ex_resolve 10)] = Inr (o', log) \<and>
     case_wf o' \<and> c_seq o' = 1"
proof -
  obtain o' log where h: "ex_run [OpApply (ex_cmd TriggerObserveSuppressed reconciler 150), OpApply (ex_resolve 10)] = Inr (o', log)"
    by (simp add: ex_eval)
  from history_invariant [OF h [unfolded ex_run_def]] h show ?thesis by (simp add: ex_open_def)
qed

text \<open>
  C3. A closed episode is final: every sequence of transition commands that is accepted leaves the row
  exactly as it was, and with acknowledgements in between it still keeps its state, reason and end
  and appends no further lifecycle event.
\<close>

theorem closed_case_is_final:
  assumes "case_wf o'" "c_state o' = CaseClosed"
    and "run_steps (case_step U) (o', log) ops = Inr (n, log')"
  shows "episode_of n = episode_of o' \<and> c_resolveReason n = c_resolveReason o' \<and>
    c_endedAt n = c_endedAt o' \<and> lifecycle_log log' = lifecycle_log log \<and>
    (\<forall>cmds o''. run_steps (apply_step U) o' cmds = Inr o'' \<longrightarrow> o'' = o')"
  using frozen.run_inv [OF _ assms(3), of o' "lifecycle_log log"] assms(2)
    applied.final_run [OF assms(1,2)]
  by (auto simp: same_lifecycle_def)

theorem closed_case_is_final_witness:
  "\<exists>o' log n log'. ex_run [OpApply (ex_resolve 0)] = Inr (o', log) \<and> c_state o' = CaseClosed \<and>
     run_steps (case_step canonical_lib) (o', log)
       [OpApply (ex_cmd TriggerObserveFiring ingest 300), OpSnapshot 9] = Inr (n, log') \<and>
     c_endedAt n = 195 \<and> length (lifecycle_log log') = 2"
proof -
  obtain o' log n log' where h: "ex_run [OpApply (ex_resolve 0)] = Inr (o', log)" "c_state o' = CaseClosed"
      "case_wf o'" "c_endedAt o' = 195" "length (lifecycle_log log) = 2"
      "run_steps (case_step canonical_lib) (o', log)
         [OpApply (ex_cmd TriggerObserveFiring ingest 300), OpSnapshot 9] = Inr (n, log')"
    by (simp add: ex_eval lifecycle_log_def lifecycle_types_def resultT7_def WithRuleSnapshot_def
        case_wf_def case_ok_def)
  from closed_case_is_final [OF h(3,2,6)] h show ?thesis by auto
qed

section \<open>What the end of an episode means\<close>

text \<open>
  C4. An alert reads as resolved only because upstream said so: some ingest command of the episode's
  history reported the clearing, and the recorded end is that command's claim, clamped to the start.
  No other actor and no timer can produce it.
\<close>

theorem resolved_means_upstream_said_so:
  assumes "history U p ops = Inr (o', log)" "0 < recordedAt (p_At p)" "AlertState o' = StateResolved"
  shows "upstream_said ops (c_startedAt o') (c_endedAt o')"
proof -
  have wf: "case_wf o'" "c_startedAt o' = recordedAt (p_At p)" by (rule history_wf [OF assms(1)])+
  with assms(3) have "c_resolveReason o' = ResolveUpstream" "c_state o' = CaseClosed"
    by (cases "c_resolveReason o'";
      simp add: case_wf_def case_ok_def check_None_iff AlertState_def oto_defs split: if_splits)+
  then have "episode_of o' = Ended ResolveUpstream (c_endedAt o')" by (simp add: episode_of_def)
  with history_upstream [OF assms(1,2)] wf(2) show ?thesis by simp
qed

theorem resolved_means_upstream_said_so_witness:
  "\<exists>o' log. ex_run [OpApply (ex_resolve 10), OpApply (ex_cmd TriggerCloseDue reaper 300)] = Inr (o', log) \<and>
     AlertState o' = StateResolved \<and>
     upstream_said [OpApply (ex_resolve 10), OpApply (ex_cmd TriggerCloseDue reaper 300)] 110 195"
proof -
  obtain o' log where h: "ex_run [OpApply (ex_resolve 10), OpApply (ex_cmd TriggerCloseDue reaper 300)] = Inr (o', log)"
      "AlertState o' = StateResolved" "c_startedAt o' = 110" "c_endedAt o' = 195"
    by (simp add: ex_eval)
  from resolved_means_upstream_said_so [OF h(1) [unfolded ex_run_def] _ h(2)] h show ?thesis
    by (simp add: ex_data)
qed

text \<open>
  C5. An alert reads as expired only on the reaper's evidence: at some point of the history the reaper
  held, for the case as it then stood and with no receipt pending, a healthy source and an elapsed
  resolve grace, or a healthy source and an elapsed silence, or no live source at all.
\<close>

theorem expired_means_evidence:
  assumes "history U p ops = Inr (o', log)" "AlertState o' = StateExpired"
  shows "\<exists>ops1 cmd ops2 o1 log1. ops = ops1 @ OpApply cmd # ops2 \<and> history U p ops1 = Inr (o1, log1) \<and>
    reaped_on_evidence o1 cmd (c_resolveReason o')"
proof -
  have "IsExpiry (c_resolveReason o')" "episode_of o' = Ended (c_resolveReason o') (c_endedAt o')"
    using assms(2) by (auto simp: AlertState_def oto_defs episode_of_def split: if_splits)
  with history_expired [OF assms(1)] show ?thesis by simp
qed

theorem expired_means_evidence_witness:
  "\<exists>o' log cmd o1. ex_run [OpApply (ex_cmd TriggerReap reaper 300)] = Inr (o', log) \<and>
     AlertState o' = StateExpired \<and> reaped_on_evidence o1 cmd ResolveSilent"
proof -
  obtain o' log where h: "ex_run [OpApply (ex_cmd TriggerReap reaper 300)] = Inr (o', log)"
      "AlertState o' = StateExpired" "c_resolveReason o' = ResolveSilent"
    by (simp add: ex_eval)
  from expired_means_evidence [OF h(1) [unfolded ex_run_def] h(2)] h show ?thesis by auto
qed

section \<open>Idempotency of the timeline\<close>

text \<open>
  C6. Within one episode no two lifecycle events carry the same dedupe key, however often it is
  suppressed and unsuppressed: the timeline's unique index never swallows a transition.
\<close>

theorem lifecycle_keys_distinct:
  assumes "history U p ops = Inr (o', log)"
  shows "distinct (map ev_dedupeKey (lifecycle_log log))"
proof -
  obtain s where s: "OpenNewCase U p = Inr s" "run_steps (case_step U) s ops = Inr (o', log)"
    using assms by (auto simp: history_def rbind_Inr_iff)
  then have opened: "OpenNewCase U p = Inr (fst s, snd s)" by simp
  have "keys_inv U (fst s) (snd s)"
    using OpenNewCase_Inr(2) [OF opened]
    by (auto simp: keys_inv_def key_set_def lifecycle_log_def lifecycle_types_def)
  with keys.run_inv [OF _ s(2)] NewCase_wf [OF OpenNewCase_Inr(1) [OF opened]] show ?thesis
    by (simp add: keys_inv_def)
qed

theorem lifecycle_keys_distinct_witness:
  "\<exists>o' log. ex_run [OpApply (ex_cmd TriggerObserveSuppressed reconciler 150),
      OpApply (ex_cmd TriggerObserveFiring ingest 160), OpApply (ex_resolve 0)] = Inr (o', log) \<and>
     length (lifecycle_log log) = 4 \<and> distinct (map ev_dedupeKey (lifecycle_log log))"
proof -
  obtain o' log where h: "ex_run [OpApply (ex_cmd TriggerObserveSuppressed reconciler 150),
      OpApply (ex_cmd TriggerObserveFiring ingest 160), OpApply (ex_resolve 0)] = Inr (o', log)"
      "length (lifecycle_log log) = 4"
    by (simp add: ex_eval lifecycle_log_def lifecycle_types_def)
  from lifecycle_keys_distinct [OF h(1) [unfolded ex_run_def]] h show ?thesis by auto
qed

lemma dedupeKeyFor_shape:
  "dedupeKeyFor U i o' \<noteq> [] \<Longrightarrow> \<exists>suf. dedupeKeyFor U i o' = ''case:'' @ uuidString U (c_id o') @ suf"
  by (cases i) (auto simp: dedupeKeyFor_def)

text \<open>
  Across episodes the keys never collide either: two transitions write the same non-empty key only
  when they are transitions of the same case. The hypothesis is the documented behaviour of the
  uuid package, that printed ids have 36 bytes and parse back.
\<close>

theorem dedupe_keys_identify_the_case:
  assumes "uuid_codec (uuidString U) (uuidParse U)"
    and "dedupeKeyFor U i a = dedupeKeyFor U j b" "dedupeKeyFor U i a \<noteq> []"
  shows "c_id a = c_id b"
proof -
  obtain s t where "''case:'' @ uuidString U (c_id a) @ s = ''case:'' @ uuidString U (c_id b) @ t"
    using assms(2,3) dedupeKeyFor_shape [of U i a] dedupeKeyFor_shape [of U j b] by metis
  then have "uuidString U (c_id a) = uuidString U (c_id b)"
    using uuid_codec.length_str [OF assms(1)] by simp
  then show ?thesis using uuid_codec.parse_str [OF assms(1)] by (metis option.inject)
qed

theorem dedupe_keys_identify_the_case_witness:
  "dedupeKeyFor canonical_lib TransitionT1 ex_case = dedupeKeyFor canonical_lib TransitionT7 (ex_case\<lparr>c_number := 9\<rparr>) \<and>
     c_id ex_case = c_id (ex_case\<lparr>c_number := 9\<rparr>)"
  using dedupe_keys_identify_the_case [of canonical_lib TransitionT1 ex_case TransitionT7 "ex_case\<lparr>c_number := 9\<rparr>"]
    canonical.uuid_codec_axioms
  by (simp add: canonical_lib_def dedupeKeyFor_def)

section \<open>The retention window\<close>

text \<open>
  C8. A flap inside the retention window is silent and stays one episode: a clearing of a firing episode
  under \<open>W > 0\<close> followed by a firing without a material change writes no event at all, opens no
  new case, and leaves the same open, unsuppressed, un-receipted episode.
\<close>

theorem flap_is_damped:
  assumes "lifecyclePhase o' = StateFiring" "Apply U o' c1 = Inr r1"
    "cmd_Trigger c1 = TriggerObserveResolved" "0 < cmd_CaseRetention c1"
    and "Apply U (tr_Case r1) c2 = Inr r2" "cmd_Trigger c2 = TriggerObserveFiring" "\<not> cmd_MaterialChange c2"
  shows "tr_Events r1 = [] \<and> tr_Events r2 = [] \<and> \<not> tr_OpensNewCase r2 \<and> same_episode (tr_Case r2) o' \<and>
    episode_of (tr_Case r2) = Firing \<and> c_suppressCount (tr_Case r2) = c_suppressCount o'"
proof -
  have r1: "tr_Events r1 = [] \<and> lifecyclePhase (tr_Case r1) = StateFiring \<and> same_episode (tr_Case r1) o' \<and>
      c_suppressCount (tr_Case r1) = c_suppressCount o'"
    using assms(2) by (cases rule: Apply_edges; use assms(1,3,4) in \<open>auto simp: phase_iffs same_episode_def\<close>)
  from assms(5) have r2: "tr_Events r2 = [] \<and> episode_of (tr_Case r2) = Firing \<and>
      c_suppressCount (tr_Case r2) = c_suppressCount (tr_Case r1)"
    by (cases rule: Apply_edges; use r1 assms(6,7) in \<open>auto simp: phase_iffs episode_of_def ClosePending_def\<close>)
  from r1 have "\<not> tr_OpensNewCase r2" using Apply_result(3) [OF assms(5)] by (simp add: phase_iffs)
  with r1 r2 Apply_same_episode [OF assms(5)] show ?thesis by (auto intro: same_episode_trans)
qed

theorem flap_is_damped_witness:
  "\<exists>r1 r2. Apply canonical_lib ex_case (ex_resolve 60) = Inr r1 \<and>
     Apply canonical_lib (tr_Case r1) (ex_cmd TriggerObserveFiring ingest 220) = Inr r2 \<and>
     tr_Events r1 = [] \<and> tr_Events r2 = [] \<and> episode_of (tr_Case r2) = Firing"
proof -
  obtain r1 r2 where h: "Apply canonical_lib ex_case (ex_resolve 60) = Inr r1"
      "Apply canonical_lib (tr_Case r1) (ex_cmd TriggerObserveFiring ingest 220) = Inr r2"
    by (simp add: ex_eval)
  have "lifecyclePhase ex_case = StateFiring" "cmd_Trigger (ex_resolve 60) = TriggerObserveResolved"
    "0 < cmd_CaseRetention (ex_resolve 60)"
    "cmd_Trigger (ex_cmd TriggerObserveFiring ingest 220) = TriggerObserveFiring"
    "\<not> cmd_MaterialChange (ex_cmd TriggerObserveFiring ingest 220)"
    by (simp_all add: ex_eval)
  with flap_is_damped [OF _ h(1) _ _ h(2)] h show ?thesis by auto
qed

text \<open>The rows a clearing leaves: a receipt, or the end of the episode; and the row a due receipt leaves.\<close>

definition receipted :: "Case \<Rightarrow> TransitionCommand \<Rightarrow> Case" where
  "receipted o' cmd = observe (o'\<lparr>c_resolvePendingAt := recordedAt (cmd_At cmd) + cmd_CaseRetention cmd,
     c_resolvePendingEndAt := max (occurredAt (cmd_At cmd)) (c_startedAt o'),
     c_lastObservedAt := recordedAt (cmd_At cmd)\<rparr>) cmd"

definition resolved :: "Case \<Rightarrow> TransitionCommand \<Rightarrow> Case" where
  "resolved o' cmd = dropPending (ClosePending o') (observe (o'\<lparr>c_state := CaseClosed,
     c_resolveReason := ResolveUpstream, c_suppressionReason := SuppressionZero, c_suppressedBy := noSuppressedBy,
     c_endedAt := max (occurredAt (cmd_At cmd)) (c_startedAt o'), c_lastObservedAt := recordedAt (cmd_At cmd)\<rparr>) cmd)"

definition due_closed :: "Case \<Rightarrow> Case" where
  "due_closed o' = o'\<lparr>c_state := CaseClosed, c_resolveReason := ResolveUpstream,
     c_suppressionReason := SuppressionZero, c_suppressedBy := noSuppressedBy,
     c_endedAt := c_resolvePendingEndAt o', c_resolvePendingAt := 0, c_resolvePendingEndAt := 0\<rparr>"

lemma Apply_receipted:
  assumes "Apply U o' cmd = Inr r" "lifecyclePhase o' = StateFiring" "cmd_Trigger cmd = TriggerObserveResolved"
    "0 < cmd_CaseRetention cmd"
  shows "tr_Case r = receipted o' cmd"
  using assms(1)
proof (cases rule: Apply_edges)
  case T5_defer
  then show ?thesis by (simp only: receipted_def)
qed (use assms(2-4) in \<open>simp_all only: Trigger.distinct State.distinct not_le simp_thms\<close>)

lemma Apply_resolved:
  assumes "Apply U o' cmd = Inr r" "lifecyclePhase o' = StateFiring" "cmd_Trigger cmd = TriggerObserveResolved"
    "cmd_CaseRetention cmd \<le> 0"
  shows "tr_Case r = resolved o' cmd \<and> check (tr_Case r) = None"
  using assms(1)
proof (cases rule: Apply_edges)
  case T5_close
  then show ?thesis by (simp only: resolved_def simp_thms)
qed (use assms(2-4) in \<open>simp_all only: Trigger.distinct State.distinct not_le [symmetric] simp_thms\<close>)

lemma Apply_due:
  assumes "Apply U o' cmd = Inr r" "cmd_Trigger cmd = TriggerCloseDue"
  shows "tr_Case r = due_closed o'"
  using assms(1) by (cases rule: Apply_edges; use assms(2) in \<open>simp add: due_closed_def\<close>)

lemma observe_retention [simp]: "observe o' (cmd\<lparr>cmd_CaseRetention := w\<rparr>) = observe o' cmd"
  by (simp add: observe_def)

lemma observed_fields:
  "c_sourceUpdatedAt (observe o' cmd) =
     (if cmd_SourceUpdatedAt cmd = 0 then c_sourceUpdatedAt o' else cmd_SourceUpdatedAt cmd)"
  "c_value (observe o' cmd) = (case cmd_Value cmd of Some v \<Rightarrow> Some v | None \<Rightarrow> c_value o')"
  "c_observedSkew (observe o' cmd) = (if cmd_ObservedSkew cmd = 0 then c_observedSkew o' else cmd_ObservedSkew cmd)"
  "c_sourceEndsAt (observe o' cmd) = (if cmd_SourceEndsAt cmd = 0 then c_sourceEndsAt o' else cmd_SourceEndsAt cmd)"
  "Case.more (observe o' cmd) = Case.more o'"
  by (simp_all add: observe_def)

lemma due_receipt_is_resolved:
  assumes "c_resolvePendingAt o' = 0 \<longleftrightarrow> c_resolvePendingEndAt o' = 0"
  shows "due_closed (receipted o' (cmd\<lparr>cmd_CaseRetention := w\<rparr>)) = resolved o' (cmd\<lparr>cmd_CaseRetention := v\<rparr>)"
  unfolding due_closed_def receipted_def resolved_def using assms
  by (intro Case.equality; cases "ClosePending o'";
      simp add: ClosePending_def observed_fields split: option.split)

text \<open>
  C9. Waiting costs the record nothing: a clearing deferred under \<open>W > 0\<close> and closed when it falls due
  leaves exactly the row an immediate close of the same observation would have left, so the end,
  and with it the duration, is upstream's claim and the window is not charged to it.
\<close>

theorem deferred_close_equals_immediate_close:
  assumes "case_ok o'" "lifecyclePhase o' = StateFiring" "cmd_Trigger cmd = TriggerObserveResolved"
    and "Apply U o' (cmd\<lparr>cmd_CaseRetention := w\<rparr>) = Inr r1" "0 < w"
    and "Apply U (tr_Case r1) due = Inr r2" "cmd_Trigger due = TriggerCloseDue"
    and "Apply U o' (cmd\<lparr>cmd_CaseRetention := 0\<rparr>) = Inr r0"
  shows "tr_Case r2 = tr_Case r0 \<and> Duration (tr_Case r2) now = t_sub (c_endedAt (tr_Case r0)) (c_startedAt o')"
proof -
  have p: "c_resolvePendingAt o' = 0 \<longleftrightarrow> c_resolvePendingEndAt o' = 0"
    using assms(1) by (simp add: case_ok_def check_None_iff)
  have r1: "tr_Case r1 = receipted o' (cmd\<lparr>cmd_CaseRetention := w\<rparr>)"
    using Apply_receipted [OF assms(4,2)] assms(3,5) by simp
  have r0: "tr_Case r0 = resolved o' (cmd\<lparr>cmd_CaseRetention := 0\<rparr>)" and ok0: "check (tr_Case r0) = None"
    using Apply_resolved [OF assms(8,2)] assms(3) by auto
  have eq: "tr_Case r2 = tr_Case r0"
    using due_receipt_is_resolved [OF p] Apply_due [OF assms(6,7)] r1 r0 by simp
  have "c_state (tr_Case r0) = CaseClosed" "c_startedAt (tr_Case r0) = c_startedAt o'"
    using r0 by (simp_all add: resolved_def)
  with ok0 have "c_endedAt (tr_Case r0) \<noteq> 0" by (simp add: check_None_iff)
  with eq \<open>c_startedAt (tr_Case r0) = c_startedAt o'\<close> show ?thesis by (simp add: Duration_def)
qed

theorem deferred_close_equals_immediate_close_witness:
  "\<exists>r1 r2 r0. Apply canonical_lib ex_case (ex_resolve 60) = Inr r1 \<and>
     Apply canonical_lib (tr_Case r1) (ex_cmd TriggerCloseDue reaper 500) = Inr r2 \<and>
     Apply canonical_lib ex_case (ex_resolve 0) = Inr r0 \<and> tr_Case r2 = tr_Case r0"
proof -
  obtain r1 r2 r0 where h: "Apply canonical_lib ex_case (ex_resolve 60) = Inr r1"
      "Apply canonical_lib (tr_Case r1) (ex_cmd TriggerCloseDue reaper 500) = Inr r2"
      "Apply canonical_lib ex_case (ex_resolve 0) = Inr r0"
    by (simp add: ex_eval)
  let ?cmd = "ex_cmd TriggerObserveResolved ingest 200"
  have "case_ok ex_case" "lifecyclePhase ex_case = StateFiring" "cmd_Trigger ?cmd = TriggerObserveResolved"
    "cmd_Trigger (ex_cmd TriggerCloseDue reaper 500) = TriggerCloseDue"
    using ex_case_wf by (simp_all add: ex_eval case_wf_ok)
  with deferred_close_equals_immediate_close [OF _ _ _ h(1) [unfolded ex_resolve_def] _ h(2) _ h(3) [unfolded ex_resolve_def]] h
  show ?thesis by auto
qed

section \<open>Acceptance, refusal and the next episode\<close>

lemma defaultSummary_T5: "defaultSummary TransitionT5 a b c = ''Case resolved upstream''"
  by (simp add: defaultSummary_def)

lemma summaryOr_fits:
  assumes "length s \<le> MaxEventSummaryBytes"
  shows "TrimSpace (summaryOr s ''Case resolved upstream'') \<noteq> []"
    "length (TrimSpace (summaryOr s ''Case resolved upstream'')) \<le> MaxEventSummaryBytes"
proof -
  have "TrimSpace ''Case resolved upstream'' = ''Case resolved upstream''"
    by (rule TrimSpace_plain) (simp_all add: printable_def)
  then show "TrimSpace (summaryOr s ''Case resolved upstream'') \<noteq> []"
    "length (TrimSpace (summaryOr s ''Case resolved upstream'')) \<le> MaxEventSummaryBytes"
    using assms length_TrimSpace [of s] by (auto simp: summaryOr_def event_bounds)
qed

lemma finishApply_T5_accepts:
  assumes "r_id rule = TransitionT5" "r_event rule = EventCaseResolved" "check n = None"
    and "deferred \<Longrightarrow> lifecyclePhase o' \<noteq> StateSuppressed"
    and "cmd_EventID cmd \<noteq> 0" "c_orgID n \<noteq> 0" "c_id n \<noteq> 0"
    and "\<not> ObservationTime_IsZero (cmd_At cmd)" "\<not> Actor_IsZero (cmd_Actor cmd)"
    and "length (cmd_Summary cmd) \<le> MaxEventSummaryBytes" "length (uuidString U (c_id n)) = 36"
  shows "\<exists>r. finishApply U rule o' cmd (n, extra, delta, deferred) = Inr r"
  using assms summaryOr_fits [OF assms(10)]
  by (simp add: finishApply_def Let_def NewEvent_ok defaultSummary_T5 dedupeKeyFor_def EventType_IsZero_def
      event_bounds)

text \<open>The rows a clearing leaves satisfy the invariant when the row it found does.\<close>

lemma arm_T5_rows:
  "fst (arm_T5_defer o' cmd) = receipted o' cmd" "snd (snd (snd (arm_T5_defer o' cmd)))"
  "fst (arm_T5_close o' cmd) = resolved o' cmd" "\<not> snd (snd (snd (arm_T5_close o' cmd)))"
  by (simp_all add: arm_T5_defer_def arm_T5_close_def clampEnd_eq receipted_def resolved_def)

lemma receipted_check:
  assumes "check o' = None" "lifecyclePhase o' = StateFiring" "0 < c_startedAt o'" "0 < cmd_CaseRetention cmd"
    "c_startedAt o' \<le> recordedAt (cmd_At cmd)"
    "cmd_SourceEndsAt cmd \<noteq> 0 \<Longrightarrow> c_sourceStartsAt o' \<le> cmd_SourceEndsAt cmd"
  shows "check (receipted o' cmd) = None"
  using assms unfolding check_None_iff receipted_def phase_iffs observe_fields
  by (simp add: observe_sourceEndsAt)

lemma resolved_check:
  assumes "check o' = None" "0 < c_startedAt o'" "c_startedAt o' \<le> recordedAt (cmd_At cmd)"
    "cmd_SourceEndsAt cmd \<noteq> 0 \<Longrightarrow> c_sourceStartsAt o' \<le> cmd_SourceEndsAt cmd"
  shows "check (resolved o' cmd) = None"
  using assms unfolding check_None_iff resolved_def
  by (cases "ClosePending o'") (simp_all add: observe_sourceEndsAt ClosePending_def)

lemma clearing_ids: "c_id (receipted o' cmd) = c_id o'" "c_orgID (receipted o' cmd) = c_orgID o'"
  "c_id (resolved o' cmd) = c_id o'" "c_orgID (resolved o' cmd) = c_orgID o'"
  by (simp_all add: receipted_def resolved_def)

text \<open>
  C10. The machine does not lose a clearing: on every open well-formed episode an ingest report of
  the clearing heard after its start is accepted, under any retention window, as long as the claimed
  source interval is ordered, the event id is set, the summary fits and ids print as the uuid
  package documents.
\<close>

theorem clearing_is_accepted:
  assumes "case_wf o'" "c_state o' = CaseOpen" "0 < c_startedAt o'"
    and "cmd_Trigger cmd = TriggerObserveResolved" "a_kind (cmd_Actor cmd) = ActorIngest"
    and "c_startedAt o' \<le> recordedAt (cmd_At cmd)"
    and "cmd_SourceEndsAt cmd \<noteq> 0 \<Longrightarrow> c_sourceStartsAt o' \<le> cmd_SourceEndsAt cmd"
    and "cmd_EventID cmd \<noteq> 0" "length (cmd_Summary cmd) \<le> MaxEventSummaryBytes"
    and "uuid_codec (uuidString U) (uuidParse U)"
  shows "\<exists>r. Apply U o' cmd = Inr r \<and> tr_ID r = TransitionT5"
proof -
  have ok: "check o' = None" and ids: "c_orgID o' \<noteq> 0" "c_id o' \<noteq> 0"
    using assms(1) by (simp_all add: case_wf_def case_ok_def)
  have ph: "lifecyclePhase o' = StateFiring \<or> lifecyclePhase o' = StateSuppressed"
    using assms(2) by (auto simp: phase_iffs)
  then obtain rule where rule: "selectRule o' cmd = Inr rule" "r_id rule = TransitionT5"
      "r_event rule = EventCaseResolved" "permits (r_actors rule) ActorIngest"
    using assms(4) by (auto simp: selectRule_def transitionTable_def)
  have "\<exists>n x d b. arm_T5 o' cmd = Inr (n, x, d, b) \<and> check n = None \<and> c_id n = c_id o' \<and>
      c_orgID n = c_orgID o' \<and> (b \<longrightarrow> lifecyclePhase o' \<noteq> StateSuppressed)"
  proof (cases "0 < cmd_CaseRetention cmd \<and> lifecyclePhase o' \<noteq> StateSuppressed")
    case True
    then have "check (receipted o' cmd) = None"
      using ph assms(3,6,7) by (intro receipted_check [OF ok]) auto
    with True assms(4) arm_T5_rows(1) [of o' cmd] show ?thesis
      by (cases "arm_T5_defer o' cmd") (auto simp: arm_T5_def clearing_ids)
  next
    case False
    have "check (resolved o' cmd) = None" using assms(3,6,7) by (intro resolved_check [OF ok]) auto
    with False assms(4) arm_T5_rows(3,4) [of o' cmd] show ?thesis
      by (cases "arm_T5_close o' cmd") (auto simp: arm_T5_def clearing_ids)
  qed
  then obtain n x d b where arm: "arm_T5 o' cmd = Inr (n, x, d, b)" and n: "check n = None" "c_orgID n \<noteq> 0"
      "c_id n \<noteq> 0" and b: "b \<longrightarrow> lifecyclePhase o' \<noteq> StateSuppressed"
    using ids by auto
  have "\<not> ObservationTime_IsZero (cmd_At cmd)" "\<not> Actor_IsZero (cmd_Actor cmd)"
    using assms(3,5,6) by (simp_all add: oto_defs)
  with rule arm finishApply_T5_accepts [OF rule(2,3) n(1) _ assms(8) n(2,3), of b o' U x d] b
    assms(4,5,9) uuid_codec.length_str [OF assms(10)]
  obtain r where "Apply U o' cmd = Inr r" by (auto simp: Apply_def applyArm_def)
  then show ?thesis using rule Apply_result(5) by fastforce
qed

theorem clearing_is_accepted_witness:
  "\<exists>r. Apply canonical_lib ex_case (ex_resolve 60) = Inr r \<and> tr_ID r = TransitionT5"
  using canonical.uuid_codec_axioms ex_case_wf
  by (intro clearing_is_accepted) (simp_all add: ex_data canonical_lib_def event_bounds)

text \<open>
  C11. \<open>Decide\<close>, which callers ask before they open the transaction, agrees with \<open>Apply\<close>: on every
  accepted transition it names the same edge, the same phase and the same answer to whether a new
  episode must be opened; and when it refuses a well-formed command, \<open>Apply\<close> refuses it with the same error.
\<close>

theorem Decide_agrees_with_Apply:
  "(\<forall>r. Apply U o' cmd = Inr r \<longrightarrow>
      (\<exists>d. Decide o' cmd = Inr d \<and> d_ID d = tr_ID r \<and> d_From d = tr_From r \<and>
         (d_OpensEpisode d \<longleftrightarrow> tr_OpensNewCase r))) \<and>
   (\<forall>e. Decide o' cmd = Inl e \<and> cmd_Trigger cmd \<noteq> TriggerZero \<and> \<not> Actor_IsZero (cmd_Actor cmd) \<and>
      \<not> ObservationTime_IsZero (cmd_At cmd) \<longrightarrow> Apply U o' cmd = Inl e)"
proof (intro conjI allI impI)
  fix r assume r: "Apply U o' cmd = Inr r"
  from Apply_result(5) [OF r] Apply_result(1) [OF r]
  show "\<exists>d. Decide o' cmd = Inr d \<and> d_ID d = tr_ID r \<and> d_From d = tr_From r \<and> d_OpensEpisode d = tr_OpensNewCase r"
    by (auto simp: Decide_def)
next
  fix e assume "Decide o' cmd = Inl e \<and> cmd_Trigger cmd \<noteq> TriggerZero \<and> \<not> Actor_IsZero (cmd_Actor cmd) \<and>
      \<not> ObservationTime_IsZero (cmd_At cmd)"
  then show "Apply U o' cmd = Inl e"
    by (auto simp: Decide_def Apply_def rbind_Inl_iff split: if_splits)
qed

theorem Decide_agrees_with_Apply_witness:
  "\<exists>r d. Apply canonical_lib ex_case (ex_resolve 60) = Inr r \<and> Decide ex_case (ex_resolve 60) = Inr d \<and>
     d_ID d = tr_ID r"
proof -
  obtain r where r: "Apply canonical_lib ex_case (ex_resolve 60) = Inr r" by (simp add: ex_eval)
  with Decide_agrees_with_Apply [of canonical_lib ex_case "ex_resolve 60"] show ?thesis by blast
qed

text \<open>
  C12. A refire after the end opens the next episode and nothing else: \<open>Decide\<close> answers with the next
  sequence number and reports whether an acknowledgement is dropped, and an episode opened with that
  number starts firing, unsuppressed, unacknowledged, without a receipt, and well formed.
\<close>

theorem refire_opens_the_next_episode:
  assumes "Decide old cmd = Inr d" "d_OpensEpisode d" "c_state old = CaseClosed"
    and "p_Seq p = d_Seq d" "OpenNewCase U p = Inr (new, evs)"
  shows "case_wf new \<and> c_seq new = c_seq old + 1 \<and> episode_of new = Firing \<and> c_ackState new = AckStateUnacked \<and>
    c_suppressCount new = 0 \<and> d_ID d = TransitionT7 \<and> (d_DropsAck d \<longleftrightarrow> IsAcked (c_ackState old)) \<and>
    (\<exists>ev. evs = [ev] \<and> ev_typ ev = EventCaseOpened)"
proof -
  obtain rule where rule: "selectRule old cmd = Inr rule" "r_opensNewCase rule"
      "d_ID d = r_id rule" "d_Seq d = c_seq old + 1" "d_DropsAck d = IsAcked (c_ackState old)"
    using assms(1,2) by (auto simp: Decide_def rbind_Inr_iff split: if_splits)
  have "r_from rule = StateResolved \<or> r_from rule = StateExpired"
    using selectRule_Inr [OF rule(1)] assms(3) by (auto simp: phase_iffs)
  then have id7: "r_id rule = TransitionT7"
    using selectRule_Inr [OF rule(1)] table_row [of rule] rule(2) by (auto split: TransitionID.splits)
  note new = OpenNewCase_Inr [OF assms(5)]
  have "c_ackState new = AckStateUnacked"
    using new(1) by (auto simp: NewCase_def Let_def openCaseParams_def oto_defs)
  with new NewCase_wf [OF new(1)] NewCase_fields(4) [OF new(1)] opened_episode [OF assms(5)] rule id7 assms(4)
  show ?thesis by (auto simp: openCaseParams_def)
qed

theorem refire_opens_the_next_episode_witness:
  "\<exists>old log d new evs. ex_run [OpApply (ex_resolve 0)] = Inr (old, log) \<and>
     Decide old (ex_cmd TriggerObserveFiring ingest 300) = Inr d \<and>
     OpenNewCase canonical_lib (ex_open\<lparr>p_ID := 8, p_Seq := d_Seq d\<rparr>) = Inr (new, evs) \<and> c_seq new = 2"
proof -
  obtain old log d new evs where h: "ex_run [OpApply (ex_resolve 0)] = Inr (old, log)" "c_state old = CaseClosed"
      "c_seq old = 1" "Decide old (ex_cmd TriggerObserveFiring ingest 300) = Inr d" "d_OpensEpisode d"
      "OpenNewCase canonical_lib (ex_open\<lparr>p_ID := 8, p_Seq := d_Seq d\<rparr>) = Inr (new, evs)"
    by (simp add: ex_eval Decide_def)
  from refire_opens_the_next_episode [OF h(4,5,2) _ h(6)] h show ?thesis by auto
qed

lemma table_to:
  "rule \<in> set transitionTable \<Longrightarrow> CanTransition (r_from rule) (r_to rule) (r_trigger rule)"
  by (auto simp: CanTransition_def list_ex_iff)

lemma CanTransition_rows:
  "CanTransition StateFiring StateFiring TriggerObserveFiring"
  "CanTransition StateFiring StateSuppressed TriggerObserveSuppressed"
  "CanTransition StateSuppressed StateFiring TriggerObserveFiring"
  "CanTransition StateFiring StateResolved TriggerObserveResolved"
  "CanTransition StateSuppressed StateResolved TriggerObserveResolved"
  "CanTransition StateFiring StateResolved TriggerCloseDue"
  "CanTransition StateFiring StateExpired TriggerReap" "CanTransition StateSuppressed StateExpired TriggerReap"
  "CanTransition StateResolved StateFiring TriggerObserveFiring"
  "CanTransition StateExpired StateFiring TriggerObserveFiring"
  by (simp_all add: CanTransition_def transitionTable_def)

lemma Apply_deferred:
  assumes "Apply U o' cmd = Inr r" "tr_CloseDeferred r"
  shows "lifecyclePhase o' = StateFiring \<and> cmd_Trigger cmd = TriggerObserveResolved \<and> 0 < cmd_CaseRetention cmd"
  using assms(1)
proof (cases rule: Apply_Inr)
  case (T7 rule)
  with assms(2) show ?thesis by (simp add: resultT7_def)
next
  case (edge rule nxt extra delta deferred)
  with finishApply_Inr(10) [OF edge(7)] assms(2) have "applyArm rule o' cmd = Inr (nxt, extra, delta, True)" by simp
  then have "r_id rule = TransitionT5" "cmd_Trigger cmd \<noteq> TriggerCloseDue" "0 < cmd_CaseRetention cmd"
    "lifecyclePhase o' \<noteq> StateSuppressed"
    by (auto simp: applyArm_def arm_defs Let_def split: TransitionID.splits if_splits prod.splits)
  with table_row [OF edge(1)] edge(2,3) show ?thesis by auto
qed

lemma Apply_to:
  assumes "Apply U o' cmd = Inr r"
  shows "if tr_CloseDeferred r then tr_From r = StateFiring \<and> tr_To r = StateFiring
    else CanTransition (tr_From r) (tr_To r) (cmd_Trigger cmd)"
proof (cases "tr_CloseDeferred r")
  case True
  note d = Apply_deferred [OF assms True]
  then have "tr_Case r = receipted o' cmd" using Apply_receipted [OF assms] by blast
  with d True Apply_result [OF assms] show ?thesis by (simp add: phase_iffs receipted_def)
next
  case False
  note res = Apply_result(1,4) [OF assms]
  from assms have "CanTransition (lifecyclePhase o')
      (if c_state o' = CaseClosed then StateFiring else lifecyclePhase (tr_Case r)) (cmd_Trigger cmd)"
  proof (cases rule: Apply_edges)
    case T6
    then have "lifecyclePhase (tr_Case r) = StateExpired" "c_state o' = CaseOpen"
      using expiryAdmits_expiry by (auto simp: phase_iffs)
    with T6(2,3) show ?thesis by (auto simp: CanTransition_rows)
  next
    case T5_close
    then have "lifecyclePhase (tr_Case r) = StateResolved" "c_state o' = CaseOpen"
      by (auto simp: phase_iffs oto_defs)
    with T5_close(2,3) show ?thesis by (auto simp: CanTransition_rows)
  next
    case T5_due
    then have "lifecyclePhase (tr_Case r) = StateResolved" "c_state o' = CaseOpen"
      by (auto simp: phase_iffs oto_defs)
    with T5_due(2,3) show ?thesis by (simp add: CanTransition_rows)
  next
    case T5_defer
    with False show ?thesis by simp
  next
    case T7
    then have "c_state o' = CaseClosed" by (auto simp: phase_iffs)
    with T7(2,3) show ?thesis by (auto simp: CanTransition_rows)
  next
    case T2
    then have "lifecyclePhase (tr_Case r) = StateFiring" "c_state o' = CaseOpen" by (auto simp: phase_iffs)
    with T2(2,3) show ?thesis by (simp add: CanTransition_rows)
  next
    case T3
    then have "lifecyclePhase (tr_Case r) = StateSuppressed" "c_state o' = CaseOpen" by (auto simp: phase_iffs)
    with T3(2,3) show ?thesis by (simp add: CanTransition_rows)
  next
    case T4
    then have "lifecyclePhase (tr_Case r) = StateFiring" "c_state o' = CaseOpen" by (auto simp: phase_iffs)
    with T4(2,3) show ?thesis by (simp add: CanTransition_rows)
  qed
  with False res show ?thesis by simp
qed

lemma TransitionsFrom_Nil:
  assumes "TransitionsFrom (lifecyclePhase o') (cmd_Trigger cmd) = []"
  shows "selectRule o' cmd = Inl (errs_New KindPrecondition ''illegal_transition'')"
  using assms
  by (cases "lifecyclePhase o'"; cases "cmd_Trigger cmd")
    (simp_all add: TransitionsFrom_def transitionTable_def selectRule_def containsState_def)

lemma Apply_illegal:
  assumes "TransitionsFrom (lifecyclePhase o') (cmd_Trigger cmd) = []" "cmd_Trigger cmd \<noteq> TriggerZero"
    "\<not> Actor_IsZero (cmd_Actor cmd)" "\<not> ObservationTime_IsZero (cmd_At cmd)"
  shows "Apply U o' cmd = Inl (errs_New KindPrecondition ''illegal_transition'')"
  using assms TransitionsFrom_Nil [OF assms(1)] by (simp add: Apply_def)

text \<open>
  \<open>Apply\<close> never leaves the published transition table: an accepted transition that is not a
  deferral moves between two states \<open>CanTransition\<close> lists for its trigger, a deferral stays firing, and
  a phase the table has no row for is refused as an illegal transition whatever the command carries.
\<close>

theorem transitions_stay_in_the_table:
  "(\<forall>r. Apply U o' cmd = Inr r \<longrightarrow>
      (if tr_CloseDeferred r then tr_From r = StateFiring \<and> tr_To r = StateFiring
       else CanTransition (tr_From r) (tr_To r) (cmd_Trigger cmd))) \<and>
   (TransitionsFrom (lifecyclePhase o') (cmd_Trigger cmd) = [] \<and> cmd_Trigger cmd \<noteq> TriggerZero \<and>
      \<not> Actor_IsZero (cmd_Actor cmd) \<and> \<not> ObservationTime_IsZero (cmd_At cmd) \<longrightarrow>
      Apply U o' cmd = Inl (errs_New KindPrecondition ''illegal_transition''))"
  using Apply_to Apply_illegal by blast

theorem transitions_stay_in_the_table_witness:
  "TransitionsFrom (lifecyclePhase ex_case) TriggerZero = [] \<and>
   (\<exists>r. Apply canonical_lib ex_case (ex_resolve 0) = Inr r \<and>
      CanTransition (tr_From r) (tr_To r) TriggerObserveResolved)"
proof -
  obtain r where r: "Apply canonical_lib ex_case (ex_resolve 0) = Inr r" "\<not> tr_CloseDeferred r"
    by (simp add: ex_eval)
  have "cmd_Trigger (ex_resolve 0) = TriggerObserveResolved" by (simp add: ex_data)
  with r transitions_stay_in_the_table [of canonical_lib ex_case "ex_resolve 0"] show ?thesis
    by (auto simp: TransitionsFrom_def transitionTable_def)
qed

section \<open>Acknowledgement\<close>

lemma unacked_acked: "unackedCase (ackedCase U o' cmd) = unackedCase o'"
  by (simp add: unackedCase_def ackedCase_def)

text \<open>
  Removing an acknowledgement undoes it: acknowledging an open, unacknowledged episode and then
  unacknowledging it gives back the row with its acknowledgement columns empty, each step writes
  exactly one event, and neither changes the lifecycle; a closed episode cannot be acknowledged.
\<close>

theorem acknowledgement_round_trip:
  assumes "Acknowledge U o' a = Inr (acked, evs)" "Unacknowledge U acked b = Inr (n, evs')"
  shows "n = unackedCase o' \<and> c_ackState acked = AckStateAcked \<and>
    c_ackedAt acked = max (recordedAt (ack_At a)) (c_startedAt o') \<and>
    episode_of acked = episode_of o' \<and> episode_of n = episode_of o' \<and> length evs = 1 \<and> length evs' = 1 \<and>
    Acknowledge U acked a = Inl (errs_New KindPrecondition ''already_acked'')"
proof -
  note a = Acknowledge_Inr [OF assms(1)] and b = Unacknowledge_Inr [OF assms(2)]
  have "Acknowledge U acked a = Inl (errs_New KindPrecondition ''already_acked'')"
    using assms(1) a(1,3) by (auto simp: Acknowledge_def ackedCase_def oto_defs split: if_splits)
  with a b show ?thesis
    by (auto simp: ackedCase_def unackedCase_def notBefore_max episode_of_def ClosePending_def)
qed

definition ex_ack :: "ActorKind \<Rightarrow> time \<Rightarrow> AckCommand" where
  "ex_ack k t = \<lparr>ack_Actor = \<lparr>a_kind = k, a_id = ''u'', a_label = ''ada''\<rparr>, ack_At = at t t, ack_EventID = 60,
     ack_Note = [], ack_Reason = [], ack_Payload = []\<rparr>"

theorem acknowledgement_round_trip_witness:
  "\<exists>acked evs n evs'. Acknowledge canonical_lib ex_case (ex_ack ActorUser 150) = Inr (acked, evs) \<and>
     Unacknowledge canonical_lib acked (ex_ack ActorUser 160) = Inr (n, evs') \<and> n = unackedCase ex_case"
proof -
  have len: "length (RFC3339Nano 150) = 29" "length (RFC3339Nano 160) = 29" by code_simp+
  obtain acked evs n evs' where h: "Acknowledge canonical_lib ex_case (ex_ack ActorUser 150) = Inr (acked, evs)"
      "Unacknowledge canonical_lib acked (ex_ack ActorUser 160) = Inr (n, evs')"
    by (simp add: ex_eval ex_ack_def Acknowledge_def Unacknowledge_def ackedCase_def unackedCase_def notBefore_def
        unackReason_def len)
  from acknowledgement_round_trip [OF h] h show ?thesis by blast
qed

end
