(* ===== verification/Alert_Labels.thy ===== *)
theory Alert_Labels
  imports Go_Strings Alert_Enums "HOL-Library.Multiset"
begin

text \<open>
  Label sets and annotations, \<^verbatim>\<open>internal/alerts/domain/labels.go\<close> and \<^verbatim>\<open>canon.go\<close>: the bounds, the
  storability of a text, the canonical serialisation that alert identity is computed from, and the
  64-bit FNV-1a fingerprint Alertmanager shows.

  A Go map is an association list with distinct names whose order is the order in which Go happens
  to iterate it; what the code computes must not depend on that order, and the lemmas show it does not.
  The locale \<open>prefix_code\<close> is the contract of the length-prefixed framing: an encoded value can be cut
  off the front of any byte string, so a sequence of encoded values has one reading.
\<close>

definition MaxLabels :: nat where "MaxLabels = 64"
definition MaxLabelNameBytes :: nat where "MaxLabelNameBytes = 1024"
definition MaxLabelValueBytes :: nat where "MaxLabelValueBytes = 4096"
definition MaxLabelSetBytes :: nat where "MaxLabelSetBytes = 16384"
definition MaxAlertNameBytes :: nat where "MaxAlertNameBytes = 1024"
definition MaxAnnotations :: nat where "MaxAnnotations = 32"
definition MaxAnnotationValueBytes :: nat where "MaxAnnotationValueBytes = 16384"

lemmas label_bounds [oto_bounds] = MaxLabels_def MaxLabelNameBytes_def MaxLabelValueBytes_def
  MaxLabelSetBytes_def MaxAlertNameBytes_def MaxAnnotations_def MaxAnnotationValueBytes_def

definition LabelAlertName :: string where "LabelAlertName = ''alertname''"
definition LabelSeverity :: string where "LabelSeverity = ''severity''"
definition LabelNamespace :: string where "LabelNamespace = ''namespace''"
definition LabelService :: string where "LabelService = ''service''"

section \<open>The framing\<close>

definition canonLenBytes :: nat where "canonLenBytes = 4"
definition canonOverheadPerLabel :: nat where "canonOverheadPerLabel = 2 * canonLenBytes"

text \<open>\<^verbatim>\<open>binary.BigEndian.AppendUint32\<close> of \<^verbatim>\<open>uint32(n)\<close>: the conversion wraps.\<close>

definition uint32be :: "nat \<Rightarrow> string" where
  "uint32be n = map (\<lambda>k. char_of (n div 256 ^ k mod 256)) [3, 2, 1, 0]"

definition appendCanonField :: "string \<Rightarrow> string \<Rightarrow> string" where
  "appendCanonField buf s = buf @ uint32be (length s) @ s"

section \<open>Storable text\<close>

text \<open>
  The length of the rune a string starts with, as \<^verbatim>\<open>utf8.DecodeRuneInString\<close> reads it: \<open>None\<close> where
  Go answers \<^verbatim>\<open>RuneError\<close> with a size of at most 1.
\<close>

definition between :: "nat \<Rightarrow> nat \<Rightarrow> char \<Rightarrow> bool" where
  "between a b c \<longleftrightarrow> a \<le> of_char c \<and> (of_char c :: nat) \<le> b"

definition cont :: "char \<Rightarrow> bool" where
  "cont c \<longleftrightarrow> between 0x80 0xBF c"

fun rune_len :: "string \<Rightarrow> nat option" where
  "rune_len (a # s) =
     (if between 0 0x7F a then Some 1
      else case s of [] \<Rightarrow> None | b # t \<Rightarrow>
        if between 0xC2 0xDF a then (if cont b then Some 2 else None)
        else case t of [] \<Rightarrow> None | c # u \<Rightarrow>
          if between 0xE0 0xEF a then
            (if cont c \<and> cont b \<and> (between 0xE0 0xE0 a \<longrightarrow> between 0xA0 0xBF b) \<and>
                (between 0xED 0xED a \<longrightarrow> between 0x80 0x9F b) then Some 3 else None)
          else case u of [] \<Rightarrow> None | d # _ \<Rightarrow>
            if between 0xF0 0xF4 a \<and> cont d \<and> cont c \<and> cont b \<and>
               (between 0xF0 0xF0 a \<longrightarrow> between 0x90 0xBF b) \<and>
               (between 0xF4 0xF4 a \<longrightarrow> between 0x80 0x8F b) then Some 4 else None)"
| "rune_len [] = None"

lemma rune_len_pos: "rune_len s = Some n \<Longrightarrow> 0 < n \<and> n \<le> length s"
  by (cases s rule: rune_len.cases) (auto split: if_splits list.splits)

function ValidString :: "string \<Rightarrow> bool" where
  "ValidString s = (s = [] \<or> (case rune_len s of None \<Rightarrow> False | Some n \<Rightarrow> ValidString (drop n s)))"
  by pat_completeness auto
termination
  by (relation "measure length") (auto dest: rune_len_pos)

declare ValidString.simps [simp del]

definition RuneError :: string where
  "RuneError = [char_of (0xEF :: nat), char_of (0xBF :: nat), char_of (0xBD :: nat)]"

definition NUL :: char where "NUL = char_of (0 :: nat)"

definition Storable :: "string \<Rightarrow> bool" where
  "Storable s \<longleftrightarrow> NUL \<notin> set s \<and> ValidString s"

definition UnstorableReason :: "string \<Rightarrow> string" where
  "UnstorableReason s =
     (if NUL \<in> set s then ''a NUL byte (U+0000), which Postgres text and jsonb cannot store''
      else if \<not> ValidString s then ''an invalid UTF-8 byte sequence, which a UTF8 database cannot store'' else '''')"

text \<open>The loop of \<^verbatim>\<open>SanitiseText\<close> over the rest of the string.\<close>

function sanitise_loop :: "string \<Rightarrow> string" where
  "sanitise_loop s =
     (if s = [] then []
      else case rune_len s of
        None \<Rightarrow> RuneError @ sanitise_loop (drop 1 s)
      | Some n \<Rightarrow> (if hd s = NUL then RuneError else take n s) @ sanitise_loop (drop n s))"
  by pat_completeness auto
termination
  by (relation "measure length") (auto dest: rune_len_pos)

declare sanitise_loop.simps [simp del]

definition SanitiseText :: "string \<Rightarrow> string \<times> bool" where
  "SanitiseText s = (if UnstorableReason s = '''' then (s, False) else (sanitise_loop s, True))"

section \<open>Label sets\<close>

type_synonym Labels = "(string \<times> string) list"

text \<open>The character classes of \<^verbatim>\<open>validate.PatternLabelName\<close>.\<close>

definition is_word_start :: "char \<Rightarrow> bool" where
  "is_word_start c \<longleftrightarrow> between 65 90 c \<or> between 97 122 c \<or> c = CHR ''_''"

definition LabelNameRe :: "string \<Rightarrow> bool" where
  "LabelNameRe s \<longleftrightarrow> s \<noteq> [] \<and> is_word_start (hd s) \<and> list_all (\<lambda>c. is_word_start c \<or> is_digit c) (tl s)"

definition labelErr :: "string \<Rightarrow> string \<Rightarrow> error option" where
  "labelErr name v = first_err
     [(length name > MaxLabelNameBytes, errs_New KindValidation ''label_name_too_large''),
      (\<not> LabelNameRe name, errs_New KindValidation ''invalid_label_name''),
      (length v > MaxLabelValueBytes, errs_New KindValidation ''label_value_too_large''),
      (UnstorableReason v \<noteq> '''', errs_New KindValidation ''invalid_label_value'')]"

text \<open>The loop of \<^verbatim>\<open>NewLabels\<close>: the map built so far and the size counted so far.\<close>

fun labels_loop :: "Labels \<Rightarrow> Labels \<Rightarrow> nat \<Rightarrow> (Labels \<times> nat) result" where
  "labels_loop [] m size' = Inr (m, size')"
| "labels_loop ((name, v) # rest) m size' =
     or_fail (labelErr name v)
       (labels_loop rest (m @ [(name, v)]) (size' + length name + length v + canonOverheadPerLabel))"

definition NewLabels :: "Labels \<Rightarrow> Labels result" where
  "NewLabels ins =
     (if length ins > MaxLabels then Inl (errs_New KindValidation ''too_many_labels'')
      else rbind (labels_loop ins [] 0) (\<lambda>(m, size').
        if size' > MaxLabelSetBytes then Inl (errs_New KindValidation ''labelset_too_large'') else Inr m))"

definition Labels_IsZero :: "Labels \<Rightarrow> bool" where
  "Labels_IsZero l \<longleftrightarrow> l = []"

definition Labels_Get :: "Labels \<Rightarrow> string \<Rightarrow> string option" where
  "Labels_Get l name = map_of l name"

definition Labels_Names :: "Labels \<Rightarrow> string list" where
  "Labels_Names l = sort (map fst l)"

definition Labels_Sorted :: "Labels \<Rightarrow> (string \<times> string) list" where
  "Labels_Sorted l = sort_key fst l"

definition Labels_Without :: "Labels \<Rightarrow> string list \<Rightarrow> Labels" where
  "Labels_Without l names =
     (if names = [] \<or> l = [] then l else filter (\<lambda>lb. fst lb \<notin> set names) l)"

definition canonical_bytes :: "Labels \<Rightarrow> string" where
  "canonical_bytes l =
     foldl (\<lambda>buf lb. appendCanonField (appendCanonField buf (fst lb)) (snd lb)) [] (Labels_Sorted l)"

definition Labels_Canonical :: "Labels \<Rightarrow> string list \<Rightarrow> string" where
  "Labels_Canonical l ignore = canonical_bytes (Labels_Without l ignore)"

definition CanonMap :: "Labels \<Rightarrow> string" where
  "CanonMap l = canonical_bytes l"

definition SerialisedSize :: "Labels \<Rightarrow> nat" where
  "SerialisedSize l = sum_list (map (\<lambda>lb. length (fst lb) + length (snd lb) + canonOverheadPerLabel) l)"

section \<open>The source fingerprint\<close>

text \<open>\<^verbatim>\<open>hash/fnv\<close>'s 64-bit FNV-1a.\<close>

definition fnv64a :: "string \<Rightarrow> 64 word" where
  "fnv64a s = foldl (\<lambda>h c. (xor h (of_nat (of_char c))) * 1099511628211) 14695981039346656037 s"

definition fingerprintSep :: char where
  "fingerprintSep = char_of (0xFF :: nat)"

text \<open>\<^verbatim>\<open>strconv.FormatUint(n, 16)\<close>.\<close>

function utox :: "int \<Rightarrow> string" where
  "utox n = (if n < 16 then [hexdigit n] else utox (n div 16) @ [hexdigit (n mod 16)])"
  by pat_completeness auto
termination
  by (relation "measure nat") (auto simp: nat_less_eq_zless)

declare utox.simps [simp del]

definition fingerprintHexLen :: nat where "fingerprintHexLen = 16"

definition Labels_Fingerprint :: "Labels \<Rightarrow> string" where
  "Labels_Fingerprint l =
     (let s = utox (uint (fnv64a (concat (map (\<lambda>lb. fst lb @ [fingerprintSep] @ snd lb @ [fingerprintSep])
                (Labels_Sorted l)))))
      in replicate (fingerprintHexLen - length s) (CHR ''0'') @ s)"

section \<open>The label set of an alert\<close>

type_synonym LabelSet = Labels

definition NewLabelSet :: "Labels \<Rightarrow> LabelSet result" where
  "NewLabelSet ins = rbind (NewLabels ins) (\<lambda>l.
     case Labels_Get l LabelAlertName of
       None \<Rightarrow> Inl (errs_New KindValidation ''missing_alertname'')
     | Some name \<Rightarrow>
         if TrimSpace name = [] then Inl (errs_New KindValidation ''missing_alertname'')
         else if length name > MaxAlertNameBytes then Inl (errs_New KindValidation ''label_value_too_large'')
         else Inr l)"

definition mustGet :: "LabelSet \<Rightarrow> string \<Rightarrow> string" where
  "mustGet s name = (case Labels_Get s name of Some v \<Rightarrow> v | None \<Rightarrow> [])"

definition AlertName :: "LabelSet \<Rightarrow> string" where
  "AlertName s = mustGet s LabelAlertName"

definition LabelSet_Severity :: "LabelSet \<Rightarrow> Severity" where
  "LabelSet_Severity s = SeverityFromLabel (mustGet s LabelSeverity)"

definition LabelSet_Namespace :: "LabelSet \<Rightarrow> string" where
  "LabelSet_Namespace s = mustGet s LabelNamespace"

definition LabelSet_Service :: "LabelSet \<Rightarrow> string" where
  "LabelSet_Service s = mustGet s LabelService"

definition LabelSet_Without :: "LabelSet \<Rightarrow> string list \<Rightarrow> LabelSet" where
  "LabelSet_Without s names = Labels_Without s (filter (\<lambda>n. n \<noteq> LabelAlertName) names)"

definition LabelSet_Canonical :: "LabelSet \<Rightarrow> string list \<Rightarrow> string" where
  "LabelSet_Canonical s ignore = canonical_bytes (LabelSet_Without s ignore)"

section \<open>Annotations\<close>

type_synonym Annotations = "(string \<times> string) list"

definition annotationErr :: "string \<Rightarrow> string \<Rightarrow> error option" where
  "annotationErr name v = first_err
     [(length name > MaxLabelNameBytes, errs_New KindValidation ''annotation_name_too_large''),
      (UnstorableReason name \<noteq> '''', errs_New KindValidation ''annotation_unstorable''),
      (length v > MaxAnnotationValueBytes, errs_New KindValidation ''annotation_too_large''),
      (UnstorableReason v \<noteq> '''', errs_New KindValidation ''annotation_unstorable'')]"

fun annotations_loop :: "Annotations \<Rightarrow> Annotations \<Rightarrow> Annotations result" where
  "annotations_loop [] m = Inr m"
| "annotations_loop ((name, v) # rest) m =
     or_fail (annotationErr name v) (annotations_loop rest (m @ [(name, v)]))"

definition NewAnnotations :: "Annotations \<Rightarrow> Annotations result" where
  "NewAnnotations ins =
     (if length ins > MaxAnnotations then Inl (errs_New KindValidation ''too_many_annotations'')
      else annotations_loop ins [])"

definition Annotations_Canonical :: "Annotations \<Rightarrow> string" where
  "Annotations_Canonical a =
     foldl (\<lambda>buf an. appendCanonField (appendCanonField buf (fst an)) (snd an)) [] (sort_key fst a)"

text \<open>\<^verbatim>\<open>maps.Equal\<close>: the same length and every entry of the one in the other.\<close>

definition Annotations_Equal :: "Annotations \<Rightarrow> Annotations \<Rightarrow> bool" where
  "Annotations_Equal a b \<longleftrightarrow> length a = length b \<and> list_all (\<lambda>(n, v). map_of b n = Some v) a"


section \<open>The contract of the framing\<close>

locale prefix_code =
  fixes enc :: "'a \<Rightarrow> 'c list"
    and ok :: "'a \<Rightarrow> bool"
  assumes nonempty: "enc x \<noteq> []"
    and cancel: "ok x \<Longrightarrow> ok y \<Longrightarrow> enc x @ r = enc y @ s \<Longrightarrow> x = y \<and> r = s"
begin

lemma enc_inj: "ok x \<Longrightarrow> ok y \<Longrightarrow> enc x = enc y \<Longrightarrow> x = y"
  using cancel [of x y "[]" "[]"] by simp

text \<open>A sequence of encoded values has one reading, with no terminator and no escaping.\<close>

lemma concat_inj:
  "list_all ok xs \<Longrightarrow> list_all ok ys \<Longrightarrow> concat (map enc xs) = concat (map enc ys) \<Longrightarrow> xs = ys"
proof (induction xs arbitrary: ys)
  case Nil
  then show ?case using nonempty by (cases ys) auto
next
  case (Cons x xs)
  from Cons.prems(3) obtain y ys' where ys: "ys = y # ys'"
    using nonempty by (cases ys) auto
  with Cons.prems have "x = y \<and> concat (map enc xs) = concat (map enc ys')"
    by (intro cancel) simp_all
  with Cons ys show ?case by simp
qed

end

lemma length_uint32be [simp]: "length (uint32be n) = 4"
  by (simp add: uint32be_def)

text \<open>A number below \<open>b ^ k\<close> is its \<open>k\<close> digits in base \<open>b\<close>.\<close>

lemma digits_inj:
  "(m :: nat) < b ^ k \<Longrightarrow> n < b ^ k \<Longrightarrow> (\<And>i. i < k \<Longrightarrow> m div b ^ i mod b = n div b ^ i mod b) \<Longrightarrow> m = n"
proof (induction k arbitrary: m n)
  case (Suc k)
  have "m div b < b ^ k" "n div b < b ^ k"
    using Suc.prems(1,2) by (simp_all add: less_mult_imp_div_less mult.commute)
  moreover have "(m div b) div b ^ i mod b = (n div b) div b ^ i mod b" if "i < k" for i
    using Suc.prems(3) [of "Suc i"] that by (simp add: div_mult2_eq)
  ultimately have "m div b = n div b" by (rule Suc.IH)
  moreover have "m mod b = n mod b" using Suc.prems(3) [of 0] by simp
  ultimately show ?case by (metis div_mult_mod_eq)
qed simp

text \<open>The bytes of a number, most significant first; equal bytes are equal numbers.\<close>

lemma char_digit_inj: "(char_of (x mod 256) :: char) = char_of (y mod 256) \<Longrightarrow> x mod 256 = y mod (256 :: nat)"
  by (metis mod_mod_trivial of_char_of)

lemma bytes_inj:
  assumes "m < 256 ^ k" "n < 256 ^ k"
    and "map (\<lambda>i. char_of (m div 256 ^ i mod 256) :: char) (rev [0..<k]) =
         map (\<lambda>i. char_of (n div 256 ^ i mod 256)) (rev [0..<k])"
  shows "m = (n :: nat)"
proof (rule digits_inj [OF assms(1,2)])
  fix i assume "i < k"
  then have "(char_of (m div 256 ^ i mod 256) :: char) = char_of (n div 256 ^ i mod 256)"
    using assms(3) unfolding map_eq_conv by simp
  then show "m div 256 ^ i mod 256 = n div 256 ^ i mod 256" by (rule char_digit_inj)
qed

lemma uint32be_inj: "m < 2 ^ 32 \<Longrightarrow> n < 2 ^ 32 \<Longrightarrow> uint32be m = uint32be n \<Longrightarrow> m = n"
  by (rule bytes_inj [of m 4]) (simp_all add: uint32be_def upt_rec)

definition field_enc :: "string \<Rightarrow> string" where
  "field_enc s = uint32be (length s) @ s"

definition field_ok :: "string \<Rightarrow> bool" where
  "field_ok s \<longleftrightarrow> length s < 2 ^ 32"

lemma appendCanonField_enc: "appendCanonField buf s = buf @ field_enc s"
  by (simp add: appendCanonField_def field_enc_def)

lemma length_field_enc [simp]: "length (field_enc s) = canonLenBytes + length s"
  by (simp add: field_enc_def canonLenBytes_def)

interpretation field: prefix_code field_enc field_ok
proof unfold_locales
  show "field_enc x \<noteq> []" for x
    by (metis append_is_Nil_conv field_enc_def length_uint32be list.size(3) zero_neq_numeral)
next
  fix x y r s
  assume ok: "field_ok x" "field_ok y" and eq: "field_enc x @ r = field_enc y @ s"
  from eq have "uint32be (length x) = uint32be (length y)" "x @ r = y @ s"
    by (simp_all add: field_enc_def)
  with ok have "length x = length y" by (auto simp: field_ok_def intro: uint32be_inj)
  with \<open>x @ r = y @ s\<close> show "x = y \<and> r = s" by simp
qed

text \<open>A label is two fields; a pair of self-delimiting codes is one.\<close>

definition label_enc :: "string \<times> string \<Rightarrow> string" where
  "label_enc lb = field_enc (fst lb) @ field_enc (snd lb)"

definition label_ok :: "string \<times> string \<Rightarrow> bool" where
  "label_ok lb \<longleftrightarrow> field_ok (fst lb) \<and> field_ok (snd lb)"

interpretation label: prefix_code label_enc label_ok
proof unfold_locales
  show "label_enc x \<noteq> []" for x using field.nonempty by (simp add: label_enc_def)
next
  fix x y r s
  assume ok: "label_ok x" "label_ok y" and eq: "label_enc x @ r = label_enc y @ s"
  then have "fst x = fst y \<and> field_enc (snd x) @ r = field_enc (snd y) @ s"
    by (intro field.cancel) (simp_all add: label_enc_def label_ok_def)
  moreover from this ok have "snd x = snd y \<and> r = s"
    by (intro field.cancel) (simp_all add: label_ok_def)
  ultimately show "x = y \<and> r = s" by (simp add: prod_eq_iff)
qed

section \<open>The canonical serialisation\<close>

lemma canonical_bytes_eq: "canonical_bytes l = concat (map label_enc (Labels_Sorted l))"
proof -
  have "foldl (\<lambda>buf lb. appendCanonField (appendCanonField buf (fst lb)) (snd lb)) b xs =
      b @ concat (map label_enc xs)" for b xs
    by (induction xs arbitrary: b) (simp_all add: appendCanonField_enc label_enc_def)
  then show ?thesis by (simp add: canonical_bytes_def)
qed

text \<open>A map: no name twice. It is fixed by its entries, whatever the order they are listed in.\<close>

abbreviation is_map :: "(string \<times> string) list \<Rightarrow> bool" where
  "is_map l \<equiv> distinct (map fst l)"

lemma is_map_filter [simp]: "is_map l \<Longrightarrow> is_map (filter P l)"
  by (induction l) (auto simp: image_iff)

lemma is_map_Without [simp]: "is_map l \<Longrightarrow> is_map (Labels_Without l names)"
  by (simp add: Labels_Without_def)

lemma map_of_Without: "map_of (Labels_Without l names) n = (if n \<in> set names then None else map_of l n)"
proof -
  have "map_of (filter (\<lambda>lb. fst lb \<notin> set names) l) n = (if n \<in> set names then None else map_of l n)"
    by (induction l) auto
  then show ?thesis by (auto simp: Labels_Without_def)
qed

lemma same_entries: "is_map a \<Longrightarrow> is_map b \<Longrightarrow> map_of a = map_of b \<Longrightarrow> set a = set b"
  by (metis map_of_eq_empty_iff map_of_inject_set)

lemma set_Sorted [simp]: "set (Labels_Sorted l) = set l"
  by (simp add: Labels_Sorted_def)

lemma is_map_Sorted [simp]: "is_map (Labels_Sorted l) \<longleftrightarrow> is_map l"
  by (simp add: Labels_Sorted_def distinct_map distinct_sort)

lemma sorted_Sorted: "sorted (map fst (Labels_Sorted l))"
  by (simp add: Labels_Sorted_def)

lemma Sorted_cong:
  assumes "is_map a" "is_map b" "map_of a = map_of b"
  shows "Labels_Sorted a = Labels_Sorted b"
proof -
  have eq: "set a = set b" using assms by (rule same_entries)
  have inj: "inj_on fst (set (Labels_Sorted a) \<union> set (Labels_Sorted b))"
    using assms(1) eq by (simp add: distinct_map)
  show ?thesis
    by (rule map_sorted_distinct_set_unique [OF inj sorted_Sorted _ sorted_Sorted])
      (use assms eq in \<open>simp_all only: is_map_Sorted set_Sorted\<close>)
qed

lemma canonical_bytes_cong:
  "is_map a \<Longrightarrow> is_map b \<Longrightarrow> map_of a = map_of b \<Longrightarrow> canonical_bytes a = canonical_bytes b"
  unfolding canonical_bytes_eq by (drule (2) Sorted_cong) simp

lemma canonical_bytes_inj:
  assumes "is_map a" "is_map b" "list_all label_ok a" "list_all label_ok b"
    and "canonical_bytes a = canonical_bytes b"
  shows "map_of a = map_of b"
proof -
  have "Labels_Sorted a = Labels_Sorted b"
    using assms(3-5) by (intro label.concat_inj) (simp_all add: canonical_bytes_eq list_all_iff)
  then have "set a = set b" by (metis set_Sorted)
  with assms(1,2) show ?thesis by (simp add: map_of_inject_set)
qed

lemma sum_list_perm:
  fixes f :: "'a \<Rightarrow> nat"
  assumes "mset xs = mset ys"
  shows "sum_list (map f xs) = sum_list (map f ys)"
proof -
  have "mset (map f xs) = mset (map f ys)" using assms by simp
  then show ?thesis by (metis sum_mset_sum_list)
qed

lemma length_canonical_bytes: "length (canonical_bytes l) = SerialisedSize l"
proof -
  have "sum_list (map (length \<circ> label_enc) (Labels_Sorted l)) = sum_list (map (length \<circ> label_enc) l)"
    by (rule sum_list_perm) (simp add: Labels_Sorted_def)
  then show ?thesis
    by (simp add: canonical_bytes_eq length_concat SerialisedSize_def label_enc_def comp_def
        canonOverheadPerLabel_def canonLenBytes_def add.commute add.left_commute)
qed

section \<open>The validators\<close>

lemma labels_loop_Inr:
  "labels_loop ins m k = Inr (m', k') \<longleftrightarrow>
     list_all (\<lambda>lb. labelErr (fst lb) (snd lb) = None) ins \<and> m' = m @ ins \<and> k' = k + SerialisedSize ins"
  by (induction ins m k rule: labels_loop.induct) (auto simp: SerialisedSize_def)

lemma NewLabels_Inr:
  "NewLabels ins = Inr l \<longleftrightarrow>
     length ins \<le> MaxLabels \<and> list_all (\<lambda>lb. labelErr (fst lb) (snd lb) = None) ins \<and>
     SerialisedSize ins \<le> MaxLabelSetBytes \<and> l = ins"
  by (auto simp: NewLabels_def rbind_Inr_iff labels_loop_Inr split: if_splits)

lemma NewLabels_mset:
  assumes "mset ins = mset ins'" "NewLabels ins = Inr l"
  shows "NewLabels ins' = Inr ins'"
proof -
  have len: "length ins' = length ins" using assms(1) by (metis mset_eq_length)
  have st: "set ins' = set ins" using assms(1) by (metis mset_eq_setD)
  have "SerialisedSize ins' = SerialisedSize ins"
    unfolding SerialisedSize_def by (rule sum_list_perm) (rule assms(1) [symmetric])
  with len st assms(2) show ?thesis by (simp add: NewLabels_Inr list_all_iff)
qed

lemma labelErr_lengths:
  "labelErr n v = None \<Longrightarrow> length n \<le> MaxLabelNameBytes \<and> length v \<le> MaxLabelValueBytes \<and> LabelNameRe n \<and>
     UnstorableReason v = []"
  by (simp add: labelErr_def split: if_splits)

lemma lengths_label_ok:
  "length (fst lb) \<le> MaxLabelNameBytes \<and> length (snd lb) \<le> MaxLabelValueBytes \<and> P \<Longrightarrow> label_ok lb"
  by (simp add: label_ok_def field_ok_def label_bounds)

lemma NewLabels_label_ok: "NewLabels ins = Inr l \<Longrightarrow> list_all label_ok l"
  using labelErr_lengths [THEN lengths_label_ok] by (simp add: NewLabels_Inr list_all_iff)

lemma NewLabelSet_Inr:
  "NewLabelSet ins = Inr l \<Longrightarrow> NewLabels ins = Inr l \<and> l = ins \<and>
     (\<exists>name. map_of l LabelAlertName = Some name \<and> TrimSpace name \<noteq> [] \<and> length name \<le> MaxAlertNameBytes)"
  by (auto simp: NewLabelSet_def rbind_Inr_iff Labels_Get_def NewLabels_Inr split: option.splits if_splits)

section \<open>Sanitised text is storable\<close>

lemma rune_len_take: "rune_len s = Some n \<Longrightarrow> rune_len (take n s @ t) = Some n"
  by (cases s rule: rune_len.cases) (auto split: if_splits list.splits)

lemma rune_no_NUL: "rune_len s = Some n \<Longrightarrow> hd s \<noteq> NUL \<Longrightarrow> NUL \<notin> set (take n s)"
  by (cases s rule: rune_len.cases)
    (auto simp: NUL_def cont_def between_def of_char_of split: if_splits list.splits)

lemma ValidString_rune: "rune_len p = Some (length p) \<Longrightarrow> ValidString (p @ t) \<longleftrightarrow> ValidString t"
  using rune_len_take [of p "length p" t] by (subst ValidString.simps) auto

lemma RuneError_rune: "rune_len RuneError = Some (length RuneError)" "NUL \<notin> set RuneError"
  by (simp_all add: RuneError_def NUL_def between_def cont_def of_char_of)

lemma ValidString_Nil [simp]: "ValidString []"
  by (simp add: ValidString.simps)

lemma sanitise_loop_storable: "Storable (sanitise_loop s)"
proof (induction s rule: sanitise_loop.induct)
  case (1 s)
  show ?case
  proof (cases "s = []")
    case True
    then show ?thesis by (simp add: sanitise_loop.simps [of "[]"] Storable_def)
  next
    case False
    show ?thesis
    proof (cases "rune_len s")
      case None
      with False have "sanitise_loop s = RuneError @ sanitise_loop (drop 1 s)"
        by (simp add: sanitise_loop.simps [of s])
      with "1.IH"(1) [OF False None] RuneError_rune show ?thesis
        by (simp add: Storable_def ValidString_rune)
    next
      case (Some n)
      let ?p = "if hd s = NUL then RuneError else take n s"
      have eq: "sanitise_loop s = ?p @ sanitise_loop (drop n s)"
        using False Some by (simp add: sanitise_loop.simps [of s])
      have "rune_len ?p = Some (length ?p) \<and> NUL \<notin> set ?p"
        using RuneError_rune rune_len_take [OF Some, of "[]"] rune_no_NUL [OF Some] rune_len_pos [OF Some]
        by auto
      with "1.IH"(2) [OF False Some] show ?thesis
        unfolding eq by (simp add: Storable_def ValidString_rune)
    qed
  qed
qed

lemma UnstorableReason_Nil_iff: "UnstorableReason s = '''' \<longleftrightarrow> Storable s"
  by (simp add: UnstorableReason_def Storable_def)

end
