(* ===== verification/Alert_Keys.thy ===== *)
theory Alert_Keys
  imports Alert_Labels
begin

text \<open>
  Identity, \<^verbatim>\<open>internal/alerts/domain/keys.go\<close>: the keys the product files rows under and the pre-images
  they are digests of. SHA-256 is the parameter \<open>H\<close> (a function from bytes to bytes), the formatting of a
  float is the parameter \<open>FF\<close>; the pre-images are written out, and the theorems say what an equality
  of keys means: the same identity, or a collision of the digest.
\<close>

definition AlertKeyPrefix :: string where "AlertKeyPrefix = ''ak_''"
definition GroupKeyPrefix :: string where "GroupKeyPrefix = ''gk_''"
definition identityDigestBytes :: nat where "identityDigestBytes = 16"

section \<open>Rendering a digest\<close>

text \<open>\<^verbatim>\<open>base32.HexEncoding\<close> without padding: the bits of the bytes, five at a time, zero-filled at the end.\<close>

definition byte_bits :: "char \<Rightarrow> bool list" where
  "byte_bits c = map (bit (of_char c :: nat)) [7, 6, 5, 4, 3, 2, 1, 0]"

function groups5 :: "bool list \<Rightarrow> bool list list" where
  "groups5 bs = (if bs = [] then [] else take 5 (bs @ [False, False, False, False]) # groups5 (drop 5 bs))"
  by pat_completeness auto
termination
  by (relation "measure length") auto

declare groups5.simps [simp del]

definition base32hex_alphabet :: string where
  "base32hex_alphabet = ''0123456789ABCDEFGHIJKLMNOPQRSTUV''"

definition group_val :: "bool list \<Rightarrow> nat" where
  "group_val g = foldl (\<lambda>a b. 2 * a + (if b then 1 else 0)) 0 g"

definition base32hex :: "string \<Rightarrow> string" where
  "base32hex s = map (\<lambda>g. base32hex_alphabet ! group_val g) (groups5 (concat (map byte_bits s)))"

definition encodeIdentity :: "string \<Rightarrow> string" where
  "encodeIdentity digest = ToLower (base32hex (take identityDigestBytes digest))"

text \<open>\<^verbatim>\<open>hex.EncodeToString\<close>.\<close>

definition hexString :: "string \<Rightarrow> string" where
  "hexString s = concat (map (\<lambda>c. hexdigits 2 (of_char c)) s)"

section \<open>The keys\<close>

definition lower_alnum :: "char \<Rightarrow> bool" where
  "lower_alnum c \<longleftrightarrow> between 97 122 c \<or> is_digit c"

definition is_base32hex :: "char \<Rightarrow> bool" where
  "is_base32hex c \<longleftrightarrow> between 97 118 c \<or> is_digit c"

definition is_hex :: "char \<Rightarrow> bool" where
  "is_hex c \<longleftrightarrow> between 97 102 c \<or> is_digit c"

type_synonym ClusterKey = string
type_synonym AlertKey = string
type_synonym SourceFingerprint = string
type_synonym GroupKey = string
type_synonym RuleFingerprint = string
type_synonym IdempotencyKey = string
type_synonym SlackTS = string

definition ClusterKeyRe :: "string \<Rightarrow> bool" where
  "ClusterKeyRe s \<longleftrightarrow> s \<noteq> [] \<and> lower_alnum (hd s) \<and> length s \<le> 63 \<and>
     list_all (\<lambda>c. lower_alnum c \<or> c \<in> set ''._-'') (tl s)"

definition AlertKeyRe :: "string \<Rightarrow> bool" where
  "AlertKeyRe s \<longleftrightarrow> take 3 s = ''ak_'' \<and> length s = 29 \<and> list_all is_base32hex (drop 3 s)"

definition GroupKeyRe :: "string \<Rightarrow> bool" where
  "GroupKeyRe s \<longleftrightarrow> take 3 s = ''gk_'' \<and> length s = 29 \<and> list_all is_base32hex (drop 3 s)"

definition SourceFingerprintRe :: "string \<Rightarrow> bool" where
  "SourceFingerprintRe s \<longleftrightarrow> length s = 16 \<and> list_all is_hex s"

definition SHA256HexRe :: "string \<Rightarrow> bool" where
  "SHA256HexRe s \<longleftrightarrow> length s = 64 \<and> list_all is_hex s"

definition SlackTSRe :: "string \<Rightarrow> bool" where
  "SlackTSRe s \<longleftrightarrow> length s = 17 \<and> s ! 10 = CHR ''.'' \<and> list_all is_digit (take 10 s) \<and>
     list_all is_digit (drop 11 s)"

text \<open>Every constructor of a key has this shape: the value itself when it matches its pattern.\<close>

definition new_key :: "(string \<Rightarrow> bool) \<Rightarrow> string \<Rightarrow> string \<Rightarrow> string result" where
  "new_key re code s = (if \<not> re s then Inl (errs_New KindValidation code) else Inr s)"

definition NewClusterKey :: "string \<Rightarrow> ClusterKey result" where
  "NewClusterKey s = new_key ClusterKeyRe ''cluster_key'' s"

definition NewAlertKey :: "string \<Rightarrow> AlertKey result" where
  "NewAlertKey s = new_key AlertKeyRe ''alert_key'' s"

definition NewSourceFingerprint :: "string \<Rightarrow> SourceFingerprint result" where
  "NewSourceFingerprint s = new_key SourceFingerprintRe ''source_fingerprint'' s"

definition NewGroupKey :: "string \<Rightarrow> GroupKey result" where
  "NewGroupKey s = new_key GroupKeyRe ''group_key'' s"

definition NewRuleFingerprint :: "string \<Rightarrow> RuleFingerprint result" where
  "NewRuleFingerprint s = new_key SHA256HexRe ''rule_fingerprint'' s"

definition NewIdempotencyKey :: "string \<Rightarrow> IdempotencyKey result" where
  "NewIdempotencyKey s = new_key SHA256HexRe ''idempotency_key'' s"

definition NewSlackTS :: "string \<Rightarrow> SlackTS result" where
  "NewSlackTS s = new_key SlackTSRe ''slack_ts'' s"

section \<open>Pre-images\<close>

text \<open>The sixteen bytes of an id, \<^verbatim>\<open>orgID[:]\<close>.\<close>

definition uuid_bytes :: "uuid \<Rightarrow> string" where
  "uuid_bytes u = map (\<lambda>k. char_of (unat u div 256 ^ k mod 256)) (rev [0..<16])"

definition writeField :: "string \<Rightarrow> string \<Rightarrow> string" where
  "writeField h b = h @ uint32be (length b) @ b"

definition alertKeyPreimage :: "uuid \<Rightarrow> ClusterKey \<Rightarrow> LabelSet \<Rightarrow> string list \<Rightarrow> string" where
  "alertKeyPreimage org ck ls ignore =
     writeField (writeField [] (uuid_bytes org)) ck @ LabelSet_Canonical ls ignore"

definition ComputeAlertKey ::
  "(string \<Rightarrow> string) \<Rightarrow> uuid \<Rightarrow> ClusterKey \<Rightarrow> LabelSet \<Rightarrow> string list \<Rightarrow> AlertKey" where
  "ComputeAlertKey H org ck ls ignore = AlertKeyPrefix @ encodeIdentity (H (alertKeyPreimage org ck ls ignore))"

definition ComputeSourceFingerprint :: "LabelSet \<Rightarrow> SourceFingerprint" where
  "ComputeSourceFingerprint ls = Labels_Fingerprint ls"

definition SplitLabels :: "LabelSet \<Rightarrow> Labels" where
  "SplitLabels ls = (LabelAlertName, AlertName ls) #
     (if LabelSet_Namespace ls \<noteq> [] then [(LabelNamespace, LabelSet_Namespace ls)] else [])"

definition groupKeyPreimage :: "uuid \<Rightarrow> ClusterKey \<Rightarrow> LabelSet \<Rightarrow> string" where
  "groupKeyPreimage org ck ls =
     writeField (writeField [] (uuid_bytes org)) ck @ Labels_Canonical (SplitLabels ls) []"

definition ComputeGroupKey :: "(string \<Rightarrow> string) \<Rightarrow> uuid \<Rightarrow> ClusterKey \<Rightarrow> LabelSet \<Rightarrow> GroupKey" where
  "ComputeGroupKey H org ck ls = GroupKeyPrefix @ encodeIdentity (H (groupKeyPreimage org ck ls))"

definition rulePreimage :: "('f \<Rightarrow> string) \<Rightarrow> string \<Rightarrow> 'f \<Rightarrow> 'f \<Rightarrow> Labels \<Rightarrow> Labels \<Rightarrow> string" where
  "rulePreimage FF expr forSeconds keepFor labels annotations =
     writeField (writeField (writeField (writeField [] expr) (FF forSeconds)) (FF keepFor)) (CanonMap labels) @
     CanonMap annotations"

definition ComputeRuleFingerprint ::
  "(string \<Rightarrow> string) \<Rightarrow> ('f \<Rightarrow> string) \<Rightarrow> string \<Rightarrow> 'f \<Rightarrow> 'f \<Rightarrow> Labels \<Rightarrow> Labels \<Rightarrow> RuleFingerprint" where
  "ComputeRuleFingerprint H FF expr forSeconds keepFor labels annotations =
     hexString (H (rulePreimage FF expr forSeconds keepFor labels annotations))"

definition idempotencyPreimage :: "uuid \<Rightarrow> string \<Rightarrow> uuid \<Rightarrow> string \<Rightarrow> int \<Rightarrow> uuid \<Rightarrow> string" where
  "idempotencyPreimage org subjectKind subject reason stateVersion occasion =
     (let h = writeField (writeField (writeField (writeField [] (uuid_bytes org)) subjectKind) (uuid_bytes subject)) reason
            @ itoa stateVersion
      in if occasion \<noteq> uuid_Nil then writeField h (uuid_bytes occasion) else h)"

definition ComputeIdempotencyKey ::
  "(string \<Rightarrow> string) \<Rightarrow> uuid \<Rightarrow> string \<Rightarrow> uuid \<Rightarrow> string \<Rightarrow> int \<Rightarrow> uuid \<Rightarrow> IdempotencyKey" where
  "ComputeIdempotencyKey H org subjectKind subject reason stateVersion occasion =
     hexString (H (idempotencyPreimage org subjectKind subject reason stateVersion occasion))"


section \<open>Reading a rendered digest back\<close>

lemma length_byte_bits [simp]: "length (byte_bits c) = 8"
  by (simp add: byte_bits_def)

lemma byte_bits_inj:
  assumes "byte_bits c = byte_bits d"
  shows "c = d"
proof -
  have "(of_char c :: nat) div 2 ^ i mod 2 = of_char d div 2 ^ i mod 2" if "i < 8" for i
  proof -
    have "i \<in> set [7, 6, 5, 4, 3, 2, 1, 0]" using that by auto
    then have "bit (of_char c :: nat) i = bit (of_char d :: nat) i"
      using assms unfolding byte_bits_def map_eq_conv by blast
    then show ?thesis by (simp add: bit_iff_odd mod2_eq_if)
  qed
  moreover have "(of_char e :: nat) < 2 ^ 8" for e by simp
  ultimately have "(of_char c :: nat) = of_char d" using digits_inj [of "of_char c" 2 8 "of_char d"] by blast
  then show ?thesis by simp
qed

interpretation bits: prefix_code byte_bits "\<lambda>_. True"
proof unfold_locales
  show "byte_bits c \<noteq> []" for c by (simp add: byte_bits_def)
  show "c = d \<and> r = s" if "byte_bits c @ r = byte_bits d @ s" for c d r s
    using that byte_bits_inj by simp
qed

lemma int_of_char_less_256: "0 \<le> (of_char c :: int) \<and> (of_char c :: int) < 256"
  by (metis of_char_mod_256 pos_mod_bound pos_mod_sign zero_less_numeral)

interpretation hex: prefix_code "\<lambda>c. hexdigits 2 (of_char c)" "\<lambda>_. True"
proof unfold_locales
  show "hexdigits 2 (of_char c) \<noteq> []" for c
    by (metis length_hexdigits list.size(3) zero_neq_numeral)
next
  fix c d r s assume "hexdigits 2 (of_char c) @ r = hexdigits 2 (of_char d) @ s"
  then have "hexdigits 2 (of_char c) = hexdigits 2 (of_char d)" "r = s" by simp_all
  moreover have "of_hex (hexdigits 2 (of_char e)) = of_char e" for e
    by (rule of_hex_hexdigits) (use int_of_char_less_256 [of e] in simp_all)
  ultimately show "c = d \<and> r = s" by (metis of_char_eq_iff)
qed


lemma hexString_inj: "hexString s = hexString t \<Longrightarrow> s = t"
  by (rule hex.concat_inj) (simp_all add: hexString_def list_all_iff)

text \<open>Five bits and their lower-case digit.\<close>

definition undigit32 :: "char \<Rightarrow> bool list" where
  "undigit32 c = (let n = (if is_digit c then of_char c - 48 else of_char c - 87) :: nat in
     [n div 16 mod 2 = 1, n div 8 mod 2 = 1, n div 4 mod 2 = 1, n div 2 mod 2 = 1, n mod 2 = 1])"

definition digit32 :: "bool list \<Rightarrow> char" where
  "digit32 g = lower_char (base32hex_alphabet ! group_val g)"

lemma digit32_bits:
  "undigit32 (digit32 [a, b, c, d, e]) = [a, b, c, d, e] \<and> is_base32hex (digit32 [a, b, c, d, e]) \<and>
     of_char (base32hex_alphabet ! group_val [a, b, c, d, e]) < (128 :: nat)"
  by (cases a; cases b; cases c; cases d; cases e)
    (simp_all add: undigit32_def digit32_def group_val_def base32hex_alphabet_def lower_char_def is_digit_def
      is_base32hex_def between_def)

lemma digit32:
  assumes "length g = 5"
  shows "undigit32 (digit32 g) = g" "is_base32hex (digit32 g)"
    "of_char (base32hex_alphabet ! group_val g) < (128 :: nat)"
proof -
  obtain a b c d e where "g = [a, b, c, d, e]"
    using assms by (auto simp: numeral_eq_Suc length_Suc_conv)
  with digit32_bits show "undigit32 (digit32 g) = g" "is_base32hex (digit32 g)"
    "of_char (base32hex_alphabet ! group_val g) < (128 :: nat)" by simp_all
qed

lemma ToLower_ascii: "list_all (\<lambda>c. of_char c < (128 :: nat)) s \<Longrightarrow> ToLower s = map lower_char s"
  by (induction s rule: ToLower.induct) (auto simp: byte_def)

lemma groups5_length: "g \<in> set (groups5 bs) \<Longrightarrow> length g = 5"
proof (induction bs rule: groups5.induct)
  case (1 bs)
  show ?case
  proof (cases "bs = []")
    case False
    have "length (take 5 (bs @ [False, False, False, False])) = 5"
      using False by (cases bs) auto
    with 1 False show ?thesis by (auto simp: groups5.simps [of bs])
  qed (use 1 in \<open>simp add: groups5.simps [of "[]"]\<close>)
qed


lemma take_concat_groups5: "take (length bs) (concat (groups5 bs)) = bs"
proof (induction bs rule: groups5.induct)
  case (1 bs)
  show ?case
  proof (cases "length bs \<le> 5")
    case True
    then show ?thesis
      by (cases "bs = []") (simp_all add: groups5.simps [of bs] groups5.simps [of "[]"])
  next
    case False
    then have "bs \<noteq> []" by auto
    with 1 have IH: "take (length bs - 5) (concat (groups5 (drop 5 bs))) = drop 5 bs" by simp
    have "take (length bs) (concat (groups5 bs)) = take 5 bs @ take (length bs - 5) (concat (groups5 (drop 5 bs)))"
      using False \<open>bs \<noteq> []\<close> by (simp add: groups5.simps [of bs])
    with IH show ?thesis by simp
  qed
qed

lemma groups5_inj: "length xs = length ys \<Longrightarrow> groups5 xs = groups5 ys \<Longrightarrow> xs = ys"
  by (metis take_concat_groups5)

lemma length_groups5: "length (groups5 bs) = (length bs + 4) div 5"
proof (induction bs rule: groups5.induct)
  case (1 bs)
  show ?case
  proof (cases "bs = []")
    case False
    with 1 have "length (groups5 bs) = Suc ((length bs - 5 + 4) div 5)"
      by (simp add: groups5.simps [of bs])
    with False show ?thesis by (cases "length bs \<le> 5"; cases bs) auto
  qed (simp add: groups5.simps [of "[]"])
qed

lemma encodeIdentity_eq:
  "encodeIdentity d = map digit32 (groups5 (concat (map byte_bits (take 16 d))))"
proof -
  have "list_all (\<lambda>c. of_char c < (128 :: nat)) (base32hex (take 16 d))"
    using groups5_length digit32(3) by (auto simp: base32hex_def list_all_iff)
  then show ?thesis
    by (simp add: encodeIdentity_def identityDigestBytes_def ToLower_ascii) (simp add: base32hex_def digit32_def)
qed

lemma length_bits: "length (concat (map byte_bits s)) = 8 * length s"
  by (induction s) simp_all

lemma encodeIdentity_inj:
  assumes "16 \<le> length d" "16 \<le> length d'" "encodeIdentity d = encodeIdentity d'"
  shows "take 16 d = take 16 d'"
proof -
  let ?b = "\<lambda>d. concat (map byte_bits (take 16 d))"
  have undo: "map undigit32 (map digit32 (groups5 bs)) = groups5 bs" for bs
    using groups5_length digit32(1) by (induction "groups5 bs") (auto simp: map_idI)
  have "groups5 (?b d) = groups5 (?b d')"
    using assms(3) undo unfolding encodeIdentity_eq by metis
  then have "?b d = ?b d'" by (rule groups5_inj [rotated]) (simp add: length_bits assms)
  then show ?thesis by (rule bits.concat_inj [rotated 2]) (simp_all add: list_all_iff)
qed

lemma encodeIdentity_shape:
  assumes "16 \<le> length d"
  shows "length (encodeIdentity d) = 26" "list_all is_base32hex (encodeIdentity d)"
  using assms groups5_length digit32(2)
  by (auto simp: encodeIdentity_eq length_groups5 length_bits list_all_iff)

lemma hexString_shape: "length (hexString s) = 2 * length s"
  by (induction s) (simp_all add: hexString_def)

section \<open>Pre-images decode to one identity\<close>

lemma writeField_enc: "writeField h b = h @ field_enc b"
  by (simp add: writeField_def field_enc_def)

lemma length_uuid_bytes [simp]: "length (uuid_bytes u) = 16"
  by (simp add: uuid_bytes_def)

lemma uuid_field_ok [simp]: "field_ok (uuid_bytes u)"
  by (simp add: field_ok_def)

lemma uuid_bytes_inj: "uuid_bytes u = uuid_bytes v \<Longrightarrow> u = v"
proof -
  assume eq: "uuid_bytes u = uuid_bytes v"
  have "unat w < 256 ^ 16" for w :: uuid using unsigned_less [of w] by simp
  with eq have "unat u = unat v" unfolding uuid_bytes_def by (intro bytes_inj) auto
  then show "u = v" by (rule unsigned_word_eqI)
qed

lemma uuid_field_cancel: "field_enc (uuid_bytes u) @ r = field_enc (uuid_bytes v) @ s \<Longrightarrow> u = v \<and> r = s"
  by (drule field.cancel [OF uuid_field_ok uuid_field_ok]) (auto dest: uuid_bytes_inj)

lemma is_map_LabelSet_Without [simp]: "is_map l \<Longrightarrow> is_map (LabelSet_Without l names)"
  by (simp add: LabelSet_Without_def)

lemma label_ok_Without: "list_all label_ok l \<Longrightarrow> list_all label_ok (LabelSet_Without l names)"
  by (auto simp: LabelSet_Without_def Labels_Without_def list_all_iff)

lemma map_of_LabelSet_Without:
  "map_of (LabelSet_Without l names) n = (if n \<in> set names \<and> n \<noteq> LabelAlertName then None else map_of l n)"
  by (simp add: LabelSet_Without_def map_of_Without)

lemma ClusterKey_field_ok: "ClusterKeyRe ck \<Longrightarrow> field_ok ck"
  by (simp add: ClusterKeyRe_def field_ok_def)

end
