(* ===== verification/Identity_Correct.thy ===== *)
theory Identity_Correct
  imports Alert_Keys
begin

text \<open>
  The correctness properties of identity (\<^verbatim>\<open>labels.go\<close>, \<^verbatim>\<open>keys.go\<close>): what two equal keys say about
  what they were computed from. SHA-256 stays a parameter; assumed of it are the length of its digest and, where two
  keys are compared, that the two pre-images compared do not collide.
\<close>

text \<open>The kept part of a digest tells these two texts apart.\<close>

definition collision_free :: "(string \<Rightarrow> string) \<Rightarrow> string \<Rightarrow> string \<Rightarrow> bool" where
  "collision_free D p q \<longleftrightarrow> (D p = D q \<longrightarrow> p = q)"

text \<open>The digest of the examples singles out one text.\<close>

definition ex_digest :: "string \<Rightarrow> string \<Rightarrow> string" where
  "ex_digest p s = replicate 32 (if s = p then CHR ''1'' else CHR ''0'')"

lemma ex_digest_ok: "length (ex_digest p s) = 32" "collision_free (\<lambda>x. take 16 (ex_digest p x)) p q"
  "collision_free (ex_digest p) p q"
  by (simp_all add: ex_digest_def collision_free_def)

definition ex_labels :: LabelSet where
  "ex_labels = [(''severity'', ''page''), (''alertname'', ''Down''), (''namespace'', ''db'')]"

lemma ex_labels_storable: "Storable ''page''" "Storable ''Down''" "Storable ''db''"
  by (simp_all add: Storable_def NUL_def char_of_def ValidString.simps between_def)

lemma ex_labels_ok: "NewLabels ex_labels = Inr ex_labels" "NewLabels (rev ex_labels) = Inr (rev ex_labels)"
  using ex_labels_storable
  by (simp_all add: NewLabels_Inr ex_labels_def label_bounds labelErr_def LabelNameRe_def is_word_start_def between_def
      SerialisedSize_def canonOverheadPerLabel_def canonLenBytes_def UnstorableReason_Nil_iff)

section \<open>Label sets\<close>

text \<open>
  C15. The canonical serialisation is exactly the label set: two accepted label sets serialise to the same
  bytes if and only if they bind the same names to the same values. It neither depends on the order in
  which Go iterates the maps nor lets a value forge the framing of labels that are not there.
\<close>

theorem canonical_is_identity:
  assumes "NewLabels a = Inr a" "NewLabels b = Inr b" "is_map a" "is_map b"
  shows "canonical_bytes a = canonical_bytes b \<longleftrightarrow> map_of a = map_of b"
  using canonical_bytes_inj [OF assms(3,4)] canonical_bytes_cong [OF assms(3,4)] NewLabels_label_ok assms(1,2)
  by blast

theorem canonical_is_identity_witness:
  "canonical_bytes ex_labels = canonical_bytes (rev ex_labels) \<and> ex_labels \<noteq> rev ex_labels"
proof -
  have "is_map ex_labels" "is_map (rev ex_labels)" "map_of ex_labels = map_of (rev ex_labels)" "ex_labels \<noteq> rev ex_labels"
    by (auto simp: ex_labels_def fun_eq_iff)
  with canonical_is_identity [OF ex_labels_ok] show ?thesis by blast
qed

lemma alertKeyPreimage_eq_iff:
  assumes "ClusterKeyRe ck" "ClusterKeyRe ck'" "NewLabels ls = Inr ls" "is_map ls" "NewLabels ls' = Inr ls'" "is_map ls'"
  shows "alertKeyPreimage org ck ls ignore = alertKeyPreimage org' ck' ls' ignore \<longleftrightarrow>
    org = org' \<and> ck = ck' \<and> (\<forall>n. n \<notin> set ignore \<or> n = LabelAlertName \<longrightarrow> map_of ls n = map_of ls' n)"
    (is "?eq \<longleftrightarrow> ?same")
proof
  assume ?eq
  then have eq: "field_enc (uuid_bytes org) @ field_enc ck @ LabelSet_Canonical ls ignore =
      field_enc (uuid_bytes org') @ field_enc ck' @ LabelSet_Canonical ls' ignore"
    by (simp add: alertKeyPreimage_def writeField_enc)
  then have o: "org = org'" "field_enc ck @ LabelSet_Canonical ls ignore = field_enc ck' @ LabelSet_Canonical ls' ignore"
    using uuid_field_cancel [OF eq] by simp_all
  then have c: "ck = ck'" "LabelSet_Canonical ls ignore = LabelSet_Canonical ls' ignore"
    using field.cancel [OF _ _ o(2)] assms(1,2) by (simp_all add: ClusterKey_field_ok)
  have "map_of (LabelSet_Without ls ignore) = map_of (LabelSet_Without ls' ignore)"
    using c(2) assms(3-6) NewLabels_label_ok
    by (intro canonical_bytes_inj) (simp_all add: LabelSet_Canonical_def label_ok_Without)
  then have "map_of ls n = map_of ls' n" if "n \<notin> set ignore \<or> n = LabelAlertName" for n
    using that map_of_LabelSet_Without [of ls ignore n] map_of_LabelSet_Without [of ls' ignore n] by auto
  with o c show ?same by blast
next
  assume same: ?same
  have "LabelSet_Canonical ls ignore = LabelSet_Canonical ls' ignore"
    unfolding LabelSet_Canonical_def using assms(4,6) same
    by (intro canonical_bytes_cong) (auto simp: map_of_LabelSet_Without fun_eq_iff)
  with same show ?eq by (simp add: alertKeyPreimage_def)
qed

text \<open>
  C16. An \<open>alert_key\<close> is the identity of an alert: two accepted alerts get the same key exactly when the
  organisation, the cluster and every label outside the ignore list agree; \<open>alertname\<close> always counts,
  even when a configuration tries to ignore it, and an ignored label never splits an alert.
\<close>

theorem alert_key_identity:
  assumes digest: "\<And>x. length (H x) = 32"
    and no_collision: "collision_free (\<lambda>x. take 16 (H x))
      (alertKeyPreimage org ck ls ignore) (alertKeyPreimage org' ck' ls' ignore)"
    and ok: "ClusterKeyRe ck" "ClusterKeyRe ck'"
      "NewLabels ls = Inr ls" "is_map ls" "NewLabels ls' = Inr ls'" "is_map ls'"
  shows "ComputeAlertKey H org ck ls ignore = ComputeAlertKey H org' ck' ls' ignore \<longleftrightarrow>
    org = org' \<and> ck = ck' \<and> (\<forall>n. n \<notin> set ignore \<or> n = LabelAlertName \<longrightarrow> map_of ls n = map_of ls' n)"
  unfolding alertKeyPreimage_eq_iff [OF ok, symmetric]
proof
  assume "ComputeAlertKey H org ck ls ignore = ComputeAlertKey H org' ck' ls' ignore"
  then have "take 16 (H (alertKeyPreimage org ck ls ignore)) = take 16 (H (alertKeyPreimage org' ck' ls' ignore))"
    using digest by (intro encodeIdentity_inj) (simp_all add: ComputeAlertKey_def)
  with no_collision show "alertKeyPreimage org ck ls ignore = alertKeyPreimage org' ck' ls' ignore"
    by (simp add: collision_free_def)
qed (simp add: ComputeAlertKey_def)

theorem alert_key_identity_witness:
  "ComputeAlertKey (ex_digest (alertKeyPreimage 5 ''prod'' ex_labels [''severity''])) 5 ''prod'' ex_labels [''severity''] =
     ComputeAlertKey (ex_digest (alertKeyPreimage 5 ''prod'' ex_labels [''severity''])) 5 ''prod'' (rev ex_labels) [''severity''] \<and>
   ComputeAlertKey (ex_digest (alertKeyPreimage 5 ''prod'' ex_labels [''severity''])) 5 ''prod'' ex_labels [''severity''] \<noteq>
     ComputeAlertKey (ex_digest (alertKeyPreimage 5 ''prod'' ex_labels [''severity''])) 5 ''stage'' ex_labels [''severity'']"
proof -
  have m: "is_map ex_labels" "is_map (rev ex_labels)" "map_of (rev ex_labels) = map_of ex_labels"
    by (auto simp: ex_labels_def fun_eq_iff)
  have ck: "ClusterKeyRe ''prod''" "ClusterKeyRe ''stage''"
    by (simp_all add: ClusterKeyRe_def lower_alnum_def between_def)
  show ?thesis
    using alert_key_identity [OF ex_digest_ok(1,2) ck(1) ck(1) ex_labels_ok(1) m(1) ex_labels_ok(2) m(2), of 5 "[''severity'']" 5]
      alert_key_identity [OF ex_digest_ok(1,2) ck ex_labels_ok(1) m(1) ex_labels_ok(1) m(1), of 5 "[''severity'']" 5]
    by (simp add: m(3))
qed

section \<open>The other keys\<close>

text \<open>The pre-images that start with an id and a cluster key.\<close>

lemma SplitLabels_map:
  "is_map (SplitLabels ls)"
  "map_of (SplitLabels ls) = map_of (SplitLabels ls') \<longleftrightarrow>
     AlertName ls = AlertName ls' \<and> LabelSet_Namespace ls = LabelSet_Namespace ls'"
proof -
  have ne: "LabelNamespace \<noteq> LabelAlertName" by (simp add: LabelNamespace_def LabelAlertName_def)
  then show "is_map (SplitLabels ls)" by (simp add: SplitLabels_def)
  have "map_of (SplitLabels l) = (Map.empty(LabelAlertName \<mapsto> AlertName l))
      (LabelNamespace := if LabelSet_Namespace l = [] then None else Some (LabelSet_Namespace l))" for l
    using ne by (auto simp: SplitLabels_def fun_eq_iff)
  then show "map_of (SplitLabels ls) = map_of (SplitLabels ls') \<longleftrightarrow>
     AlertName ls = AlertName ls' \<and> LabelSet_Namespace ls = LabelSet_Namespace ls'"
    using ne by (auto simp: fun_eq_iff split: if_splits)
qed

lemma SplitLabels_ok:
  assumes "list_all label_ok ls"
  shows "list_all label_ok (SplitLabels ls)"
proof -
  have "field_ok (mustGet ls n)" for n
  proof (cases "map_of ls n")
    case (Some v)
    then have "label_ok (n, v)" using assms map_of_SomeD [OF Some] by (auto simp: list_all_iff)
    with Some show ?thesis by (simp add: mustGet_def Labels_Get_def label_ok_def)
  qed (simp add: mustGet_def Labels_Get_def field_ok_def)
  moreover have "field_ok LabelAlertName" "field_ok LabelNamespace"
    by (simp_all add: field_ok_def LabelAlertName_def LabelNamespace_def)
  ultimately show ?thesis
    by (simp add: SplitLabels_def label_ok_def AlertName_def LabelSet_Namespace_def)
qed

lemma groupKeyPreimage_inj:
  assumes "ClusterKeyRe ck" "ClusterKeyRe ck'" "list_all label_ok ls" "list_all label_ok ls'"
    and "groupKeyPreimage org ck ls = groupKeyPreimage org' ck' ls'"
  shows "org = org' \<and> ck = ck' \<and> AlertName ls = AlertName ls' \<and> LabelSet_Namespace ls = LabelSet_Namespace ls'"
proof -
  have eq: "field_enc (uuid_bytes org) @ field_enc ck @ canonical_bytes (SplitLabels ls) =
      field_enc (uuid_bytes org') @ field_enc ck' @ canonical_bytes (SplitLabels ls')"
    using assms(5) by (simp add: groupKeyPreimage_def writeField_enc Labels_Canonical_def Labels_Without_def)
  then have o: "org = org'" "field_enc ck @ canonical_bytes (SplitLabels ls) = field_enc ck' @ canonical_bytes (SplitLabels ls')"
    using uuid_field_cancel [OF eq] by simp_all
  then have c: "ck = ck'" "canonical_bytes (SplitLabels ls) = canonical_bytes (SplitLabels ls')"
    using field.cancel [OF _ _ o(2)] assms(1,2) by (simp_all add: ClusterKey_field_ok)
  have "map_of (SplitLabels ls) = map_of (SplitLabels ls')"
    using c(2) assms(3,4) by (intro canonical_bytes_inj) (simp_all add: SplitLabels_map(1) SplitLabels_ok)
  with o c SplitLabels_map(2) show ?thesis by blast
qed

text \<open>
  A group splits on alert name and namespace and on nothing else: two accepted label sets get the same
  \<open>group_key\<close> exactly when organisation, cluster, alert name and namespace agree.
\<close>

theorem group_key_splits_on_name_and_namespace:
  assumes digest: "\<And>x. length (H x) = 32"
    and no_collision: "collision_free (\<lambda>x. take 16 (H x)) (groupKeyPreimage org ck ls) (groupKeyPreimage org' ck' ls')"
    and ck: "ClusterKeyRe ck" "ClusterKeyRe ck'"
    and ls: "NewLabelSet ls = Inr ls" "NewLabelSet ls' = Inr ls'"
  shows "ComputeGroupKey H org ck ls = ComputeGroupKey H org' ck' ls' \<longleftrightarrow>
    org = org' \<and> ck = ck' \<and> AlertName ls = AlertName ls' \<and> LabelSet_Namespace ls = LabelSet_Namespace ls'"
proof
  assume eq: "ComputeGroupKey H org ck ls = ComputeGroupKey H org' ck' ls'"
  have "take 16 (H (groupKeyPreimage org ck ls)) = take 16 (H (groupKeyPreimage org' ck' ls'))"
    using digest eq by (intro encodeIdentity_inj) (simp_all add: ComputeGroupKey_def)
  moreover have "list_all label_ok ls" "list_all label_ok ls'"
    using NewLabelSet_Inr [OF ls(1)] NewLabelSet_Inr [OF ls(2)] NewLabels_label_ok by blast+
  ultimately show "org = org' \<and> ck = ck' \<and> AlertName ls = AlertName ls' \<and> LabelSet_Namespace ls = LabelSet_Namespace ls'"
    using no_collision groupKeyPreimage_inj [OF ck] by (simp add: collision_free_def)
qed (simp add: ComputeGroupKey_def groupKeyPreimage_def SplitLabels_def)

theorem group_key_splits_on_name_and_namespace_witness:
  "ComputeGroupKey (ex_digest (groupKeyPreimage 5 ''prod'' ex_labels)) 5 ''prod'' ex_labels =
     ComputeGroupKey (ex_digest (groupKeyPreimage 5 ''prod'' ex_labels)) 5 ''prod'' (rev ex_labels)"
proof -
  have ls: "NewLabelSet ex_labels = Inr ex_labels" "NewLabelSet (rev ex_labels) = Inr (rev ex_labels)"
    using ex_labels_ok by (simp_all add: NewLabelSet_def ex_labels_def Labels_Get_def LabelAlertName_def
        TrimSpace_plain printable_def label_bounds)
  have ck: "ClusterKeyRe ''prod''" by (simp add: ClusterKeyRe_def lower_alnum_def between_def)
  have "AlertName ex_labels = AlertName (rev ex_labels)"
    "LabelSet_Namespace ex_labels = LabelSet_Namespace (rev ex_labels)"
    by (simp_all add: AlertName_def LabelSet_Namespace_def mustGet_def Labels_Get_def ex_labels_def
        LabelAlertName_def LabelNamespace_def)
  then show ?thesis
    using group_key_splits_on_name_and_namespace [OF ex_digest_ok(1,2) ck ck ls, of 5 5] by simp
qed

text \<open>The tail of the idempotency pre-image: digits, then nothing or a field that starts with a zero byte.\<close>

lemma itoa_no_NUL: "0 \<le> v \<Longrightarrow> NUL \<notin> set (itoa v)"
  using utoa_digits [of v NUL] by (auto simp: itoa_nonneg is_digit_def NUL_def of_char_of)

lemma uuid_field_NUL: "hd (field_enc (uuid_bytes u)) = NUL"
  by (simp add: field_enc_def uint32be_def NUL_def)

definition tail_of :: "int \<Rightarrow> uuid \<Rightarrow> string" where
  "tail_of v occasion = itoa v @ (if occasion \<noteq> 0 then field_enc (uuid_bytes occasion) else [])"

lemma tail_takeWhile: "0 \<le> v \<Longrightarrow> takeWhile (\<lambda>c. c \<noteq> NUL) (tail_of v occasion) = itoa v"
  using itoa_no_NUL [of v] uuid_field_NUL [of occasion] field.nonempty [of "uuid_bytes occasion"]
  by (cases "field_enc (uuid_bytes occasion)") (auto simp: tail_of_def takeWhile_tail)

lemma tail_inj:
  assumes "0 \<le> v" "0 \<le> v'" "tail_of v occ = tail_of v' occ'"
  shows "v = v' \<and> occ = occ'"
proof -
  have "itoa v = itoa v'" using assms tail_takeWhile by metis
  then have "v = v'" using assms itoa_nonneg_inj by blast
  with assms(3) have "(if occ \<noteq> 0 then field_enc (uuid_bytes occ) else []) = (if occ' \<noteq> 0 then field_enc (uuid_bytes occ') else [])"
    by (simp add: tail_of_def)
  then have "occ = occ'"
    using field.nonempty [of "uuid_bytes occ"] field.nonempty [of "uuid_bytes occ'"]
      uuid_field_cancel [of occ "[]" occ' "[]"]
    by (cases "occ = 0"; cases "occ' = 0") auto
  with \<open>v = v'\<close> show ?thesis by simp
qed

lemma idempotencyPreimage_eq:
  "idempotencyPreimage org sk sub rs v occ =
     field_enc (uuid_bytes org) @ field_enc sk @ field_enc (uuid_bytes sub) @ field_enc rs @ tail_of v occ"
  by (simp add: idempotencyPreimage_def writeField_enc tail_of_def Let_def)

lemma idempotencyPreimage_inj:
  assumes "field_ok sk" "field_ok sk'" "field_ok rs" "field_ok rs'" "0 \<le> v" "0 \<le> v'"
    and "idempotencyPreimage org sk sub rs v occ = idempotencyPreimage org' sk' sub' rs' v' occ'"
  shows "org = org' \<and> sk = sk' \<and> sub = sub' \<and> rs = rs' \<and> v = v' \<and> occ = occ'"
proof -
  note eq = assms(7) [unfolded idempotencyPreimage_eq]
  note 1 = uuid_field_cancel [OF eq]
  note 2 = field.cancel [OF assms(1,2) conjunct2 [OF 1]]
  note 3 = uuid_field_cancel [OF conjunct2 [OF 2]]
  note 4 = field.cancel [OF assms(3,4) conjunct2 [OF 3]]
  have "v = v' \<and> occ = occ'" by (rule tail_inj [OF assms(5,6) conjunct2 [OF 4]])
  with conjunct1 [OF 1] conjunct1 [OF 2] conjunct1 [OF 3] conjunct1 [OF 4] show ?thesis by blast
qed

text \<open>
  C18. An idempotency key is one occasion: two notifications share it exactly when the organisation, the
  subject, the reason, the state version and the occasion all agree, although the version is written
  without a length and the occasion only when there is one.
\<close>

theorem idempotency_key_identity:
  assumes no_collision: "collision_free H (idempotencyPreimage org sk sub rs v occ)
      (idempotencyPreimage org' sk' sub' rs' v' occ')"
    and fields: "field_ok sk" "field_ok sk'" "field_ok rs" "field_ok rs'" "0 \<le> v" "0 \<le> v'"
  shows "ComputeIdempotencyKey H org sk sub rs v occ = ComputeIdempotencyKey H org' sk' sub' rs' v' occ' \<longleftrightarrow>
    org = org' \<and> sk = sk' \<and> sub = sub' \<and> rs = rs' \<and> v = v' \<and> occ = occ'"
proof
  assume "ComputeIdempotencyKey H org sk sub rs v occ = ComputeIdempotencyKey H org' sk' sub' rs' v' occ'"
  then have "H (idempotencyPreimage org sk sub rs v occ) = H (idempotencyPreimage org' sk' sub' rs' v' occ')"
    unfolding ComputeIdempotencyKey_def by (rule hexString_inj)
  with no_collision show "org = org' \<and> sk = sk' \<and> sub = sub' \<and> rs = rs' \<and> v = v' \<and> occ = occ'"
    using idempotencyPreimage_inj [OF fields] by (simp add: collision_free_def)
qed simp

theorem idempotency_key_identity_witness:
  "ComputeIdempotencyKey id 5 ''case'' 7 ''snoozed'' 1 9 \<noteq> ComputeIdempotencyKey id 5 ''case'' 7 ''snoozed'' 19 0"
  using idempotency_key_identity [of id 5 "''case''" 7 "''snoozed''" 1 9 5 "''case''" 7 "''snoozed''" 19 0]
  by (simp add: field_ok_def collision_free_def)

text \<open>
  C19. \<open>SanitiseText\<close> always returns text the database can store, whatever bytes it is given, leaves
  storable text untouched, and says so exactly.
\<close>

theorem sanitised_text_is_storable:
  "UnstorableReason (fst (SanitiseText s)) = '''' \<and>
   (UnstorableReason s = '''' \<longleftrightarrow> SanitiseText s = (s, False)) \<and>
   SanitiseText (fst (SanitiseText s)) = (fst (SanitiseText s), False)"
  using sanitise_loop_storable [of s] by (auto simp: SanitiseText_def UnstorableReason_Nil_iff)

end
