(* ===== verification/Alert_Model.thy ===== *)
theory Alert_Model
  imports Alert_Keys Alert_Case
begin

text \<open>
  The alert itself, \<^verbatim>\<open>internal/alerts/domain/alert.go\<close>, with its projection and the roll-up and source
  coverage contracts of \<^verbatim>\<open>contracts.go\<close>, and the per-alert retention policy of \<^verbatim>\<open>casepolicy.go\<close>.
\<close>

definition MaxGeneratorURLBytes :: nat where "MaxGeneratorURLBytes = 8192"

text \<open>A float32 is its bits; the only question asked of it is whether it is below zero.\<close>

type_synonym float32 = "32 word"

definition float32_negative :: "float32 \<Rightarrow> bool" where
  "float32_negative w \<longleftrightarrow> 0x80000000 < w \<and> w \<le> 0xFF800000"

record Alert =
  al_id :: uuid
  al_orgID :: uuid
  al_clusterID :: uuid
  al_key :: AlertKey
  al_fingerprint :: SourceFingerprint
  al_clusterKey :: ClusterKey
  al_labels :: LabelSet
  al_annotations :: Annotations
  al_generatorURL :: string
  al_state :: State
  al_currentCaseID :: uuid
  al_suppressionReason :: SuppressionReason
  al_suppressedBy :: SuppressedBy
  al_firstSeenAt :: time
  al_lastSeenAt :: time
  al_lastStateChangeAt :: time
  al_totalCases :: int
  al_flapScore :: float32
  al_isFlapping :: bool
  al_synthetic :: bool

text \<open>\<^verbatim>\<open>AlertParams\<close> has exactly the fields of the alert, so the record models both.\<close>

definition NewAlert :: "Alert \<Rightarrow> Alert result" where
  "NewAlert p = or_fail (requireID (al_id p)) (or_fail (requireID (al_orgID p)) (or_fail (requireID (al_clusterID p))
    (or_fail (first_err
      [(al_key p = [], errs_New KindValidation ''required''),
       (al_fingerprint p = [], errs_New KindValidation ''required''),
       (al_clusterKey p = [], errs_New KindValidation ''required''),
       (Labels_IsZero (al_labels p), errs_New KindValidation ''required''),
       (\<not> State_IsOpen (al_state p) \<and> \<not> State_IsTerminal (al_state p), errs_New KindValidation ''required''),
       (length (al_generatorURL p) > MaxGeneratorURLBytes, errs_New KindValidation ''max_length''),
       (al_totalCases p < 0, errs_New KindValidation ''min''),
       (float32_negative (al_flapScore p), errs_New KindValidation ''min''),
       (IsZero (al_firstSeenAt p), errs_New KindValidation ''required''),
       (al_lastSeenAt p < al_firstSeenAt p, errs_New KindValidation ''field_order''),
       (al_lastStateChangeAt p < al_firstSeenAt p, errs_New KindValidation ''field_order'')])
     (Inr p))))"

definition Alert_SuppressedBy :: "Alert \<Rightarrow> SuppressedBy" where
  "Alert_SuppressedBy a =
     (if SuppressionReason_IsZero (al_suppressionReason a) then noSuppressedBy else al_suppressedBy a)"

definition DisplayState :: "Alert \<Rightarrow> State" where
  "DisplayState a =
     (if al_state a = StateFiring \<and> \<not> SuppressionReason_IsZero (al_suppressionReason a) then StateSuppressed
      else al_state a)"

definition HasOpenCase :: "Alert \<Rightarrow> bool" where
  "HasOpenCase a \<longleftrightarrow> al_currentCaseID a \<noteq> uuid_Nil"

record AlertProjection =
  pr_State :: State
  pr_SuppressionReason :: SuppressionReason
  pr_SuppressedBy :: SuppressedBy
  pr_CurrentCaseID :: "uuid option"
  pr_LastSeenAt :: time
  pr_LastStateChangeAt :: time
  pr_TotalCases :: int

definition derefID :: "uuid option \<Rightarrow> uuid" where
  "derefID p = (case p of None \<Rightarrow> uuid_Nil | Some i \<Rightarrow> i)"

text \<open>
  \<^verbatim>\<open>Alert.Project\<close> builds the parameters field by field; the fields it does not name (the suppression
  columns and the synthetic mark) are the zero values of the literal.
\<close>

definition Project :: "Alert \<Rightarrow> AlertProjection \<Rightarrow> Alert result" where
  "Project a p = NewAlert
     \<lparr>al_id = al_id a, al_orgID = al_orgID a, al_clusterID = al_clusterID a, al_key = al_key a,
      al_fingerprint = al_fingerprint a, al_clusterKey = al_clusterKey a, al_labels = al_labels a,
      al_annotations = al_annotations a, al_generatorURL = al_generatorURL a, al_state = pr_State p,
      al_currentCaseID = derefID (pr_CurrentCaseID p), al_suppressionReason = SuppressionZero,
      al_suppressedBy = noSuppressedBy, al_firstSeenAt = al_firstSeenAt a, al_lastSeenAt = pr_LastSeenAt p,
      al_lastStateChangeAt = pr_LastStateChangeAt p, al_totalCases = pr_TotalCases p,
      al_flapScore = al_flapScore a, al_isFlapping = al_isFlapping a, al_synthetic = False\<rparr>"

definition WithFlap :: "Alert \<Rightarrow> float32 \<Rightarrow> bool \<Rightarrow> Alert result" where
  "WithFlap a score flapping =
     (if float32_negative score then Inl (errs_New KindValidation ''min'')
      else Inr (a\<lparr>al_flapScore := score, al_isFlapping := flapping\<rparr>))"

definition Materially :: "Alert \<Rightarrow> LabelSet \<Rightarrow> Annotations \<Rightarrow> string \<Rightarrow> bool" where
  "Materially a labels annotations generatorURL \<longleftrightarrow>
     LabelSet_Severity (al_labels a) \<noteq> LabelSet_Severity labels \<or> al_generatorURL a \<noteq> generatorURL \<or>
     \<not> Annotations_Equal (al_annotations a) annotations"

section \<open>Contracts\<close>

record CaseSources =
  cs_Live :: int
  cs_Removed :: int
  cs_LiveIDs :: "uuid list"
  cs_MaxSilence :: duration
  cs_LastRemovedAt :: time

definition SameLiveSet :: "CaseSources \<Rightarrow> uuid list \<Rightarrow> bool" where
  "SameLiveSet c proven =
     (if cs_LiveIDs c = [] \<or> length (cs_LiveIDs c) \<noteq> length proven then False
      else let want = remdups proven in
        if length want \<noteq> length proven then False
        else list_all (\<lambda>i. i \<in> set want) (cs_LiveIDs c))"

datatype RollupKey = RollupZero | RollupByAlertName | RollupByNamespace | RollupByFingerprint

fun RollupKey_String :: "RollupKey \<Rightarrow> string" where
  "RollupKey_String RollupZero = ''''"
| "RollupKey_String RollupByAlertName = ''alertname''"
| "RollupKey_String RollupByNamespace = ''namespace''"
| "RollupKey_String RollupByFingerprint = ''fingerprint''"

definition NewRollupKey :: "string \<Rightarrow> RollupKey result" where
  "NewRollupKey = enum_parse RollupKey_String [RollupByAlertName, RollupByNamespace, RollupByFingerprint]"

interpretation rollupKey: closed_enum RollupKey_String NewRollupKey
  "\<lambda>k. k \<in> set [RollupByAlertName, RollupByNamespace, RollupByFingerprint]"
  unfolding NewRollupKey_def by (rule enum_parse_closed) simp

record AlertRollup =
  ru_Total :: int
  ru_Firing :: int
  ru_Suppressed :: int
  ru_Resolved :: int
  ru_Expired :: int

definition RollupState :: "AlertRollup \<Rightarrow> State" where
  "RollupState r =
     (if ru_Firing r > ru_Suppressed r then StateFiring
      else if ru_Firing r > 0 then StateSuppressed
      else if ru_Expired r > 0 then StateExpired
      else StateResolved)"

section \<open>The retention policy\<close>

record CasePolicy =
  cp_ID :: uuid
  cp_Namespace :: string
  cp_Alertname :: string
  cp_RetentionWindow :: duration

definition MinCaseRetentionWindow :: duration where "MinCaseRetentionWindow = 0 * Second"
definition MaxCaseRetentionWindow :: duration where "MaxCaseRetentionWindow = 86400 * Second"
definition MaxCasePolicyAlertnameBytes :: nat where "MaxCasePolicyAlertnameBytes = 1024"
definition MaxCasePolicyNamespaceBytes :: nat where "MaxCasePolicyNamespaceBytes = 1024"

lemmas casepolicy_bounds [oto_bounds] = MinCaseRetentionWindow_def MaxCaseRetentionWindow_def
  MaxCasePolicyAlertnameBytes_def MaxCasePolicyNamespaceBytes_def

definition NormaliseNamespace :: "string \<Rightarrow> string" where
  "NormaliseNamespace ns = TrimSpace ns"

definition violateCasePolicy :: "string \<Rightarrow> string \<Rightarrow> duration \<Rightarrow> bool \<Rightarrow> violation list" where
  "violateCasePolicy namespace alertname window checkAxes =
     (if checkAxes then collect
        [(length (TrimSpace alertname) < 1 \<or> length (TrimSpace alertname) > MaxCasePolicyAlertnameBytes,
            Violation ''alertname'' ''length''),
         (length (NormaliseNamespace namespace) > MaxCasePolicyNamespaceBytes, Violation ''namespace'' ''length'')]
      else []) @
     (if go_mod window Second \<noteq> 0 then [Violation ''retention_window_seconds'' ''range'']
      else if window < MinCaseRetentionWindow \<or> window > MaxCaseRetentionWindow
      then [Violation ''retention_window_seconds'' ''range'']
      else [])"

definition CasePolicyDraft_Validate :: "CasePolicy \<Rightarrow> error option" where
  "CasePolicyDraft_Validate d = violations_err ''case_policy_invalid''
     (violateCasePolicy (cp_Namespace d) (cp_Alertname d) (cp_RetentionWindow d) True)"

definition CasePolicyDraft_Normalised :: "CasePolicy \<Rightarrow> CasePolicy" where
  "CasePolicyDraft_Normalised d =
     d\<lparr>cp_Namespace := NormaliseNamespace (cp_Namespace d), cp_Alertname := TrimSpace (cp_Alertname d)\<rparr>"

text \<open>A patch is its one optional field.\<close>

definition CasePolicyPatch_Validate :: "duration option \<Rightarrow> CasePolicy \<Rightarrow> error option" where
  "CasePolicyPatch_Validate p existing =
     (let merged = (case p of Some w \<Rightarrow> existing\<lparr>cp_RetentionWindow := w\<rparr> | None \<Rightarrow> existing) in
      violations_err ''case_policy_invalid''
        (violateCasePolicy (cp_Namespace merged) (cp_Alertname merged) (cp_RetentionWindow merged) False))"

section \<open>Facts\<close>

lemma NewAlert_Inr: "NewAlert p = Inr a \<Longrightarrow> a = p"
  by (auto simp: NewAlert_def)

lemma SameLiveSet_iff:
  "SameLiveSet c proven \<longleftrightarrow>
     cs_LiveIDs c \<noteq> [] \<and> length (cs_LiveIDs c) = length proven \<and> distinct proven \<and>
     set (cs_LiveIDs c) \<subseteq> set proven"
  by (auto simp: SameLiveSet_def Let_def list_all_iff length_remdups_eq)

text \<open>When the live ids are distinct, as a query over a primary key returns them, it is set equality.\<close>

lemma SameLiveSet_sets:
  assumes "distinct (cs_LiveIDs c)"
  shows "SameLiveSet c proven \<longleftrightarrow> cs_LiveIDs c \<noteq> [] \<and> distinct proven \<and> set (cs_LiveIDs c) = set proven"
proof
  assume "SameLiveSet c proven"
  then have h: "cs_LiveIDs c \<noteq> []" "length (cs_LiveIDs c) = length proven" "distinct proven"
      "set (cs_LiveIDs c) \<subseteq> set proven" by (auto simp: SameLiveSet_iff)
  then have "card (set (cs_LiveIDs c)) = card (set proven)" using assms by (simp add: distinct_card)
  with h show "cs_LiveIDs c \<noteq> [] \<and> distinct proven \<and> set (cs_LiveIDs c) = set proven"
    using card_subset_eq [of "set proven"] by blast
next
  assume "cs_LiveIDs c \<noteq> [] \<and> distinct proven \<and> set (cs_LiveIDs c) = set proven"
  then show "SameLiveSet c proven" using assms by (metis SameLiveSet_iff distinct_card order_refl)
qed

lemma CasePolicyDraft_valid:
  "CasePolicyDraft_Validate d = None \<longleftrightarrow>
     TrimSpace (cp_Alertname d) \<noteq> [] \<and> length (TrimSpace (cp_Alertname d)) \<le> 1024 \<and>
     length (TrimSpace (cp_Namespace d)) \<le> 1024 \<and>
     (\<exists>k. cp_RetentionWindow d = k * Second \<and> 0 \<le> k \<and> k \<le> 86400)"
  by (auto simp: CasePolicyDraft_Validate_def violateCasePolicy_def casepolicy_bounds NormaliseNamespace_def
      collect_Nil_iff go_mod_eq_0_iff duration_units not_less)

end
