(* ===== verification/Snooze.thy ===== *)
theory Snooze
  imports Alert_Model Lifecycle
begin

text \<open>
  Snoozes, \<^verbatim>\<open>internal/alerts/domain/snooze.go\<close>: a bounded, attributed hold on notifications that starts
  once and ends once. \<open>NewSnooze\<close> validates a row, \<open>StartSnooze\<close> and \<open>End\<close> are the two operations,
  \<open>IsActiveAt\<close> and \<open>HasExpiredAt\<close> the clock's readings, and \<open>FirstSuppressor\<close> the precedence that
  decides which of several reasons for silence is reported.
\<close>

datatype SnoozeEndReason = SnoozeEndZero | SnoozeEndedExpired | SnoozeEndedManual | SnoozeEndedSuperseded

fun SnoozeEndReason_String :: "SnoozeEndReason \<Rightarrow> string" where
  "SnoozeEndReason_String SnoozeEndZero = ''''"
| "SnoozeEndReason_String SnoozeEndedExpired = ''expired''"
| "SnoozeEndReason_String SnoozeEndedManual = ''manual''"
| "SnoozeEndReason_String SnoozeEndedSuperseded = ''superseded''"

definition NewSnoozeEndReason :: "string \<Rightarrow> SnoozeEndReason result" where
  "NewSnoozeEndReason = enum_parse SnoozeEndReason_String
     [SnoozeEndedExpired, SnoozeEndedManual, SnoozeEndedSuperseded]"

interpretation snoozeEnd: closed_enum SnoozeEndReason_String NewSnoozeEndReason
  "\<lambda>r. r \<in> set [SnoozeEndedExpired, SnoozeEndedManual, SnoozeEndedSuperseded]"
  unfolding NewSnoozeEndReason_def by (rule enum_parse_closed) simp

definition SnoozeEndReason_IsZero :: "SnoozeEndReason \<Rightarrow> bool" where
  [oto_defs]: "SnoozeEndReason_IsZero r \<longleftrightarrow> r = SnoozeEndZero"

definition MinSnoozeDuration :: duration where "MinSnoozeDuration = 5 * Minute"
definition MaxSnoozeDuration :: duration where "MaxSnoozeDuration = 30 * 24 * Hour"
definition MaxSnoozeNoteBytes :: nat where "MaxSnoozeNoteBytes = 2000"
definition MaxSnoozeLabelBytes :: nat where "MaxSnoozeLabelBytes = 120"

lemmas snooze_bounds [oto_bounds] = MinSnoozeDuration_def MaxSnoozeDuration_def MaxSnoozeNoteBytes_def
  MaxSnoozeLabelBytes_def

definition SnoozePresets :: "duration list" where
  "SnoozePresets = [30 * Minute, 1 * Hour, 4 * Hour, 24 * Hour, 7 * 24 * Hour]"

record Snooze =
  s_id :: uuid
  s_orgID :: uuid
  s_alertID :: uuid
  s_alertKey :: AlertKey
  s_snoozedAt :: time
  s_snoozedUntil :: time
  s_snoozedBy :: uuid
  s_snoozedByLabel :: string
  s_note :: string
  s_endedAt :: time
  s_endedReason :: SnoozeEndReason
  s_endedBy :: uuid
  s_endedByLabel :: string

definition checkSnoozeWindow :: "time \<Rightarrow> time \<Rightarrow> error option" where
  "checkSnoozeWindow from until =
     (let d = t_sub until from in
      if d \<le> 0 then Some (errs_New KindValidation ''field_order'')
      else if d < MinSnoozeDuration then Some (errs_New KindValidation ''min'')
      else if d > MaxSnoozeDuration then Some (errs_New KindValidation ''max'')
      else None)"

text \<open>\<^verbatim>\<open>SnoozeParams\<close> has exactly the fields of the snooze.\<close>

definition NewSnooze :: "Snooze \<Rightarrow> Snooze result" where
  "NewSnooze p = or_fail (requireID (s_id p)) (or_fail (requireID (s_orgID p)) (or_fail (requireID (s_alertID p))
    (or_fail (first_err
      [(s_alertKey p = [], errs_New KindValidation ''required''),
       (IsZero (s_snoozedAt p), errs_New KindValidation ''required''),
       (IsZero (s_snoozedUntil p), errs_New KindValidation ''required'')])
    (or_fail (checkSnoozeWindow (s_snoozedAt p) (s_snoozedUntil p))
    (let label = TrimSpace (s_snoozedByLabel p) in
     or_fail (first_err
      [(label = [], errs_New KindValidation ''not_blank''),
       (length label > MaxSnoozeLabelBytes, errs_New KindValidation ''max_length''),
       (length (s_note p) > MaxSnoozeNoteBytes, errs_New KindValidation ''max_length''),
       (IsZero (s_endedAt p) \<noteq> SnoozeEndReason_IsZero (s_endedReason p), errs_New KindValidation ''field_order''),
       (\<not> IsZero (s_endedAt p) \<and> s_endedAt p < s_snoozedAt p, errs_New KindValidation ''field_order''),
       (s_endedBy p \<noteq> uuid_Nil \<and> TrimSpace (s_endedByLabel p) = [], errs_New KindValidation ''required''),
       (length (s_endedByLabel p) > MaxSnoozeLabelBytes, errs_New KindValidation ''max_length'')])
     (Inr (p\<lparr>s_snoozedByLabel := label, s_endedByLabel := TrimSpace (s_endedByLabel p)\<rparr>)))))))"

definition Snooze_Duration :: "Snooze \<Rightarrow> duration" where
  "Snooze_Duration s = t_sub (s_snoozedUntil s) (s_snoozedAt s)"

definition Snooze_IsOpen :: "Snooze \<Rightarrow> bool" where
  [oto_defs]: "Snooze_IsOpen s \<longleftrightarrow> IsZero (s_endedAt s)"

definition IsActiveAt :: "Snooze \<Rightarrow> time \<Rightarrow> bool" where
  "IsActiveAt s now \<longleftrightarrow> Snooze_IsOpen s \<and> s_snoozedUntil s > now"

definition HasExpiredAt :: "Snooze \<Rightarrow> time \<Rightarrow> bool" where
  "HasExpiredAt s now \<longleftrightarrow> Snooze_IsOpen s \<and> \<not> s_snoozedUntil s > now"

definition RemainingAt :: "Snooze \<Rightarrow> time \<Rightarrow> duration" where
  "RemainingAt s now = (if \<not> IsActiveAt s now then 0 else t_sub (s_snoozedUntil s) now)"

section \<open>Operations\<close>

record SnoozeCommand =
  sc_ID :: uuid
  sc_Actor :: Actor
  sc_At :: ObservationTime
  sc_Until :: time
  sc_Note :: string
  sc_EventID :: uuid
  sc_Payload :: payload

definition actorUUID :: "uuidlib \<Rightarrow> Actor \<Rightarrow> uuid" where
  "actorUUID U a = (case uuidParse U (a_id a) of None \<Rightarrow> uuid_Nil | Some i \<Rightarrow> i)"

definition StartSnooze :: "uuidlib \<Rightarrow> Alert \<Rightarrow> SnoozeCommand \<Rightarrow> (Snooze \<times> Event list) result" where
  "StartSnooze U a cmd =
     or_fail (first_err
       [(Actor_IsZero (sc_Actor cmd) \<or> \<not> IsHuman (a_kind (sc_Actor cmd)), errs_New KindValidation ''required''),
        (ObservationTime_IsZero (sc_At cmd), errs_New KindValidation ''required'')])
     (rbind (NewSnooze
        \<lparr>s_id = sc_ID cmd, s_orgID = al_orgID a, s_alertID = al_id a, s_alertKey = al_key a,
         s_snoozedAt = recordedAt (sc_At cmd), s_snoozedUntil = sc_Until cmd,
         s_snoozedBy = actorUUID U (sc_Actor cmd), s_snoozedByLabel = a_label (sc_Actor cmd),
         s_note = sc_Note cmd, s_endedAt = 0, s_endedReason = SnoozeEndZero, s_endedBy = uuid_Nil,
         s_endedByLabel = []\<rparr>)
       (\<lambda>s. rbind (NewEvent
          \<lparr>ev_id = sc_EventID cmd, ev_orgID = s_orgID s, ev_alertID = s_alertID s, ev_caseID = uuid_Nil,
           ev_groupID = uuid_Nil, ev_typ = EventAlertSnoozed, ev_at = sc_At cmd, ev_actor = sc_Actor cmd,
           ev_summary = ''Notifications snoozed by '' @ a_label (sc_Actor cmd),
           ev_payload = mergePayload (sc_Payload cmd)
             [(''snooze_id'', JStr (uuidString U (s_id s))),
              (''until'', JStr (RFC3339Nano (s_snoozedUntil s))),
              (''note'', JStr (s_note s)),
              (''duration_seconds'', JInt (go_div (Snooze_Duration s) Second))],
           ev_dedupeKey = ''snooze:'' @ uuidString U (s_id s) @ '':started''\<rparr>)
          (\<lambda>ev. Inr (s, [ev]))))"

record UnsnoozeCommand =
  uc_Actor :: Actor
  uc_At :: ObservationTime
  uc_Reason :: SnoozeEndReason
  uc_EventID :: uuid
  uc_Note :: string
  uc_Payload :: payload

definition unsnoozeSummary :: "UnsnoozeCommand \<Rightarrow> string" where
  "unsnoozeSummary cmd =
     (case uc_Reason cmd of
        SnoozeEndedExpired \<Rightarrow> ''Snooze expired: notifications resumed''
      | SnoozeEndedSuperseded \<Rightarrow> ''Snooze replaced by a new snooze from '' @ a_label (uc_Actor cmd)
      | _ \<Rightarrow> ''Notifications resumed by '' @ a_label (uc_Actor cmd))"

definition endedSnooze :: "uuidlib \<Rightarrow> Snooze \<Rightarrow> UnsnoozeCommand \<Rightarrow> Snooze" where
  "endedSnooze U s cmd = s\<lparr>s_endedAt := notBefore (recordedAt (uc_At cmd)) (s_snoozedAt s),
     s_endedReason := uc_Reason cmd, s_endedBy := actorUUID U (uc_Actor cmd),
     s_endedByLabel := a_label (uc_Actor cmd)\<rparr>"

definition End :: "uuidlib \<Rightarrow> Snooze \<Rightarrow> UnsnoozeCommand \<Rightarrow> (Snooze \<times> Event list) result" where
  "End U s cmd =
     or_fail (first_err
       [(Actor_IsZero (uc_Actor cmd), errs_New KindValidation ''required''),
        (ObservationTime_IsZero (uc_At cmd), errs_New KindValidation ''required''),
        (SnoozeEndReason_IsZero (uc_Reason cmd), errs_New KindValidation ''required''),
        (\<not> Snooze_IsOpen s, errs_New KindPrecondition ''snooze_already_ended''),
        (uc_Reason cmd = SnoozeEndedExpired \<and> IsHuman (a_kind (uc_Actor cmd)), errs_New KindInternal ''wrong_actor''),
        (uc_Reason cmd \<noteq> SnoozeEndedExpired \<and> \<not> IsHuman (a_kind (uc_Actor cmd)), errs_New KindInternal ''wrong_actor''),
        (length (uc_Note cmd) > MaxSnoozeNoteBytes, errs_New KindValidation ''max_length'')])
     (let nxt = endedSnooze U s cmd in
      rbind (NewEvent
         \<lparr>ev_id = uc_EventID cmd, ev_orgID = s_orgID nxt, ev_alertID = s_alertID nxt, ev_caseID = uuid_Nil,
          ev_groupID = uuid_Nil, ev_typ = EventAlertUnsnoozed, ev_at = uc_At cmd, ev_actor = uc_Actor cmd,
          ev_summary = unsnoozeSummary cmd,
          ev_payload = mergePayload (uc_Payload cmd)
            ([(''snooze_id'', JStr (uuidString U (s_id nxt))),
              (''reason'', JStr (SnoozeEndReason_String (uc_Reason cmd)))] @
             (if uc_Note cmd \<noteq> [] then [(''note'', JStr (uc_Note cmd))] else [])),
          ev_dedupeKey = ''snooze:'' @ uuidString U (s_id nxt) @ '':ended''\<rparr>)
        (\<lambda>ev. Inr (nxt, [ev])))"

section \<open>Which silence is reported\<close>

definition SuppressorChannelDisabled :: string where "SuppressorChannelDisabled = ''channel_disabled''"
definition SuppressorNoPolicy :: string where "SuppressorNoPolicy = ''no_policy''"
definition SuppressorSnoozed :: string where "SuppressorSnoozed = ''snoozed''"
definition SuppressorThrottled :: string where "SuppressorThrottled = ''throttled''"
definition SuppressorBelowThreshold :: string where "SuppressorBelowThreshold = ''below_threshold''"
definition SuppressorVerbosity :: string where "SuppressorVerbosity = ''verbosity''"
definition SuppressorDuplicateRender :: string where "SuppressorDuplicateRender = ''duplicate_render''"

definition SuppressorPrecedence :: "string list" where
  "SuppressorPrecedence = [SuppressorChannelDisabled, SuppressorNoPolicy, SuppressorSnoozed, SuppressorThrottled,
     SuppressorBelowThreshold, SuppressorVerbosity, SuppressorDuplicateRender]"

text \<open>\<^verbatim>\<open>applies\<close> is a map to booleans: a missing key reads as false.\<close>

definition FirstSuppressor :: "(string \<times> bool) list \<Rightarrow> string" where
  "FirstSuppressor applies =
     (case find (\<lambda>r. map_of applies r = Some True) SuppressorPrecedence of Some r \<Rightarrow> r | None \<Rightarrow> [])"

definition NotifyReasonSnoozed :: string where "NotifyReasonSnoozed = ''snoozed''"
definition NotifyReasonUnsnoozed :: string where "NotifyReasonUnsnoozed = ''unsnoozed''"

definition SnoozeSuppresses :: "string \<Rightarrow> bool" where
  "SnoozeSuppresses reason =
     (if reason = NotifyReasonSnoozed \<or> reason = NotifyReasonUnsnoozed then False else True)"

end
