(* ===== verification/Snooze_Correct.thy ===== *)
theory Snooze_Correct
  imports Snooze Lifecycle_Correct
begin

text \<open>
  The correctness properties of snoozes (\<^verbatim>\<open>snooze.go\<close>): a snooze is bounded at both ends, its clock
  partitions time, and it ends once.
\<close>

lemma NewSnooze_InrD:
  assumes "NewSnooze p = Inr s"
  shows "s = p\<lparr>s_snoozedByLabel := TrimSpace (s_snoozedByLabel p), s_endedByLabel := TrimSpace (s_endedByLabel p)\<rparr> \<and>
    checkSnoozeWindow (s_snoozedAt p) (s_snoozedUntil p) = None \<and> s_snoozedAt p \<noteq> 0"
  using assms by (auto simp: NewSnooze_def Let_def split: if_splits)

lemma checkSnoozeWindow_None_iff:
  "checkSnoozeWindow from until = None \<longleftrightarrow> MinSnoozeDuration \<le> until - from \<and> until - from \<le> MaxSnoozeDuration"
  using t_sub_less_iff [of MinSnoozeDuration until "from"] t_sub_le_iff [of MaxSnoozeDuration until "from"]
    t_sub_pos_iff [of until "from"]
  by (auto simp: checkSnoozeWindow_def Let_def snooze_bounds duration_units max_duration_def)

lemma StartSnooze_InrD:
  assumes "StartSnooze U a cmd = Inr (s, evs)"
  shows "s_snoozedAt s = recordedAt (sc_At cmd)" "s_snoozedUntil s = sc_Until cmd" "s_endedAt s = 0"
    "MinSnoozeDuration \<le> sc_Until cmd - recordedAt (sc_At cmd)"
    "sc_Until cmd - recordedAt (sc_At cmd) \<le> MaxSnoozeDuration"
    "s_alertID s = al_id a" "IsHuman (a_kind (sc_Actor cmd))"
  using assms by (auto simp: StartSnooze_def rbind_Inr_iff checkSnoozeWindow_None_iff dest!: NewSnooze_InrD split: if_splits)

lemma End_InrD:
  assumes "End U s cmd = Inr (s', evs)"
  shows "s' = endedSnooze U s cmd" "Snooze_IsOpen s" "\<not> Actor_IsZero (uc_Actor cmd)" "\<not> ObservationTime_IsZero (uc_At cmd)"
    "uc_Reason cmd \<noteq> SnoozeEndZero" "uc_Reason cmd = SnoozeEndedExpired \<longleftrightarrow> \<not> IsHuman (a_kind (uc_Actor cmd))"
    "map ev_dedupeKey evs = [''snooze:'' @ uuidString U (s_id s) @ '':ended'']"
  using assms by (auto simp: End_def Let_def rbind_Inr_iff SnoozeEndReason_IsZero_def endedSnooze_def dest!: NewEvent_Inr(1)
      split: if_splits)


text \<open>
  C20. A started snooze is bounded and its clock partitions time: it lasts between five minutes and thirty
  days, silences from the moment it is recorded, is active at exactly the instants before its end and
  expired at exactly the others, and what remains of it counts down to zero.
\<close>

theorem snooze_clock:
  assumes "StartSnooze U a cmd = Inr (s, evs)"
  shows "5 * Minute \<le> Snooze_Duration s \<and> Snooze_Duration s \<le> 30 * 24 * Hour \<and>
    IsActiveAt s (recordedAt (sc_At cmd)) \<and>
    (IsActiveAt s now \<longleftrightarrow> now < sc_Until cmd) \<and> (HasExpiredAt s now \<longleftrightarrow> sc_Until cmd \<le> now) \<and>
    (recordedAt (sc_At cmd) \<le> now \<longrightarrow> RemainingAt s now = max 0 (sc_Until cmd - now))"
proof -
  note S = StartSnooze_InrD [OF assms]
  have "Snooze_Duration s = sc_Until cmd - recordedAt (sc_At cmd)"
    using S by (simp add: Snooze_Duration_def t_sub_exact snooze_bounds duration_units max_duration_def min_duration_def)
  moreover have "t_sub (sc_Until cmd) now = sc_Until cmd - now"
    if "recordedAt (sc_At cmd) \<le> now" "now < sc_Until cmd"
    using S that by (simp add: t_sub_exact snooze_bounds duration_units max_duration_def min_duration_def)
  ultimately show ?thesis using S
    by (auto simp: IsActiveAt_def HasExpiredAt_def RemainingAt_def Snooze_IsOpen_def snooze_bounds duration_units)
qed

definition ex_alert :: Alert where
  "ex_alert = \<lparr>al_id = 7, al_orgID = 1, al_clusterID = 3, al_key = ''ak_1'', al_fingerprint = ''f'', al_clusterKey = ''prod'',
     al_labels = [(''alertname'', ''Down'')], al_annotations = [], al_generatorURL = [], al_state = StateFiring, al_currentCaseID = 0,
     al_suppressionReason = SuppressionZero, al_suppressedBy = noSuppressedBy,
     al_firstSeenAt = 1, al_lastSeenAt = 1, al_lastStateChangeAt = 1, al_totalCases = 1,
     al_flapScore = 0, al_isFlapping = False, al_synthetic = False\<rparr>"

definition ex_user :: Actor where
  "ex_user = \<lparr>a_kind = ActorUser, a_id = ''u1'', a_label = ''Ann''\<rparr>"

definition ex_snooze_cmd :: SnoozeCommand where
  "ex_snooze_cmd = \<lparr>sc_ID = 9, sc_Actor = ex_user, sc_At = at 100 100, sc_Until = 100 + 30 * Minute, sc_Note = [],
     sc_EventID = 11, sc_Payload = []\<rparr>"

lemmas snooze_eval = ex_alert_def ex_user_def ex_snooze_cmd_def noSuppressedBy_def at_def ex_lib requireID_def Let_def
  NewEvent_ok event_bounds snooze_bounds TrimSpace_plain printable_def length_canonical_uuid checkSnoozeWindow_def
  t_sub_def max_duration_def min_duration_def duration_units NewSnooze_def oto_defs

definition ex_snooze :: Snooze where
  "ex_snooze = \<lparr>s_id = 9, s_orgID = 1, s_alertID = 7, s_alertKey = ''ak_1'', s_snoozedAt = 100,
     s_snoozedUntil = 100 + 30 * Minute, s_snoozedBy = actorUUID canonical_lib ex_user, s_snoozedByLabel = ''Ann'',
     s_note = [], s_endedAt = 0, s_endedReason = SnoozeEndZero, s_endedBy = 0, s_endedByLabel = []\<rparr>"

lemma ex_started: "\<exists>evs. StartSnooze canonical_lib ex_alert ex_snooze_cmd = Inr (ex_snooze, evs)"
  by (simp add: StartSnooze_def ex_snooze_def snooze_eval)

lemma ex_snooze_ok: "NewSnooze ex_snooze = Inr ex_snooze" "0 < s_snoozedAt ex_snooze"
  by (simp_all add: ex_snooze_def snooze_eval)

theorem snooze_clock_witness:
  "\<exists>s evs. StartSnooze canonical_lib ex_alert ex_snooze_cmd = Inr (s, evs) \<and>
     IsActiveAt s (99 + 30 * Minute) \<and> \<not> IsActiveAt s (100 + 30 * Minute) \<and> RemainingAt s 400 = 30 * Minute - 300"
proof -
  obtain s evs where s: "StartSnooze canonical_lib ex_alert ex_snooze_cmd = Inr (s, evs)" using ex_started by blast
  from snooze_clock [OF s, of "99 + 30 * Minute"] snooze_clock [OF s, of "100 + 30 * Minute"] snooze_clock [OF s, of 400] s
  show ?thesis by (auto simp: ex_snooze_cmd_def at_def duration_units)
qed

text \<open>A row that \<open>NewSnooze\<close> accepted stays acceptable when it is ended, if the new label fits.\<close>

lemma NewSnooze_ended_iff:
  assumes "NewSnooze s = Inr s" "0 < s_snoozedAt s" "uc_Reason cmd \<noteq> SnoozeEndZero"
    and "TrimSpace (a_label (uc_Actor cmd)) \<noteq> []"
  shows "(\<exists>r. NewSnooze (endedSnooze U s cmd) = Inr r) \<longleftrightarrow> length (a_label (uc_Actor cmd)) \<le> MaxSnoozeLabelBytes"
proof -
  have "s_endedAt (endedSnooze U s cmd) \<noteq> 0" "s_snoozedAt s \<le> s_endedAt (endedSnooze U s cmd)"
    using assms(2) by (auto simp: endedSnooze_def notBefore_max)
  with assms show ?thesis
    by (auto simp: NewSnooze_def Let_def endedSnooze_def SnoozeEndReason_IsZero_def split: if_splits)
qed


definition ex_unsnooze :: "string \<Rightarrow> UnsnoozeCommand" where
  "ex_unsnooze label = \<lparr>uc_Actor = \<lparr>a_kind = ActorUser, a_id = ''u1'', a_label = label\<rparr>, uc_At = at 500 500,
     uc_Reason = SnoozeEndedManual, uc_EventID = 12, uc_Note = [], uc_Payload = []\<rparr>"


end
