(* ===== verification/Delivery.thy ===== *)
theory Delivery
  imports Oto_Prelude Go_Strings "HOL-Library.Multiset"
begin

text \<open>
  Deliveries and conversation threads, \<^verbatim>\<open>internal/notification/domain/notification.go\<close> and \<^verbatim>\<open>thread.go\<close>: the
  statuses, the classes of failure with their retry budgets and backoff, the status of a notification
  as an aggregate of its deliveries, and the reasons a thread dies of.

  A Go string type admits any string, so each of these types has a constructor for the values outside
  the declared constants.
\<close>

section \<open>Statuses\<close>

datatype Status =
  StatusPending | StatusDispatched | StatusPartial | StatusDelivered | StatusFailed | StatusSuppressed

datatype DeliveryStatus =
    DeliveryPending | DeliverySending | DeliverySent | DeliveryFailed | DeliveryDead | DeliverySkipped
  | DeliveryOther string

definition DeliveryStatus_Resolved :: "DeliveryStatus \<Rightarrow> bool" where
  [oto_defs]: "DeliveryStatus_Resolved s \<longleftrightarrow> s = DeliverySent \<or> s = DeliveryDead \<or> s = DeliverySkipped"

definition Claimable :: "DeliveryStatus \<Rightarrow> bool" where
  [oto_defs]: "Claimable s \<longleftrightarrow> s = DeliveryPending \<or> s = DeliveryFailed"

text \<open>\<^verbatim>\<open>AggregateStatus\<close>: one pass that counts, then the verdict.\<close>

fun tally :: "DeliveryStatus list \<Rightarrow> int \<times> int \<times> int \<Rightarrow> int \<times> int \<times> int" where
  "tally [] c = c"
| "tally (s # ss) (sent, failed, inFlight) =
     tally ss
       (case s of
          DeliverySent \<Rightarrow> (sent + 1, failed, inFlight)
        | DeliverySkipped \<Rightarrow> (sent + 1, failed, inFlight)
        | DeliveryDead \<Rightarrow> (sent, failed + 1, inFlight)
        | DeliveryPending \<Rightarrow> (sent, failed, inFlight + 1)
        | DeliverySending \<Rightarrow> (sent, failed, inFlight + 1)
        | DeliveryFailed \<Rightarrow> (sent, failed, inFlight + 1)
        | DeliveryOther _ \<Rightarrow> (sent, failed, inFlight))"

definition AggregateStatus :: "DeliveryStatus list \<Rightarrow> Status" where
  "AggregateStatus statuses =
     (if statuses = [] then StatusSuppressed
      else case tally statuses (0, 0, 0) of (sent, failed, inFlight) \<Rightarrow>
        if inFlight > 0 then StatusDispatched
        else if sent = int (length statuses) then StatusDelivered
        else if sent = 0 then StatusFailed
        else StatusPartial)"

section \<open>Failures\<close>

datatype ErrorClass =
  ClassRetryable | ClassRateLimited | ClassPermanent | ClassConfigInvalid | ClassAuthExpired | ClassOther string

definition ErrorClass_Valid :: "ErrorClass \<Rightarrow> bool" where
  "ErrorClass_Valid c \<longleftrightarrow>
     (case c of ClassOther _ \<Rightarrow> False | _ \<Rightarrow> True)"

definition ErrorClass_Terminal :: "ErrorClass \<Rightarrow> bool" where
  [oto_defs]: "ErrorClass_Terminal c \<longleftrightarrow> c = ClassPermanent \<or> c = ClassConfigInvalid \<or> c = ClassAuthExpired"

text \<open>The health a failure says of its destination; \<open>None\<close> is the empty string.\<close>

datatype HealthStatus = HealthHealthy | HealthDegraded | HealthAuthFailed | HealthConfigInvalid | HealthUnknown

definition ErrorClass_DestinationHealth :: "ErrorClass \<Rightarrow> HealthStatus option" where
  "ErrorClass_DestinationHealth c =
     (case c of
        ClassAuthExpired \<Rightarrow> Some HealthAuthFailed
      | ClassConfigInvalid \<Rightarrow> Some HealthConfigInvalid
      | ClassPermanent \<Rightarrow> Some HealthDegraded
      | _ \<Rightarrow> None)"

definition MaxRetryableAttempts :: int where "MaxRetryableAttempts = 12"
definition MaxRateLimitedAttempts :: int where "MaxRateLimitedAttempts = 20"
definition MaxDeliveryAttempts :: int where "MaxDeliveryAttempts = 32"

definition Exhausted :: "ErrorClass \<Rightarrow> int \<Rightarrow> bool" where
  "Exhausted c attempts =
     (if ErrorClass_Terminal c then True
      else if attempts \<ge> MaxDeliveryAttempts then True
      else if c = ClassRateLimited then attempts \<ge> MaxRateLimitedAttempts
      else attempts \<ge> MaxRetryableAttempts)"

definition backoffBase :: duration where "backoffBase = 2 * Second"
definition backoffCap :: duration where "backoffCap = 300 * Second"

text \<open>The loop \<^verbatim>\<open>for i := 1; i < attempts && d < backoffCap; i++ { d *= 2 }\<close> of \<^verbatim>\<open>Backoff\<close>.\<close>

function backoff_loop :: "int \<Rightarrow> int \<Rightarrow> duration \<Rightarrow> duration" where
  "backoff_loop attempts i d =
     (if i < attempts \<and> d < backoffCap then backoff_loop attempts (i + 1) (d * 2) else d)"
  by pat_completeness auto
termination
  by (relation "measure (\<lambda>(attempts, i, d). nat (attempts - i))") auto

declare backoff_loop.simps [simp del]

text \<open>\<^verbatim>\<open>Backoff\<close> before its jitter: the doubled base, capped.\<close>

definition backoffDelay :: "int \<Rightarrow> duration" where
  "backoffDelay attempts =
     (let a = (if attempts < 1 then 1 else attempts); d = backoff_loop a 1 backoffBase in
      if d > backoffCap then backoffCap else d)"

section \<open>Threads\<close>

datatype ThreadState = ThreadOpening | ThreadOpen | ThreadDead | ThreadOther string

definition ThreadState_Terminal :: "ThreadState \<Rightarrow> bool" where
  [oto_defs]: "ThreadState_Terminal s \<longleftrightarrow> s = ThreadDead"

datatype DeadReason =
    DeadChannelNotFound | DeadIsArchived | DeadNotInChannel | DeadMessageNotFound | DeadCannotReplyToMessage
  | DeadThreadLocked | DeadEditWindowClosed | DeadTokenRevoked | DeadAccountInactive

fun DeadReason_String :: "DeadReason \<Rightarrow> string" where
  "DeadReason_String DeadChannelNotFound = ''channel_not_found''"
| "DeadReason_String DeadIsArchived = ''is_archived''"
| "DeadReason_String DeadNotInChannel = ''not_in_channel''"
| "DeadReason_String DeadMessageNotFound = ''message_not_found''"
| "DeadReason_String DeadCannotReplyToMessage = ''cannot_reply_to_message''"
| "DeadReason_String DeadThreadLocked = ''restricted_action_thread_locked''"
| "DeadReason_String DeadEditWindowClosed = ''edit_window_closed''"
| "DeadReason_String DeadTokenRevoked = ''token_revoked''"
| "DeadReason_String DeadAccountInactive = ''account_inactive''"

definition allDeadReasons :: "DeadReason list" where
  "allDeadReasons = [DeadChannelNotFound, DeadIsArchived, DeadNotInChannel, DeadMessageNotFound,
     DeadCannotReplyToMessage, DeadThreadLocked, DeadEditWindowClosed, DeadTokenRevoked, DeadAccountInactive]"

definition DeadReasonFor :: "string \<Rightarrow> DeadReason option" where
  "DeadReasonFor code = find (\<lambda>r. DeadReason_String r = code) allDeadReasons"

definition Recoverable :: "DeadReason \<Rightarrow> bool" where
  "Recoverable r \<longleftrightarrow> r \<in> {DeadMessageNotFound, DeadCannotReplyToMessage, DeadThreadLocked, DeadEditWindowClosed}"

definition DeadReason_DestinationHealth :: "DeadReason \<Rightarrow> HealthStatus option" where
  "DeadReason_DestinationHealth r =
     (if r \<in> {DeadTokenRevoked, DeadAccountInactive} then Some HealthAuthFailed
      else if r \<in> {DeadChannelNotFound, DeadIsArchived, DeadNotInChannel} then Some HealthDegraded
      else None)"

definition MaxThreadReplies :: int where "MaxThreadReplies = 30"

section \<open>Facts\<close>

definition landed :: "DeliveryStatus \<Rightarrow> bool" where
  "landed s \<longleftrightarrow> s = DeliverySent \<or> s = DeliverySkipped"

definition in_flight :: "DeliveryStatus \<Rightarrow> bool" where
  "in_flight s \<longleftrightarrow> s = DeliveryPending \<or> s = DeliverySending \<or> s = DeliveryFailed"

lemma tally_counts:
  "tally ss (a, b, c) = (a + int (length (filter landed ss)),
     b + int (length (filter (\<lambda>s. s = DeliveryDead) ss)), c + int (length (filter in_flight ss)))"
proof (induction ss arbitrary: a b c)
  case (Cons s ss)
  then show ?case by (cases s) (simp_all add: landed_def in_flight_def)
qed simp

lemma backoff_loop_eq:
  "1 \<le> i \<Longrightarrow> i \<le> a \<Longrightarrow> 0 < d \<Longrightarrow>
     min backoffCap (backoff_loop a i d) = min backoffCap (d * 2 ^ nat (a - i))"
proof (induction a i d rule: backoff_loop.induct)
  case (1 a i d)
  show ?case
  proof (cases "i < a \<and> d < backoffCap")
    case True
    then have "min backoffCap (backoff_loop a i d) = min backoffCap (d * 2 * 2 ^ nat (a - (i + 1)))"
      using 1 by (simp add: backoff_loop.simps [of a i d])
    moreover have "nat (a - i) = Suc (nat (a - (i + 1)))" using True by linarith
    ultimately show ?thesis by simp
  next
    case False
    have "d * 1 \<le> d * 2 ^ nat (a - i)" using 1(4) by (intro mult_left_mono) auto
    with False 1(3) show ?thesis by (auto simp: backoff_loop.simps [of a i d])
  qed
qed

lemma backoffDelay_eq: "backoffDelay n = min backoffCap (backoffBase * 2 ^ nat (max n 1 - 1))"
proof -
  have "backoffDelay n = min backoffCap (backoff_loop (max n 1) 1 backoffBase)"
    by (simp add: backoffDelay_def Let_def max_def min_def)
  also have "\<dots> = min backoffCap (backoffBase * 2 ^ nat (max n 1 - 1))"
    by (rule backoff_loop_eq) (simp_all add: backoffBase_def duration_units)
  finally show ?thesis .
qed

text \<open>The sets of statuses the verdict speaks of.\<close>

abbreviation LandedStatuses :: "DeliveryStatus set" where
  "LandedStatuses \<equiv> {DeliverySent, DeliverySkipped}"

abbreviation InFlightStatuses :: "DeliveryStatus set" where
  "InFlightStatuses \<equiv> {DeliveryPending, DeliverySending, DeliveryFailed}"

lemma status_filters:
  "filter landed ss = [] \<longleftrightarrow> set ss \<inter> LandedStatuses = {}"
  "filter in_flight ss = [] \<longleftrightarrow> set ss \<inter> InFlightStatuses = {}"
  by (auto simp: filter_empty_conv landed_def in_flight_def)

lemma all_landed: "length (filter landed ss) = length ss \<longleftrightarrow> set ss \<subseteq> LandedStatuses"
proof (induction ss)
  case (Cons s ss)
  have "length (filter landed ss) \<noteq> Suc (length ss)" using length_filter_le [of landed ss] by linarith
  with Cons show ?case by (cases "landed s") (auto simp: landed_def [of s])
qed simp

text \<open>
  C22. The status of a notification is never more optimistic than its deliveries, and depends on nothing but
  which statuses occur among them: delivered is all of them told, dispatched is one still under way,
  failed is none told, partial is some told and some not, and suppressed is that there were none.
\<close>

theorem aggregate_is_honest:
  "(AggregateStatus ss = StatusSuppressed \<longleftrightarrow> ss = []) \<and>
   (AggregateStatus ss = StatusDispatched \<longleftrightarrow> set ss \<inter> InFlightStatuses \<noteq> {}) \<and>
   (AggregateStatus ss = StatusDelivered \<longleftrightarrow> ss \<noteq> [] \<and> set ss \<subseteq> LandedStatuses) \<and>
   (AggregateStatus ss = StatusFailed \<longleftrightarrow>
      ss \<noteq> [] \<and> set ss \<inter> InFlightStatuses = {} \<and> set ss \<inter> LandedStatuses = {}) \<and>
   (AggregateStatus ss = StatusPartial \<longleftrightarrow>
      set ss \<inter> InFlightStatuses = {} \<and> set ss \<inter> LandedStatuses \<noteq> {} \<and> \<not> set ss \<subseteq> LandedStatuses) \<and>
   AggregateStatus ss \<noteq> StatusPending"
proof -
  have "AggregateStatus ss =
     (if ss = [] then StatusSuppressed
      else if set ss \<inter> InFlightStatuses \<noteq> {} then StatusDispatched
      else if set ss \<subseteq> LandedStatuses then StatusDelivered
      else if set ss \<inter> LandedStatuses = {} then StatusFailed
      else StatusPartial)"
    using all_landed [of ss] status_filters [of ss]
    by (simp add: AggregateStatus_def tally_counts)
  then show ?thesis by (cases ss) auto
qed

lemma backoffDelay_within: "backoffBase \<le> backoffDelay n" "backoffDelay n \<le> backoffCap"
proof -
  have "backoffBase * 1 \<le> backoffBase * 2 ^ nat (max n 1 - 1)"
    by (intro mult_left_mono) (simp_all add: backoffBase_def duration_units)
  then show "backoffBase \<le> backoffDelay n"
    by (simp add: backoffDelay_eq backoffBase_def backoffCap_def duration_units)
qed (simp add: backoffDelay_eq)

lemma backoffDelay_mono: "m \<le> n \<Longrightarrow> backoffDelay m \<le> backoffDelay n"
  unfolding backoffDelay_eq
  by (intro min.mono mult_left_mono power_increasing) (auto simp: backoffBase_def duration_units)

lemma backoff_loop_bounded: "d < 2 * backoffCap \<Longrightarrow> backoff_loop a i d < 2 * backoffCap"
proof (induction a i d rule: backoff_loop.induct)
  case (1 a i d)
  then show ?case by (simp add: backoff_loop.simps [of a i d])
qed


end
