(* ===== verification/Notify_Reason.thy ===== *)
theory Notify_Reason
  imports Delivery Alert_Event "HOL-Library.Word"
begin

unbundle bit_operations_syntax

text \<open>
  The vocabulary of notifications (\<^verbatim>\<open>internal/notification/domain/reason.go\<close>, \<^verbatim>\<open>mode.go\<close>, \<^verbatim>\<open>verbosity.go\<close>,
  \<^verbatim>\<open>suppression.go\<close>, and the subject kinds of \<^verbatim>\<open>idempotency.go\<close>): why people are told, how a destination is told, and
  why they are not. A Go string of a closed set is a datatype with a last constructor for every other string.
\<close>

section \<open>Modes and capabilities\<close>

datatype Mode = ModePostRoot | ModeUpdateRoot | ModeThreadReply | ModeOther string

definition NeedsRoot :: "Mode \<Rightarrow> bool" where
  [oto_defs]: "NeedsRoot m \<longleftrightarrow> m \<noteq> ModePostRoot"

definition IsReply :: "Mode \<Rightarrow> bool" where
  [oto_defs]: "IsReply m \<longleftrightarrow> m = ModeThreadReply"

text \<open>\<^verbatim>\<open>Capability\<close> is a bit set; the fourth bit after \<^verbatim>\<open>CapInteractive\<close> is skipped.\<close>

type_synonym Capability = "32 word"

definition CapThreading :: Capability where "CapThreading = 1"
definition CapAmend :: Capability where "CapAmend = 2"

definition Has :: "Capability \<Rightarrow> Capability \<Rightarrow> bool" where
  "Has c want \<longleftrightarrow> c AND want = want"

section \<open>Subjects and reasons\<close>

datatype SubjectKind = SubjectAlert | SubjectCase | SubjectDigest | SubjectIncident | SubjectOther string

fun SubjectKind_String :: "SubjectKind \<Rightarrow> string" where
  "SubjectKind_String SubjectAlert = ''alert''"
| "SubjectKind_String SubjectCase = ''case''"
| "SubjectKind_String SubjectDigest = ''digest''"
| "SubjectKind_String SubjectIncident = ''incident''"
| "SubjectKind_String (SubjectOther s) = s"

definition SubjectKind_Valid :: "SubjectKind \<Rightarrow> bool" where
  "SubjectKind_Valid k \<longleftrightarrow> (case k of SubjectOther _ \<Rightarrow> False | _ \<Rightarrow> True)"

text \<open>Where a fact lands.\<close>

datatype ConversationKind = ConversationCase | ConversationDigest | ConversationIncident | ConversationOther string

definition ConversationKind_SubjectKind :: "ConversationKind \<Rightarrow> SubjectKind" where
  "ConversationKind_SubjectKind k =
     (case k of ConversationCase \<Rightarrow> SubjectCase | ConversationDigest \<Rightarrow> SubjectDigest
      | ConversationIncident \<Rightarrow> SubjectIncident | ConversationOther _ \<Rightarrow> SubjectOther [])"

datatype Reason =
  ReasonFired
  | ReasonAllResolved
  | ReasonRepeat
  | ReasonSuppressed
  | ReasonUnsuppressed
  | ReasonExpired
  | ReasonRefired
  | ReasonAcked
  | ReasonUnacked
  | ReasonSnoozed
  | ReasonUnsnoozed
  | ReasonEnriched
  | ReasonRuleChanged
  | ReasonComment
  | ReasonDigest
  | ReasonDrawn
  | ReasonCaseAdded
  | ReasonCaseRemoved
  | ReasonQuiet
  | ReasonActiveAgain
  | ReasonFinding
  | ReasonRemedyProposed
  | ReasonRemedyApproved
  | ReasonRemedyDeclined
  | ReasonRemedyExpired
  | ReasonRemedyExecuted
  | ReasonRemedyFailed
  | ReasonOther string

fun Reason_String :: "Reason \<Rightarrow> string" where
  "Reason_String ReasonFired = ''fired''"
| "Reason_String ReasonAllResolved = ''all_resolved''"
| "Reason_String ReasonRepeat = ''repeat''"
| "Reason_String ReasonSuppressed = ''suppressed''"
| "Reason_String ReasonUnsuppressed = ''unsuppressed''"
| "Reason_String ReasonExpired = ''expired''"
| "Reason_String ReasonRefired = ''refired''"
| "Reason_String ReasonAcked = ''acked''"
| "Reason_String ReasonUnacked = ''unacked''"
| "Reason_String ReasonSnoozed = ''snoozed''"
| "Reason_String ReasonUnsnoozed = ''unsnoozed''"
| "Reason_String ReasonEnriched = ''enriched''"
| "Reason_String ReasonRuleChanged = ''rule_changed''"
| "Reason_String ReasonComment = ''comment''"
| "Reason_String ReasonDigest = ''digest''"
| "Reason_String ReasonDrawn = ''drawn''"
| "Reason_String ReasonCaseAdded = ''case_added''"
| "Reason_String ReasonCaseRemoved = ''case_removed''"
| "Reason_String ReasonQuiet = ''quiet''"
| "Reason_String ReasonActiveAgain = ''active_again''"
| "Reason_String ReasonFinding = ''finding''"
| "Reason_String ReasonRemedyProposed = ''remedy_proposed''"
| "Reason_String ReasonRemedyApproved = ''remedy_approved''"
| "Reason_String ReasonRemedyDeclined = ''remedy_declined''"
| "Reason_String ReasonRemedyExpired = ''remedy_expired''"
| "Reason_String ReasonRemedyExecuted = ''remedy_executed''"
| "Reason_String ReasonRemedyFailed = ''remedy_failed''"
| "Reason_String (ReasonOther s) = s"

definition allReasons :: "Reason list" where
  "allReasons = [ReasonFired, ReasonAllResolved, ReasonRepeat, ReasonSuppressed, ReasonUnsuppressed,
     ReasonExpired, ReasonRefired, ReasonAcked, ReasonUnacked, ReasonSnoozed,
     ReasonUnsnoozed, ReasonEnriched, ReasonRuleChanged, ReasonComment, ReasonDigest,
     ReasonDrawn, ReasonCaseAdded, ReasonCaseRemoved, ReasonQuiet, ReasonActiveAgain,
     ReasonFinding, ReasonRemedyProposed, ReasonRemedyApproved, ReasonRemedyDeclined, ReasonRemedyExpired,
     ReasonRemedyExecuted, ReasonRemedyFailed]"

text \<open>\<^verbatim>\<open>reasonSubjects\<close> as a map; \<open>Reason_Subject\<close> of a reason outside it is the empty string.\<close>

definition reasonSubjects :: "Reason \<Rightarrow> SubjectKind option" where
  "reasonSubjects r = (case r of
       ReasonFired \<Rightarrow> Some SubjectCase
     | ReasonAllResolved \<Rightarrow> Some SubjectCase
     | ReasonRepeat \<Rightarrow> Some SubjectCase
     | ReasonSuppressed \<Rightarrow> Some SubjectAlert
     | ReasonUnsuppressed \<Rightarrow> Some SubjectAlert
     | ReasonExpired \<Rightarrow> Some SubjectCase
     | ReasonRefired \<Rightarrow> Some SubjectCase
     | ReasonAcked \<Rightarrow> Some SubjectCase
     | ReasonUnacked \<Rightarrow> Some SubjectCase
     | ReasonSnoozed \<Rightarrow> Some SubjectAlert
     | ReasonUnsnoozed \<Rightarrow> Some SubjectAlert
     | ReasonEnriched \<Rightarrow> Some SubjectCase
     | ReasonRuleChanged \<Rightarrow> Some SubjectCase
     | ReasonComment \<Rightarrow> Some SubjectAlert
     | ReasonDigest \<Rightarrow> Some SubjectDigest
     | ReasonDrawn \<Rightarrow> Some SubjectIncident
     | ReasonCaseAdded \<Rightarrow> Some SubjectIncident
     | ReasonCaseRemoved \<Rightarrow> Some SubjectIncident
     | ReasonQuiet \<Rightarrow> Some SubjectIncident
     | ReasonActiveAgain \<Rightarrow> Some SubjectIncident
     | ReasonFinding \<Rightarrow> Some SubjectIncident
     | ReasonRemedyProposed \<Rightarrow> Some SubjectIncident
     | ReasonRemedyApproved \<Rightarrow> Some SubjectIncident
     | ReasonRemedyDeclined \<Rightarrow> Some SubjectIncident
     | ReasonRemedyExpired \<Rightarrow> Some SubjectIncident
     | ReasonRemedyExecuted \<Rightarrow> Some SubjectIncident
     | ReasonRemedyFailed \<Rightarrow> Some SubjectIncident
     | ReasonOther _ \<Rightarrow> None)"

definition Reason_Subject :: "Reason \<Rightarrow> SubjectKind" where
  "Reason_Subject r = (case reasonSubjects r of Some k \<Rightarrow> k | None \<Rightarrow> SubjectOther [])"

definition Reason_Valid :: "Reason \<Rightarrow> bool" where
  "Reason_Valid r \<longleftrightarrow> reasonSubjects r \<noteq> None"

definition IsRemedy :: "Reason \<Rightarrow> bool" where
  "IsRemedy r \<longleftrightarrow> r = ReasonRemedyProposed \<or> r = ReasonRemedyApproved \<or> r = ReasonRemedyDeclined \<or>
     r = ReasonRemedyExpired \<or> r = ReasonRemedyExecuted \<or> r = ReasonRemedyFailed"

definition AlertScoped :: "Reason \<Rightarrow> bool" where
  "AlertScoped r \<longleftrightarrow> r = ReasonAcked \<or> r = ReasonUnacked \<or> r = ReasonRefired \<or> r = ReasonRuleChanged"

definition SnoozeExempt :: "Reason \<Rightarrow> bool" where
  "SnoozeExempt r \<longleftrightarrow> r = ReasonSnoozed \<or> r = ReasonUnsnoozed"

definition NeedsOccasion :: "Reason \<Rightarrow> bool" where
  "NeedsOccasion r \<longleftrightarrow> r = ReasonSnoozed \<or> r = ReasonUnsnoozed \<or> r = ReasonDrawn \<or> r = ReasonCaseAdded \<or> r = ReasonCaseRemoved \<or>
     r = ReasonQuiet \<or> r = ReasonActiveAgain \<or> r = ReasonFinding \<or> r = ReasonRemedyProposed \<or> r = ReasonRemedyApproved \<or>
     r = ReasonRemedyDeclined \<or> r = ReasonRemedyExpired \<or> r = ReasonRemedyExecuted \<or> r = ReasonRemedyFailed"

text \<open>What a sender's own notification reason means to oto.\<close>

datatype WireVerdict = WireUnmapped | WireMapped | WireSuppress | WireDiffFallback

definition ReasonFromWire :: "string \<Rightarrow> Reason \<times> WireVerdict" where
  "ReasonFromWire wire =
     (if wire = ''first notification'' then (ReasonFired, WireMapped)
      else if wire = ''new alerts added'' \<or> wire = ''some alerts resolved'' then (ReasonOther [], WireDiffFallback)
      else if wire = ''all alerts resolved'' then (ReasonAllResolved, WireMapped)
      else if wire = ''repeat interval elapsed'' then (ReasonRepeat, WireMapped)
      else if wire = ''none'' then (ReasonOther [], WireSuppress)
      else if wire = [] \<or> wire = ''unknown'' then (ReasonOther [], WireDiffFallback)
      else (ReasonOther [], WireUnmapped))"

section \<open>Verbosity\<close>

datatype Verbosity = VerbosityAll | VerbosityStatusChanges | VerbosityFiringAndResolved | VerbosityFiringOnly | VerbosityOther string

definition Verbosity_Valid :: "Verbosity \<Rightarrow> bool" where
  "Verbosity_Valid v \<longleftrightarrow> (case v of VerbosityOther _ \<Rightarrow> False | _ \<Rightarrow> True)"

definition Verbosity_Normalise :: "Verbosity \<Rightarrow> Verbosity" where
  "Verbosity_Normalise v = (if Verbosity_Valid v then v else VerbosityStatusChanges)"

definition replySets :: "Verbosity \<Rightarrow> Reason list" where
  "replySets v =
     (case v of
        VerbosityStatusChanges \<Rightarrow> [ReasonAcked, ReasonUnacked, ReasonSuppressed, ReasonUnsuppressed, ReasonExpired, ReasonRefired,
          ReasonAllResolved, ReasonRuleChanged, ReasonComment, ReasonSnoozed, ReasonUnsnoozed]
      | VerbosityFiringAndResolved \<Rightarrow> [ReasonAllResolved, ReasonExpired, ReasonRuleChanged, ReasonSnoozed, ReasonUnsnoozed]
      | VerbosityFiringOnly \<Rightarrow> [ReasonRuleChanged, ReasonSnoozed, ReasonUnsnoozed]
      | _ \<Rightarrow> [])"

definition ungatedReplies :: "Reason list" where
  "ungatedReplies = [ReasonExpired, ReasonRuleChanged, ReasonSnoozed, ReasonUnsnoozed, ReasonComment]"

definition AllowsReply :: "Verbosity \<Rightarrow> Reason \<Rightarrow> bool" where
  "AllowsReply v r =
     (if r \<in> set ungatedReplies then True
      else let v' = Verbosity_Normalise v in
        if v' = VerbosityAll then True else r \<in> set (replySets v'))"

section \<open>The plan for one destination\<close>

definition rootModeFor :: "Reason \<Rightarrow> bool \<Rightarrow> Mode option" where
  "rootModeFor r threadExists =
     (if r = ReasonComment then None
      else if threadExists then Some ModeUpdateRoot else Some ModePostRoot)"

definition TouchesRoot :: "Reason \<Rightarrow> bool" where
  "TouchesRoot r \<longleftrightarrow> rootModeFor r True \<noteq> None"

definition hasReply :: "Reason \<Rightarrow> bool" where
  "hasReply r \<longleftrightarrow> \<not> (r = ReasonFired \<or> r = ReasonRepeat \<or> r = ReasonUnacked)"

record PlanInput =
  pi_Reason :: Reason
  pi_Verbosity :: Verbosity
  pi_ThreadUpdates :: bool
  pi_Capabilities :: Capability
  pi_ThreadExists :: bool
  pi_Flapping :: bool

record Plan =
  p_Modes :: "Mode list"
  p_ReplyDropped :: bool
  p_ReplyDropReason :: string

definition Plan_Empty :: "Plan \<Rightarrow> bool" where
  "Plan_Empty p \<longleftrightarrow> p_Modes p = []"

definition PrimaryMode :: "Plan \<Rightarrow> Mode option" where
  "PrimaryMode p = (if p_Modes p = [] then None else Some (last (p_Modes p)))"

definition plan_root :: "PlanInput \<Rightarrow> Mode option" where
  "plan_root inp =
     (let root = rootModeFor (pi_Reason inp) (pi_ThreadExists inp) in
      if root = Some ModeUpdateRoot \<and> \<not> Has (pi_Capabilities inp) CapAmend then Some ModePostRoot else root)"

definition PlanFor :: "PlanInput \<Rightarrow> Plan" where
  "PlanFor inp =
     (if \<not> Reason_Valid (pi_Reason inp) then \<lparr>p_Modes = [], p_ReplyDropped = False, p_ReplyDropReason = []\<rparr>
      else
        let root = plan_root inp;
            modes = (case root of Some m \<Rightarrow> [m] | None \<Rightarrow> []);
            drop = (\<lambda>reason. \<lparr>p_Modes = modes, p_ReplyDropped = True, p_ReplyDropReason = reason\<rparr>)
        in if \<not> hasReply (pi_Reason inp) then \<lparr>p_Modes = modes, p_ReplyDropped = False, p_ReplyDropReason = []\<rparr>
           else if root = Some ModePostRoot then drop ''fresh_root''
           else if \<not> pi_ThreadUpdates inp then drop ''thread_updates''
           else if \<not> AllowsReply (pi_Verbosity inp) (pi_Reason inp) then drop ''verbosity''
           else if \<not> Has (pi_Capabilities inp) CapThreading then drop ''no_threading''
           else \<lparr>p_Modes = modes @ [ModeThreadReply], p_ReplyDropped = False, p_ReplyDropReason = []\<rparr>)"

section \<open>Reasons for silence\<close>

datatype SuppressedReason =
  SuppressedChannelDisabled | SuppressedNoPolicy | SuppressedSnoozed | SuppressedThrottled | SuppressedBelowThreshold
  | SuppressedVerbosity | SuppressedDuplicateRender | SuppressedOther string

fun SuppressedReason_String :: "SuppressedReason \<Rightarrow> string" where
  "SuppressedReason_String SuppressedChannelDisabled = ''channel_disabled''"
| "SuppressedReason_String SuppressedNoPolicy = ''no_policy''"
| "SuppressedReason_String SuppressedSnoozed = ''snoozed''"
| "SuppressedReason_String SuppressedThrottled = ''throttled''"
| "SuppressedReason_String SuppressedBelowThreshold = ''below_threshold''"
| "SuppressedReason_String SuppressedVerbosity = ''verbosity''"
| "SuppressedReason_String SuppressedDuplicateRender = ''duplicate_render''"
| "SuppressedReason_String (SuppressedOther s) = s"

definition suppressorOrder :: "SuppressedReason list" where
  "suppressorOrder = [SuppressedChannelDisabled, SuppressedNoPolicy, SuppressedSnoozed, SuppressedThrottled,
     SuppressedBelowThreshold, SuppressedVerbosity, SuppressedDuplicateRender]"

definition SuppressedReason_Valid :: "SuppressedReason \<Rightarrow> bool" where
  "SuppressedReason_Valid r \<longleftrightarrow> list_ex (\<lambda>k. k = r) suppressorOrder"

fun rank_from :: "nat \<Rightarrow> SuppressedReason list \<Rightarrow> SuppressedReason \<Rightarrow> nat option" where
  "rank_from i [] r = None"
| "rank_from i (k # ks) r = (if k = r then Some i else rank_from (Suc i) ks r)"

definition Rank :: "SuppressedReason \<Rightarrow> nat" where
  "Rank r = (case rank_from 0 suppressorOrder r of Some i \<Rightarrow> i | None \<Rightarrow> length suppressorOrder)"

text \<open>The map \<^verbatim>\<open>seen\<close> holds only \<^verbatim>\<open>true\<close>: it is the list of its keys.\<close>

type_synonym Suppressors = "SuppressedReason list"

definition Suppressors_Add :: "Suppressors \<Rightarrow> SuppressedReason \<Rightarrow> Suppressors" where
  "Suppressors_Add seen r = (if \<not> SuppressedReason_Valid r then seen else List.insert r seen)"

definition AddIf :: "Suppressors \<Rightarrow> bool \<Rightarrow> SuppressedReason \<Rightarrow> Suppressors" where
  "AddIf seen cond r = (if cond then Suppressors_Add seen r else seen)"

definition Suppressors_Any :: "Suppressors \<Rightarrow> bool" where
  "Suppressors_Any seen \<longleftrightarrow> length seen > 0"

definition Suppressors_Has :: "Suppressors \<Rightarrow> SuppressedReason \<Rightarrow> bool" where
  "Suppressors_Has seen r \<longleftrightarrow> r \<in> set seen"

definition Winner :: "Suppressors \<Rightarrow> SuppressedReason option" where
  "Winner seen = find (\<lambda>r. r \<in> set seen) suppressorOrder"

definition Suppressors_All :: "Suppressors \<Rightarrow> SuppressedReason list" where
  "Suppressors_All seen = (if length seen = 0 then [] else filter (\<lambda>r. r \<in> set seen) suppressorOrder)"

section \<open>Properties\<close>

lemma Reason_Valid_iff: "Reason_Valid r \<longleftrightarrow> r \<in> set allReasons"
  by (cases r) (simp_all add: Reason_Valid_def reasonSubjects_def allReasons_def)

lemma plan_root_cases:
  "plan_root inp =
     (if pi_Reason inp = ReasonComment then None
      else if pi_ThreadExists inp \<and> Has (pi_Capabilities inp) CapAmend then Some ModeUpdateRoot else Some ModePostRoot)"
  by (simp add: plan_root_def rootModeFor_def)

text \<open>The condition under which a reply is owed and can be made.\<close>

definition reply_due :: "PlanInput \<Rightarrow> bool" where
  "reply_due inp \<longleftrightarrow> hasReply (pi_Reason inp) \<and> pi_ThreadUpdates inp \<and> AllowsReply (pi_Verbosity inp) (pi_Reason inp) \<and>
     Has (pi_Capabilities inp) CapThreading \<and> plan_root inp \<noteq> Some ModePostRoot"


end
