(* ===== verification/Thread_Store.thy ===== *)
theory Thread_Store
  imports Notify_Reason "HOL-Library.Word"
begin

text \<open>
  The tables the dispatcher works on, and the statements of its repositories
  (\<^verbatim>\<open>internal/notification/repository/threads.go\<close>, \<^verbatim>\<open>deliveries.go\<close>, \<^verbatim>\<open>notifications.go\<close>, \<^verbatim>\<open>channels.go\<close>,
  \<^verbatim>\<open>events.go\<close>, \<^verbatim>\<open>receipts.go\<close>).

  A table is the list of its rows, for the rows of one tenant; a column that may be \<^verbatim>\<open>NULL\<close> is an option. An
  \<^verbatim>\<open>UPDATE ... WHERE\<close> is \<open>update_where\<close>; one that matches no row changes nothing and is no error. Not kept:
  the rendered bytes, the provider's response, error texts, the time stamps nothing reads, and failures
  of the database itself, which roll the whole transaction back.
\<close>

section \<open>Rows\<close>

record Thread =
  th_ID :: uuid
  th_ChannelID :: uuid
  th_SubjectKind :: SubjectKind
  th_SubjectID :: uuid
  th_ConversationID :: "string option"
  th_ThreadID :: "string option"
  th_RootDeliveryID :: "uuid option"
  th_ReplyCount :: int
  th_LastSentSeq :: int
  th_NextSeq :: int
  th_State :: ThreadState
  th_DeadReason :: "DeadReason option"

record Delivery =
  dl_ID :: uuid
  dl_NotificationID :: uuid
  dl_ChannelID :: uuid
  dl_ThreadID :: "uuid option"
  dl_ThreadSeq :: "int option"
  dl_Mode :: Mode
  dl_Status :: DeliveryStatus
  dl_Attempts :: int
  dl_NextAttemptAt :: "time option"
  dl_RenderedHash :: "string option"
  dl_ProviderMessageID :: "string option"
  dl_ProviderConversationID :: "string option"
  dl_ErrorClass :: "ErrorClass option"
  dl_Ambiguous :: bool
  dl_SentAt :: "time option"
  dl_CreatedAt :: time
  dl_UpdatedAt :: time

record Notification =
  nt_ID :: uuid
  nt_SubjectKind :: SubjectKind
  nt_SubjectID :: uuid
  nt_ConversationKind :: ConversationKind
  nt_ConversationID :: uuid
  nt_AlertID :: "uuid option"
  nt_CaseID :: "uuid option"
  nt_Reason :: Reason
  nt_PolicyID :: "uuid option"
  nt_StateVersion :: int
  nt_IdempotencyKey :: string
  nt_Status :: Status
  nt_SuppressedReason :: "SuppressedReason option"
  nt_CreatedAt :: time

record Channel =
  ch_ID :: uuid
  ch_Capabilities :: Capability
  ch_Enabled :: bool
  ch_DeletedAt :: "time option"
  ch_HealthStatus :: HealthStatus
  ch_Mapped :: bool
  ch_Verbosity :: Verbosity
  ch_ThreadUpdates :: bool

definition Live :: "Channel \<Rightarrow> bool" where
  [oto_defs]: "Live c \<longleftrightarrow> ch_Enabled c \<and> ch_DeletedAt c = None"

text \<open>\<^verbatim>\<open>toDomain\<close> reads a \<^verbatim>\<open>NULL\<close> string as the empty string and a \<^verbatim>\<open>NULL\<close> sequence as 0.\<close>

definition str_of :: "string option \<Rightarrow> string" where
  "str_of x = (case x of None \<Rightarrow> [] | Some s \<Rightarrow> s)"

definition ThreadSeq :: "Delivery \<Rightarrow> int" where
  "ThreadSeq d = (case dl_ThreadSeq d of None \<Rightarrow> 0 | Some s \<Rightarrow> s)"

definition RootLanded :: "Thread \<Rightarrow> bool" where
  "RootLanded t \<longleftrightarrow> str_of (th_ThreadID t) \<noteq> []"

definition Sendable :: "Thread \<Rightarrow> bool" where
  "Sendable t \<longleftrightarrow> \<not> ThreadState_Terminal (th_State t)"

definition NeedsFreshRoot :: "Thread \<Rightarrow> bool" where
  "NeedsFreshRoot t \<longleftrightarrow> th_ReplyCount t \<ge> MaxThreadReplies"

text \<open>An appended timeline event: its type, what it is about and its dedupe key.\<close>

type_synonym timeline_row = "EventType \<times> uuid \<times> string"

record DB =
  db_threads :: "Thread list"
  db_deliveries :: "Delivery list"
  db_notifications :: "Notification list"
  db_channels :: "Channel list"
  db_events :: "timeline_row list"
  db_jobs :: "uuid list"
  db_incidents :: "uuid list"
  db_receipts :: "(uuid \<times> uuid \<times> uuid) list"

definition set_deliveries :: "DB \<Rightarrow> (Delivery \<Rightarrow> bool) \<Rightarrow> (Delivery \<Rightarrow> Delivery) \<Rightarrow> DB" where
  "set_deliveries db P f = db\<lparr>db_deliveries := update_where P f (db_deliveries db)\<rparr>"

definition set_threads :: "DB \<Rightarrow> (Thread \<Rightarrow> bool) \<Rightarrow> (Thread \<Rightarrow> Thread) \<Rightarrow> DB" where
  "set_threads db P f = db\<lparr>db_threads := update_where P f (db_threads db)\<rparr>"

text \<open>\<^verbatim>\<open>SELECT ... WHERE id = $2\<close>, and \<^verbatim>\<open>pgx.ErrNoRows\<close> as the error a repository maps it to.\<close>

definition get_row :: "('a \<Rightarrow> uuid) \<Rightarrow> string \<Rightarrow> 'a list \<Rightarrow> uuid \<Rightarrow> 'a result" where
  "get_row key code rows i =
     (case find (\<lambda>r. key r = i) rows of Some r \<Rightarrow> Inr r | None \<Rightarrow> Inl (errs_New KindNotFound code))"

section \<open>Threads\<close>

definition Thread_Get :: "DB \<Rightarrow> uuid \<Rightarrow> Thread result" where
  "Thread_Get db t = get_row th_ID ''thread_not_found'' (db_threads db) t"

text \<open>\<^verbatim>\<open>Ensure\<close> takes the fresh id the caller drew; the row it inserts gets the table's defaults.\<close>

definition Ensure :: "DB \<Rightarrow> uuid \<Rightarrow> uuid \<Rightarrow> SubjectKind \<Rightarrow> uuid \<Rightarrow> DB \<times> Thread" where
  "Ensure db fresh channelID kind subjectID =
     (case find (\<lambda>t. th_ChannelID t = channelID \<and> th_SubjectKind t = kind \<and> th_SubjectID t = subjectID)
        (db_threads db) of
        Some t \<Rightarrow> (db, t)
      | None \<Rightarrow>
          let t = \<lparr>th_ID = fresh, th_ChannelID = channelID, th_SubjectKind = kind, th_SubjectID = subjectID, th_ConversationID = None,
                   th_ThreadID = None, th_RootDeliveryID = None, th_ReplyCount = 0, th_LastSentSeq = 0,
                   th_NextSeq = 1, th_State = ThreadOpening, th_DeadReason = None\<rparr>
          in (db\<lparr>db_threads := db_threads db @ [t]\<rparr>, t))"

definition AllocateSeq :: "DB \<Rightarrow> uuid \<Rightarrow> (DB \<times> int) result" where
  "AllocateSeq db t = rbind (Thread_Get db t) (\<lambda>th.
     Inr (set_threads db (\<lambda>x. th_ID x = t) (\<lambda>x. x\<lparr>th_NextSeq := th_NextSeq x + 1\<rparr>), th_NextSeq th))"

definition RecordRoot :: "DB \<Rightarrow> uuid \<Rightarrow> string \<Rightarrow> string \<Rightarrow> uuid \<Rightarrow> int \<Rightarrow> DB result" where
  "RecordRoot db t conversationID messageID rootDeliveryID seq =
     (if conversationID = [] \<or> messageID = [] then Inl (errs_New KindInternal ''thread_not_found'')
      else Inr (set_threads db (\<lambda>x. th_ID x = t)
        (\<lambda>x. x\<lparr>th_ConversationID := Some conversationID, th_ThreadID := Some messageID,
               th_RootDeliveryID := Some rootDeliveryID, th_State := ThreadOpen, th_DeadReason := None,
               th_LastSentSeq := max (th_LastSentSeq x) seq\<rparr>)))"

definition RecordReply :: "DB \<Rightarrow> uuid \<Rightarrow> int \<Rightarrow> DB" where
  "RecordReply db t seq = set_threads db (\<lambda>x. th_ID x = t)
     (\<lambda>x. x\<lparr>th_ReplyCount := th_ReplyCount x + 1, th_LastSentSeq := max (th_LastSentSeq x) seq\<rparr>)"

definition AdvanceSent :: "DB \<Rightarrow> uuid \<Rightarrow> int \<Rightarrow> DB" where
  "AdvanceSent db t seq = set_threads db (\<lambda>x. th_ID x = t \<and> seq < th_NextSeq x)
     (\<lambda>x. x\<lparr>th_LastSentSeq := max (th_LastSentSeq x) seq\<rparr>)"

definition Thread_MarkDead :: "DB \<Rightarrow> uuid \<Rightarrow> DeadReason \<Rightarrow> DB" where
  "Thread_MarkDead db t reason = set_threads db (\<lambda>x. th_ID x = t \<and> th_State x \<noteq> ThreadDead)
     (\<lambda>x. x\<lparr>th_State := ThreadDead, th_DeadReason := Some reason\<rparr>)"

definition ClearPointer :: "DB \<Rightarrow> uuid \<Rightarrow> DB" where
  "ClearPointer db t = set_threads db (\<lambda>x. th_ID x = t)
     (\<lambda>x. x\<lparr>th_ThreadID := None, th_RootDeliveryID := None, th_ReplyCount := 0, th_State := ThreadOpening,
            th_DeadReason := None\<rparr>)"

section \<open>Deliveries\<close>

definition Delivery_Get :: "DB \<Rightarrow> uuid \<Rightarrow> Delivery result" where
  "Delivery_Get db i = get_row dl_ID ''delivery_not_found'' (db_deliveries db) i"

text \<open>
  \<^verbatim>\<open>Create\<close>, with the fresh id of its parameters: the unique index on notification, channel and mode
  arbitrates, and an existing row is returned with \<open>False\<close>.
\<close>

record NewDelivery =
  nd_ID :: uuid
  nd_NotificationID :: uuid
  nd_ChannelID :: uuid
  nd_ThreadID :: "uuid option"
  nd_ThreadSeq :: int
  nd_Mode :: Mode
  nd_CreatedAt :: time

definition Delivery_Create :: "DB \<Rightarrow> NewDelivery \<Rightarrow> DB \<times> Delivery \<times> bool" where
  "Delivery_Create db p =
     (case find (\<lambda>d. dl_NotificationID d = nd_NotificationID p \<and> dl_ChannelID d = nd_ChannelID p \<and>
                     dl_Mode d = nd_Mode p) (db_deliveries db) of
        Some d \<Rightarrow> (db, d, False)
      | None \<Rightarrow>
          let d = \<lparr>dl_ID = nd_ID p, dl_NotificationID = nd_NotificationID p, dl_ChannelID = nd_ChannelID p,
                   dl_ThreadID = nd_ThreadID p,
                   dl_ThreadSeq = (if nd_ThreadSeq p > 0 then Some (nd_ThreadSeq p) else None),
                   dl_Mode = nd_Mode p, dl_Status = DeliveryPending, dl_Attempts = 0, dl_NextAttemptAt = None,
                   dl_RenderedHash = None, dl_ProviderMessageID = None, dl_ProviderConversationID = None,
                   dl_ErrorClass = None, dl_Ambiguous = False, dl_SentAt = None, dl_CreatedAt = nd_CreatedAt p,
                   dl_UpdatedAt = nd_CreatedAt p\<rparr>
          in (db\<lparr>db_deliveries := db_deliveries db @ [d]\<rparr>, d, True))"

definition SetThreadSeq :: "DB \<Rightarrow> uuid \<Rightarrow> int \<Rightarrow> time \<Rightarrow> DB result" where
  "SetThreadSeq db i seq now =
     (if seq < 1 then Inl (errs_New KindInternal ''delivery_not_found'')
      else Inr (set_deliveries db (\<lambda>d. dl_ID d = i \<and> dl_ThreadSeq d = None)
        (\<lambda>d. d\<lparr>dl_ThreadSeq := Some seq, dl_UpdatedAt := max (dl_UpdatedAt d) now\<rparr>)))"

definition claimable :: "uuid \<Rightarrow> time \<Rightarrow> Delivery \<Rightarrow> bool" where
  "claimable i leaseCutoff d \<longleftrightarrow> dl_ID d = i \<and>
     (dl_Status d = DeliveryPending \<or> dl_Status d = DeliveryFailed \<or>
      dl_Status d = DeliverySending \<and> dl_ProviderMessageID d = None \<and> dl_UpdatedAt d < leaseCutoff)"

definition claimed :: "time \<Rightarrow> Delivery \<Rightarrow> Delivery" where
  "claimed now d = d\<lparr>dl_Status := DeliverySending, dl_Attempts := dl_Attempts d + 1,
     dl_Ambiguous := dl_Ambiguous d \<or> dl_Status d = DeliverySending \<and> dl_Mode d = ModePostRoot,
     dl_UpdatedAt := max (dl_UpdatedAt d) now\<rparr>"

definition Delivery_Claim :: "DB \<Rightarrow> uuid \<Rightarrow> time \<Rightarrow> time \<Rightarrow> (DB \<times> Delivery) option" where
  "Delivery_Claim db i leaseCutoff now =
     (case find (claimable i leaseCutoff) (db_deliveries db) of
        None \<Rightarrow> None
      | Some d \<Rightarrow> Some (set_deliveries db (claimable i leaseCutoff) (claimed now), claimed now d))"

record Message =
  m_Payload :: string
  m_Hash :: string
  m_Fallback :: string

definition PersistRendered :: "DB \<Rightarrow> uuid \<Rightarrow> Message \<Rightarrow> time \<Rightarrow> DB result" where
  "PersistRendered db i msg now =
     (if m_Payload msg = [] \<or> m_Hash msg = [] \<or> m_Fallback msg = [] then Inl (errs_New KindInternal ''delivery_not_found'')
      else Inr (set_deliveries db (\<lambda>d. dl_ID d = i)
        (\<lambda>d. d\<lparr>dl_RenderedHash := Some (m_Hash msg), dl_UpdatedAt := max (dl_UpdatedAt d) now\<rparr>)))"

definition MarkSent :: "DB \<Rightarrow> uuid \<Rightarrow> string \<Rightarrow> string \<Rightarrow> time \<Rightarrow> (DB \<times> bool) result" where
  "MarkSent db i messageID conversationID now =
     (if messageID = [] then Inl (errs_New KindInternal ''delivery_not_found'')
      else Inr (set_deliveries db (\<lambda>d. dl_ID d = i \<and> dl_Status d = DeliverySending)
          (\<lambda>d. d\<lparr>dl_Status := DeliverySent, dl_ProviderMessageID := Some messageID,
                 dl_ProviderConversationID := (if conversationID \<noteq> [] then Some conversationID else None),
                 dl_SentAt := Some now, dl_ErrorClass := None, dl_NextAttemptAt := None,
                 dl_UpdatedAt := max (dl_UpdatedAt d) now\<rparr>),
        list_ex (\<lambda>d. dl_ID d = i \<and> dl_Status d = DeliverySending) (db_deliveries db)))"

definition MarkFailed :: "DB \<Rightarrow> uuid \<Rightarrow> ErrorClass \<Rightarrow> time \<Rightarrow> time \<Rightarrow> DB" where
  "MarkFailed db i cls nextAttemptAt now = set_deliveries db (\<lambda>d. dl_ID d = i)
     (\<lambda>d. d\<lparr>dl_Status := DeliveryFailed, dl_ErrorClass := Some cls, dl_NextAttemptAt := Some nextAttemptAt,
            dl_UpdatedAt := max (dl_UpdatedAt d) now\<rparr>)"

definition Delivery_MarkDead :: "DB \<Rightarrow> uuid \<Rightarrow> ErrorClass \<Rightarrow> time \<Rightarrow> DB" where
  "Delivery_MarkDead db i cls now = set_deliveries db (\<lambda>d. dl_ID d = i)
     (\<lambda>d. d\<lparr>dl_Status := DeliveryDead, dl_ErrorClass := Some cls, dl_NextAttemptAt := None,
            dl_UpdatedAt := max (dl_UpdatedAt d) now\<rparr>)"

definition MarkSkipped :: "DB \<Rightarrow> uuid \<Rightarrow> time \<Rightarrow> DB" where
  "MarkSkipped db i now = set_deliveries db (\<lambda>d. dl_ID d = i)
     (\<lambda>d. d\<lparr>dl_Status := DeliverySkipped, dl_ErrorClass := None, dl_NextAttemptAt := None,
            dl_UpdatedAt := max (dl_UpdatedAt d) now\<rparr>)"

definition RepointToRoot :: "DB \<Rightarrow> uuid \<Rightarrow> time \<Rightarrow> DB" where
  "RepointToRoot db i now = set_deliveries db (\<lambda>d. dl_ID d = i)
     (\<lambda>d. d\<lparr>dl_Mode := ModePostRoot, dl_Status := DeliveryPending, dl_Ambiguous := True, dl_RenderedHash := None,
            dl_ProviderMessageID := None, dl_ProviderConversationID := None, dl_ErrorClass := None,
            dl_NextAttemptAt := Some now, dl_UpdatedAt := max (dl_UpdatedAt d) now\<rparr>)"

definition StatusesFor :: "DB \<Rightarrow> uuid \<Rightarrow> DeliveryStatus list" where
  "StatusesFor db n = map dl_Status (filter (\<lambda>d. dl_NotificationID d = n) (db_deliveries db))"

text \<open>\<^verbatim>\<open>ORDER BY sent_at DESC LIMIT 1\<close>: a row with the latest \<^verbatim>\<open>sent_at\<close>; \<^verbatim>\<open>NULL\<close> sorts first.\<close>

definition later :: "time option \<Rightarrow> time option \<Rightarrow> bool" where
  "later x y = (case x of None \<Rightarrow> y \<noteq> None | Some a \<Rightarrow> (case y of None \<Rightarrow> False | Some b \<Rightarrow> b < a))"

fun latest :: "Delivery list \<Rightarrow> Delivery option" where
  "latest [] = None"
| "latest (d # ds) = (case latest ds of None \<Rightarrow> Some d
     | Some e \<Rightarrow> if later (dl_SentAt e) (dl_SentAt d) then Some e else Some d)"

definition LastRootHash :: "DB \<Rightarrow> uuid \<Rightarrow> string" where
  "LastRootHash db t =
     (case latest (filter (\<lambda>d. dl_ThreadID d = Some t \<and> dl_Status d = DeliverySent \<and>
                   (dl_Mode d = ModePostRoot \<or> dl_Mode d = ModeUpdateRoot) \<and> dl_RenderedHash d \<noteq> None)
                 (db_deliveries db)) of
        None \<Rightarrow> []
      | Some d \<Rightarrow> str_of (dl_RenderedHash d))"

section \<open>Notifications, channels, timeline, receipts and the queue\<close>

definition Notification_Get :: "DB \<Rightarrow> uuid \<Rightarrow> Notification result" where
  "Notification_Get db i = get_row nt_ID ''notification_not_found'' (db_notifications db) i"

definition SetStatus :: "DB \<Rightarrow> uuid \<Rightarrow> Status \<Rightarrow> DB result" where
  "SetStatus db i status =
     (if status = StatusSuppressed then Inl (errs_New KindInternal ''notification_not_found'')
      else Inr (db\<lparr>db_notifications :=
        update_where (\<lambda>n. nt_ID n = i \<and> nt_Status n \<noteq> status) (\<lambda>n. n\<lparr>nt_Status := status\<rparr>) (db_notifications db)\<rparr>))"

definition Channel_Get :: "DB \<Rightarrow> uuid \<Rightarrow> Channel result" where
  "Channel_Get db i = get_row ch_ID ''channel_not_found'' (db_channels db) i"

definition SetHealth :: "DB \<Rightarrow> uuid \<Rightarrow> HealthStatus \<Rightarrow> DB" where
  "SetHealth db i health = db\<lparr>db_channels :=
     update_where (\<lambda>c. ch_ID c = i) (\<lambda>c. c\<lparr>ch_HealthStatus := health\<rparr>) (db_channels db)\<rparr>"

text \<open>\<^verbatim>\<open>Append\<close>: a dedupe key that exists already makes the append a no-op.\<close>

definition append_event :: "DB \<Rightarrow> timeline_row \<Rightarrow> DB" where
  "append_event db e = (case e of (_, _, key) \<Rightarrow>
     if key \<noteq> [] \<and> key \<in> set (map (snd \<circ> snd) (db_events db)) then db
     else db\<lparr>db_events := db_events db @ [e]\<rparr>)"

definition AppendDeliveryOutcome :: "uuidlib \<Rightarrow> DB \<Rightarrow> Delivery \<Rightarrow> uuid option \<Rightarrow> uuid option \<Rightarrow> DB" where
  "AppendDeliveryOutcome U db d alertID caseID =
     (let key = (\<lambda>suffix. ''del:'' @ uuidString U (dl_ID d) @ suffix);
          ev = (case dl_Status d of
             DeliverySent \<Rightarrow> Some (if dl_Mode d = ModeUpdateRoot then EventDeliveryUpdated else EventDeliverySent,
                                   key '':sent'')
           | DeliveryDead \<Rightarrow> Some (EventDeliveryDead, key '':dead'')
           | DeliverySkipped \<Rightarrow> Some (EventDeliverySkipped, key '':skipped'')
           | DeliveryFailed \<Rightarrow> Some (EventDeliveryFailed, [])
           | _ \<Rightarrow> None)
      in case ev of None \<Rightarrow> db
         | Some (kind, k) \<Rightarrow> if alertID = None \<and> caseID = None then db else append_event db (kind, dl_ID d, k))"

definition AppendThreadSkip :: "uuidlib \<Rightarrow> DB \<Rightarrow> uuid \<Rightarrow> int \<Rightarrow> DB" where
  "AppendThreadSkip U db t seq =
     append_event db (EventDeliverySkipped, t, ''thread:'' @ uuidString U t @ '':skip:'' @ itoa seq)"

text \<open>The receipt of an incident fact: one per incident and channel, and only with a legal handle.\<close>

definition RecordReceipt :: "DB \<Rightarrow> uuid \<Rightarrow> uuid \<Rightarrow> uuid \<Rightarrow> string \<Rightarrow> string \<Rightarrow> DB" where
  "RecordReceipt db incident channel delivery url ext =
     (if incident \<in> set (db_incidents db) \<and> (url \<noteq> [] \<or> ext \<noteq> []) \<and>
         (url = [] \<or> take 8 url = ''https://'' \<and> length url \<le> 2048) \<and> length ext \<le> 255 \<and>
         \<not> list_ex (\<lambda>(i, c, _). i = incident \<and> c = channel) (db_receipts db)
      then db\<lparr>db_receipts := db_receipts db @ [(incident, channel, delivery)]\<rparr> else db)"

definition Enqueue :: "DB \<Rightarrow> uuid \<Rightarrow> DB" where
  "Enqueue db i = db\<lparr>db_jobs := db_jobs db @ [i]\<rparr>"

section \<open>Facts\<close>

lemma get_row_update_where:
  "(\<And>r. key (f r) = key r) \<Longrightarrow>
    get_row key code (update_where P f rows) i =
      rbind (get_row key code rows i) (\<lambda>r. Inr (if P r then f r else r))"
  by (simp add: get_row_def find_update_where split: option.split)

lemma get_row_Inr_iff:
  "distinct (map key rows) \<Longrightarrow> get_row key code rows i = Inr r \<longleftrightarrow> r \<in> set rows \<and> key r = i"
proof (induction rows)
  case (Cons x rows)
  then show ?case by (auto simp: get_row_def)
qed (simp add: get_row_def)

lemma get_row_InrD: "get_row key code rows i = Inr r \<Longrightarrow> r \<in> set rows \<and> key r = i"
  by (auto simp: get_row_def find_Some_iff split: option.splits)

end
