(* ===== verification/Thread_Ordering.thy ===== *)
theory Thread_Ordering
  imports Thread_Store
begin

text \<open>
  The ordering gate (\<^verbatim>\<open>internal/platform/jobs/ordering\<close>): a conversation's messages carry consecutive
  sequence numbers, and the gate decides of a delivery whether it may be sent now, must wait, or has
  found a stall to recover from.

  \<open>Decide\<close> is the decision (\<open>Decide_gate\<close> here; \<^verbatim>\<open>Thread\<close>, \<^verbatim>\<open>Item\<close> and \<^verbatim>\<open>Decision\<close> carry the prefixes \<open>ot_\<close>,
  \<open>it_\<close> and \<open>gd_\<close>), \<open>Recover\<close> the loop that moves the head of a thread past slots that will never be sent. The
  gate reaches its rows through the interface \<^verbatim>\<open>Store\<close>, a record of operations here as there; the locale
  \<open>ordering_store\<close> states what it relies on and the repository's \<^verbatim>\<open>OrderingStore\<close> (\<^verbatim>\<open>threads.go\<close>) is shown to
  provide it. The advisory lock that serialises a thread's transactions is what makes each of them one step.
\<close>

section \<open>The decision\<close>

record OThread =
  ot_ID :: uuid
  ot_State :: ThreadState
  ot_LastSentSeq :: int
  ot_NextSeq :: int
  ot_RootLanded :: bool

record Item =
  it_ID :: uuid
  it_ThreadID :: uuid
  it_Seq :: int
  it_NeedsRoot :: bool
  it_CreatedAt :: time

datatype Action =
    ActionProceed | ActionWaitForRoot | ActionWaitForPredecessor | ActionRecoverThread | ActionAbandon
  | ActionOutOfOrder

record GateDecision =
  gd_Action :: Action
  gd_Wait :: duration
  gd_Reason :: string

record Policy =
  RootWait :: duration
  PredecessorWait :: duration
  MaxWait :: duration

definition DefaultPolicy :: Policy where
  "DefaultPolicy = \<lparr>RootWait = 2 * Second, PredecessorWait = 1 * Second, MaxWait = 15 * Minute\<rparr>"

definition Policy_normalise :: "Policy \<Rightarrow> Policy" where
  "Policy_normalise p =
     (let d = DefaultPolicy;
          p = (if RootWait p \<le> 0 then p\<lparr>RootWait := RootWait d\<rparr> else p);
          p = (if PredecessorWait p \<le> 0 then p\<lparr>PredecessorWait := PredecessorWait d\<rparr> else p)
      in if MaxWait p \<le> 0 then p\<lparr>MaxWait := MaxWait d\<rparr> else p)"

definition waited :: "Item \<Rightarrow> time \<Rightarrow> duration" where
  "waited item now = (if IsZero (it_CreatedAt item) then 0 else t_sub now (it_CreatedAt item))"

definition verdict :: "Action \<Rightarrow> duration \<Rightarrow> string \<Rightarrow> GateDecision" where
  "verdict a w r = \<lparr>gd_Action = a, gd_Wait = w, gd_Reason = r\<rparr>"

definition Decide_gate :: "Item \<Rightarrow> OThread \<Rightarrow> time \<Rightarrow> Policy \<Rightarrow> GateDecision" where
  "Decide_gate item th now p' =
     (let p = Policy_normalise p' in
      if ot_State th = ThreadDead then verdict ActionRecoverThread 0 ''thread_dead''
      else if ot_State th \<noteq> ThreadOpening \<and> ot_State th \<noteq> ThreadOpen then verdict ActionAbandon 0 ''unknown_state''
      else if it_Seq item \<le> 0 then verdict ActionAbandon 0 ''unsequenced''
      else if it_Seq item \<le> ot_LastSentSeq th then verdict ActionOutOfOrder 0 ''already_resolved''
      else if it_NeedsRoot item \<and> \<not> ot_RootLanded th \<and> it_Seq item = ot_LastSentSeq th + 1
        then verdict ActionRecoverThread 0 ''root_never_landed''
      else if it_NeedsRoot item \<and> \<not> ot_RootLanded th then
        if waited item now > MaxWait p then verdict ActionRecoverThread 0 ''root_never_landed''
        else verdict ActionWaitForRoot (RootWait p) ''awaiting_root''
      else if it_Seq item \<noteq> ot_LastSentSeq th + 1 then
        if waited item now > MaxWait p then verdict ActionRecoverThread 0 ''head_of_line_stalled''
        else verdict ActionWaitForPredecessor (PredecessorWait p) ''awaiting_predecessor''
      else verdict ActionProceed 0 ''in_order'')"

section \<open>Recovery\<close>

datatype SkipReason =
  ReasonDeadDelivery | ReasonSkippedDelivery | ReasonMissingDelivery | ReasonThreadDead | ReasonAlreadySent

definition Anomalous :: "SkipReason \<Rightarrow> bool" where
  [oto_defs]: "Anomalous r \<longleftrightarrow> r \<noteq> ReasonAlreadySent"

record Slot =
  sl_Present :: bool
  sl_ItemID :: uuid
  sl_Resolved :: bool
  sl_Sent :: bool
  sl_Skipped :: bool
  sl_InFlight :: bool
  sl_UpdatedAt :: time

definition emptySlot :: Slot where
  "emptySlot = \<lparr>sl_Present = False, sl_ItemID = 0, sl_Resolved = False, sl_Sent = False, sl_Skipped = False,
     sl_InFlight = False, sl_UpdatedAt = 0\<rparr>"

text \<open>The interface \<^verbatim>\<open>Store\<close>, over a state of type \<open>'s\<close>.\<close>

record 's Store =
  LoadThread :: "'s \<Rightarrow> uuid \<Rightarrow> OThread result"
  SlotAt :: "'s \<Rightarrow> uuid \<Rightarrow> int \<Rightarrow> Slot"
  Advance :: "'s \<Rightarrow> uuid \<Rightarrow> int \<Rightarrow> uuid \<Rightarrow> SkipReason \<Rightarrow> 's"

record Recovery =
  rc_Advanced :: int
  rc_From :: int
  rc_To :: int
  rc_StalledAt :: int
  rc_StalledItem :: uuid
  rc_StalledInFlight :: bool

text \<open>\<^verbatim>\<open>classifySlot\<close>: \<open>None\<close> is its second result false.\<close>

definition classifySlot :: "duration \<Rightarrow> Slot \<Rightarrow> OThread \<Rightarrow> time \<Rightarrow> SkipReason option" where
  "classifySlot lease slot th now =
     (if ot_State th = ThreadDead then Some ReasonThreadDead
      else if \<not> sl_Present slot then Some ReasonMissingDelivery
      else if sl_Sent slot then Some ReasonAlreadySent
      else if sl_Skipped slot then Some ReasonSkippedDelivery
      else if sl_Resolved slot then Some ReasonDeadDelivery
      else if sl_InFlight slot \<and> t_sub now (sl_UpdatedAt slot) \<le> lease then None
      else None)"

text \<open>The loop \<^verbatim>\<open>for seq := th.LastSentSeq + 1; seq < th.NextSeq; seq++\<close> of \<^verbatim>\<open>Recover\<close>.\<close>

function recover_loop ::
  "'s Store \<Rightarrow> duration \<Rightarrow> time \<Rightarrow> uuid \<Rightarrow> OThread \<Rightarrow> int \<Rightarrow> 's \<Rightarrow> Recovery \<Rightarrow> 's \<times> Recovery" where
  "recover_loop S lease now tid th seq st r =
     (if seq < ot_NextSeq th then
        let slot = SlotAt S st tid seq in
        (case classifySlot lease slot th now of
           None \<Rightarrow> (st, r\<lparr>rc_StalledAt := seq, rc_StalledItem := sl_ItemID slot,
                          rc_StalledInFlight := sl_InFlight slot\<rparr>)
         | Some reason \<Rightarrow>
             recover_loop S lease now tid th (seq + 1) (Advance S st tid seq (sl_ItemID slot) reason)
               (r\<lparr>rc_Advanced := rc_Advanced r + 1, rc_To := seq\<rparr>))
      else (st, r))"
  by pat_completeness auto
termination
  by (relation "measure (\<lambda>(S, lease, now, tid, th, seq, st, r). nat (ot_NextSeq th - seq))") auto

declare recover_loop.simps [simp del]

definition recovery0 :: "OThread \<Rightarrow> Recovery" where
  "recovery0 th = \<lparr>rc_Advanced = 0, rc_From = ot_LastSentSeq th, rc_To = ot_LastSentSeq th, rc_StalledAt = 0,
     rc_StalledItem = 0, rc_StalledInFlight = False\<rparr>"

definition Recover :: "'s Store \<Rightarrow> duration \<Rightarrow> time \<Rightarrow> uuid \<Rightarrow> 's \<Rightarrow> ('s \<times> Recovery) result" where
  "Recover S lease now tid st = rbind (LoadThread S st tid)
     (\<lambda>th. Inr (recover_loop S lease now tid th (ot_LastSentSeq th + 1) st (recovery0 th)))"

text \<open>\<^verbatim>\<open>Claim\<close>: the decision on the thread as it is under the lock.\<close>

definition Gate_Claim :: "'s Store \<Rightarrow> Policy \<Rightarrow> time \<Rightarrow> Item \<Rightarrow> 's \<Rightarrow> (GateDecision \<times> OThread) result" where
  "Gate_Claim S p now item st = rbind (LoadThread S st (it_ThreadID item))
     (\<lambda>th. Inr (Decide_gate item th now (Policy_normalise p), th))"

definition DefaultStaleClaimLease :: duration where "DefaultStaleClaimLease = 120 * Second"

section \<open>The repository's store\<close>

definition Ordering_LoadThread :: "DB \<Rightarrow> uuid \<Rightarrow> OThread result" where
  "Ordering_LoadThread db t = rbind (Thread_Get db t) (\<lambda>th. Inr
     \<lparr>ot_ID = t, ot_State = th_State th, ot_LastSentSeq = th_LastSentSeq th, ot_NextSeq = th_NextSeq th,
      ot_RootLanded = (th_ThreadID th \<noteq> None)\<rparr>)"

definition slot_of :: "Delivery \<Rightarrow> Slot" where
  "slot_of d = \<lparr>sl_Present = True, sl_ItemID = dl_ID d, sl_Resolved = DeliveryStatus_Resolved (dl_Status d),
     sl_Sent = (dl_Status d = DeliverySent), sl_Skipped = (dl_Status d = DeliverySkipped),
     sl_InFlight = (dl_Status d = DeliverySending), sl_UpdatedAt = dl_UpdatedAt d\<rparr>"

definition Ordering_SlotAt :: "DB \<Rightarrow> uuid \<Rightarrow> int \<Rightarrow> Slot" where
  "Ordering_SlotAt db t seq =
     (case find (\<lambda>d. dl_ThreadID d = Some t \<and> dl_ThreadSeq d = Some seq) (db_deliveries db) of
        None \<Rightarrow> emptySlot
      | Some d \<Rightarrow> slot_of d)"

definition Ordering_Advance :: "uuidlib \<Rightarrow> time \<Rightarrow> DB \<Rightarrow> uuid \<Rightarrow> int \<Rightarrow> uuid \<Rightarrow> SkipReason \<Rightarrow> DB" where
  "Ordering_Advance U now db t seq itemID reason =
     (let db1 = AdvanceSent db t seq in
      if \<not> Anomalous reason then db1
      else
        let db2 = (if itemID \<noteq> 0 then
               set_deliveries db1 (\<lambda>d. dl_ID d = itemID \<and> (dl_Status d = DeliveryPending \<or> dl_Status d = DeliveryFailed))
                 (\<lambda>d. d\<lparr>dl_Status := DeliverySkipped, dl_ErrorClass := None, dl_NextAttemptAt := None,
                        dl_UpdatedAt := max (dl_UpdatedAt d) now\<rparr>)
             else db1)
        in AppendThreadSkip U db2 t seq)"

definition OrderingStore :: "uuidlib \<Rightarrow> time \<Rightarrow> DB Store" where
  "OrderingStore U now =
     \<lparr>LoadThread = Ordering_LoadThread, SlotAt = Ordering_SlotAt, Advance = Ordering_Advance U now\<rparr>"

section \<open>What the gate relies on\<close>

text \<open>
  The contract of a store that is \<open>ok\<close>: advancing a thread by one slot, with the item found there, moves its head
  to that slot, changes nothing else of the thread and no other slot of it.
\<close>

locale ordering_store =
  fixes S :: "'s Store" and ok :: "'s \<Rightarrow> bool"
  assumes advance_ok:
      "ok st \<Longrightarrow> LoadThread S st t = Inr th \<Longrightarrow> seq = ot_LastSentSeq th + 1 \<Longrightarrow> seq < ot_NextSeq th \<Longrightarrow>
       ok (Advance S st t seq (sl_ItemID (SlotAt S st t seq)) r)"
    and load_advance:
      "ok st \<Longrightarrow> LoadThread S st t = Inr th \<Longrightarrow> seq = ot_LastSentSeq th + 1 \<Longrightarrow> seq < ot_NextSeq th \<Longrightarrow>
       LoadThread S (Advance S st t seq (sl_ItemID (SlotAt S st t seq)) r) t = Inr (th\<lparr>ot_LastSentSeq := seq\<rparr>)"
    and slot_advance:
      "ok st \<Longrightarrow> seq' \<noteq> seq \<Longrightarrow>
       SlotAt S (Advance S st t seq (sl_ItemID (SlotAt S st t seq)) r) t seq' = SlotAt S st t seq'"
begin

text \<open>
  One run of the loop from slot \<open>seq\<close>, with the head just before it: it stops with the head at \<open>h\<close>, past
  finished slots only and before the first that is not; any property \<open>I\<close> of the store that survives such an
  advance survives the run.
\<close>

definition loop_result :: "duration \<Rightarrow> time \<Rightarrow> uuid \<Rightarrow> OThread \<Rightarrow> int \<Rightarrow> 's \<Rightarrow> Recovery \<Rightarrow> int \<Rightarrow> 's \<Rightarrow> Recovery \<Rightarrow> bool" where
  "loop_result lease now t th seq st rc h st' rc' \<longleftrightarrow>
     seq - 1 \<le> h \<and> h < ot_NextSeq th \<and> ok st' \<and> LoadThread S st' t = Inr (th\<lparr>ot_LastSentSeq := h\<rparr>) \<and>
     rc_To rc' = h \<and> rc_Advanced rc' = rc_Advanced rc + (h - (seq - 1)) \<and> rc_From rc' = rc_From rc \<and>
     (\<forall>s. seq \<le> s \<and> s \<le> h \<longrightarrow> classifySlot lease (SlotAt S st t s) th now \<noteq> None) \<and>
     (if h + 1 < ot_NextSeq th
      then classifySlot lease (SlotAt S st t (h + 1)) th now = None \<and> rc_StalledAt rc' = h + 1 \<and>
        rc_StalledItem rc' = sl_ItemID (SlotAt S st t (h + 1))
      else rc_StalledAt rc' = rc_StalledAt rc \<and> rc_StalledItem rc' = rc_StalledItem rc)"

lemma loop_spec:
  assumes "ok st" "LoadThread S st t = Inr (th\<lparr>ot_LastSentSeq := seq - 1\<rparr>)" "I st"
    and "seq \<le> ot_NextSeq th" "rc_To rc = seq - 1"
    and step: "\<And>st seq r. ok st \<Longrightarrow> I st \<Longrightarrow> LoadThread S st t = Inr (th\<lparr>ot_LastSentSeq := seq - 1\<rparr>) \<Longrightarrow>
      seq < ot_NextSeq th \<Longrightarrow> classifySlot lease (SlotAt S st t seq) th now = Some r \<Longrightarrow>
      I (Advance S st t seq (sl_ItemID (SlotAt S st t seq)) r)"
  obtains h st' rc' where "recover_loop S lease now t th seq st rc = (st', rc')"
    "loop_result lease now t th seq st rc h st' rc'" "I st'"
proof -
  have "\<exists>h st' rc'. recover_loop S lease now t th seq st rc = (st', rc') \<and>
      loop_result lease now t th seq st rc h st' rc' \<and> I st'"
    using assms(1-5)
  proof (induction "nat (ot_NextSeq th - seq)" arbitrary: seq st rc)
    case 0
    then show ?case
      by (intro exI [of _ "seq - 1"] exI [of _ st] exI [of _ rc])
        (auto simp: recover_loop.simps [of S lease now t th seq st rc] loop_result_def)
  next
    case (Suc n)
    let ?slot = "SlotAt S st t seq"
    have lt: "seq < ot_NextSeq th" using Suc.hyps(2) by linarith
    show ?case
    proof (cases "classifySlot lease ?slot th now")
      case None
      with lt Suc.prems show ?thesis
        by (intro exI [of _ "seq - 1"] exI [of _ st] exI)
          (auto simp: recover_loop.simps [of S lease now t th seq st rc] loop_result_def Let_def)
    next
      case (Some r)
      let ?st = "Advance S st t seq (sl_ItemID ?slot) r"
      let ?rc = "rc\<lparr>rc_Advanced := rc_Advanced rc + 1, rc_To := seq\<rparr>"
      have load: "LoadThread S ?st t = Inr (th\<lparr>ot_LastSentSeq := (seq + 1) - 1\<rparr>)"
        using load_advance [OF Suc.prems(1,2)] lt by simp
      have n: "n = nat (ot_NextSeq th - (seq + 1))" using Suc.hyps(2) by linarith
      have "ok ?st" using advance_ok [OF Suc.prems(1,2)] lt by simp
      moreover have "I ?st" by (rule step [OF Suc.prems(1,3,2) lt Some])
      ultimately obtain h st' rc' where
        h: "recover_loop S lease now t th (seq + 1) ?st ?rc = (st', rc')"
          "loop_result lease now t th (seq + 1) ?st ?rc h st' rc'" "I st'"
        using Suc.hyps(1) [OF n, of ?st ?rc] load lt by auto
      have slots: "SlotAt S ?st t s = SlotAt S st t s" if "seq < s" for s
        using slot_advance [OF Suc.prems(1), of s seq] that by simp
      have "classifySlot lease (SlotAt S st t s) th now \<noteq> None" if "seq \<le> s" "s \<le> h" for s
      proof (cases "s = seq")
        case False
        with that have "seq + 1 \<le> s" "seq < s" by simp_all
        with that(2) h(2) slots [of s] show ?thesis unfolding loop_result_def by metis
      qed (simp add: Some)
      then have "loop_result lease now t th seq st rc h st' rc'"
        using h(2) slots [of "h + 1"] by (auto simp: loop_result_def)
      with h Some lt show ?thesis
        by (auto simp: recover_loop.simps [of S lease now t th seq st rc])
    qed
  qed
  then show ?thesis using that by blast
qed

text \<open>The same for \<open>Recover\<close>.\<close>

lemma Recover_spec:
  assumes "ok st" "LoadThread S st t = Inr th" "ot_LastSentSeq th < ot_NextSeq th" "I st"
    and "\<And>st seq r. ok st \<Longrightarrow> I st \<Longrightarrow> LoadThread S st t = Inr (th\<lparr>ot_LastSentSeq := seq - 1\<rparr>) \<Longrightarrow>
      seq < ot_NextSeq th \<Longrightarrow> classifySlot lease (SlotAt S st t seq) th now = Some r \<Longrightarrow>
      I (Advance S st t seq (sl_ItemID (SlotAt S st t seq)) r)"
  obtains st' rc where "Recover S lease now t st = Inr (st', rc)"
    "loop_result lease now t th (ot_LastSentSeq th + 1) st (recovery0 th) (rc_To rc) st' rc" "I st'"
proof -
  obtain h st' rc where r: "recover_loop S lease now t th (ot_LastSentSeq th + 1) st (recovery0 th) = (st', rc)"
      "loop_result lease now t th (ot_LastSentSeq th + 1) st (recovery0 th) h st' rc" "I st'"
  proof (rule loop_spec [where I = I and th = th and seq = "ot_LastSentSeq th + 1" and rc = "recovery0 th"])
    show "LoadThread S st t = Inr (th\<lparr>ot_LastSentSeq := ot_LastSentSeq th + 1 - 1\<rparr>)" using assms(2) by simp
  qed (use assms in \<open>auto simp: recovery0_def\<close>)
  moreover from r(2) have "h = rc_To rc" by (simp add: loop_result_def)
  ultimately show ?thesis using that assms(2) by (auto simp: Recover_def)
qed

end

section \<open>The repository provides it\<close>

definition tables_ok :: "DB \<Rightarrow> bool" where
  "tables_ok db \<longleftrightarrow> distinct (map th_ID (db_threads db)) \<and> distinct (map dl_ID (db_deliveries db)) \<and>
     0 \<notin> set (map dl_ID (db_deliveries db)) \<and>
     distinct (map (\<lambda>d. (dl_ThreadID d, dl_ThreadSeq d))
       (filter (\<lambda>d. dl_ThreadID d \<noteq> None \<and> dl_ThreadSeq d \<noteq> None) (db_deliveries db)))"

lemma tables_ok_set_threads [simp]:
  "(\<And>x. th_ID (f x) = th_ID x) \<Longrightarrow> tables_ok (set_threads db P f) \<longleftrightarrow> tables_ok db"
  by (simp add: tables_ok_def set_threads_def)

lemma tables_ok_set_deliveries [simp]:
  "(\<And>x. dl_ID (f x) = dl_ID x) \<Longrightarrow> (\<And>x. dl_ThreadID (f x) = dl_ThreadID x) \<Longrightarrow>
   (\<And>x. dl_ThreadSeq (f x) = dl_ThreadSeq x) \<Longrightarrow> tables_ok (set_deliveries db P f) \<longleftrightarrow> tables_ok db"
  by (simp add: tables_ok_def set_deliveries_def filter_update_where)

lemma tables_ok_append_event [simp]: "tables_ok (append_event db e) \<longleftrightarrow> tables_ok db"
  by (simp add: tables_ok_def append_event_def split: prod.split)

lemma tables_ok_same_id:
  "tables_ok db \<Longrightarrow> d \<in> set (db_deliveries db) \<Longrightarrow> d' \<in> set (db_deliveries db) \<Longrightarrow> dl_ID d = dl_ID d' \<Longrightarrow> d = d'"
  by (auto simp: tables_ok_def distinct_map inj_on_def)

lemma tables_ok_same_slot:
  assumes "tables_ok db" "d \<in> set (db_deliveries db)" "d' \<in> set (db_deliveries db)"
    and "dl_ThreadID d = Some t" "dl_ThreadID d' = Some t" "dl_ThreadSeq d = Some s" "dl_ThreadSeq d' = Some s"
  shows "d = d'"
  using assms by (auto simp: tables_ok_def distinct_map inj_on_def)

lemma Thread_Get_frame [simp]:
  "Thread_Get (set_deliveries db P f) t = Thread_Get db t"
  "Thread_Get (append_event db e) t = Thread_Get db t"
  by (auto simp: Thread_Get_def set_deliveries_def append_event_def split: prod.split)

lemma Ordering_SlotAt_frame [simp]:
  "Ordering_SlotAt (set_threads db P g) t seq = Ordering_SlotAt db t seq"
  "Ordering_SlotAt (append_event db e) t seq = Ordering_SlotAt db t seq"
  by (auto simp: Ordering_SlotAt_def set_threads_def append_event_def split: prod.split)

lemma SlotAt_other:
  assumes "tables_ok db" "seq' \<noteq> seq" "sl_ItemID (Ordering_SlotAt db t seq) = i" "i \<noteq> 0"
    and "\<And>x. dl_ThreadID (f x) = dl_ThreadID x" "\<And>x. dl_ThreadSeq (f x) = dl_ThreadSeq x"
  shows "Ordering_SlotAt (set_deliveries db (\<lambda>d. dl_ID d = i \<and> Q d) f) t seq' = Ordering_SlotAt db t seq'"
proof -
  let ?at = "\<lambda>d. dl_ThreadID d = Some t \<and> dl_ThreadSeq d = Some seq'"
  obtain d where d: "d \<in> set (db_deliveries db)" "dl_ID d = i" "dl_ThreadSeq d = Some seq"
    using assms(3,4) by (auto simp: Ordering_SlotAt_def emptySlot_def slot_of_def split: option.splits dest!: find_SomeD)
  have "find ?at (db_deliveries (set_deliveries db (\<lambda>d. dl_ID d = i \<and> Q d) f)) =
      map_option (\<lambda>d. if dl_ID d = i \<and> Q d then f d else d) (find ?at (db_deliveries db))"
    unfolding set_deliveries_def by (simp add: find_update_where assms(5,6))
  moreover have "dl_ID x \<noteq> i" if "find ?at (db_deliveries db) = Some x" for x
  proof
    assume "dl_ID x = i"
    then have "d = x" using d(2) find_SomeD [OF that] by (intro tables_ok_same_id [OF assms(1) d(1)]) simp_all
    with d(3) find_SomeD [OF that] assms(2) show False by simp
  qed
  ultimately show ?thesis
    by (cases "find ?at (db_deliveries db)") (simp_all add: Ordering_SlotAt_def)
qed

lemma Advance_frame [simp]:
  "tables_ok (Ordering_Advance U now db t seq i r) \<longleftrightarrow> tables_ok db"
  "Thread_Get (Ordering_Advance U now db t seq i r) t' = Thread_Get (AdvanceSent db t seq) t'"
  by (simp_all add: Ordering_Advance_def AdvanceSent_def AppendThreadSkip_def Let_def)

lemma Thread_Get_AdvanceSent:
  assumes "Thread_Get db t = Inr x" "seq < th_NextSeq x"
  shows "Thread_Get (AdvanceSent db t seq) t = Inr (x\<lparr>th_LastSentSeq := max (th_LastSentSeq x) seq\<rparr>)"
  using assms get_row_InrD [of th_ID _ "db_threads db" t x]
  by (simp add: Thread_Get_def AdvanceSent_def set_threads_def get_row_update_where)

lemma Ordering_LoadThread_Inr:
  "Ordering_LoadThread db t = Inr th \<longleftrightarrow>
     (\<exists>x. Thread_Get db t = Inr x \<and> th = \<lparr>ot_ID = t, ot_State = th_State x, ot_LastSentSeq = th_LastSentSeq x,
       ot_NextSeq = th_NextSeq x, ot_RootLanded = (th_ThreadID x \<noteq> None)\<rparr>)"
  by (auto simp: Ordering_LoadThread_def rbind_Inr_iff)

lemma OrderingStore_sel [simp]:
  "LoadThread (OrderingStore U now) = Ordering_LoadThread" "SlotAt (OrderingStore U now) = Ordering_SlotAt"
  "Advance (OrderingStore U now) = Ordering_Advance U now"
  by (simp_all add: OrderingStore_def)

interpretation store: ordering_store "OrderingStore U now" tables_ok
proof (unfold_locales, unfold OrderingStore_sel)
  fix st t th seq r
  assume "tables_ok st" "Ordering_LoadThread st t = Inr th" "seq = ot_LastSentSeq th + 1" "seq < ot_NextSeq th"
  then show "tables_ok (Ordering_Advance U now st t seq (sl_ItemID (Ordering_SlotAt st t seq)) r)"
    and "Ordering_LoadThread (Ordering_Advance U now st t seq (sl_ItemID (Ordering_SlotAt st t seq)) r) t =
      Inr (th\<lparr>ot_LastSentSeq := seq\<rparr>)"
    by (auto simp: Ordering_LoadThread_Inr Thread_Get_AdvanceSent)
next
  fix st seq' seq t r
  assume "tables_ok st" "seq' \<noteq> (seq :: int)"
  then show "Ordering_SlotAt (Ordering_Advance U now st t seq (sl_ItemID (Ordering_SlotAt st t seq)) r) t seq' =
      Ordering_SlotAt st t seq'"
    by (simp add: Ordering_Advance_def AdvanceSent_def AppendThreadSkip_def Let_def SlotAt_other)
qed


section \<open>Properties\<close>

definition alive :: "OThread \<Rightarrow> bool" where
  "alive th \<longleftrightarrow> ot_State th = ThreadOpening \<or> ot_State th = ThreadOpen"

lemma normalised_positive:
  "0 < RootWait (Policy_normalise p)" "0 < PredecessorWait (Policy_normalise p)" "0 < MaxWait (Policy_normalise p)"
  by (simp_all add: Policy_normalise_def DefaultPolicy_def Let_def duration_units)

text \<open>
  C24. The gate lets a delivery through exactly when it is the next one of a living thread and has a root to
  attach to if it needs one; a later one waits, for a positive time, exactly while it has been queued no
  longer than the policy's limit, and is sent to recovery after that; one behind the head is never
  sent. No delivery waits for ever.
\<close>

theorem gate_verdicts:
  fixes item th now p
  defines "d \<equiv> Decide_gate item th now p"
  shows "(gd_Action d = ActionProceed \<longleftrightarrow> alive th \<and> 0 < it_Seq item \<and> it_Seq item = ot_LastSentSeq th + 1 \<and>
      (it_NeedsRoot item \<longrightarrow> ot_RootLanded th)) \<and>
    (gd_Action d = ActionOutOfOrder \<longleftrightarrow> alive th \<and> 0 < it_Seq item \<and> it_Seq item \<le> ot_LastSentSeq th) \<and>
    (gd_Action d \<in> {ActionWaitForRoot, ActionWaitForPredecessor} \<longleftrightarrow>
      alive th \<and> 0 < it_Seq item \<and> ot_LastSentSeq th + 1 < it_Seq item \<and>
      waited item now \<le> MaxWait (Policy_normalise p)) \<and>
    (gd_Action d \<in> {ActionWaitForRoot, ActionWaitForPredecessor} \<longrightarrow> 0 < gd_Wait d) \<and>
    (gd_Action d = ActionRecoverThread \<longleftrightarrow> ot_State th = ThreadDead \<or>
      alive th \<and> 0 < it_Seq item \<and>
      (it_Seq item = ot_LastSentSeq th + 1 \<and> it_NeedsRoot item \<and> \<not> ot_RootLanded th \<or>
       ot_LastSentSeq th + 1 < it_Seq item \<and> MaxWait (Policy_normalise p) < waited item now))"
  using normalised_positive [of p]
  by (auto simp: d_def Decide_gate_def alive_def verdict_def Let_def)

definition ex_thread :: OThread where
  "ex_thread = \<lparr>ot_ID = 3, ot_State = ThreadOpen, ot_LastSentSeq = 4, ot_NextSeq = 9, ot_RootLanded = True\<rparr>"

definition ex_item :: "int \<Rightarrow> Item" where
  "ex_item seq = \<lparr>it_ID = 7, it_ThreadID = 3, it_Seq = seq, it_NeedsRoot = True, it_CreatedAt = 100\<rparr>"

theorem gate_verdicts_witness:
  "gd_Action (Decide_gate (ex_item 5) ex_thread 200 DefaultPolicy) = ActionProceed \<and>
   0 < gd_Wait (Decide_gate (ex_item 7) ex_thread 200 DefaultPolicy) \<and>
   gd_Action (Decide_gate (ex_item 7) ex_thread (101 + 15 * Minute) DefaultPolicy) = ActionRecoverThread"
  using gate_verdicts [of "ex_item 5" ex_thread 200 DefaultPolicy] gate_verdicts [of "ex_item 7" ex_thread 200 DefaultPolicy]
    gate_verdicts [of "ex_item 7" ex_thread "101 + 15 * Minute" DefaultPolicy]
  by (auto simp: ex_item_def ex_thread_def alive_def waited_def t_sub_def min_duration_def max_duration_def
      Policy_normalise_def DefaultPolicy_def Let_def duration_units)

text \<open>A slot that will never be sent: no delivery holds it, or the one that does is resolved, or the thread is dead.\<close>

definition passable :: "DB \<Rightarrow> uuid \<Rightarrow> ThreadState \<Rightarrow> int \<Rightarrow> bool" where
  "passable db t state s \<longleftrightarrow> state = ThreadDead \<or>
     list_all (\<lambda>d. DeliveryStatus_Resolved (dl_Status d))
       (filter (\<lambda>d. dl_ThreadID d = Some t \<and> dl_ThreadSeq d = Some s) (db_deliveries db))"

lemma SlotAt_cases:
  assumes "tables_ok db"
  obtains (absent) "Ordering_SlotAt db t s = emptySlot"
      "filter (\<lambda>d. dl_ThreadID d = Some t \<and> dl_ThreadSeq d = Some s) (db_deliveries db) = []"
  | (present) d where "d \<in> set (db_deliveries db)" "dl_ThreadID d = Some t" "dl_ThreadSeq d = Some s"
      "Ordering_SlotAt db t s = slot_of d"
      "\<And>e. e \<in> set (db_deliveries db) \<Longrightarrow> dl_ThreadID e = Some t \<Longrightarrow> dl_ThreadSeq e = Some s \<Longrightarrow> e = d"
proof (cases "find (\<lambda>d. dl_ThreadID d = Some t \<and> dl_ThreadSeq d = Some s) (db_deliveries db)")
  case None
  then show ?thesis using find_NoneD [OF None] by (intro absent) (simp_all add: Ordering_SlotAt_def filter_empty_conv)
next
  case (Some d)
  note D = find_SomeD [OF Some]
  then show ?thesis using Some tables_ok_same_slot [OF assms]
    by (intro present [of d]) (auto simp: Ordering_SlotAt_def)
qed

lemma classifySlot_passable:
  assumes "tables_ok db"
  shows "classifySlot lease (Ordering_SlotAt db t s) th now \<noteq> None \<longleftrightarrow> passable db t (ot_State th) s"
  using assms
proof (cases rule: SlotAt_cases [of db t s, case_names absent present])
  case (present d)
  have "list_all (\<lambda>d. DeliveryStatus_Resolved (dl_Status d))
      (filter (\<lambda>d. dl_ThreadID d = Some t \<and> dl_ThreadSeq d = Some s) (db_deliveries db)) \<longleftrightarrow>
      DeliveryStatus_Resolved (dl_Status d)"
    unfolding list_all_iff set_filter using present(1-3,5) by blast
  then show ?thesis using present(4)
    by (simp add: classifySlot_def passable_def slot_of_def) (auto simp: DeliveryStatus_Resolved_def)
qed (auto simp: classifySlot_def passable_def emptySlot_def)

text \<open>
  C25. Recovery ends, moves the head of a thread past exactly the slots that will never be sent, and stops before
  the first that still may be: nothing unresolved is passed over in a living thread, no finished slot is
  left in the way, and a dead thread is drained to its last slot. It reports what it did.
\<close>

theorem recovery_passes_finished_slots:
  assumes "tables_ok db" "Ordering_LoadThread db t = Inr th" "ot_LastSentSeq th < ot_NextSeq th"
  shows "\<exists>db' rc. Recover (OrderingStore U now) lease now t db = Inr (db', rc) \<and>
    Ordering_LoadThread db' t = Inr (th\<lparr>ot_LastSentSeq := rc_To rc\<rparr>) \<and>
    rc_From rc = ot_LastSentSeq th \<and> rc_Advanced rc = rc_To rc - rc_From rc \<and>
    rc_From rc \<le> rc_To rc \<and> rc_To rc < ot_NextSeq th \<and>
    (\<forall>s. rc_From rc < s \<and> s \<le> rc_To rc \<longrightarrow> passable db t (ot_State th) s) \<and>
    (rc_To rc + 1 < ot_NextSeq th \<longrightarrow> \<not> passable db t (ot_State th) (rc_To rc + 1) \<and> rc_StalledAt rc = rc_To rc + 1) \<and>
    (ot_State th = ThreadDead \<longrightarrow> rc_To rc = ot_NextSeq th - 1)"
proof -
  obtain db' rc where r: "Recover (OrderingStore U now) lease now t db = Inr (db', rc)"
      "store.loop_result U now lease now t th (ot_LastSentSeq th + 1) db (recovery0 th) (rc_To rc) db' rc"
    by (rule store.Recover_spec [where I = "\<lambda>_. True" and st = db and t = t and U = U and now = now])
      (use assms in auto)
  note L = r(2) [unfolded store.loop_result_def OrderingStore_sel classifySlot_passable [OF assms(1)]]
  have "ot_State th = ThreadDead \<longrightarrow> passable db t (ot_State th) (rc_To rc + 1)" by (simp add: passable_def)
  moreover have "\<not> passable db t (ot_State th) (rc_To rc + 1)" if "rc_To rc + 1 < ot_NextSeq th"
    using L that classifySlot_passable [OF assms(1), of lease t "rc_To rc + 1" th now] by simp
  moreover have "rc_To rc = ot_NextSeq th - 1" if "ot_State th = ThreadDead"
    using calculation that L by fastforce
  ultimately show ?thesis
    using r(1) L by (intro exI [of _ db'] exI [of _ rc]) (auto simp: recovery0_def)
qed


definition ex_delivery :: "uuid \<Rightarrow> int \<Rightarrow> DeliveryStatus \<Rightarrow> Delivery" where
  "ex_delivery i s st = \<lparr>dl_ID = i, dl_NotificationID = 50, dl_ChannelID = 60, dl_ThreadID = Some 3, dl_ThreadSeq = Some s,
     dl_Mode = ModePostRoot, dl_Status = st, dl_Attempts = 0, dl_NextAttemptAt = None, dl_RenderedHash = None,
     dl_ProviderMessageID = None, dl_ProviderConversationID = None, dl_ErrorClass = None, dl_Ambiguous = False,
     dl_SentAt = None, dl_CreatedAt = 100, dl_UpdatedAt = 100\<rparr>"

definition ex_thread_row :: Thread where
  "ex_thread_row = \<lparr>th_ID = 3, th_ChannelID = 60, th_SubjectKind = SubjectCase, th_SubjectID = 8, th_ConversationID = None,
     th_ThreadID = None, th_RootDeliveryID = None, th_ReplyCount = 0, th_LastSentSeq = 0, th_NextSeq = 4,
     th_State = ThreadOpening, th_DeadReason = None\<rparr>"

definition ex_db :: DB where
  "ex_db = \<lparr>db_threads = [ex_thread_row],
     db_deliveries = [ex_delivery 11 1 DeliverySent, ex_delivery 12 2 DeliveryDead, ex_delivery 13 3 DeliveryPending],
     db_notifications = [], db_channels = [], db_events = [], db_jobs = [], db_incidents = [], db_receipts = []\<rparr>"

lemma ex_db_eval: "tables_ok ex_db" "Ordering_LoadThread ex_db 3 =
    Inr \<lparr>ot_ID = 3, ot_State = ThreadOpening, ot_LastSentSeq = 0, ot_NextSeq = 4, ot_RootLanded = False\<rparr>"
  "passable ex_db 3 ThreadOpening 1" "passable ex_db 3 ThreadOpening 2" "\<not> passable ex_db 3 ThreadOpening 3"
  by (simp_all add: ex_db_def ex_thread_row_def ex_delivery_def tables_ok_def Ordering_LoadThread_def Thread_Get_def
      get_row_def passable_def DeliveryStatus_Resolved_def)

theorem recovery_passes_finished_slots_witness:
  "\<exists>db' rc. Recover (OrderingStore canonical_lib 500) (120 * Second) 500 3 ex_db = Inr (db', rc) \<and> rc_To rc = 2 \<and>
     rc_StalledAt rc = 3"
proof -
  obtain db' rc where r: "Recover (OrderingStore canonical_lib 500) (120 * Second) 500 3 ex_db = Inr (db', rc)"
      "0 \<le> rc_To rc" "rc_To rc < 4" "rc_From rc = 0"
      "\<forall>s. rc_From rc < s \<and> s \<le> rc_To rc \<longrightarrow> passable ex_db 3 ThreadOpening s"
      "rc_To rc + 1 < 4 \<longrightarrow> \<not> passable ex_db 3 ThreadOpening (rc_To rc + 1) \<and> rc_StalledAt rc = rc_To rc + 1"
    using recovery_passes_finished_slots [OF ex_db_eval(1,2), of canonical_lib 500 "120 * Second"] by auto
  have "rc_To rc \<noteq> 3" using r(4,5) ex_db_eval(5) by force
  with r(2,3) have "rc_To rc = 0 \<or> rc_To rc = 1 \<or> rc_To rc = 2" by linarith
  with r(1,6) ex_db_eval(3,4) show ?thesis by auto
qed

end
