(* ===== verification/Dispatch.thy ===== *)
theory Dispatch
  imports Thread_Ordering
begin

text \<open>
  The dispatcher (\<^verbatim>\<open>internal/notification/service/dispatch.go\<close>, and \<^verbatim>\<open>createDelivery\<close> of \<^verbatim>\<open>notify.go\<close>): one job per
  delivery. \<open>prepare\<close> is a transaction that decides, claims, renders and persists; the provider is called outside
  it; \<open>record_send\<close> is the transaction that writes down what happened. A handler that returns an error rolls its
  transaction back, so only \<open>Inr\<close> results carry a database.

  Parameters (record \<open>ext\<close>): the view builder, the renderers, the payload mapper, the opening of a target, the jittered
  backoff and the uuid printer. Each transaction reads one clock value. Text that only a human reads is dropped.
\<close>

record Cause =
  ca_provider :: "(ErrorClass \<times> string \<times> duration) option"
  ca_kind :: errkind
  ca_retryAfter :: "duration option"

record 'v ext =
  x_U :: uuidlib
  x_Policy :: Policy
  x_GateLease :: duration
  x_Lease :: duration
  x_Build :: "Notification \<Rightarrow> uuid \<Rightarrow> 'v result"
  x_Renderer :: "Channel \<Rightarrow> Cause option"
  x_Render :: "Notification \<Rightarrow> 'v \<Rightarrow> Mode \<Rightarrow> Channel \<Rightarrow> bool \<Rightarrow> Message \<times> Cause option"
  x_Map :: "Channel \<Rightarrow> Message \<Rightarrow> Message \<times> Cause option"
  x_Open :: "Channel \<Rightarrow> Cause option"
  x_Backoff :: "int \<Rightarrow> duration"

record Outcome =
  o_snoozeFor :: duration
  o_snoozeReason :: string
  o_retry :: "Cause option"

definition outcome0 :: Outcome where
  "outcome0 = \<lparr>o_snoozeFor = 0, o_snoozeReason = [], o_retry = None\<rparr>"

record sendPlan =
  sp_delivery :: Delivery
  sp_thread :: Thread
  sp_channel :: Channel
  sp_mode :: Mode
  sp_msg :: Message
  sp_incidentID :: uuid

record DeliverResult =
  r_MessageID :: string
  r_ConversationID :: string
  r_ExternalURL :: string
  r_ExternalID :: string

section \<open>Failures\<close>

definition classOf_kind :: "errkind \<Rightarrow> ErrorClass" where
  "classOf_kind k =
     (case k of
        KindRateLimited \<Rightarrow> ClassRateLimited
      | KindUnauthorized \<Rightarrow> ClassAuthExpired | KindForbidden \<Rightarrow> ClassAuthExpired
      | KindValidation \<Rightarrow> ClassConfigInvalid | KindMalformed \<Rightarrow> ClassConfigInvalid
      | KindTooLarge \<Rightarrow> ClassConfigInvalid | KindUnsupported \<Rightarrow> ClassConfigInvalid
      | KindNotFound \<Rightarrow> ClassPermanent | KindPrecondition \<Rightarrow> ClassPermanent
      | _ \<Rightarrow> ClassRetryable)"

definition classOf :: "Cause \<Rightarrow> ErrorClass" where
  "classOf e =
     (case ca_provider e of
        Some (cls, _, _) \<Rightarrow> if cls \<noteq> ClassOther [] then cls else classOf_kind (ca_kind e)
      | None \<Rightarrow> classOf_kind (ca_kind e))"

definition providerCode :: "Cause \<Rightarrow> string" where
  "providerCode e = (case ca_provider e of Some (_, code, _) \<Rightarrow> code | None \<Rightarrow> [])"

definition DefaultRateLimitDelay :: duration where "DefaultRateLimitDelay = 60 * Second"

definition retryAfter :: "'v ext \<Rightarrow> Cause \<Rightarrow> ErrorClass \<Rightarrow> int \<Rightarrow> duration" where
  "retryAfter X cause cls attempts =
     (if cls = ClassRateLimited then
        (let hinted = (case ca_retryAfter cause of Some d \<Rightarrow> if d > 0 then d else DefaultRateLimitDelay
                       | None \<Rightarrow> DefaultRateLimitDelay)
         in case ca_provider cause of
              Some (_, _, d) \<Rightarrow> if d > 0 then d else hinted
            | None \<Rightarrow> hinted)
      else x_Backoff X attempts)"

definition settle :: "'v ext \<Rightarrow> DB \<Rightarrow> Delivery \<Rightarrow> DB result" where
  "settle X db d = rbind (Notification_Get db (dl_NotificationID d)) (\<lambda>n.
     let db1 = AppendDeliveryOutcome (x_U X) db d (nt_AlertID n) (nt_CaseID n);
         aggregate = AggregateStatus (StatusesFor db1 (dl_NotificationID d))
     in if aggregate = StatusSuppressed \<or> aggregate = nt_Status n then Inr db1
        else SetStatus db1 (nt_ID n) aggregate)"

definition set_health :: "DB \<Rightarrow> uuid \<Rightarrow> HealthStatus option \<Rightarrow> DB" where
  "set_health db c health = (case health of Some h \<Rightarrow> SetHealth db c h | None \<Rightarrow> db)"

text \<open>\<^verbatim>\<open>fail\<close>: a terminal error of the thread kills the thread, not the delivery; otherwise the budget decides.\<close>

definition fail_thread :: "DB \<Rightarrow> Delivery \<Rightarrow> Channel \<Rightarrow> uuid \<Rightarrow> DeadReason \<Rightarrow> ErrorClass \<Rightarrow> time \<Rightarrow> DB" where
  "fail_thread db d c t reason cls now =
     (let db1 = Thread_MarkDead db t reason;
          db2 = set_health db1 (ch_ID c) (DeadReason_DestinationHealth reason);
          db3 = MarkFailed db2 (dl_ID d) cls now now
      in Enqueue db3 (dl_ID d))"

definition fail_delivery ::
  "'v ext \<Rightarrow> DB \<Rightarrow> Delivery \<Rightarrow> Channel \<Rightarrow> Cause \<Rightarrow> ErrorClass \<Rightarrow> time \<Rightarrow> (Outcome \<times> DB) result" where
  "fail_delivery X db d c cause cls now =
     (let db1 = set_health db (ch_ID c) (ErrorClass_DestinationHealth cls) in
      if Exhausted cls (dl_Attempts d) then
        let db2 = Delivery_MarkDead db1 (dl_ID d) cls now;
            db3 = (case dl_ThreadID d of Some t \<Rightarrow> AdvanceSent db2 t (ThreadSeq d) | None \<Rightarrow> db2)
        in rbind (settle X db3 (d\<lparr>dl_Status := DeliveryDead, dl_ErrorClass := Some cls\<rparr>)) (\<lambda>db4. Inr (outcome0, db4))
      else
        let wait = retryAfter X cause cls (dl_Attempts d);
            db2 = MarkFailed db1 (dl_ID d) cls (now + wait) now
        in rbind (settle X db2 (d\<lparr>dl_Status := DeliveryFailed, dl_ErrorClass := Some cls\<rparr>)) (\<lambda>db3.
             if cls = ClassRateLimited
             then Inr (outcome0\<lparr>o_snoozeFor := wait, o_snoozeReason := ''rate_limited''\<rparr>, db3)
             else Inr (outcome0\<lparr>o_retry := Some cause\<rparr>, db3)))"

definition dispatch_fail ::
  "'v ext \<Rightarrow> DB \<Rightarrow> Delivery \<Rightarrow> Channel \<Rightarrow> Cause \<Rightarrow> ErrorClass \<Rightarrow> time \<Rightarrow> (Outcome \<times> DB) result" where
  "dispatch_fail X db d c cause cls now =
     (case (if cls = ClassPermanent \<or> cls = ClassAuthExpired then DeadReasonFor (providerCode cause) else None, dl_ThreadID d) of
        (Some reason, Some t) \<Rightarrow> Inr (outcome0, fail_thread db d c t reason cls now)
      | _ \<Rightarrow> fail_delivery X db d c cause cls now)"

section \<open>Success\<close>

definition succeed ::
  "'v ext \<Rightarrow> DB \<Rightarrow> Delivery \<Rightarrow> Thread \<Rightarrow> Channel \<Rightarrow> Mode \<Rightarrow> DeliverResult \<Rightarrow> time \<Rightarrow> DB result" where
  "succeed X db d th c mode res now =
     (let conversationID = (if r_ConversationID res = [] then str_of (th_ConversationID th) else r_ConversationID res);
          messageID = (if r_MessageID res = [] \<and> mode = ModeUpdateRoot then str_of (th_ThreadID th) else r_MessageID res)
      in rbind (MarkSent db (dl_ID d) messageID conversationID now) (\<lambda>(db1, recorded).
         if \<not> recorded then Inr db1
         else rbind
           (case dl_ThreadID d of
              None \<Rightarrow> Inr db1
            | Some t \<Rightarrow>
                if mode = ModePostRoot then RecordRoot db1 t conversationID messageID (dl_ID d) (ThreadSeq d)
                else if IsReply mode then Inr (RecordReply db1 t (ThreadSeq d))
                else Inr (AdvanceSent db1 t (ThreadSeq d)))
           (\<lambda>db2.
              let db3 = (if ch_HealthStatus c \<noteq> HealthHealthy then SetHealth db2 (ch_ID c) HealthHealthy else db2)
              in settle X db3 (d\<lparr>dl_Status := DeliverySent, dl_Mode := mode, dl_ProviderMessageID := Some messageID\<rparr>))))"

definition recordReceipt :: "DB \<Rightarrow> sendPlan \<Rightarrow> DeliverResult \<Rightarrow> DB" where
  "recordReceipt db p res =
     (if sp_incidentID p = 0 \<or> r_ExternalURL res = [] \<and> r_ExternalID res = [] then db
      else RecordReceipt db (sp_incidentID p) (ch_ID (sp_channel p)) (dl_ID (sp_delivery p))
             (r_ExternalURL res) (r_ExternalID res))"

text \<open>\<^verbatim>\<open>record\<close>: the second transaction, with what the provider answered.\<close>

definition record_send ::
  "'v ext \<Rightarrow> DB \<Rightarrow> sendPlan \<Rightarrow> Cause + DeliverResult \<Rightarrow> time \<Rightarrow> (Outcome \<times> DB) result" where
  "record_send X db p answer now =
     (case answer of
        Inl cause \<Rightarrow> dispatch_fail X db (sp_delivery p) (sp_channel p) cause (classOf cause) now
      | Inr res \<Rightarrow>
          rbind (succeed X db (sp_delivery p) (sp_thread p) (sp_channel p) (sp_mode p) res now) (\<lambda>db1.
            Inr (outcome0, recordReceipt db1 p res)))"

section \<open>Deciding\<close>

definition effectiveMode :: "Delivery \<Rightarrow> Thread \<Rightarrow> Channel \<Rightarrow> Mode" where
  "effectiveMode d th c =
     (let mode = dl_Mode d in
      if dl_ThreadID d = None then ModePostRoot
      else if mode = ModePostRoot \<and> th_SubjectKind th = SubjectDigest \<and> RootLanded th then
        if Has (ch_Capabilities c) CapThreading then ModeThreadReply else ModePostRoot
      else if mode = ModePostRoot \<and> RootLanded th then
        if Has (ch_Capabilities c) CapAmend then ModeUpdateRoot else ModePostRoot
      else if NeedsRoot mode \<and> \<not> RootLanded th then ModePostRoot
      else if IsReply mode \<and> NeedsFreshRoot th then ModePostRoot
      else mode)"

definition item :: "Delivery \<Rightarrow> uuid \<Rightarrow> Mode \<Rightarrow> Item" where
  "item d t mode = \<lparr>it_ID = dl_ID d, it_ThreadID = t, it_Seq = ThreadSeq d, it_NeedsRoot = NeedsRoot mode,
     it_CreatedAt = dl_CreatedAt d\<rparr>"

definition gate_decide ::
  "'v ext \<Rightarrow> DB \<Rightarrow> Delivery \<Rightarrow> uuid \<Rightarrow> Channel \<Rightarrow> bool \<Rightarrow> time \<Rightarrow> (GateDecision \<times> Thread \<times> Mode \<times> DB) result" where
  "gate_decide X db d t c eagerRecover now =
     (let S = OrderingStore (x_U X) now in
      rbind (Thread_Get db t) (\<lambda>th.
      let mode = effectiveMode d th c in
      rbind (Gate_Claim S (x_Policy X) now (item d t mode) db) (\<lambda>(decision, _).
      if gd_Action decision \<noteq> ActionWaitForPredecessor \<or> \<not> eagerRecover then Inr (decision, th, mode, db)
      else rbind (Recover S (x_GateLease X) now t db) (\<lambda>(db1, rc).
        if rc_Advanced rc = 0 then Inr (decision, th, mode, db1)
        else rbind (Thread_Get db1 t) (\<lambda>th1.
          let mode1 = effectiveMode d th1 c in
          rbind (Gate_Claim S (x_Policy X) now (item d t mode1) db1) (\<lambda>(decision1, _).
            Inr (decision1, th1, mode1, db1)))))))"

definition abandon :: "'v ext \<Rightarrow> DB \<Rightarrow> Delivery \<Rightarrow> time \<Rightarrow> DB result" where
  "abandon X db d now =
     (let db1 = MarkSkipped db (dl_ID d) now;
          db2 = (case dl_ThreadID d of Some t \<Rightarrow> AdvanceSent db1 t (ThreadSeq d) | None \<Rightarrow> db1)
      in settle X db2 (d\<lparr>dl_Status := DeliverySkipped\<rparr>))"

text \<open>What a transaction of the first kind returns: an outcome, perhaps a plan, and the tables.\<close>

type_synonym prepared = "(Outcome \<times> sendPlan option \<times> DB) result"

definition finished :: "DB result \<Rightarrow> prepared" where
  "finished r = rbind r (\<lambda>db. Inr (outcome0, None, db))"

definition failed :: "(Outcome \<times> DB) result \<Rightarrow> prepared" where
  "failed r = rbind r (\<lambda>(out, db). Inr (out, None, db))"

section \<open>Claiming\<close>

definition continuedRoot :: "Delivery \<Rightarrow> Thread \<Rightarrow> Mode \<Rightarrow> bool" where
  "continuedRoot d th mode =
     (if mode \<noteq> ModePostRoot \<or> dl_ThreadID d = None then False
      else dl_Ambiguous d \<or> str_of (th_ConversationID th) \<noteq> [])"

text \<open>\<^verbatim>\<open>_ = PersistRendered(...)\<close>: the evidence of a refused payload is kept if it can be.\<close>

definition keep_evidence :: "DB \<Rightarrow> uuid \<Rightarrow> Message \<Rightarrow> time \<Rightarrow> DB" where
  "keep_evidence db i msg now = (case PersistRendered db i msg now of Inr db1 \<Rightarrow> db1 | Inl _ \<Rightarrow> db)"

text \<open>The tail of \<^verbatim>\<open>claim\<close>: coalesce a repeated root, persist, open the target.\<close>

definition claim_send ::
  "'v ext \<Rightarrow> DB \<Rightarrow> Delivery \<Rightarrow> Thread \<Rightarrow> Channel \<Rightarrow> Notification \<Rightarrow> Mode \<Rightarrow> Message \<Rightarrow> time \<Rightarrow> prepared" where
  "claim_send X db d th c n mode msg now =
     (let last = (case dl_ThreadID d of Some t \<Rightarrow> if mode = ModeUpdateRoot then LastRootHash db t else [] | None \<Rightarrow> []) in
      if last \<noteq> [] \<and> last = m_Hash msg then finished (abandon X db d now)
      else rbind (PersistRendered db (dl_ID d) msg now) (\<lambda>db1.
        case x_Open X c of
          Some e \<Rightarrow> failed (dispatch_fail X db1 d c e
             (if ca_kind e = KindNotFound then ClassAuthExpired else ClassConfigInvalid) now)
        | None \<Rightarrow> Inr (outcome0,
             Some \<lparr>sp_delivery = d, sp_thread = th, sp_channel = c, sp_mode = mode, sp_msg = msg,
                   sp_incidentID = (if nt_SubjectKind n = SubjectIncident then nt_SubjectID n else 0)\<rparr>, db1)))"

definition claim_render ::
  "'v ext \<Rightarrow> DB \<Rightarrow> Delivery \<Rightarrow> Thread \<Rightarrow> Channel \<Rightarrow> Notification \<Rightarrow> Mode \<Rightarrow> 'v \<Rightarrow> time \<Rightarrow> prepared" where
  "claim_render X db d th c n mode view now =
     (case x_Renderer X c of
        Some e \<Rightarrow> failed (dispatch_fail X db d c e ClassConfigInvalid now)
      | None \<Rightarrow>
          (case x_Render X n view mode c (continuedRoot d th mode) of
             (msg, Some e) \<Rightarrow>
               failed (dispatch_fail X
                 (if m_Payload msg \<noteq> [] \<and> m_Fallback msg \<noteq> [] then keep_evidence db (dl_ID d) msg now else db)
                 d c e ClassConfigInvalid now)
           | (msg, None) \<Rightarrow>
               if \<not> ch_Mapped c then claim_send X db d th c n mode msg now
               else (case x_Map X c msg of
                  (mapped, Some e) \<Rightarrow>
                    failed (dispatch_fail X
                      (if m_Payload mapped \<noteq> []
                       then keep_evidence db (dl_ID d) (mapped\<lparr>m_Fallback := m_Fallback msg\<rparr>) now else db)
                      d c e ClassConfigInvalid now)
                | (mapped, None) \<Rightarrow> claim_send X db d th c n mode mapped now)))"

definition dispatch_claim ::
  "'v ext \<Rightarrow> DB \<Rightarrow> Delivery \<Rightarrow> Thread \<Rightarrow> Channel \<Rightarrow> Mode \<Rightarrow> time \<Rightarrow> prepared" where
  "dispatch_claim X db d th c mode now =
     (case Delivery_Claim db (dl_ID d) (now - x_Lease X) now of
        None \<Rightarrow> Inr (outcome0, None, db)
      | Some (db1, d1) \<Rightarrow>
          if \<not> Live c then finished (abandon X db1 d1 now)
          else rbind (Notification_Get db1 (dl_NotificationID d1)) (\<lambda>n.
            rbind (x_Build X n
                (if dl_ThreadID d1 \<noteq> None \<and> th_SubjectKind th = SubjectIncident \<and> \<not> IsReply mode
                 then th_SubjectID th else 0)) (\<lambda>view.
              claim_render X db1 d1 th c n mode view now)))"

section \<open>Recovering a thread\<close>

definition recoverDeadThread :: "'v ext \<Rightarrow> DB \<Rightarrow> Delivery \<Rightarrow> Thread \<Rightarrow> time \<Rightarrow> prepared" where
  "recoverDeadThread X db d th now =
     (if \<not> (case th_DeadReason th of Some r \<Rightarrow> Recoverable r | None \<Rightarrow> False) then
        rbind (Recover (OrderingStore (x_U X) now) (x_GateLease X) now (th_ID th) db) (\<lambda>(db1, _).
          let db2 = Delivery_MarkDead db1 (dl_ID d) ClassPermanent now;
              db3 = AdvanceSent db2 (th_ID th) (ThreadSeq d)
          in finished (settle X db3 (d\<lparr>dl_Status := DeliveryDead, dl_ErrorClass := Some ClassPermanent\<rparr>)))
      else
        let db1 = ClearPointer db (th_ID th);
            db2 = RepointToRoot db1 (dl_ID d) now
        in Inr (outcome0, None, Enqueue db2 (dl_ID d)))"

text \<open>The end of \<^verbatim>\<open>recoverThread\<close>: wait for what was re-driven, or give the delivery up and step past it.\<close>

definition recover_give_up ::
  "'v ext \<Rightarrow> DB \<Rightarrow> Delivery \<Rightarrow> Thread \<Rightarrow> Recovery \<Rightarrow> string \<Rightarrow> time \<Rightarrow> prepared" where
  "recover_give_up X db d th rc why now =
     (if rc_Advanced rc > 0 \<or> rc_StalledItem rc \<noteq> 0
      then Inr (outcome0\<lparr>o_snoozeFor := 2 * Second, o_snoozeReason := why\<rparr>, None, db)
      else
        let db1 = Delivery_MarkDead db (dl_ID d) ClassPermanent now;
            db2 = AdvanceSent db1 (th_ID th) (ThreadSeq d)
        in finished (settle X db2 (d\<lparr>dl_Status := DeliveryDead, dl_ErrorClass := Some ClassPermanent\<rparr>)))"

definition recoverThread :: "'v ext \<Rightarrow> DB \<Rightarrow> Delivery \<Rightarrow> uuid \<Rightarrow> Channel \<Rightarrow> string \<Rightarrow> time \<Rightarrow> prepared" where
  "recoverThread X db d t c why now =
     rbind (Thread_Get db t) (\<lambda>th.
       if th_State th = ThreadDead then recoverDeadThread X db d th now
       else rbind (Recover (OrderingStore (x_U X) now) (x_GateLease X) now t db) (\<lambda>(db1, rc).
         let db2 = (if rc_StalledItem rc \<noteq> 0 \<and> rc_StalledItem rc \<noteq> dl_ID d then Enqueue db1 (rc_StalledItem rc) else db1) in
         rbind (Thread_Get db2 t) (\<lambda>th1.
           if th_State th1 = ThreadDead then recoverDeadThread X db2 d th1 now
           else rbind (gate_decide X db2 d t c False now) (\<lambda>(decision, th2, mode, db3).
             case gd_Action decision of
               ActionProceed \<Rightarrow> dispatch_claim X db3 d th2 c mode now
             | ActionOutOfOrder \<Rightarrow> Inr (outcome0, None, db3)
             | ActionAbandon \<Rightarrow> finished (abandon X db3 d now)
             | _ \<Rightarrow> recover_give_up X db3 d th2 rc why now))))"

section \<open>The two transactions\<close>

definition zeroThread :: Thread where
  "zeroThread = \<lparr>th_ID = 0, th_ChannelID = 0, th_SubjectKind = SubjectOther [], th_SubjectID = 0, th_ConversationID = None,
     th_ThreadID = None, th_RootDeliveryID = None, th_ReplyCount = 0, th_LastSentSeq = 0, th_NextSeq = 0,
     th_State = ThreadOther [], th_DeadReason = None\<rparr>"

definition prepare_due :: "'v ext \<Rightarrow> DB \<Rightarrow> Delivery \<Rightarrow> time \<Rightarrow> prepared" where
  "prepare_due X db d now =
     rbind (Channel_Get db (dl_ChannelID d)) (\<lambda>c.
       case dl_ThreadID d of
         None \<Rightarrow> dispatch_claim X db d zeroThread c ModePostRoot now
       | Some t \<Rightarrow> rbind (gate_decide X db d t c True now) (\<lambda>(decision, th, mode, db1).
           case gd_Action decision of
             ActionProceed \<Rightarrow> dispatch_claim X db1 d th c mode now
           | ActionWaitForRoot \<Rightarrow>
               Inr (outcome0\<lparr>o_snoozeFor := gd_Wait decision, o_snoozeReason := gd_Reason decision\<rparr>, None, db1)
           | ActionWaitForPredecessor \<Rightarrow>
               Inr (outcome0\<lparr>o_snoozeFor := gd_Wait decision, o_snoozeReason := gd_Reason decision\<rparr>, None, db1)
           | ActionOutOfOrder \<Rightarrow> Inr (outcome0, None, db1)
           | ActionAbandon \<Rightarrow> finished (abandon X db1 d now)
           | ActionRecoverThread \<Rightarrow> recoverThread X db1 d t c (gd_Reason decision) now))"

definition prepare :: "'v ext \<Rightarrow> DB \<Rightarrow> uuid \<Rightarrow> time \<Rightarrow> prepared" where
  "prepare X db i now =
     rbind (Delivery_Get db i) (\<lambda>d.
       if DeliveryStatus_Resolved (dl_Status d) then Inr (outcome0, None, db)
       else case (if dl_Status d = DeliveryFailed then dl_NextAttemptAt d else None) of
         Some due \<Rightarrow> if due > now then Inr (outcome0\<lparr>o_snoozeFor := t_sub due now, o_snoozeReason := ''not_due''\<rparr>, None, db)
                    else prepare_due X db d now
       | None \<Rightarrow> prepare_due X db d now)"

text \<open>
  The provider call between them: a target of the provider is a parameter. \<^verbatim>\<open>Dispatch\<close> is one whole job; when
  its second transaction fails the first stays committed.
\<close>

record MessageRef =
  mr_ConversationID :: string
  mr_MessageID :: string
  mr_ThreadID :: string

record DeliverRequest =
  dq_Message :: Message
  dq_Mode :: Mode
  dq_DeliveryID :: uuid
  dq_ReplyTo :: "MessageRef option"

record target =
  tg_Amend :: "MessageRef \<Rightarrow> Message \<Rightarrow> Cause + DeliverResult"
  tg_Deliver :: "DeliverRequest \<Rightarrow> Cause + DeliverResult"

definition rootRef :: "Thread \<Rightarrow> MessageRef" where
  "rootRef th = \<lparr>mr_ConversationID = str_of (th_ConversationID th), mr_MessageID = str_of (th_ThreadID th),
     mr_ThreadID = str_of (th_ThreadID th)\<rparr>"

definition deliver :: "target \<Rightarrow> Delivery \<Rightarrow> Thread \<Rightarrow> Mode \<Rightarrow> Message \<Rightarrow> Cause + DeliverResult" where
  "deliver tg d th mode msg =
     (let root = rootRef th in
      if mode = ModeUpdateRoot then tg_Amend tg root msg
      else tg_Deliver tg \<lparr>dq_Message = msg, dq_Mode = mode, dq_DeliveryID = dl_ID d,
             dq_ReplyTo = (if IsReply mode then Some root else None)\<rparr>)"

definition perform :: "'v ext \<Rightarrow> target \<Rightarrow> DB \<Rightarrow> sendPlan \<Rightarrow> time \<Rightarrow> (Outcome \<times> DB) result" where
  "perform X tg db p now =
     record_send X db p (deliver tg (sp_delivery p) (sp_thread p) (sp_mode p) (sp_msg p)) now"

datatype JobResult = JobDone | JobSnooze duration string | JobRetry Cause

definition job_result :: "Outcome \<Rightarrow> JobResult" where
  "job_result out =
     (if o_snoozeFor out > 0 then JobSnooze (o_snoozeFor out) (o_snoozeReason out)
      else case o_retry out of Some e \<Rightarrow> JobRetry e | None \<Rightarrow> JobDone)"

definition Dispatch :: "'v ext \<Rightarrow> (Channel \<Rightarrow> target) \<Rightarrow> DB \<Rightarrow> uuid \<Rightarrow> time \<Rightarrow> time \<Rightarrow> JobResult result \<times> DB" where
  "Dispatch X targets db i now now' =
     (case prepare X db i now of
        Inl e \<Rightarrow> (Inl e, db)
      | Inr (out, None, db1) \<Rightarrow> (Inr (job_result out), db1)
      | Inr (out, Some p, db1) \<Rightarrow>
          (case perform X (targets (sp_channel p)) db1 p now' of
             Inl e \<Rightarrow> (Inl e, db1)
           | Inr (out', db2) \<Rightarrow> (Inr (job_result out'), db2)))"

text \<open>\<^verbatim>\<open>createDelivery\<close>: insert, then take the next sequence number, then enqueue, in one transaction.\<close>

definition createDelivery :: "DB \<Rightarrow> NewDelivery \<Rightarrow> time \<Rightarrow> (DB \<times> bool) result" where
  "createDelivery db p now =
     (case Delivery_Create db (p\<lparr>nd_ThreadSeq := 0, nd_CreatedAt := now\<rparr>) of
        (db1, row, madeNew) \<Rightarrow>
          if \<not> madeNew then Inr (db1, False)
          else rbind
            (case nd_ThreadID p of
               None \<Rightarrow> Inr db1
             | Some t \<Rightarrow> rbind (AllocateSeq db1 t) (\<lambda>(db2, seq). SetThreadSeq db2 (dl_ID row) seq now))
            (\<lambda>db3. Inr (Enqueue db3 (dl_ID row), True)))"

end
