(* ===== verification/Dispatch_Order.thy ===== *)
theory Dispatch_Order
  imports Dispatch
begin

text \<open>
  Order and exclusion in the dispatcher. Workers run interleaved: each step is one transaction of one worker, or a
  crash between its two transactions. The invariant \<open>sys_ok\<close> of the reachable states says that behind the head
  of a thread every delivery is resolved, that only the delivery at the head is being sent, and that each
  plan in flight still owns its row. Assumed of the environment (in the step relation): ids are
  fresh, and a claim is not taken over while its worker is still alive, which is what the lease is for.
\<close>

section \<open>The invariant\<close>

definition thread_ok :: "Thread \<Rightarrow> bool" where
  "thread_ok th \<longleftrightarrow> 0 \<le> th_LastSentSeq th \<and> th_LastSentSeq th < th_NextSeq th \<and>
     (th_State th = ThreadOpening \<or> th_State th = ThreadOpen \<or> th_State th = ThreadDead)"

definition known :: "DeliveryStatus \<Rightarrow> bool" where
  "known st \<longleftrightarrow> (case st of DeliveryOther _ \<Rightarrow> False | _ \<Rightarrow> True)"

definition seq_ok :: "Thread \<Rightarrow> DeliveryStatus \<Rightarrow> int option \<Rightarrow> bool" where
  "seq_ok th st sq \<longleftrightarrow> known st \<and> (case sq of None \<Rightarrow> st \<noteq> DeliverySending
     | Some s \<Rightarrow> 1 \<le> s \<and> s < th_NextSeq th \<and>
         (s \<le> th_LastSentSeq th \<longrightarrow> DeliveryStatus_Resolved st) \<and>
         (st = DeliverySending \<longrightarrow> s = th_LastSentSeq th + 1 \<and> th_State th \<noteq> ThreadDead))"

definition row_ok :: "DB \<Rightarrow> Delivery \<Rightarrow> bool" where
  "row_ok db d \<longleftrightarrow> (case dl_ThreadID d of None \<Rightarrow> True
     | Some t \<Rightarrow> (case Thread_Get db t of Inl _ \<Rightarrow> False | Inr th \<Rightarrow> seq_ok th (dl_Status d) (dl_ThreadSeq d)))"

definition db_ok :: "DB \<Rightarrow> bool" where
  "db_ok db \<longleftrightarrow> tables_ok db \<and> (\<forall>th\<in>set (db_threads db). thread_ok th) \<and> (\<forall>d\<in>set (db_deliveries db). row_ok db d)"

text \<open>
  What a transaction on delivery \<open>i\<close> leaves alone: rows being sent on behalf of others, and no thread's head moves back.
\<close>

definition heads_le :: "DB \<Rightarrow> DB \<Rightarrow> bool" where
  "heads_le db db' \<longleftrightarrow> (\<forall>t th. Thread_Get db t = Inr th \<longrightarrow>
     (\<exists>th'. Thread_Get db' t = Inr th' \<and> th_LastSentSeq th \<le> th_LastSentSeq th'))"

definition frame :: "uuid \<Rightarrow> DB \<Rightarrow> DB \<Rightarrow> bool" where
  "frame i db db' \<longleftrightarrow> heads_le db db' \<and>
     (\<forall>d\<in>set (db_deliveries db). dl_ID d \<noteq> i \<and> dl_Status d = DeliverySending \<longrightarrow> d \<in> set (db_deliveries db'))"

lemma frame_refl [simp]: "frame i db db"
  by (auto simp: frame_def heads_le_def)

lemma frame_trans: "frame i db db' \<Longrightarrow> frame i db' db'' \<Longrightarrow> frame i db db''"
  unfolding frame_def heads_le_def by (meson order_trans)

section \<open>Updates\<close>

lemma Thread_Get_set_threads:
  "(\<And>x. th_ID (f x) = th_ID x) \<Longrightarrow>
    Thread_Get (set_threads db P f) t = rbind (Thread_Get db t) (\<lambda>x. Inr (if P x then f x else x))"
  by (simp add: Thread_Get_def set_threads_def get_row_update_where)

lemma Thread_GetD: "Thread_Get db t = Inr th \<Longrightarrow> th \<in> set (db_threads db) \<and> th_ID th = t"
  by (auto simp: Thread_Get_def dest!: get_row_InrD)

lemma Delivery_GetD: "Delivery_Get db i = Inr d \<Longrightarrow> d \<in> set (db_deliveries db) \<and> dl_ID d = i"
  by (auto simp: Delivery_Get_def dest!: get_row_InrD)

lemma frame_set_threads:
  assumes "\<And>x. th_ID (f x) = th_ID x" "\<And>x. P x \<Longrightarrow> th_LastSentSeq x \<le> th_LastSentSeq (f x)"
  shows "frame i db (set_threads db P f)"
  using assms by (auto simp: frame_def heads_le_def Thread_Get_set_threads) (simp add: set_threads_def)

lemma frame_set_deliveries:
  assumes "\<And>d. P d \<Longrightarrow> dl_ID d = i \<or> dl_Status d \<noteq> DeliverySending"
  shows "frame i db (set_deliveries db P f)"
  using assms by (auto simp: frame_def heads_le_def) (auto simp: set_deliveries_def set_update_where)

lemma row_ok_frame: "db_threads db' = db_threads db \<Longrightarrow> row_ok db' = row_ok db"
proof -
  assume "db_threads db' = db_threads db"
  then have "Thread_Get db' = Thread_Get db" by (simp add: Thread_Get_def fun_eq_iff)
  then show ?thesis by (intro ext) (simp only: row_ok_def)
qed

lemma db_okD:
  "db_ok db \<Longrightarrow> tables_ok db" "db_ok db \<Longrightarrow> Thread_Get db t = Inr th \<Longrightarrow> thread_ok th"
  "db_ok db \<Longrightarrow> d \<in> set (db_deliveries db) \<Longrightarrow> row_ok db d"
  by (auto simp: db_ok_def dest: Thread_GetD)

lemma db_ok_threaded:
  assumes "db_ok db" "d \<in> set (db_deliveries db)" "dl_ThreadID d = Some t"
  obtains th where "Thread_Get db t = Inr th" "thread_ok th" "seq_ok th (dl_Status d) (dl_ThreadSeq d)"
proof (cases "Thread_Get db t")
  case (Inl e)
  with db_okD(3) [OF assms(1,2)] assms(3) show ?thesis by (simp add: row_ok_def)
next
  case (Inr th)
  with db_okD(3) [OF assms(1,2)] assms(3) have "seq_ok th (dl_Status d) (dl_ThreadSeq d)" by (simp add: row_ok_def)
  then show ?thesis by (rule that [OF Inr db_okD(2) [OF assms(1) Inr]])
qed

lemma db_ok_set_deliveries:
  assumes "db_ok db" "\<And>x. dl_ID (f x) = dl_ID x" "\<And>x. dl_ThreadID (f x) = dl_ThreadID x"
    "\<And>x. dl_ThreadSeq (f x) = dl_ThreadSeq x"
    and "\<And>d. d \<in> set (db_deliveries db) \<Longrightarrow> row_ok db d \<Longrightarrow> P d \<Longrightarrow> row_ok db (f d)"
  shows "db_ok (set_deliveries db P f)"
proof -
  have "row_ok (set_deliveries db P f) = row_ok db" by (rule row_ok_frame) (simp add: set_deliveries_def)
  moreover have "tables_ok (set_deliveries db P f)" using assms(1-4) by (simp add: db_ok_def)
  ultimately show ?thesis
    using assms(1,5) by (auto simp: db_ok_def set_deliveries_def set_update_where)
qed

lemma db_ok_set_threads:
  assumes "db_ok db" "\<And>x. th_ID (f x) = th_ID x"
    and "\<And>x. x \<in> set (db_threads db) \<Longrightarrow> thread_ok x \<Longrightarrow> P x \<Longrightarrow> thread_ok (f x)"
    and "\<And>x d. Thread_Get db (th_ID x) = Inr x \<Longrightarrow> P x \<Longrightarrow> d \<in> set (db_deliveries db) \<Longrightarrow>
      dl_ThreadID d = Some (th_ID x) \<Longrightarrow> seq_ok x (dl_Status d) (dl_ThreadSeq d) \<Longrightarrow>
      seq_ok (f x) (dl_Status d) (dl_ThreadSeq d)"
  shows "db_ok (set_threads db P f)"
proof -
  have "row_ok (set_threads db P f) d" if d: "d \<in> set (db_deliveries db)" for d
  proof (cases "dl_ThreadID d")
    case (Some t)
    obtain x where x: "Thread_Get db t = Inr x" "seq_ok x (dl_Status d) (dl_ThreadSeq d)"
      using db_ok_threaded [OF assms(1) d Some] by metis
    with Thread_GetD [OF x(1)] assms(4) [of x d] d Some show ?thesis
      by (simp add: row_ok_def Thread_Get_set_threads assms(2))
  qed (simp add: row_ok_def)
  moreover have "tables_ok (set_threads db P f)" using assms(1,2) by (simp add: db_ok_def)
  ultimately show ?thesis
    using assms(1,3) by (auto simp: db_ok_def set_threads_def set_update_where)
qed

text \<open>Tables that carry no order.\<close>

definition same_order :: "DB \<Rightarrow> DB \<Rightarrow> bool" where
  "same_order db db' \<longleftrightarrow> db_threads db' = db_threads db \<and> db_deliveries db' = db_deliveries db"

lemma same_order_db_ok: "same_order db db' \<Longrightarrow> db_ok db' \<longleftrightarrow> db_ok db"
  using row_ok_frame [of db' db] by (simp add: same_order_def db_ok_def tables_ok_def)

lemma same_order_frame: "same_order db db' \<Longrightarrow> frame i db db'"
  by (auto simp: same_order_def frame_def heads_le_def Thread_Get_def)

lemma same_order_ops [simp]:
  "same_order db (SetHealth db c h)" "same_order db (set_health db c ho)" "same_order db (Enqueue db j)"
  "same_order db (append_event db e)" "same_order db (RecordReceipt db a b c' u x)"
  by (auto simp: same_order_def SetHealth_def set_health_def Enqueue_def append_event_def RecordReceipt_def
      split: option.split prod.split)

lemma same_order_trans: "same_order db db' \<Longrightarrow> same_order db' db'' \<Longrightarrow> same_order db db''"
  by (simp add: same_order_def)

lemma AppendDeliveryOutcome_order: "same_order db (AppendDeliveryOutcome U db d a c)"
  by (auto simp: AppendDeliveryOutcome_def Let_def same_order_def append_event_def split: option.split prod.split)

lemma settle_order: "settle X db d = Inr db' \<Longrightarrow> same_order db db'"
  using AppendDeliveryOutcome_order [of db "x_U X" d]
  by (auto simp: settle_def rbind_Inr_iff SetStatus_def Let_def same_order_def split: if_splits)

lemma recordReceipt_order: "same_order db (recordReceipt db p res)"
  by (simp add: recordReceipt_def) (simp add: same_order_def)


section \<open>Statuses\<close>

lemma seq_ok_resolved: "seq_ok th st q \<Longrightarrow> DeliveryStatus_Resolved st' \<Longrightarrow> seq_ok th st' q"
  by (auto simp: seq_ok_def known_def DeliveryStatus_Resolved_def split: option.splits)

lemma seq_ok_waiting:
  "seq_ok th st q \<Longrightarrow> \<not> DeliveryStatus_Resolved st \<Longrightarrow> st' = DeliveryPending \<or> st' = DeliveryFailed \<Longrightarrow> seq_ok th st' q"
  by (auto simp: seq_ok_def known_def split: option.splits)

lemma row_ok_status:
  assumes "row_ok db d" "dl_ThreadID d' = dl_ThreadID d" "dl_ThreadSeq d' = dl_ThreadSeq d"
    and "DeliveryStatus_Resolved (dl_Status d') \<or>
      \<not> DeliveryStatus_Resolved (dl_Status d) \<and> (dl_Status d' = DeliveryPending \<or> dl_Status d' = DeliveryFailed) \<or>
      dl_Status d' = dl_Status d"
  shows "row_ok db d'"
proof (cases "dl_ThreadID d")
  case (Some t)
  show ?thesis
  proof (cases "Thread_Get db t")
    case (Inr th)
    have "seq_ok th (dl_Status d) (dl_ThreadSeq d)" using assms(1) Some Inr by (simp add: row_ok_def)
    with assms(4) have "seq_ok th (dl_Status d') (dl_ThreadSeq d)"
      by (metis seq_ok_resolved seq_ok_waiting)
    then show ?thesis using Some Inr assms(2,3) by (simp add: row_ok_def)
  qed (use assms(1) Some in \<open>simp add: row_ok_def\<close>)
qed (simp add: row_ok_def assms(2))

lemma Resolved_simps [simp]:
  "DeliveryStatus_Resolved DeliverySent" "DeliveryStatus_Resolved DeliveryDead" "DeliveryStatus_Resolved DeliverySkipped"
  "\<not> DeliveryStatus_Resolved DeliveryPending" "\<not> DeliveryStatus_Resolved DeliveryFailed"
  "\<not> DeliveryStatus_Resolved DeliverySending"
  by (simp_all add: DeliveryStatus_Resolved_def)

text \<open>
  A snapshot \<open>d\<close> of a row that is still to be resolved and not beyond the head; \<open>owned\<close> when its row is being sent.
\<close>

definition same_slot :: "Delivery \<Rightarrow> Delivery \<Rightarrow> bool" where
  "same_slot r d \<longleftrightarrow> dl_ID r = dl_ID d \<and> dl_ThreadID r = dl_ThreadID d \<and> dl_ThreadSeq r = dl_ThreadSeq d"

definition owned :: "DB \<Rightarrow> Delivery \<Rightarrow> bool" where
  "owned db d \<longleftrightarrow> (\<exists>r\<in>set (db_deliveries db). same_slot r d \<and> dl_Status r = DeliverySending)"

definition head_row :: "DB \<Rightarrow> Delivery \<Rightarrow> bool" where
  "head_row db d \<longleftrightarrow> (\<exists>r\<in>set (db_deliveries db). same_slot r d \<and> \<not> DeliveryStatus_Resolved (dl_Status r)) \<and>
     (\<forall>t th. dl_ThreadID d = Some t \<and> Thread_Get db t = Inr th \<longrightarrow> ThreadSeq d \<le> th_LastSentSeq th + 1)"

lemma owned_head_row:
  assumes "db_ok db" "owned db d"
  shows "head_row db d"
proof -
  obtain r where r: "r \<in> set (db_deliveries db)" "same_slot r d" "dl_Status r = DeliverySending"
    using assms(2) by (auto simp: owned_def)
  have "ThreadSeq d \<le> th_LastSentSeq th + 1" if "dl_ThreadID d = Some t" "Thread_Get db t = Inr th" for t th
  proof -
    have "dl_ThreadID r = Some t" "dl_ThreadSeq r = dl_ThreadSeq d" using that(1) r(2) by (simp_all add: same_slot_def)
    then have "seq_ok th (dl_Status r) (dl_ThreadSeq d)"
      using db_okD(3) [OF assms(1) r(1)] that(2) by (simp add: row_ok_def)
    with r(3) show ?thesis by (auto simp: seq_ok_def ThreadSeq_def split: option.splits)
  qed
  with r show ?thesis by (auto simp: head_row_def)
qed

lemma head_rowE:
  assumes "db_ok db" "head_row db d"
  obtains r where "r \<in> set (db_deliveries db)" "same_slot r d" "\<not> DeliveryStatus_Resolved (dl_Status r)"
    "\<And>x. x \<in> set (db_deliveries db) \<Longrightarrow> dl_ID x = dl_ID d \<Longrightarrow> x = r"
proof -
  obtain r where r: "r \<in> set (db_deliveries db)" "same_slot r d" "\<not> DeliveryStatus_Resolved (dl_Status r)"
    using assms(2) unfolding head_row_def by (elim conjE bexE)
  have "x = r" if "x \<in> set (db_deliveries db)" "dl_ID x = dl_ID d" for x
    using tables_ok_same_id [OF db_okD(1) [OF assms(1)] that(1) r(1)] that(2) r(2) by (simp add: same_slot_def)
  then show ?thesis by (rule that [OF r])
qed

text \<open>Resolve the row at the head, then let the head of its thread pass it.\<close>

lemma resolve_and_advance:
  assumes ok: "db_ok db" and head: "head_row db d" "dl_ThreadID d = Some t"
    and g: "\<And>x. dl_ID (g x) = dl_ID x" "\<And>x. dl_ThreadID (g x) = dl_ThreadID x" "\<And>x. dl_ThreadSeq (g x) = dl_ThreadSeq x"
      "\<And>x. DeliveryStatus_Resolved (dl_Status (g x))"
    and Q: "\<And>x. Q x \<Longrightarrow> dl_ID x = dl_ID d" "\<And>x. x \<in> set (db_deliveries db) \<Longrightarrow> same_slot x d \<Longrightarrow> Q x"
    and f: "\<And>x. th_ID (f x) = th_ID x" "\<And>x. th_NextSeq (f x) = th_NextSeq x"
      "\<And>x. th_LastSentSeq (f x) = max (th_LastSentSeq x) (ThreadSeq d)"
      "\<And>x. th_State (f x) = ThreadOpen \<or> th_State (f x) = th_State x"
    and P: "\<And>x. P x \<Longrightarrow> th_ID x = t"
  shows "db_ok (set_threads (set_deliveries db Q g) P f) \<and> frame (dl_ID d) db (set_threads (set_deliveries db Q g) P f)"
proof
  let ?db = "set_deliveries db Q g"
  obtain r where r: "r \<in> set (db_deliveries db)" "same_slot r d" using head_rowE [OF ok head(1)] by metis
  have ok1: "db_ok ?db"
    by (rule db_ok_set_deliveries [OF ok g(1-3)]) (rule row_ok_status, simp_all add: g)
  have resolved: "g r \<in> set (db_deliveries ?db)"
    using r Q(2) by (auto simp: set_deliveries_def set_update_where)
  obtain th where th: "Thread_Get db t = Inr th" "thread_ok th" "seq_ok th (dl_Status r) (dl_ThreadSeq r)"
    by (rule db_ok_threaded [OF ok r(1), of t]) (use r(2) head(2) in \<open>simp add: same_slot_def\<close>)
  have sq: "ThreadSeq d \<le> th_LastSentSeq th + 1" "ThreadSeq d < th_NextSeq th"
    using head th r(2) by (auto simp: head_row_def seq_ok_def same_slot_def ThreadSeq_def thread_ok_def split: option.splits)
  show "db_ok (set_threads ?db P f)"
  proof (rule db_ok_set_threads [OF ok1 f(1)])
    fix x assume "x \<in> set (db_threads ?db)" "thread_ok x" "P x"
    then have "x = th" using P [of x] th(1) get_row_Inr_iff [of th_ID "db_threads db" "''thread_not_found''" t x] db_okD(1) [OF ok]
      by (auto simp: set_deliveries_def Thread_Get_def tables_ok_def)
    then show "thread_ok (f x)" using th(2) sq f(2,3) [of th] f(4) [of th] by (auto simp: thread_ok_def)
  next
    fix x e
    assume x: "Thread_Get ?db (th_ID x) = Inr x" "P x" and e: "e \<in> set (db_deliveries ?db)" "dl_ThreadID e = Some (th_ID x)"
      and q: "seq_ok x (dl_Status e) (dl_ThreadSeq e)"
    have [simp]: "x = th" using x P th(1) by simp
    show "seq_ok (f x) (dl_Status e) (dl_ThreadSeq e)"
    proof (cases "dl_ThreadSeq e = Some (ThreadSeq d) \<and> dl_ThreadSeq d \<noteq> None")
      case True
      then have "e = g r" using e resolved g r(2) head(2) x(2) P
        by (intro tables_ok_same_slot [OF db_okD(1) [OF ok1] e(1) resolved, of t "ThreadSeq d"])
          (auto simp: same_slot_def ThreadSeq_def)
      then have "DeliveryStatus_Resolved (dl_Status e)" using g(4) by simp
      then show ?thesis using q f(2) [of th]
        by (cases "dl_Status e") (simp_all add: seq_ok_def split: option.splits)
    next
      case False
      then show ?thesis using q f(2-4) [of th] sq th(2)
        by (auto simp: seq_ok_def ThreadSeq_def thread_ok_def max_def split: option.splits)
    qed
  qed
  have "frame (dl_ID d) db ?db" using Q(1) by (intro frame_set_deliveries) blast
  moreover have "frame (dl_ID d) ?db (set_threads ?db P f)" by (rule frame_set_threads [OF f(1)]) (simp add: f(3))
  ultimately show "frame (dl_ID d) db (set_threads ?db P f)" by (rule frame_trans)
qed


section \<open>Handlers\<close>

text \<open>The statements on one delivery row.\<close>

lemma db_ok_row_update:
  assumes "db_ok db" "\<And>x. dl_ID (g x) = dl_ID x" "\<And>x. dl_ThreadID (g x) = dl_ThreadID x"
    "\<And>x. dl_ThreadSeq (g x) = dl_ThreadSeq x" "\<And>x. Q x \<Longrightarrow> dl_ID x = i"
    and "\<And>x. x \<in> set (db_deliveries db) \<Longrightarrow> Q x \<Longrightarrow> DeliveryStatus_Resolved (dl_Status (g x)) \<or>
      \<not> DeliveryStatus_Resolved (dl_Status x) \<and> (dl_Status (g x) = DeliveryPending \<or> dl_Status (g x) = DeliveryFailed) \<or>
      dl_Status (g x) = dl_Status x"
  shows "db_ok (set_deliveries db Q g) \<and> frame i db (set_deliveries db Q g)"
proof
  show "db_ok (set_deliveries db Q g)"
  proof (rule db_ok_set_deliveries [OF assms(1-4)])
    fix x assume x: "x \<in> set (db_deliveries db)" "row_ok db x" "Q x"
    show "row_ok db (g x)" by (rule row_ok_status [OF x(2) assms(3,4) assms(6) [OF x(1,3)]])
  qed
  show "frame i db (set_deliveries db Q g)"
    by (rule frame_set_deliveries) (simp add: assms(5))
qed

lemma head_row_unresolved:
  assumes "db_ok db" "head_row db d" "x \<in> set (db_deliveries db)" "dl_ID x = dl_ID d"
  shows "\<not> DeliveryStatus_Resolved (dl_Status x)"
  using head_rowE [OF assms(1,2)] assms(3,4) by metis

lemma MarkFailed_ok:
  assumes "db_ok db" "head_row db d"
  shows "db_ok (MarkFailed db (dl_ID d) cls due now) \<and> frame (dl_ID d) db (MarkFailed db (dl_ID d) cls due now)"
  unfolding MarkFailed_def
  by (rule db_ok_row_update [OF assms(1)]) (simp_all add: head_row_unresolved [OF assms])

lemma RepointToRoot_ok:
  assumes "db_ok db" "\<And>x. x \<in> set (db_deliveries db) \<Longrightarrow> dl_ID x = i \<Longrightarrow> \<not> DeliveryStatus_Resolved (dl_Status x)"
  shows "db_ok (RepointToRoot db i now) \<and> frame i db (RepointToRoot db i now)"
  unfolding RepointToRoot_def
  by (rule db_ok_row_update [OF assms(1)]) (simp_all add: assms(2))

lemma row_resolved_ok:
  assumes "db_ok db"
  shows "db_ok (MarkSkipped db i now) \<and> frame i db (MarkSkipped db i now)"
    "db_ok (Delivery_MarkDead db i cls now) \<and> frame i db (Delivery_MarkDead db i cls now)"
    "MarkSent db i m c now = Inr (db', b) \<Longrightarrow> db_ok db' \<and> frame i db db'"
proof -
  show "db_ok (MarkSkipped db i now) \<and> frame i db (MarkSkipped db i now)"
    unfolding MarkSkipped_def by (rule db_ok_row_update [OF assms]) simp_all
  show "db_ok (Delivery_MarkDead db i cls now) \<and> frame i db (Delivery_MarkDead db i cls now)"
    unfolding Delivery_MarkDead_def by (rule db_ok_row_update [OF assms]) simp_all
  assume "MarkSent db i m c now = Inr (db', b)"
  then have "db' = set_deliveries db (\<lambda>d. dl_ID d = i \<and> dl_Status d = DeliverySending)
          (\<lambda>d. d\<lparr>dl_Status := DeliverySent, dl_ProviderMessageID := Some m,
                 dl_ProviderConversationID := (if c \<noteq> [] then Some c else None),
                 dl_SentAt := Some now, dl_ErrorClass := None, dl_NextAttemptAt := None,
                 dl_UpdatedAt := max (dl_UpdatedAt d) now\<rparr>)"
    by (simp add: MarkSent_def split: if_splits)
  then show "db_ok db' \<and> frame i db db'"
    by (simp only:) (rule db_ok_row_update [OF assms], simp_all)
qed

lemma same_order_result:
  assumes "db_ok db1 \<and> frame i db db1" "same_order db1 db2"
  shows "db_ok db2 \<and> frame i db db2"
  using assms same_order_db_ok same_order_frame frame_trans by blast

text \<open>Resolve and pass: \<open>abandon\<close>, an exhausted delivery, a delivery given up.\<close>

definition pass :: "DB \<Rightarrow> Delivery \<Rightarrow> DB" where
  "pass db d = (case dl_ThreadID d of Some t \<Rightarrow> AdvanceSent db t (ThreadSeq d) | None \<Rightarrow> db)"

lemma skip_pass:
  assumes "db_ok db" "head_row db d"
  shows "db_ok (pass (MarkSkipped db (dl_ID d) now) d) \<and> frame (dl_ID d) db (pass (MarkSkipped db (dl_ID d) now) d)"
proof (cases "dl_ThreadID d")
  case (Some t)
  show ?thesis unfolding pass_def Some option.case AdvanceSent_def MarkSkipped_def
    by (rule resolve_and_advance [OF assms Some]) (simp_all add: same_slot_def)
qed (simp add: pass_def row_resolved_ok(1) [OF assms(1)])

lemma dead_pass:
  assumes "db_ok db" "head_row db d"
  shows "db_ok (pass (Delivery_MarkDead db (dl_ID d) cls now) d) \<and>
    frame (dl_ID d) db (pass (Delivery_MarkDead db (dl_ID d) cls now) d)"
proof (cases "dl_ThreadID d")
  case (Some t)
  show ?thesis unfolding pass_def Some option.case AdvanceSent_def Delivery_MarkDead_def
    by (rule resolve_and_advance [OF assms Some]) (simp_all add: same_slot_def)
qed (simp add: pass_def row_resolved_ok(2) [OF assms(1)])

lemma abandon_ok:
  assumes "db_ok db" "head_row db d" "abandon X db d now = Inr db'"
  shows "db_ok db' \<and> frame (dl_ID d) db db'"
proof -
  have "settle X (pass (MarkSkipped db (dl_ID d) now) d) (d\<lparr>dl_Status := DeliverySkipped\<rparr>) = Inr db'"
    using assms(3) by (simp add: abandon_def Let_def pass_def)
  from same_order_result [OF skip_pass [OF assms(1,2)] settle_order [OF this]] show ?thesis .
qed

lemma head_row_order: "same_order db db' \<Longrightarrow> head_row db' d \<longleftrightarrow> head_row db d"
  by (simp add: head_row_def same_order_def Thread_Get_def)

lemma fail_delivery_ok:
  assumes "db_ok db" "head_row db d" "fail_delivery X db d c cause cls now = Inr (out, db')"
  shows "db_ok db' \<and> frame (dl_ID d) db db'"
proof -
  let ?db1 = "set_health db (ch_ID c) (ErrorClass_DestinationHealth cls)"
  have so: "same_order db ?db1" by simp
  have ok1: "db_ok ?db1" "head_row ?db1 d"
    using assms(1,2) same_order_db_ok [OF so] head_row_order [OF so] by simp_all
  have "db_ok db' \<and> frame (dl_ID d) ?db1 db'"
  proof (cases "Exhausted cls (dl_Attempts d)")
    case True
    with assms(3) obtain e where "settle X (pass (Delivery_MarkDead ?db1 (dl_ID d) cls now) d) e = Inr db'"
      by (auto simp: fail_delivery_def Let_def rbind_Inr_iff pass_def)
    from same_order_result [OF dead_pass [OF ok1] settle_order [OF this]] show ?thesis .
  next
    case False
    with assms(3) obtain e where "settle X (MarkFailed ?db1 (dl_ID d) cls
        (now + retryAfter X cause cls (dl_Attempts d)) now) e = Inr db'"
      by (auto simp: fail_delivery_def Let_def rbind_Inr_iff split: if_splits)
    from same_order_result [OF MarkFailed_ok [OF ok1] settle_order [OF this]] show ?thesis .
  qed
  with same_order_frame [OF so] frame_trans show ?thesis by blast
qed


text \<open>A terminal error of the thread: its one delivery under way is set back, so no row is being sent when it dies.\<close>

lemma ownedE:
  assumes "db_ok db" "owned db d"
  obtains r where "r \<in> set (db_deliveries db)" "same_slot r d" "dl_Status r = DeliverySending"
    "\<And>x. x \<in> set (db_deliveries db) \<Longrightarrow> dl_ID x = dl_ID d \<Longrightarrow> x = r"
proof (rule head_rowE [OF assms(1) owned_head_row [OF assms]])
  fix r assume r: "r \<in> set (db_deliveries db)" "same_slot r d" "\<And>x. x \<in> set (db_deliveries db) \<Longrightarrow> dl_ID x = dl_ID d \<Longrightarrow> x = r"
  obtain r' where r': "r' \<in> set (db_deliveries db)" "same_slot r' d" "dl_Status r' = DeliverySending"
    using assms(2) unfolding owned_def by (elim bexE conjE)
  have "r' = r" by (rule r(3) [OF r'(1)]) (use r'(2) in \<open>simp add: same_slot_def\<close>)
  with r'(3) have "dl_Status r = DeliverySending" by simp
  then show ?thesis by (rule that [OF r(1,2) _ r(3)])
qed

lemma MarkDead_idle:
  assumes "db_ok db" "\<And>e. e \<in> set (db_deliveries db) \<Longrightarrow> dl_ThreadID e = Some t \<Longrightarrow> dl_Status e \<noteq> DeliverySending"
  shows "db_ok (Thread_MarkDead db t reason) \<and> frame i db (Thread_MarkDead db t reason)"
proof
  show "db_ok (Thread_MarkDead db t reason)"
    unfolding Thread_MarkDead_def
  proof (rule db_ok_set_threads [OF assms(1)])
    fix x d
    assume "th_ID x = t \<and> th_State x \<noteq> ThreadDead" "d \<in> set (db_deliveries db)" "dl_ThreadID d = Some (th_ID x)"
      and q: "seq_ok x (dl_Status d) (dl_ThreadSeq d)"
    then have "dl_Status d \<noteq> DeliverySending" using assms(2) by simp
    with q show "seq_ok (x\<lparr>th_State := ThreadDead, th_DeadReason := Some reason\<rparr>) (dl_Status d) (dl_ThreadSeq d)"
      by (simp add: seq_ok_def split: option.splits)
  qed (simp_all add: thread_ok_def)
  show "frame i db (Thread_MarkDead db t reason)"
    unfolding Thread_MarkDead_def by (rule frame_set_threads) simp_all
qed

lemma fail_thread_ok:
  assumes "db_ok db" "owned db d" "dl_ThreadID d = Some t"
  shows "db_ok (fail_thread db d c t reason cls now) \<and> frame (dl_ID d) db (fail_thread db d c t reason cls now)"
proof -
  let ?db1 = "MarkFailed db (dl_ID d) cls now now"
  note ok1 = MarkFailed_ok [OF assms(1) owned_head_row [OF assms(1,2)], of cls now now]
  obtain r where r: "r \<in> set (db_deliveries db)" "same_slot r d" "dl_Status r = DeliverySending"
      "\<And>x. x \<in> set (db_deliveries db) \<Longrightarrow> dl_ID x = dl_ID d \<Longrightarrow> x = r"
    using ownedE [OF assms(1,2)] by metis
  have slot: "e = r" if e: "e \<in> set (db_deliveries db)" "dl_ThreadID e = Some t" "dl_Status e = DeliverySending" for e
  proof -
    have rt: "dl_ThreadID r = Some t" using r(2) assms(3) by (simp add: same_slot_def)
    obtain th where "Thread_Get db t = Inr th" "seq_ok th (dl_Status e) (dl_ThreadSeq e)"
      by (rule db_ok_threaded [OF assms(1) e(1,2)])
    moreover have "seq_ok th (dl_Status r) (dl_ThreadSeq r)"
      using db_okD(3) [OF assms(1) r(1)] rt calculation(1) by (simp add: row_ok_def)
    ultimately show "e = r" using e r(3) rt
      by (intro tables_ok_same_slot [OF db_okD(1) [OF assms(1)] e(1) r(1), of t "th_LastSentSeq th + 1"])
        (simp_all add: seq_ok_def split: option.splits)
  qed
  have "dl_Status e \<noteq> DeliverySending" if "e \<in> set (db_deliveries ?db1)" "dl_ThreadID e = Some t" for e
  proof (cases "e \<in> set (db_deliveries db) \<and> dl_ID e \<noteq> dl_ID d")
    case True
    with slot [of e] that(2) r(2) show ?thesis by (auto simp: same_slot_def)
  next
    case False
    with that(1) have "e \<in> (\<lambda>x. x\<lparr>dl_Status := DeliveryFailed, dl_ErrorClass := Some cls, dl_NextAttemptAt := Some now,
        dl_UpdatedAt := max (dl_UpdatedAt x) now\<rparr>) ` set (db_deliveries db)"
      by (auto simp: MarkFailed_def set_deliveries_def update_where_def)
    then show ?thesis by (elim imageE) simp
  qed
  then have "db_ok (Thread_MarkDead ?db1 t reason) \<and> frame (dl_ID d) ?db1 (Thread_MarkDead ?db1 t reason)"
    using ok1 by (intro MarkDead_idle) simp_all
  with ok1 have "db_ok (Thread_MarkDead ?db1 t reason) \<and> frame (dl_ID d) db (Thread_MarkDead ?db1 t reason)"
    using frame_trans by blast
  moreover have "same_order (Thread_MarkDead ?db1 t reason) (fail_thread db d c t reason cls now)"
    by (simp add: same_order_def fail_thread_def Let_def Enqueue_def set_health_def SetHealth_def MarkFailed_def
        Thread_MarkDead_def set_deliveries_def set_threads_def split: option.split)
  ultimately show ?thesis by (rule same_order_result)
qed

lemma dispatch_fail_ok:
  assumes "db_ok db" "owned db d" "dispatch_fail X db d c cause cls now = Inr (out, db')"
  shows "db_ok db' \<and> frame (dl_ID d) db db'"
proof (cases "(if cls = ClassPermanent \<or> cls = ClassAuthExpired then DeadReasonFor (providerCode cause) else None) = None \<or>
    dl_ThreadID d = None")
  case True
  then have "dispatch_fail X db d c cause cls now = fail_delivery X db d c cause cls now"
    unfolding dispatch_fail_def by (elim disjE) (simp_all split: option.split)
  with assms(3) show ?thesis by (simp add: fail_delivery_ok [OF assms(1) owned_head_row [OF assms(1,2)]])
next
  case False
  then obtain reason t where rt: "(if cls = ClassPermanent \<or> cls = ClassAuthExpired then DeadReasonFor (providerCode cause) else None) = Some reason"
      "dl_ThreadID d = Some t"
    by (metis not_None_eq)
  then have "db' = fail_thread db d c t reason cls now" using assms(3) by (simp add: dispatch_fail_def)
  with fail_thread_ok [OF assms(1,2) rt(2)] show ?thesis by simp
qed


lemma sent_pass:
  assumes "db_ok db" "owned db d" "dl_ThreadID d = Some t" "MarkSent db (dl_ID d) m c now = Inr (db1, b)"
    and f: "\<And>x. th_ID (f x) = th_ID x" "\<And>x. th_NextSeq (f x) = th_NextSeq x"
      "\<And>x. th_LastSentSeq (f x) = max (th_LastSentSeq x) (ThreadSeq d)"
      "\<And>x. th_State (f x) = ThreadOpen \<or> th_State (f x) = th_State x"
    and P: "\<And>x. P x \<Longrightarrow> th_ID x = t"
  shows "db_ok (set_threads db1 P f) \<and> frame (dl_ID d) db (set_threads db1 P f)"
proof -
  obtain r where r: "r \<in> set (db_deliveries db)" "same_slot r d" "dl_Status r = DeliverySending"
      "\<And>x. x \<in> set (db_deliveries db) \<Longrightarrow> dl_ID x = dl_ID d \<Longrightarrow> x = r"
    using ownedE [OF assms(1,2)] by metis
  have "dl_Status x = DeliverySending" if "x \<in> set (db_deliveries db)" "same_slot x d" for x
    using r(4) [OF that(1)] that(2) r(3) by (simp add: same_slot_def)
  moreover have "db1 = set_deliveries db (\<lambda>x. dl_ID x = dl_ID d \<and> dl_Status x = DeliverySending)
      (\<lambda>d. d\<lparr>dl_Status := DeliverySent, dl_ProviderMessageID := Some m,
             dl_ProviderConversationID := (if c \<noteq> [] then Some c else None),
             dl_SentAt := Some now, dl_ErrorClass := None, dl_NextAttemptAt := None,
             dl_UpdatedAt := max (dl_UpdatedAt d) now\<rparr>)"
    using assms(4) by (simp add: MarkSent_def split: if_splits)
  ultimately show ?thesis
    by (simp only:) (rule resolve_and_advance [OF assms(1) owned_head_row [OF assms(1,2)] assms(3) _ _ _ _ _ _ f P],
        simp_all add: same_slot_def)
qed

lemma succeed_ok:
  assumes "db_ok db" "owned db d" "succeed X db d th c mode res now = Inr db'"
  shows "db_ok db' \<and> frame (dl_ID d) db db'"
proof -
  define conv where "conv = (if r_ConversationID res = [] then str_of (th_ConversationID th) else r_ConversationID res)"
  define m where "m = (if r_MessageID res = [] \<and> mode = ModeUpdateRoot then str_of (th_ThreadID th) else r_MessageID res)"
  obtain db1 b where sent: "MarkSent db (dl_ID d) m conv now = Inr (db1, b)"
    using assms(3) by (auto simp: succeed_def rbind_Inr_iff m_def conv_def Let_def)
  show ?thesis
  proof (cases b)
    case False
    with assms(3) sent have "db' = db1" by (simp add: succeed_def m_def conv_def Let_def)
    with row_resolved_ok(3) [OF assms(1) sent] show ?thesis by simp
  next
    case True
    obtain db2 where db2: "(case dl_ThreadID d of None \<Rightarrow> Inr db1
        | Some t \<Rightarrow> if mode = ModePostRoot then RecordRoot db1 t conv m (dl_ID d) (ThreadSeq d)
            else if IsReply mode then Inr (RecordReply db1 t (ThreadSeq d)) else Inr (AdvanceSent db1 t (ThreadSeq d))) = Inr db2"
      and settled: "settle X (if ch_HealthStatus c \<noteq> HealthHealthy then SetHealth db2 (ch_ID c) HealthHealthy else db2)
        (d\<lparr>dl_Status := DeliverySent, dl_Mode := mode, dl_ProviderMessageID := Some m\<rparr>) = Inr db'"
      using assms(3) sent True unfolding succeed_def Let_def m_def [symmetric] conv_def [symmetric]
      by (simp only: rbind_simps prod.case not_True_eq_False if_False) (auto simp only: rbind_Inr_iff)
    have "db_ok db2 \<and> frame (dl_ID d) db db2"
    proof (cases "dl_ThreadID d")
      case None
      with db2 row_resolved_ok(3) [OF assms(1) sent] show ?thesis by simp
    next
      case (Some t)
      note pass = sent_pass [OF assms(1,2) Some sent]
      show ?thesis
      proof (cases "mode = ModePostRoot")
        case True
        with db2 Some have "db2 = set_threads db1 (\<lambda>x. th_ID x = t)
          (\<lambda>x. x\<lparr>th_ConversationID := Some conv, th_ThreadID := Some m, th_RootDeliveryID := Some (dl_ID d),
                 th_State := ThreadOpen, th_DeadReason := None, th_LastSentSeq := max (th_LastSentSeq x) (ThreadSeq d)\<rparr>)"
          by (simp add: RecordRoot_def split: if_splits)
        then show ?thesis by (simp only:) (rule pass, simp_all)
      next
        case False
        with db2 Some have "db2 = RecordReply db1 t (ThreadSeq d) \<or> db2 = AdvanceSent db1 t (ThreadSeq d)"
          by (simp split: if_splits)
        then show ?thesis
        proof
          assume "db2 = RecordReply db1 t (ThreadSeq d)"
          then show ?thesis unfolding RecordReply_def by (simp only:) (rule pass, simp_all)
        next
          assume "db2 = AdvanceSent db1 t (ThreadSeq d)"
          then show ?thesis unfolding AdvanceSent_def by (simp only:) (rule pass, simp_all)
        qed
      qed
    qed
    moreover have "same_order db2 (if ch_HealthStatus c \<noteq> HealthHealthy then SetHealth db2 (ch_ID c) HealthHealthy else db2)"
      by (simp add: same_order_def SetHealth_def)
    ultimately show ?thesis
      by (intro same_order_result [OF _ same_order_trans [OF _ settle_order [OF settled]]])
  qed
qed

lemma record_send_ok:
  assumes "db_ok db" "owned db (sp_delivery p)" "record_send X db p answer now = Inr (out, db')"
  shows "db_ok db' \<and> frame (dl_ID (sp_delivery p)) db db'"
proof (cases answer)
  case (Inl cause)
  with assms show ?thesis by (simp add: record_send_def dispatch_fail_ok)
next
  case (Inr res)
  with assms(3) obtain db1 where "succeed X db (sp_delivery p) (sp_thread p) (sp_channel p) (sp_mode p) res now = Inr db1"
      "db' = recordReceipt db1 p res"
    by (auto simp: record_send_def rbind_Inr_iff)
  with same_order_result [OF succeed_ok [OF assms(1,2)] recordReceipt_order] show ?thesis by simp
qed

section \<open>Claiming\<close>

text \<open>The delivery a plan is made for: the next of a living thread, or one of no thread.\<close>

definition next_up :: "DB \<Rightarrow> Delivery \<Rightarrow> bool" where
  "next_up db d \<longleftrightarrow> (case dl_ThreadID d of None \<Rightarrow> True
     | Some t \<Rightarrow> (case Thread_Get db t of Inl _ \<Rightarrow> False
         | Inr th \<Rightarrow> dl_ThreadSeq d = Some (th_LastSentSeq th + 1) \<and> th_State th \<noteq> ThreadDead))"

lemma Claim_ok:
  assumes "db_ok db" "d \<in> set (db_deliveries db)" "next_up db d" "Delivery_Claim db (dl_ID d) cutoff now = Some (db1, d1)"
  shows "db_ok db1 \<and> frame (dl_ID d) db db1 \<and> owned db1 d1 \<and> same_slot d1 d"
proof -
  obtain x where x: "find (claimable (dl_ID d) cutoff) (db_deliveries db) = Some x"
      "db1 = set_deliveries db (claimable (dl_ID d) cutoff) (claimed now)" "d1 = claimed now x"
    using assms(4) by (auto simp: Delivery_Claim_def split: option.splits)
  note X = find_SomeD [OF x(1)]
  have xd: "x = d" by (rule tables_ok_same_id [OF db_okD(1) [OF assms(1)]]) (use X assms(2) in \<open>simp_all add: claimable_def\<close>)
  have same: "y = d" if "y \<in> set (db_deliveries db)" "claimable (dl_ID d) cutoff y" for y
    by (rule tables_ok_same_id [OF db_okD(1) [OF assms(1)] that(1) assms(2)]) (use that(2) in \<open>simp add: claimable_def\<close>)
  have "db_ok db1" unfolding x(2)
  proof (rule db_ok_set_deliveries [OF assms(1)])
    fix y assume y: "y \<in> set (db_deliveries db)" "row_ok db y" "claimable (dl_ID d) cutoff y"
    have "row_ok db (claimed now d)"
      using assms(3) y(2) [unfolded same [OF y(1,3)]]
      by (auto simp: row_ok_def next_up_def claimed_def seq_ok_def known_def split: option.splits sum.splits)
    then show "row_ok db (claimed now y)" using same [OF y(1,3)] by simp
  qed (simp_all add: claimed_def)
  moreover have "frame (dl_ID d) db db1" unfolding x(2) by (rule frame_set_deliveries) (simp add: claimable_def)
  moreover have "claimed now d \<in> set (db_deliveries db1)"
    using X xd by (auto simp: x(2) set_deliveries_def set_update_where)
  then have "owned db1 d1" unfolding x(3) xd owned_def by (rule bexI [rotated]) (simp add: same_slot_def claimed_def)
  moreover have "same_slot d1 d" by (simp add: x(3) xd same_slot_def claimed_def)
  ultimately show ?thesis by simp
qed

lemma PersistRendered_ok:
  assumes "db_ok db" "owned db d" "PersistRendered db (dl_ID d) msg now = Inr db'"
  shows "db_ok db' \<and> frame (dl_ID d) db db' \<and> owned db' d"
proof -
  let ?g = "\<lambda>x. x\<lparr>dl_RenderedHash := Some (m_Hash msg), dl_UpdatedAt := max (dl_UpdatedAt x) now\<rparr>"
  have db': "db' = set_deliveries db (\<lambda>x. dl_ID x = dl_ID d) ?g"
    using assms(3) by (simp add: PersistRendered_def split: if_splits)
  obtain r where r: "r \<in> set (db_deliveries db)" "same_slot r d" "dl_Status r = DeliverySending"
    using ownedE [OF assms(1,2)] by metis
  have "?g r \<in> set (db_deliveries db')" using r(1,2) by (auto simp: db' set_deliveries_def set_update_where same_slot_def)
  then have "owned db' d" unfolding owned_def
    by (rule bexI [rotated]) (use r in \<open>simp add: same_slot_def\<close>)
  moreover have "db_ok db' \<and> frame (dl_ID d) db db'"
    unfolding db' by (rule db_ok_row_update [OF assms(1)]) simp_all
  ultimately show ?thesis by simp
qed

lemma keep_evidence_ok:
  assumes "db_ok db" "owned db d"
  shows "db_ok (keep_evidence db (dl_ID d) msg now) \<and> frame (dl_ID d) db (keep_evidence db (dl_ID d) msg now) \<and>
    owned (keep_evidence db (dl_ID d) msg now) d"
  using assms PersistRendered_ok [OF assms] by (auto simp: keep_evidence_def split: sum.split)

text \<open>The contract of a transaction of the first kind on delivery \<open>i\<close>.\<close>

definition prepared_ok :: "uuid \<Rightarrow> DB \<Rightarrow> prepared \<Rightarrow> bool" where
  "prepared_ok i db r \<longleftrightarrow> (case r of Inl _ \<Rightarrow> True
     | Inr (out, plan, db') \<Rightarrow> db_ok db' \<and> frame i db db' \<and>
         (case plan of None \<Rightarrow> True | Some p \<Rightarrow> dl_ID (sp_delivery p) = i \<and> owned db' (sp_delivery p)))"

lemma prepared_ok_Inl [simp]: "prepared_ok i db (Inl e)"
  by (simp add: prepared_ok_def)

lemma prepared_ok_frame: "frame i db db1 \<Longrightarrow> prepared_ok i db1 r \<Longrightarrow> prepared_ok i db r"
  by (auto simp: prepared_ok_def dest: frame_trans split: sum.splits)

lemma prepared_ok_rbind: "(\<And>x. m = Inr x \<Longrightarrow> prepared_ok i db (f x)) \<Longrightarrow> prepared_ok i db (rbind m f)"
  by (cases m) simp_all

lemma prepared_ok_if: "prepared_ok i db x \<Longrightarrow> prepared_ok i db y \<Longrightarrow> prepared_ok i db (if b then x else y)"
  by simp

lemma finished_ok:
  "(\<And>db'. r = Inr db' \<Longrightarrow> db_ok db' \<and> frame i db db') \<Longrightarrow> prepared_ok i db (finished r)"
  by (cases r) (simp_all add: finished_def prepared_ok_def)

lemma failed_ok:
  assumes "db_ok db1" "owned db1 d" "frame (dl_ID d) db db1"
  shows "prepared_ok (dl_ID d) db (failed (dispatch_fail X db1 d c cause cls now))"
proof (cases "dispatch_fail X db1 d c cause cls now")
  case (Inr r)
  obtain out db' where r: "r = (out, db')" by (cases r)
  from dispatch_fail_ok [OF assms(1,2) Inr [unfolded r]] frame_trans [OF assms(3)] Inr r
  show ?thesis by (simp add: failed_def prepared_ok_def)
qed (simp add: failed_def)

lemma claim_send_ok:
  assumes "db_ok db" "owned db d"
  shows "prepared_ok (dl_ID d) db (claim_send X db d th c n mode msg now)"
proof -
  have A: "prepared_ok (dl_ID d) db (finished (abandon X db d now))"
    by (rule finished_ok) (rule abandon_ok [OF assms(1) owned_head_row [OF assms]])
  have R: "prepared_ok (dl_ID d) db (case x_Open X c of
        Some e \<Rightarrow> failed (dispatch_fail X db1 d c e (if ca_kind e = KindNotFound then ClassAuthExpired else ClassConfigInvalid) now)
      | None \<Rightarrow> Inr (outcome0, Some \<lparr>sp_delivery = d, sp_thread = th, sp_channel = c, sp_mode = mode, sp_msg = msg,
           sp_incidentID = (if nt_SubjectKind n = SubjectIncident then nt_SubjectID n else 0)\<rparr>, db1))"
    if "PersistRendered db (dl_ID d) msg now = Inr db1" for db1
    using PersistRendered_ok [OF assms that]
    by (cases "x_Open X c") (simp add: prepared_ok_def, simp add: failed_ok)
  show ?thesis unfolding claim_send_def Let_def
    by (rule prepared_ok_if [OF A prepared_ok_rbind]) (rule R)
qed

lemma claim_render_ok:
  assumes "db_ok db" "owned db d"
  shows "prepared_ok (dl_ID d) db (claim_render X db d th c n mode view now)"
proof -
  have evidence: "prepared_ok (dl_ID d) db (failed (dispatch_fail X (if b then keep_evidence db (dl_ID d) msg now else db)
      d c e cls now))" for b msg e cls
    using assms keep_evidence_ok [OF assms, of msg now] by (intro failed_ok) simp_all
  obtain msg er where r: "x_Render X n view mode c (continuedRoot d th mode) = (msg, er)" by (cases "x_Render X n view mode c (continuedRoot d th mode)")
  obtain mapped em where m: "x_Map X c msg = (mapped, em)" by (cases "x_Map X c msg")
  show ?thesis
    using evidence [of False]
    by (cases "x_Renderer X c"; cases er; cases em) (simp_all add: claim_render_def r m evidence claim_send_ok [OF assms])
qed

lemma dispatch_claim_ok:
  assumes "db_ok db" "d \<in> set (db_deliveries db)" "next_up db d"
  shows "prepared_ok (dl_ID d) db (dispatch_claim X db d th c mode now)"
proof (cases "Delivery_Claim db (dl_ID d) (now - x_Lease X) now")
  case None
  then show ?thesis using assms(1) by (simp add: dispatch_claim_def prepared_ok_def)
next
  case (Some r)
  obtain db1 d1 where r: "r = (db1, d1)" by (cases r)
  note C = Claim_ok [OF assms Some [unfolded r]]
  then have ok: "db_ok db1" "frame (dl_ID d1) db db1" "owned db1 d1" "dl_ID d1 = dl_ID d" by (simp_all add: same_slot_def)
  have "prepared_ok (dl_ID d1) db1 (finished (abandon X db1 d1 now))"
    by (rule finished_ok) (rule abandon_ok [OF ok(1) owned_head_row [OF ok(1,3)]])
  then have "prepared_ok (dl_ID d1) db1 (dispatch_claim X db d th c mode now)"
    by (simp add: dispatch_claim_def Some r) (auto intro!: prepared_ok_rbind claim_render_ok [OF ok(1,3)])
  with prepared_ok_frame [OF ok(2)] ok(4) show ?thesis by simp
qed


section \<open>Recovering\<close>

lemma tables_ok_id: "tables_ok db \<Longrightarrow> d \<in> set (db_deliveries db) \<Longrightarrow> dl_ID d \<noteq> 0"
  unfolding tables_ok_def by (metis image_eqI set_map)

lemma AdvanceSent_passable:
  assumes "db_ok db" "Thread_Get db t = Inr th" "seq = th_LastSentSeq th + 1" "seq < th_NextSeq th"
    and "\<And>e. e \<in> set (db_deliveries db) \<Longrightarrow> dl_ThreadID e = Some t \<Longrightarrow> dl_ThreadSeq e = Some seq \<Longrightarrow>
      DeliveryStatus_Resolved (dl_Status e)"
  shows "db_ok (AdvanceSent db t seq) \<and> frame i db (AdvanceSent db t seq)"
proof
  show "db_ok (AdvanceSent db t seq)" unfolding AdvanceSent_def
  proof (rule db_ok_set_threads [OF assms(1)])
    fix x assume "x \<in> set (db_threads db)" "thread_ok x" "th_ID x = t \<and> seq < th_NextSeq x"
    then show "thread_ok (x\<lparr>th_LastSentSeq := max (th_LastSentSeq x) seq\<rparr>)" by (auto simp: thread_ok_def)
  next
    fix x d
    assume x: "Thread_Get db (th_ID x) = Inr x" "th_ID x = t \<and> seq < th_NextSeq x"
      and d: "d \<in> set (db_deliveries db)" "dl_ThreadID d = Some (th_ID x)" "seq_ok x (dl_Status d) (dl_ThreadSeq d)"
    have "x = th" using x assms(2) by simp
    moreover have "DeliveryStatus_Resolved (dl_Status d)" if "dl_ThreadSeq d = Some seq"
      using assms(5) [OF d(1)] d(2) x(2) that by simp
    moreover from this have "dl_Status d \<noteq> DeliverySending" if "dl_ThreadSeq d = Some seq" using that by auto
    ultimately show "seq_ok (x\<lparr>th_LastSentSeq := max (th_LastSentSeq x) seq\<rparr>) (dl_Status d) (dl_ThreadSeq d)"
      using d(3) assms(3) by (cases "dl_ThreadSeq d") (auto simp: seq_ok_def max_def)
  qed simp
  show "frame i db (AdvanceSent db t seq)" unfolding AdvanceSent_def by (rule frame_set_threads) simp_all
qed

text \<open>One advance of the recovery loop, in a living and in a dead thread.\<close>

lemma Advance_alive:
  assumes "db_ok db" "Thread_Get db t = Inr th" "seq = th_LastSentSeq th + 1" "seq < th_NextSeq th"
    and "classifySlot lease (Ordering_SlotAt db t seq) oth now = Some r" "ot_State oth \<noteq> ThreadDead"
    and db'_def: "db' = Ordering_Advance U now db t seq (sl_ItemID (Ordering_SlotAt db t seq)) r"
  shows "db_ok db' \<and> frame i db db' \<and> db_deliveries db' = db_deliveries db"
proof -
  have pass: "passable db t (ot_State oth) seq"
    using classifySlot_passable [OF db_okD(1) [OF assms(1)], of lease t seq oth now] assms(5) by simp
  then have resolved: "DeliveryStatus_Resolved (dl_Status e)"
    if "e \<in> set (db_deliveries db)" "dl_ThreadID e = Some t" "dl_ThreadSeq e = Some seq" for e
    using that assms(6) by (simp add: passable_def list_all_iff)
  have item: "\<not> (dl_ID x = sl_ItemID (Ordering_SlotAt db t seq) \<and> (dl_Status x = DeliveryPending \<or> dl_Status x = DeliveryFailed))"
    if "x \<in> set (db_deliveries db)" "sl_ItemID (Ordering_SlotAt db t seq) \<noteq> 0" for x
    using db_okD(1) [OF assms(1)]
  proof (cases rule: SlotAt_cases [of db t seq, case_names absent present])
    case absent
    with that(2) show ?thesis by (simp add: emptySlot_def)
  next
    case (present d)
    show ?thesis
    proof (cases "dl_ID x = dl_ID d")
      case True
      then have "x = d" by (rule tables_ok_same_id [OF db_okD(1) [OF assms(1)] that(1) present(1)])
      with resolved [OF present(1-3)] show ?thesis by auto
    qed (use present(4) in \<open>simp add: slot_of_def\<close>)
  qed
  let ?adv = "AdvanceSent db t seq" and ?i = "sl_ItemID (Ordering_SlotAt db t seq)"
  have skip: "same_order ?adv (if ?i \<noteq> 0 then set_deliveries ?adv
      (\<lambda>d. dl_ID d = ?i \<and> (dl_Status d = DeliveryPending \<or> dl_Status d = DeliveryFailed))
      (\<lambda>d. d\<lparr>dl_Status := DeliverySkipped, dl_ErrorClass := None, dl_NextAttemptAt := None,
             dl_UpdatedAt := max (dl_UpdatedAt d) now\<rparr>) else ?adv)"
    by (simp add: same_order_def set_deliveries_def AdvanceSent_def set_threads_def update_where_none item)
  have so: "same_order ?adv db'"
  proof (cases "Anomalous r")
    case True
    then show ?thesis unfolding db'_def Ordering_Advance_def Let_def AppendThreadSkip_def
      by (simp only: not_True_eq_False if_False) (rule same_order_trans [OF skip same_order_ops(4)])
  qed (simp add: db'_def Ordering_Advance_def same_order_def)
  have "db_ok ?adv \<and> frame i db ?adv" by (rule AdvanceSent_passable [OF assms(1-4)]) (rule resolved)
  then have "db_ok db' \<and> frame i db db'" using so by (rule same_order_result)
  moreover have "db_deliveries db' = db_deliveries db"
    using so by (simp only: same_order_def) (simp add: AdvanceSent_def set_threads_def)
  ultimately show ?thesis by blast
qed


lemma Advance_dead:
  assumes "db_ok db" "Thread_Get db t = Inr th" "seq = th_LastSentSeq th + 1" "seq < th_NextSeq th" "th_State th = ThreadDead"
    and db'_def: "db' = Ordering_Advance U now db t seq (sl_ItemID (Ordering_SlotAt db t seq)) ReasonThreadDead"
  shows "db_ok db' \<and> frame i db db'"
proof -
  let ?i = "sl_ItemID (Ordering_SlotAt db t seq)"
  let ?P = "\<lambda>d. dl_ID d = ?i \<and> (dl_Status d = DeliveryPending \<or> dl_Status d = DeliveryFailed)"
  let ?g = "\<lambda>d. d\<lparr>dl_Status := DeliverySkipped, dl_ErrorClass := None, dl_NextAttemptAt := None,
             dl_UpdatedAt := max (dl_UpdatedAt d) now\<rparr>"
  define db1 where "db1 = (if ?i \<noteq> 0 then set_deliveries db ?P ?g else db)"
  have "db_ok (set_deliveries db ?P ?g)"
    by (rule db_ok_set_deliveries [OF assms(1)]) (simp_all add: row_ok_status)
  moreover have "frame i db (set_deliveries db ?P ?g)" by (rule frame_set_deliveries) auto
  ultimately have ok1: "db_ok db1" "frame i db db1" by (simp_all add: db1_def assms(1))
  have th1: "Thread_Get db1 t = Inr th" using assms(2) by (simp add: db1_def)
  have "DeliveryStatus_Resolved (dl_Status e)"
    if e: "e \<in> set (db_deliveries db1)" "dl_ThreadID e = Some t" "dl_ThreadSeq e = Some seq" for e
  proof (rule ccontr)
    assume unres: "\<not> DeliveryStatus_Resolved (dl_Status e)"
    have "e \<in> set (db_deliveries db) \<and> (?i \<noteq> 0 \<longrightarrow> \<not> ?P e)"
      using e(1) unres by (auto simp: db1_def set_deliveries_def set_update_where split: if_splits)
    then have mem: "e \<in> set (db_deliveries db)" "?i \<noteq> 0 \<longrightarrow> \<not> ?P e" by simp_all
    have "seq_ok th (dl_Status e) (dl_ThreadSeq e)"
      using db_okD(3) [OF assms(1) mem(1)] e(2) assms(2) by (simp add: row_ok_def)
    then have "dl_Status e = DeliveryPending \<or> dl_Status e = DeliveryFailed"
      using unres assms(5) e(3) by (cases "dl_Status e") (simp_all add: seq_ok_def known_def)
    moreover have "?i = dl_ID e" using db_okD(1) [OF assms(1)]
    proof (cases rule: SlotAt_cases [of db t seq, case_names absent present])
      case absent
      with mem(1) e(2,3) show ?thesis by (simp add: filter_empty_conv)
    next
      case (present d)
      have "e = d" by (rule present(5) [OF mem(1) e(2,3)])
      then show ?thesis using present(4) by (simp add: slot_of_def)
    qed
    moreover have "dl_ID e \<noteq> 0" by (rule tables_ok_id [OF db_okD(1) [OF assms(1)] mem(1)])
    ultimately show False using mem(2) by simp
  qed
  then have adv: "db_ok (AdvanceSent db1 t seq) \<and> frame i db1 (AdvanceSent db1 t seq)"
    by (intro AdvanceSent_passable [OF ok1(1) th1 assms(3,4)])
  then have "db_ok (AdvanceSent db1 t seq) \<and> frame i db (AdvanceSent db1 t seq)"
    using frame_trans [OF ok1(2)] by blast
  moreover have "same_order (AdvanceSent db1 t seq) (AppendThreadSkip U
      (if ?i \<noteq> 0 then set_deliveries (AdvanceSent db t seq) ?P ?g else AdvanceSent db t seq) t seq)"
    unfolding AppendThreadSkip_def
    by (rule same_order_trans [OF _ same_order_ops(4)])
      (simp add: same_order_def db1_def AdvanceSent_def set_deliveries_def set_threads_def)
  moreover have "db' = AppendThreadSkip U
      (if ?i \<noteq> 0 then set_deliveries (AdvanceSent db t seq) ?P ?g else AdvanceSent db t seq) t seq"
    unfolding db'_def Ordering_Advance_def Let_def Anomalous_def by (simp only: SkipReason.distinct not_False_eq_True not_True_eq_False if_False)
  ultimately show ?thesis by (metis same_order_result)
qed

lemma recover_ok:
  assumes ok: "db_ok db" and th: "Thread_Get db t = Inr th"
  obtains db' rc where "Recover (OrderingStore U now) lease now t db = Inr (db', rc)" "db_ok db'" "frame i db db'"
    "Thread_Get db' t = Inr (th\<lparr>th_LastSentSeq := rc_To rc\<rparr>)"
    "th_State th \<noteq> ThreadDead \<Longrightarrow> db_deliveries db' = db_deliveries db"
    "th_LastSentSeq th \<le> rc_To rc" "rc_To rc < th_NextSeq th" "rc_Advanced rc = rc_To rc - th_LastSentSeq th"
    "th_State th = ThreadDead \<Longrightarrow> rc_To rc = th_NextSeq th - 1"
    "rc_To rc + 1 < th_NextSeq th \<Longrightarrow> rc_StalledItem rc \<noteq> 0"
proof -
  define oth where "oth = \<lparr>ot_ID = t, ot_State = th_State th, ot_LastSentSeq = th_LastSentSeq th, ot_NextSeq = th_NextSeq th,
    ot_RootLanded = (th_ThreadID th \<noteq> None)\<rparr>"
  have load: "Ordering_LoadThread db t = Inr oth" using th by (simp add: Ordering_LoadThread_Inr oth_def)
  define I where "I st \<longleftrightarrow> db_ok st \<and> frame i db st \<and> (\<exists>q. Thread_Get st t = Inr (th\<lparr>th_LastSentSeq := q\<rparr>)) \<and>
    (th_State th \<noteq> ThreadDead \<longrightarrow> db_deliveries st = db_deliveries db)" for st
  have I0: "I db" using ok th by (auto simp: I_def intro!: exI [of _ "th_LastSentSeq th"])
  have step: "I (Ordering_Advance U now st t seq (sl_ItemID (Ordering_SlotAt st t seq)) r)"
    if st: "I st" "Ordering_LoadThread st t = Inr (oth\<lparr>ot_LastSentSeq := seq - 1\<rparr>)" "seq < ot_NextSeq oth"
      "classifySlot lease (Ordering_SlotAt st t seq) oth now = Some r" for st seq r
  proof -
    obtain q where q: "Thread_Get st t = Inr (th\<lparr>th_LastSentSeq := q\<rparr>)" using st(1) by (auto simp: I_def)
    with st(2) have qs: "q = seq - 1" by (auto simp: Ordering_LoadThread_Inr oth_def)
    have lt: "seq < th_NextSeq (th\<lparr>th_LastSentSeq := q\<rparr>)" "seq = th_LastSentSeq (th\<lparr>th_LastSentSeq := q\<rparr>) + 1"
      using st(3) qs by (simp_all add: oth_def)
    let ?st = "Ordering_Advance U now st t seq (sl_ItemID (Ordering_SlotAt st t seq)) r"
    have "Thread_Get ?st t = Inr (th\<lparr>th_LastSentSeq := seq\<rparr>)"
      using Thread_Get_AdvanceSent [OF q lt(1)] qs by simp
    moreover have "db_ok ?st \<and> frame i st ?st \<and> (th_State th \<noteq> ThreadDead \<longrightarrow> db_deliveries ?st = db_deliveries st)"
    proof (cases "th_State th = ThreadDead")
      case True
      with st(4) have "r = ReasonThreadDead" by (simp add: classifySlot_def oth_def)
      with Advance_dead [OF _ q lt(2,1), of ?st U now i] st(1) True show ?thesis by (simp add: I_def)
    next
      case False
      with Advance_alive [OF _ q lt(2,1) st(4), of ?st U i] st(1) show ?thesis by (simp add: I_def oth_def)
    qed
    ultimately show ?thesis using st(1) frame_trans by (auto simp: I_def)
  qed
  have lt: "ot_LastSentSeq oth < ot_NextSeq oth" using db_okD(2) [OF ok th] by (simp add: oth_def thread_ok_def)
  obtain db' rc where r: "Recover (OrderingStore U now) lease now t db = Inr (db', rc)"
      "store.loop_result U now lease now t oth (ot_LastSentSeq oth + 1) db (recovery0 oth) (rc_To rc) db' rc" "I db'"
    by (rule store.Recover_spec [where I = I and st = db and t = t and th = oth and U = U and now = now])
      (use I0 step load lt db_okD(1) [OF ok] in auto)
  note L = r(2) [unfolded store.loop_result_def OrderingStore_sel]
  obtain q where q: "Thread_Get db' t = Inr (th\<lparr>th_LastSentSeq := q\<rparr>)" using r(3) by (auto simp: I_def)
  have "q = rc_To rc" using L q by (auto simp: Ordering_LoadThread_Inr oth_def)
  show ?thesis
  proof (rule that [OF r(1)])
    show "rc_To rc = th_NextSeq th - 1" if "th_State th = ThreadDead"
      using L that by (auto simp: oth_def classifySlot_def split: if_splits)
    show "rc_StalledItem rc \<noteq> 0" if "rc_To rc + 1 < th_NextSeq th"
    proof -
      have c: "classifySlot lease (Ordering_SlotAt db t (rc_To rc + 1)) oth now = None"
        "rc_StalledItem rc = sl_ItemID (Ordering_SlotAt db t (rc_To rc + 1))"
        using L that by (simp_all add: oth_def)
      show ?thesis using db_okD(1) [OF ok]
      proof (cases rule: SlotAt_cases [of db t "rc_To rc + 1", case_names absent present])
        case absent
        with c(1) show ?thesis by (simp add: classifySlot_def emptySlot_def split: if_splits)
      next
        case (present d)
        show ?thesis using c(2) present(4) tables_ok_id [OF db_okD(1) [OF ok] present(1)] by (simp add: slot_of_def)
      qed
    qed
  qed (use L r(3) q \<open>q = rc_To rc\<close> in \<open>simp_all add: I_def oth_def recovery0_def\<close>)
qed


section \<open>Deciding\<close>

lemma effectiveMode_root: "NeedsRoot (effectiveMode d th c) \<Longrightarrow> dl_ThreadID d \<noteq> None \<and> th_ThreadID th \<noteq> None"
  by (auto simp: effectiveMode_def Let_def oto_defs RootLanded_def str_of_def split: if_splits option.splits)

text \<open>What the gate can say of a delivery that is still to be resolved.\<close>

lemma Gate_Claim_cases:
  assumes "db_ok db" "Thread_Get db t = Inr th" "d \<in> set (db_deliveries db)" "dl_ThreadID d = Some t"
    "\<not> DeliveryStatus_Resolved (dl_Status d)"
    and "Gate_Claim (OrderingStore U now) p now (item d t (effectiveMode d th c)) db = Inr (dec, oth)"
  obtains (dead) "th_State th = ThreadDead" "gd_Action dec = ActionRecoverThread"
  | (unsequenced) "th_State th \<noteq> ThreadDead" "dl_ThreadSeq d = None" "gd_Action dec = ActionAbandon"
  | (next_one) "th_State th \<noteq> ThreadDead" "dl_ThreadSeq d = Some (th_LastSentSeq th + 1)" "gd_Action dec = ActionProceed"
  | (later) s where "th_State th \<noteq> ThreadDead" "dl_ThreadSeq d = Some s" "th_LastSentSeq th + 1 < s" "s < th_NextSeq th"
      "gd_Action dec = ActionWaitForPredecessor \<or> gd_Action dec = ActionRecoverThread"
proof -
  have ok: "thread_ok th" "seq_ok th (dl_Status d) (dl_ThreadSeq d)"
    using db_okD(2) [OF assms(1,2)] db_okD(3) [OF assms(1,3)] assms(2,4) by (simp_all add: row_ok_def)
  have dec: "dec = Decide_gate (item d t (effectiveMode d th c))
      \<lparr>ot_ID = t, ot_State = th_State th, ot_LastSentSeq = th_LastSentSeq th, ot_NextSeq = th_NextSeq th,
       ot_RootLanded = (th_ThreadID th \<noteq> None)\<rparr> now (Policy_normalise p)"
    using assms(2,6) by (auto simp: Gate_Claim_def Ordering_LoadThread_def item_def)
  show ?thesis
  proof (cases "th_State th = ThreadDead")
    case True
    then show ?thesis by (intro dead) (simp_all add: dec Decide_gate_def verdict_def Let_def)
  next
    case alive: False
    then have st: "th_State th = ThreadOpening \<or> th_State th = ThreadOpen" using ok(1) by (simp add: thread_ok_def)
    show ?thesis
    proof (cases "dl_ThreadSeq d")
      case None
      with alive st show ?thesis
        by (intro unsequenced) (simp_all add: dec Decide_gate_def verdict_def Let_def item_def ThreadSeq_def)
    next
      case (Some s)
      then have s: "1 \<le> s" "s < th_NextSeq th" "th_LastSentSeq th < s" using ok(2) assms(5) by (auto simp: seq_ok_def)
      show ?thesis
      proof (cases "s = th_LastSentSeq th + 1")
        case True
        with alive st Some s effectiveMode_root [of d th c] show ?thesis
          by (intro next_one) (auto simp: dec Decide_gate_def verdict_def Let_def item_def ThreadSeq_def)
      next
        case False
        with s have "th_LastSentSeq th + 1 < s" by simp
        with alive st Some s effectiveMode_root [of d th c] show ?thesis
          by (intro later [of s]) (auto simp: dec Decide_gate_def verdict_def Let_def item_def ThreadSeq_def)
      qed
    qed
  qed
qed

text \<open>What a decision leaves, and what its verdict says of the tables it leaves.\<close>

definition verdict_holds :: "DB \<Rightarrow> Delivery \<Rightarrow> Thread \<Rightarrow> Action \<Rightarrow> bool" where
  "verdict_holds db d th a \<longleftrightarrow> (case a of
     ActionProceed \<Rightarrow> next_up db d
   | ActionAbandon \<Rightarrow> dl_ThreadSeq d = None
   | ActionRecoverThread \<Rightarrow> th_State th = ThreadDead \<or> (\<exists>s. dl_ThreadSeq d = Some s \<and> th_LastSentSeq th + 1 < s \<and> s < th_NextSeq th)
   | ActionWaitForPredecessor \<Rightarrow> th_State th \<noteq> ThreadDead \<and> (\<exists>s. dl_ThreadSeq d = Some s \<and> th_LastSentSeq th + 1 < s \<and> s < th_NextSeq th)
   | _ \<Rightarrow> False)"

lemma Gate_Claim_holds:
  assumes "db_ok db" "Thread_Get db t = Inr th" "d \<in> set (db_deliveries db)" "dl_ThreadID d = Some t"
    "\<not> DeliveryStatus_Resolved (dl_Status d)"
    and "Gate_Claim (OrderingStore U now) p now (item d t (effectiveMode d th c)) db = Inr (dec, oth)"
  shows "verdict_holds db d th (gd_Action dec)"
  using assms
proof (cases rule: Gate_Claim_cases [case_names dead unsequenced next_one later])
  case (later s)
  then show ?thesis by (elim disjE) (auto simp: verdict_holds_def)
qed (simp_all add: verdict_holds_def next_up_def assms(2,4))

lemma gate_decide_ok:
  assumes "db_ok db" "d \<in> set (db_deliveries db)" "dl_ThreadID d = Some t" "\<not> DeliveryStatus_Resolved (dl_Status d)"
    and "gate_decide X db d t c eager now = Inr (dec, th, mode, db1)"
  shows "db_ok db1 \<and> frame i db db1 \<and> db_deliveries db1 = db_deliveries db \<and> Thread_Get db1 t = Inr th \<and>
    verdict_holds db1 d th (gd_Action dec)"
proof -
  let ?S = "OrderingStore (x_U X) now"
  obtain th0 where th0: "Thread_Get db t = Inr th0" by (rule db_ok_threaded [OF assms(1-3)])
  obtain dec0 oth0 where g0: "Gate_Claim ?S (x_Policy X) now (item d t (effectiveMode d th0 c)) db = Inr (dec0, oth0)"
    using th0 by (simp add: Gate_Claim_def Ordering_LoadThread_def item_def)
  note V0 = Gate_Claim_holds [OF assms(1) th0 assms(2-4) g0]
  show ?thesis
  proof (cases "gd_Action dec0 \<noteq> ActionWaitForPredecessor \<or> \<not> eager")
    case True
    then have "dec = dec0" "th = th0" "db1 = db" using assms(5) by (simp_all add: gate_decide_def Let_def th0 g0)
    with V0 assms(1) th0 show ?thesis by simp
  next
    case False
    then have alive: "th_State th0 \<noteq> ThreadDead" using V0 by (auto simp: verdict_holds_def)
    obtain db' rc where r: "Recover ?S (x_GateLease X) now t db = Inr (db', rc)" "db_ok db'" "frame i db db'"
      "Thread_Get db' t = Inr (th0\<lparr>th_LastSentSeq := rc_To rc\<rparr>)" "db_deliveries db' = db_deliveries db"
      "rc_Advanced rc = rc_To rc - th_LastSentSeq th0"
      by (rule recover_ok [OF assms(1) th0, where U = "x_U X" and now = now and lease = "x_GateLease X" and i = i])
        (use alive in simp)
    show ?thesis
    proof (cases "rc_Advanced rc = 0")
      case True
      then have eqs: "dec = dec0" "th = th0" "db1 = db'" using assms(5) False by (simp_all add: gate_decide_def Let_def th0 g0 r(1))
      have "Thread_Get db' t = Inr th0" using r(4,6) True by simp
      moreover have "verdict_holds db' d th0 (gd_Action dec0)" using V0 False by (simp add: verdict_holds_def)
      ultimately show ?thesis using eqs r by simp
    next
      case adv: False
      let ?th = "th0\<lparr>th_LastSentSeq := rc_To rc\<rparr>"
      obtain dec1 oth1 where g1: "Gate_Claim ?S (x_Policy X) now (item d t (effectiveMode d ?th c)) db' = Inr (dec1, oth1)"
        using r(4) by (simp add: Gate_Claim_def Ordering_LoadThread_def item_def)
      have "verdict_holds db' d ?th (gd_Action dec1)"
        by (rule Gate_Claim_holds [OF r(2,4) _ assms(3,4) g1]) (simp add: r(5) assms(2))
      moreover have "dec = dec1" "th = ?th" "db1 = db'"
        using assms(5) False adv by (simp_all add: gate_decide_def Let_def th0 g0 r(1,4) g1)
      ultimately show ?thesis using r by simp
    qed
  qed
qed


section \<open>The first transaction\<close>

lemma AdvanceSent_behind:
  assumes "db_ok db" "Thread_Get db t = Inr th" "s \<le> th_LastSentSeq th"
  shows "same_order db (AdvanceSent db t s)"
proof -
  have "(if th_ID x = t \<and> s < th_NextSeq x then x\<lparr>th_LastSentSeq := max (th_LastSentSeq x) s\<rparr> else x) = x"
    if x: "x \<in> set (db_threads db)" for x
  proof (cases "th_ID x = t")
    case True
    have "distinct (map th_ID (db_threads db))" using db_okD(1) [OF assms(1)] by (simp add: tables_ok_def)
    from get_row_Inr_iff [OF this, of "''thread_not_found''" t x] x True assms(2) have "x = th"
      by (simp add: Thread_Get_def)
    with assms(3) show ?thesis by (simp add: max_def)
  qed simp
  then show ?thesis by (simp add: same_order_def AdvanceSent_def set_threads_def update_where_def map_idI)
qed

lemma unresolved_row:
  assumes "db_ok db" "d \<in> set (db_deliveries db)" "\<not> DeliveryStatus_Resolved (dl_Status d)"
    and "x \<in> set (db_deliveries db)" "dl_ID x = dl_ID d"
  shows "\<not> DeliveryStatus_Resolved (dl_Status x)"
  using tables_ok_same_id [OF db_okD(1) [OF assms(1)] assms(4,2,5)] assms(3) by simp

lemma ClearPointer_ok:
  assumes "db_ok db"
  shows "db_ok (ClearPointer db t) \<and> frame i db (ClearPointer db t)"
proof
  show "db_ok (ClearPointer db t)" unfolding ClearPointer_def
    by (rule db_ok_set_threads [OF assms]) (simp_all add: thread_ok_def seq_ok_def split: option.splits)
  show "frame i db (ClearPointer db t)" unfolding ClearPointer_def by (rule frame_set_threads) simp_all
qed

lemma recoverDeadThread_ok:
  assumes "db_ok db" "d \<in> set (db_deliveries db)" "dl_ThreadID d = Some t" "\<not> DeliveryStatus_Resolved (dl_Status d)"
    and th: "Thread_Get db t = Inr th" "th_State th = ThreadDead"
  shows "prepared_ok (dl_ID d) db (recoverDeadThread X db d th now)"
proof (cases "case th_DeadReason th of Some r \<Rightarrow> Recoverable r | None \<Rightarrow> False")
  case True
  have c: "db_ok (ClearPointer db (th_ID th)) \<and> frame (dl_ID d) db (ClearPointer db (th_ID th))"
    by (rule ClearPointer_ok [OF assms(1)])
  have rows: "db_deliveries (ClearPointer db (th_ID th)) = db_deliveries db" by (simp add: ClearPointer_def set_threads_def)
  have "db_ok (RepointToRoot (ClearPointer db (th_ID th)) (dl_ID d) now) \<and>
      frame (dl_ID d) (ClearPointer db (th_ID th)) (RepointToRoot (ClearPointer db (th_ID th)) (dl_ID d) now)"
    by (rule RepointToRoot_ok) (use c unresolved_row [OF assms(1,2,4)] rows in simp_all)
  then have "db_ok (RepointToRoot (ClearPointer db (th_ID th)) (dl_ID d) now) \<and>
      frame (dl_ID d) db (RepointToRoot (ClearPointer db (th_ID th)) (dl_ID d) now)"
    using c frame_trans by blast
  from same_order_result [OF this same_order_ops(3)] True show ?thesis
    by (simp add: recoverDeadThread_def prepared_ok_def Let_def)
next
  case False
  have tid: "th_ID th = t" using Thread_GetD [OF th(1)] by simp
  obtain db1 rc where r: "Recover (OrderingStore (x_U X) now) (x_GateLease X) now t db = Inr (db1, rc)" "db_ok db1"
      "frame (dl_ID d) db db1" "Thread_Get db1 t = Inr (th\<lparr>th_LastSentSeq := rc_To rc\<rparr>)" "rc_To rc = th_NextSeq th - 1"
    by (rule recover_ok [OF assms(1) th(1), where U = "x_U X" and now = now and lease = "x_GateLease X" and i = "dl_ID d"])
      (use th(2) in simp)
  let ?db2 = "Delivery_MarkDead db1 (dl_ID d) ClassPermanent now"
  have db2: "db_ok ?db2 \<and> frame (dl_ID d) db1 ?db2" by (rule row_resolved_ok(2) [OF r(2)])
  then have db2': "db_ok ?db2 \<and> frame (dl_ID d) db ?db2" using frame_trans [OF r(3)] by blast
  have "ThreadSeq d \<le> rc_To rc"
  proof -
    have "seq_ok th (dl_Status d) (dl_ThreadSeq d)" "thread_ok th"
      using db_okD(3) [OF assms(1,2)] db_okD(2) [OF assms(1) th(1)] assms(3) th(1) by (simp_all add: row_ok_def)
    then show ?thesis using r(5) by (auto simp: seq_ok_def thread_ok_def ThreadSeq_def split: option.splits)
  qed
  then have le: "ThreadSeq d \<le> th_LastSentSeq (th\<lparr>th_LastSentSeq := rc_To rc\<rparr>)" by simp
  have get2: "Thread_Get ?db2 t = Inr (th\<lparr>th_LastSentSeq := rc_To rc\<rparr>)"
    using r(4) by (simp add: Delivery_MarkDead_def Thread_Get_def set_deliveries_def)
  have so: "same_order ?db2 (AdvanceSent ?db2 t (ThreadSeq d))"
    by (rule AdvanceSent_behind [OF conjunct1 [OF db2] get2 le])
  have "prepared_ok (dl_ID d) db (finished (settle X (AdvanceSent ?db2 t (ThreadSeq d)) e))" for e
    by (rule finished_ok) (rule same_order_result [OF db2' same_order_trans [OF so settle_order]])
  with False show ?thesis by (simp add: recoverDeadThread_def tid r(1) Let_def)
qed

lemma next_up_head_row:
  assumes "db_ok db" "d \<in> set (db_deliveries db)" "\<not> DeliveryStatus_Resolved (dl_Status d)"
    and "dl_ThreadSeq d = None \<or> next_up db d"
  shows "head_row db d"
proof -
  have "ThreadSeq d \<le> th_LastSentSeq th + 1" if "dl_ThreadID d = Some t" "Thread_Get db t = Inr th" for t th
    using assms(4) that db_okD(2) [OF assms(1) that(2)] by (auto simp: next_up_def ThreadSeq_def thread_ok_def)
  moreover have "same_slot d d" by (simp add: same_slot_def)
  ultimately show ?thesis using assms(2,3) unfolding head_row_def by metis
qed

lemma recoverThread_ok:
  assumes "db_ok db" "d \<in> set (db_deliveries db)" "dl_ThreadID d = Some t" "\<not> DeliveryStatus_Resolved (dl_Status d)"
    and seq: "\<And>th. Thread_Get db t = Inr th \<Longrightarrow> th_State th = ThreadDead \<or>
      (\<exists>s. dl_ThreadSeq d = Some s \<and> th_LastSentSeq th + 1 < s \<and> s < th_NextSeq th)"
  shows "prepared_ok (dl_ID d) db (recoverThread X db d t c why now)"
proof -
  obtain th where th: "Thread_Get db t = Inr th" by (rule db_ok_threaded [OF assms(1-3)])
  show ?thesis
  proof (cases "th_State th = ThreadDead")
    case True
    then show ?thesis using recoverDeadThread_ok [OF assms(1-4) th True, of X now] by (simp add: recoverThread_def th)
  next
    case False
    obtain db1 rc where r: "Recover (OrderingStore (x_U X) now) (x_GateLease X) now t db = Inr (db1, rc)" "db_ok db1"
        "frame (dl_ID d) db db1" "Thread_Get db1 t = Inr (th\<lparr>th_LastSentSeq := rc_To rc\<rparr>)" "db_deliveries db1 = db_deliveries db"
        "rc_Advanced rc = rc_To rc - th_LastSentSeq th" "th_LastSentSeq th \<le> rc_To rc"
        "rc_To rc + 1 < th_NextSeq th \<Longrightarrow> rc_StalledItem rc \<noteq> 0"
      by (rule recover_ok [OF assms(1) th, where U = "x_U X" and now = now and lease = "x_GateLease X" and i = "dl_ID d"])
        (use False in simp)
    define db2 where "db2 = (if rc_StalledItem rc \<noteq> 0 \<and> rc_StalledItem rc \<noteq> dl_ID d then Enqueue db1 (rc_StalledItem rc) else db1)"
    have so2: "same_order db1 db2" by (simp add: db2_def same_order_def Enqueue_def)
    from same_order_result [OF conjI [OF r(2,3)] so2] have ok2: "db_ok db2" "frame (dl_ID d) db db2" by simp_all
    have rows2: "db_deliveries db2 = db_deliveries db" and th2: "Thread_Get db2 t = Inr (th\<lparr>th_LastSentSeq := rc_To rc\<rparr>)"
      using so2 r(4,5) by (simp_all add: same_order_def Thread_Get_def)
    have d2: "d \<in> set (db_deliveries db2)" using rows2 assms(2) by simp
    have stuck: "rc_Advanced rc > 0 \<or> rc_StalledItem rc \<noteq> 0"
      using seq [OF th] False r(6-8) by auto
    have "prepared_ok (dl_ID d) db2 (case gd_Action dec of
          ActionProceed \<Rightarrow> dispatch_claim X db3 d th3 c mode now
        | ActionOutOfOrder \<Rightarrow> Inr (outcome0, None, db3)
        | ActionAbandon \<Rightarrow> finished (abandon X db3 d now)
        | _ \<Rightarrow> recover_give_up X db3 d th3 rc why now)"
      if g: "gate_decide X db2 d t c False now = Inr (dec, th3, mode, db3)" for dec th3 mode db3
    proof -
      note G = gate_decide_ok [OF ok2(1) d2 assms(3,4) g, of "dl_ID d"]
      then have d3: "d \<in> set (db_deliveries db3)" "db_ok db3" "frame (dl_ID d) db2 db3" using d2 by simp_all
      have "prepared_ok (dl_ID d) db3 (recover_give_up X db3 d th3 rc why now)"
        using stuck d3(2) by (simp add: recover_give_up_def prepared_ok_def)
      moreover have "prepared_ok (dl_ID d) db3 (finished (abandon X db3 d now))" if "dl_ThreadSeq d = None"
        by (rule finished_ok) (rule abandon_ok [OF d3(2) next_up_head_row [OF d3(2,1) assms(4)]], simp_all add: that)
      moreover have "prepared_ok (dl_ID d) db3 (dispatch_claim X db3 d th3 c mode now)" if "next_up db3 d"
        by (rule dispatch_claim_ok [OF d3(2,1) that])
      ultimately show ?thesis
        using G by (intro prepared_ok_frame [OF d3(3)]) (cases "gd_Action dec", simp_all add: verdict_holds_def)
    qed
    then have "prepared_ok (dl_ID d) db2 (recoverThread X db d t c why now)"
      using False by (simp add: recoverThread_def th r(1) th2 flip: db2_def) (auto intro!: prepared_ok_rbind)
    then show ?thesis by (rule prepared_ok_frame [OF ok2(2)])
  qed
qed

end
