(* ===== verification/Dispatch_System.thy ===== *)
theory Dispatch_System
  imports Dispatch_Order
begin

text \<open>
  The dispatcher as a system of interleaved workers over the tables of \<open>Thread_Store\<close>. Each step is one
  transaction (\<open>Ensure\<close>, \<open>createDelivery\<close>, a delivery recorded as skipped, \<open>prepare\<close>, \<open>record_send\<close>), the provider accepting a message, or a worker
  dying between its two transactions. The invariant \<open>sys_ok\<close> holds in every reachable state and gives the ordering
  guarantees of a conversation.
\<close>

section \<open>The first transaction keeps the tables consistent\<close>

lemma prepare_due_ok:
  assumes "db_ok db" "d \<in> set (db_deliveries db)" "\<not> DeliveryStatus_Resolved (dl_Status d)"
  shows "prepared_ok (dl_ID d) db (prepare_due X db d now)"
proof (cases "dl_ThreadID d")
  case None
  then have "next_up db d" by (simp add: next_up_def)
  then have "prepared_ok (dl_ID d) db (dispatch_claim X db d zeroThread c ModePostRoot now)" for c
    by (rule dispatch_claim_ok [OF assms(1,2)])
  with None show ?thesis by (simp add: prepare_due_def prepared_ok_rbind)
next
  case (Some t)
  have "prepared_ok (dl_ID d) db (case gd_Action dec of
        ActionProceed \<Rightarrow> dispatch_claim X db1 d th c mode now
      | ActionWaitForRoot \<Rightarrow> Inr (outcome0\<lparr>o_snoozeFor := gd_Wait dec, o_snoozeReason := gd_Reason dec\<rparr>, None, db1)
      | ActionWaitForPredecessor \<Rightarrow> Inr (outcome0\<lparr>o_snoozeFor := gd_Wait dec, o_snoozeReason := gd_Reason dec\<rparr>, None, db1)
      | ActionOutOfOrder \<Rightarrow> Inr (outcome0, None, db1)
      | ActionAbandon \<Rightarrow> finished (abandon X db1 d now)
      | ActionRecoverThread \<Rightarrow> recoverThread X db1 d t c (gd_Reason dec) now)"
    if g: "gate_decide X db d t c True now = Inr (dec, th, mode, db1)" for c dec th mode db1
  proof -
    note G = gate_decide_ok [OF assms(1,2) Some assms(3) g, of "dl_ID d"]
    then have d1: "d \<in> set (db_deliveries db1)" "db_ok db1" "frame (dl_ID d) db db1" using assms(2) by simp_all
    have "prepared_ok (dl_ID d) db1 (finished (abandon X db1 d now))" if "dl_ThreadSeq d = None"
      by (rule finished_ok) (rule abandon_ok [OF d1(2) next_up_head_row [OF d1(2,1) assms(3)]], simp_all add: that)
    moreover have "prepared_ok (dl_ID d) db1 (dispatch_claim X db1 d th c mode now)" if "next_up db1 d"
      by (rule dispatch_claim_ok [OF d1(2,1) that])
    moreover have "prepared_ok (dl_ID d) db1 (recoverThread X db1 d t c why now)"
      if "th_State th = ThreadDead \<or> (\<exists>s. dl_ThreadSeq d = Some s \<and> th_LastSentSeq th + 1 < s \<and> s < th_NextSeq th)" for why
      by (rule recoverThread_ok [OF d1(2,1) Some assms(3)]) (use G that in simp)
    moreover have "prepared_ok (dl_ID d) db1 (Inr (out, None, db1))" for out using d1(2) by (simp add: prepared_ok_def)
    ultimately show ?thesis
      using G by (intro prepared_ok_frame [OF d1(3)]) (cases "gd_Action dec", simp_all add: verdict_holds_def)
  qed
  then show ?thesis using Some by (auto simp: prepare_due_def intro!: prepared_ok_rbind)
qed

lemma prepare_ok:
  assumes "db_ok db"
  shows "prepared_ok i db (prepare X db i now)"
proof -
  have "prepared_ok i db (if DeliveryStatus_Resolved (dl_Status d) then Inr (outcome0, None, db)
       else case (if dl_Status d = DeliveryFailed then dl_NextAttemptAt d else None) of
         Some due \<Rightarrow> if due > now then Inr (outcome0\<lparr>o_snoozeFor := t_sub due now, o_snoozeReason := ''not_due''\<rparr>, None, db)
                    else prepare_due X db d now
       | None \<Rightarrow> prepare_due X db d now)" if "Delivery_Get db i = Inr d" for d
  proof -
    have d: "d \<in> set (db_deliveries db)" "dl_ID d = i" using Delivery_GetD [OF that] by simp_all
    then have "prepared_ok i db (prepare_due X db d now)" if "\<not> DeliveryStatus_Resolved (dl_Status d)"
      using prepare_due_ok [OF assms d(1) that] by simp
    moreover have "prepared_ok i db (Inr (out, None, db))" for out using assms by (simp add: prepared_ok_def)
    ultimately show ?thesis by (simp split: option.split)
  qed
  then show ?thesis unfolding prepare_def by (rule prepared_ok_rbind)
qed

text \<open>While the lease of a claim lasts, another worker that picks the same delivery up changes nothing.\<close>

lemma gate_decide_sending:
  assumes "db_ok db" "d \<in> set (db_deliveries db)" "dl_ThreadID d = Some t" "dl_Status d = DeliverySending"
    and g: "gate_decide X db d t c True now = Inr (dec, th, mode, db1)"
  shows "gd_Action dec = ActionProceed \<and> db1 = db"
proof -
  let ?S = "OrderingStore (x_U X) now"
  obtain th0 where th0: "Thread_Get db t = Inr th0" "seq_ok th0 (dl_Status d) (dl_ThreadSeq d)"
    by (rule db_ok_threaded [OF assms(1-3)])
  obtain dec0 oth0 where g0: "Gate_Claim ?S (x_Policy X) now (item d t (effectiveMode d th0 c)) db = Inr (dec0, oth0)"
    using th0 by (simp add: Gate_Claim_def Ordering_LoadThread_def item_def)
  have "gd_Action dec0 = ActionProceed"
    by (rule Gate_Claim_cases [OF assms(1) th0(1) assms(2,3) _ g0])
      (use th0(2) assms(4) in \<open>auto simp: seq_ok_def split: option.splits\<close>)
  with g show ?thesis by (auto simp: gate_decide_def Let_def th0(1) g0)
qed

lemma prepare_leased:
  assumes "db_ok db" "d \<in> set (db_deliveries db)" "dl_Status d = DeliverySending"
    and "\<not> claimable (dl_ID d) (now - x_Lease X) d" "prepare X db (dl_ID d) now = Inr (out, plan, db')"
  shows "plan = None \<and> db' = db"
proof -
  have same: "y = d" if "y \<in> set (db_deliveries db)" "dl_ID y = dl_ID d" for y
    by (rule tables_ok_same_id [OF db_okD(1) [OF assms(1)] that(1) assms(2) that(2)])
  have "find (claimable (dl_ID d) (now - x_Lease X)) (db_deliveries db) = None"
    unfolding find_None_iff using same assms(4) by (metis claimable_def)
  then have cl: "dispatch_claim X db d th c mode now = Inr (outcome0, None, db)" for th c mode
    by (simp add: dispatch_claim_def Delivery_Claim_def)
  obtain d0 where d0: "Delivery_Get db (dl_ID d) = Inr d0" using assms(5) by (auto simp: prepare_def rbind_Inr_iff)
  have "d0 = d" using Delivery_GetD [OF d0] same by simp
  with assms(3,5) d0 have "prepare_due X db d now = Inr (out, plan, db')" by (simp add: prepare_def)
  then show ?thesis
    by (cases "dl_ThreadID d")
      (auto simp: prepare_due_def rbind_Inr_iff cl dest!: gate_decide_sending [OF assms(1,2) _ assms(3)])
qed

section \<open>New threads and new deliveries\<close>

lemma db_ok_insert:
  assumes "db_ok db" "dl_ID d \<noteq> 0" "dl_ID d \<notin> set (map dl_ID (db_deliveries db))" "row_ok db d"
    and "\<And>e s. e \<in> set (db_deliveries db) \<Longrightarrow> dl_ThreadID d \<noteq> None \<Longrightarrow> dl_ThreadID e = dl_ThreadID d \<Longrightarrow>
      dl_ThreadSeq d = Some s \<Longrightarrow> dl_ThreadSeq e \<noteq> Some s"
  shows "db_ok (db\<lparr>db_deliveries := db_deliveries db @ [d]\<rparr>)"
proof -
  have "row_ok (db\<lparr>db_deliveries := db_deliveries db @ [d]\<rparr>) = row_ok db" by (rule row_ok_frame) simp
  moreover have "tables_ok (db\<lparr>db_deliveries := db_deliveries db @ [d]\<rparr>)"
    using db_okD(1) [OF assms(1)] assms(2,3,5) by (auto simp: tables_ok_def)
  ultimately show ?thesis using assms(1,4) by (auto simp: db_ok_def)
qed

lemma AllocateSeq_ok:
  assumes "db_ok db" "AllocateSeq db t = Inr (db', s)"
  obtains th where "Thread_Get db t = Inr th" "s = th_NextSeq th" "db_ok db'" "frame i db db'"
    "db_deliveries db' = db_deliveries db" "Thread_Get db' t = Inr (th\<lparr>th_NextSeq := s + 1\<rparr>)"
proof -
  obtain th where th: "Thread_Get db t = Inr th" "s = th_NextSeq th"
      "db' = set_threads db (\<lambda>x. th_ID x = t) (\<lambda>x. x\<lparr>th_NextSeq := th_NextSeq x + 1\<rparr>)"
    using assms(2) by (auto simp: AllocateSeq_def rbind_Inr_iff)
  show ?thesis
  proof (rule that [OF th(1,2)])
    show "db_ok db'" unfolding th(3)
      by (rule db_ok_set_threads [OF assms(1)]) (simp_all add: thread_ok_def seq_ok_def split: option.splits)
    show "frame i db db'" unfolding th(3) by (rule frame_set_threads) simp_all
    show "db_deliveries db' = db_deliveries db" by (simp add: th(3) set_threads_def)
    show "Thread_Get db' t = Inr (th\<lparr>th_NextSeq := s + 1\<rparr>)"
      using Thread_GetD [OF th(1)] by (simp add: th Thread_Get_set_threads)
  qed
qed

lemma frame_insert: "frame i db (db\<lparr>db_deliveries := db_deliveries db @ [d]\<rparr>)"
  by (auto simp: frame_def heads_le_def Thread_Get_def)

text \<open>What \<open>createDelivery\<close> inserts, and that the number it draws is one above every number drawn before.\<close>

lemma createDelivery_threaded:
  assumes "nd_ThreadID p = Some t" "nd_ID p \<notin> set (map dl_ID (db_deliveries db))" "createDelivery db p now = Inr (db', True)"
  obtains db1 s d where "AllocateSeq db t = Inr (db1, s)" "db' = Enqueue (db1\<lparr>db_deliveries := db_deliveries db1 @ [d]\<rparr>) (nd_ID p)"
    "dl_ID d = nd_ID p" "dl_ThreadID d = Some t" "dl_ThreadSeq d = Some s" "dl_Status d = DeliveryPending" "1 \<le> s"
proof -
  define d where "d = \<lparr>dl_ID = nd_ID p, dl_NotificationID = nd_NotificationID p, dl_ChannelID = nd_ChannelID p,
    dl_ThreadID = Some t, dl_ThreadSeq = None, dl_Mode = nd_Mode p, dl_Status = DeliveryPending, dl_Attempts = 0,
    dl_NextAttemptAt = None, dl_RenderedHash = None, dl_ProviderMessageID = None, dl_ProviderConversationID = None,
    dl_ErrorClass = None, dl_Ambiguous = False, dl_SentAt = None, dl_CreatedAt = now, dl_UpdatedAt = now\<rparr>"
  let ?db = "db\<lparr>db_deliveries := db_deliveries db @ [d]\<rparr>"
  have "Delivery_Create db (p\<lparr>nd_ThreadSeq := 0, nd_CreatedAt := now\<rparr>) = (?db, d, True)"
    using assms(1,3) by (auto simp: createDelivery_def Delivery_Create_def d_def Let_def split: option.splits)
  then obtain th db2 where th: "Thread_Get ?db t = Inr th"
      "SetThreadSeq (set_threads ?db (\<lambda>x. th_ID x = t) (\<lambda>x. x\<lparr>th_NextSeq := th_NextSeq x + 1\<rparr>)) (dl_ID d) (th_NextSeq th) now = Inr db2"
      "db' = Enqueue db2 (dl_ID d)"
    using assms(1,3) by (auto simp: createDelivery_def rbind_Inr_iff AllocateSeq_def)
  let ?f = "\<lambda>x :: Delivery. x\<lparr>dl_ThreadSeq := Some (th_NextSeq th), dl_UpdatedAt := max (dl_UpdatedAt x) now\<rparr>"
  have fresh: "x \<in> set (db_deliveries db) \<Longrightarrow> dl_ID x \<noteq> nd_ID p" for x
    using assms(2) by (metis image_eqI set_map)
  have "update_where (\<lambda>x. dl_ID x = nd_ID p \<and> dl_ThreadSeq x = None) ?f (db_deliveries db @ [d]) = db_deliveries db @ [?f d]"
    by (rule update_where_fresh) (simp_all add: fresh, simp_all add: d_def)
  then have db': "db' = Enqueue (set_threads db (\<lambda>x. th_ID x = t) (\<lambda>x. x\<lparr>th_NextSeq := th_NextSeq x + 1\<rparr>)
      \<lparr>db_deliveries := db_deliveries db @ [?f d]\<rparr>) (nd_ID p)" and s: "1 \<le> th_NextSeq th"
    using th(2,3) by (auto simp: SetThreadSeq_def set_deliveries_def set_threads_def d_def split: if_splits)
  show ?thesis
    by (rule that [where d = "?f d" and s = "th_NextSeq th"])
      (use th(1) s in \<open>simp_all add: AllocateSeq_def Thread_Get_def db' set_threads_def\<close>, simp_all add: d_def)
qed

lemma createDelivery_unthreaded:
  assumes "nd_ThreadID p = None" "createDelivery db p now = Inr (db', True)"
  obtains d where "db' = Enqueue (db\<lparr>db_deliveries := db_deliveries db @ [d]\<rparr>) (nd_ID p)" "dl_ID d = nd_ID p" "dl_ThreadID d = None"
  using assms by (auto simp: createDelivery_def Delivery_Create_def Let_def split: option.splits)

lemma createDelivery_ok:
  assumes "db_ok db" "nd_ID p \<noteq> 0" "nd_ID p \<notin> set (map dl_ID (db_deliveries db))" "createDelivery db p now = Inr (db', made)"
  shows "db_ok db' \<and> frame i db db'"
proof (cases made)
  case False
  then have "db' = db"
    using assms(4) by (auto simp: createDelivery_def Delivery_Create_def rbind_Inr_iff Let_def split: option.splits)
  then show ?thesis using assms(1) by simp
next
  case True
  then have made: "made = True" by simp
  show ?thesis
  proof (cases "nd_ThreadID p")
    case None
    obtain d where d: "db' = Enqueue (db\<lparr>db_deliveries := db_deliveries db @ [d]\<rparr>) (nd_ID p)" "dl_ID d = nd_ID p" "dl_ThreadID d = None"
      by (rule createDelivery_unthreaded [OF None assms(4) [unfolded made]])
    have "db_ok (db\<lparr>db_deliveries := db_deliveries db @ [d]\<rparr>)"
      by (rule db_ok_insert [OF assms(1)]) (use assms(2,3) d(2,3) in \<open>simp_all add: row_ok_def\<close>)
    from same_order_result [OF conjI [OF this frame_insert] same_order_ops(3)] show ?thesis by (simp add: d(1))
  next
    case (Some t)
    obtain db1 s d where c: "AllocateSeq db t = Inr (db1, s)" "db' = Enqueue (db1\<lparr>db_deliveries := db_deliveries db1 @ [d]\<rparr>) (nd_ID p)"
        "dl_ID d = nd_ID p" "dl_ThreadID d = Some t" "dl_ThreadSeq d = Some s" "dl_Status d = DeliveryPending" "1 \<le> s"
      by (rule createDelivery_threaded [OF Some assms(3) assms(4) [unfolded made]])
    obtain th where a: "Thread_Get db t = Inr th" "s = th_NextSeq th" "db_ok db1" "frame i db db1"
        "db_deliveries db1 = db_deliveries db" "Thread_Get db1 t = Inr (th\<lparr>th_NextSeq := s + 1\<rparr>)"
      by (rule AllocateSeq_ok [OF assms(1) c(1)])
    have "dl_ThreadSeq e \<noteq> Some s" if "e \<in> set (db_deliveries db)" "dl_ThreadID e = Some t" for e
      using db_okD(3) [OF assms(1) that(1)] that(2) a(1,2) by (auto simp: row_ok_def seq_ok_def)
    moreover have "row_ok db1 d"
      using c(4-7) a(1,2,6) db_okD(2) [OF assms(1) a(1)] by (simp add: row_ok_def seq_ok_def known_def thread_ok_def)
    ultimately have "db_ok (db1\<lparr>db_deliveries := db_deliveries db1 @ [d]\<rparr>)"
      by (intro db_ok_insert [OF a(3)]) (use assms(2,3) c(3-5) a(5) in simp_all)
    from same_order_result [OF conjI [OF this frame_trans [OF a(4) frame_insert]] same_order_ops(3)] show ?thesis by (simp add: c(2))
  qed
qed

text \<open>A delivery that is recorded as skipped at once never enters a conversation.\<close>

lemma Delivery_Create_new:
  assumes "Delivery_Create db p = (db', d, True)"
  shows "db' = db\<lparr>db_deliveries := db_deliveries db @ [d]\<rparr>" "dl_ID d = nd_ID p" "dl_ThreadID d = nd_ThreadID p"
    "dl_NotificationID d = nd_NotificationID p" "dl_Status d = DeliveryPending"
  using assms by (auto simp: Delivery_Create_def Let_def split: option.splits)

lemma Delivery_skip:
  assumes "nd_ID p \<notin> set (map dl_ID (db_deliveries db))" "Delivery_Create db p = (db', row, True)"
  obtains d where "MarkSkipped db' (dl_ID row) now = db\<lparr>db_deliveries := db_deliveries db @ [d]\<rparr>" "dl_ID d = nd_ID p"
    "dl_ThreadID d = nd_ThreadID p" "dl_NotificationID d = nd_NotificationID p" "dl_Status d = DeliverySkipped"
proof -
  note c = Delivery_Create_new [OF assms(2)]
  have "x \<in> set (db_deliveries db) \<Longrightarrow> dl_ID x \<noteq> nd_ID p" for x using assms(1) by (metis image_eqI set_map)
  then have "MarkSkipped db' (dl_ID row) now = db\<lparr>db_deliveries := db_deliveries db @
      [row\<lparr>dl_Status := DeliverySkipped, dl_ErrorClass := None, dl_NextAttemptAt := None, dl_UpdatedAt := max (dl_UpdatedAt row) now\<rparr>]\<rparr>"
    by (simp add: MarkSkipped_def set_deliveries_def c update_where_fresh)
  then show ?thesis by (rule that) (simp_all add: c)
qed

lemma Delivery_skip_ok:
  assumes "db_ok db" "nd_ThreadID p = None" "nd_ID p \<noteq> 0" "nd_ID p \<notin> set (map dl_ID (db_deliveries db))"
    and "Delivery_Create db p = (db', row, True)"
  shows "db_ok (MarkSkipped db' (dl_ID row) now) \<and> frame i db (MarkSkipped db' (dl_ID row) now)"
proof -
  obtain d where d: "MarkSkipped db' (dl_ID row) now = db\<lparr>db_deliveries := db_deliveries db @ [d]\<rparr>" "dl_ID d = nd_ID p"
      "dl_ThreadID d = nd_ThreadID p"
    by (rule Delivery_skip [OF assms(4,5)])
  have "db_ok (db\<lparr>db_deliveries := db_deliveries db @ [d]\<rparr>)"
    by (rule db_ok_insert [OF assms(1)]) (use assms(2-4) d(2,3) in \<open>simp_all add: row_ok_def\<close>)
  then show ?thesis by (simp add: d(1) frame_insert)
qed

lemma Ensure_ok:
  assumes "db_ok db" "fresh \<notin> set (map th_ID (db_threads db))"
  shows "db_ok (fst (Ensure db fresh c k u)) \<and> frame i db (fst (Ensure db fresh c k u))"
proof (cases "find (\<lambda>t. th_ChannelID t = c \<and> th_SubjectKind t = k \<and> th_SubjectID t = u) (db_threads db)")
  case None
  then obtain th where e: "fst (Ensure db fresh c k u) = db\<lparr>db_threads := db_threads db @ [th]\<rparr>" "th_ID th = fresh" "thread_ok th"
    by (simp add: Ensure_def Let_def thread_ok_def)
  let ?db = "db\<lparr>db_threads := db_threads db @ [th]\<rparr>"
  have get: "Thread_Get ?db t = Inr x" if "Thread_Get db t = Inr x" for t x
    using that by (simp add: Thread_Get_def get_row_def find_app split: option.splits)
  have "row_ok ?db d" if "d \<in> set (db_deliveries db)" for d
    using db_okD(3) [OF assms(1) that] get by (auto simp: row_ok_def split: option.splits sum.splits)
  moreover have "tables_ok ?db" using db_okD(1) [OF assms(1)] assms(2) e(2) by (auto simp: tables_ok_def)
  ultimately have "db_ok ?db" using assms(1) e(3) by (auto simp: db_ok_def)
  moreover have "frame i db ?db" using get by (auto simp: frame_def heads_le_def)
  ultimately show ?thesis by (simp add: e(1))
qed (use assms(1) in \<open>simp add: Ensure_def\<close>)

section \<open>The system\<close>

text \<open>
  \<open>sy_inflight\<close> holds the plans of the workers between their two transactions; \<open>sy_landed\<close> is what the
  providers have accepted, oldest first, as pairs of a thread and a position.
\<close>

record Sys =
  sy_db :: DB
  sy_inflight :: "sendPlan list"
  sy_landed :: "(uuid \<times> int) list"

definition boot :: "DB \<Rightarrow> Sys" where
  "boot db = \<lparr>sy_db = db, sy_inflight = [], sy_landed = []\<rparr>"

definition plan_id :: "sendPlan \<Rightarrow> uuid" where
  "plan_id p = dl_ID (sp_delivery p)"

definition plan_slot :: "sendPlan \<Rightarrow> (uuid \<times> int) list" where
  "plan_slot p = (case dl_ThreadID (sp_delivery p) of None \<Rightarrow> [] | Some t \<Rightarrow> [(t, ThreadSeq (sp_delivery p))])"

text \<open>The lease of every plan in flight for \<open>i\<close> still runs: its row is not up for a second claim.\<close>

definition lease_runs :: "'v ext \<Rightarrow> Sys \<Rightarrow> uuid \<Rightarrow> time \<Rightarrow> bool" where
  "lease_runs X s i now \<longleftrightarrow> (i \<in> set (map plan_id (sy_inflight s)) \<longrightarrow>
     (\<forall>r\<in>set (db_deliveries (sy_db s)). \<not> claimable i (now - x_Lease X) r))"

inductive dispatch_step :: "'v ext \<Rightarrow> Sys \<Rightarrow> Sys \<Rightarrow> bool" for X :: "'v ext" where
  ensure: "fresh \<notin> set (map th_ID (db_threads (sy_db s))) \<Longrightarrow>
    dispatch_step X s (s\<lparr>sy_db := fst (Ensure (sy_db s) fresh c k u)\<rparr>)"
| create: "nd_ID p \<noteq> 0 \<Longrightarrow> nd_ID p \<notin> set (map dl_ID (db_deliveries (sy_db s))) \<Longrightarrow>
    createDelivery (sy_db s) p now = Inr (db', made) \<Longrightarrow> dispatch_step X s (s\<lparr>sy_db := db'\<rparr>)"
| prepare: "lease_runs X s i now \<Longrightarrow> prepare X (sy_db s) i now = Inr (out, plan, db') \<Longrightarrow>
    dispatch_step X s (s\<lparr>sy_db := db', sy_inflight := (case plan of None \<Rightarrow> [] | Some p \<Rightarrow> [p]) @ sy_inflight s\<rparr>)"
| accept: "p \<in> set (sy_inflight s) \<Longrightarrow> dispatch_step X s (s\<lparr>sy_landed := sy_landed s @ plan_slot p\<rparr>)"
| record_answer: "p \<in> set (sy_inflight s) \<Longrightarrow> record_send X (sy_db s) p answer now = Inr (out, db') \<Longrightarrow>
    dispatch_step X s (s\<lparr>sy_db := db', sy_inflight := remove1 p (sy_inflight s)\<rparr>)"
| crash: "p \<in> set (sy_inflight s) \<Longrightarrow> dispatch_step X s (s\<lparr>sy_inflight := remove1 p (sy_inflight s)\<rparr>)"
| skip: "nd_ThreadID p = None \<Longrightarrow> nd_ID p \<noteq> 0 \<Longrightarrow> nd_ID p \<notin> set (map dl_ID (db_deliveries (sy_db s))) \<Longrightarrow>
    Delivery_Create (sy_db s) p = (db', row, True) \<Longrightarrow> dispatch_step X s (s\<lparr>sy_db := MarkSkipped db' (dl_ID row) now\<rparr>)"
| elsewhere: "same_order (sy_db s) db' \<Longrightarrow> dispatch_step X s (s\<lparr>sy_db := db'\<rparr>)"

definition landed_in :: "uuid \<Rightarrow> (uuid \<times> int) list \<Rightarrow> int list" where
  "landed_in t log = map snd (filter (\<lambda>e. fst e = t) log)"

definition log_ok :: "DB \<Rightarrow> (uuid \<times> int) list \<Rightarrow> bool" where
  "log_ok db log \<longleftrightarrow> (\<forall>t. sorted (landed_in t log)) \<and>
     (\<forall>t q. (t, q) \<in> set log \<longrightarrow> (\<exists>th. Thread_Get db t = Inr th \<and> q \<le> th_LastSentSeq th + 1))"

definition sys_ok :: "Sys \<Rightarrow> bool" where
  "sys_ok s \<longleftrightarrow> db_ok (sy_db s) \<and> (\<forall>p\<in>set (sy_inflight s). owned (sy_db s) (sp_delivery p)) \<and>
     distinct (map plan_id (sy_inflight s)) \<and> log_ok (sy_db s) (sy_landed s)"

lemma owned_frame: "frame i db db' \<Longrightarrow> dl_ID d \<noteq> i \<Longrightarrow> owned db d \<Longrightarrow> owned db' d"
  unfolding owned_def frame_def by (metis same_slot_def)

lemma log_ok_frame: "frame i db db' \<Longrightarrow> log_ok db log \<Longrightarrow> log_ok db' log"
  unfolding log_ok_def frame_def heads_le_def by (meson add_right_mono order_trans)

lemma owned_head:
  assumes "db_ok db" "owned db d" "dl_ThreadID d = Some t"
  obtains th where "Thread_Get db t = Inr th" "dl_ThreadSeq d = Some (th_LastSentSeq th + 1)"
proof -
  obtain r where r: "r \<in> set (db_deliveries db)" "same_slot r d" "dl_Status r = DeliverySending"
    using assms(2) unfolding owned_def by (elim bexE conjE)
  obtain th where th: "Thread_Get db t = Inr th" "seq_ok th (dl_Status r) (dl_ThreadSeq r)"
    by (rule db_ok_threaded [OF assms(1) r(1), of t]) (use r(2) assms(3) in \<open>simp add: same_slot_def\<close>)
  have "dl_ThreadSeq d = Some (th_LastSentSeq th + 1)"
    using th(2) r(2,3) by (auto simp: seq_ok_def same_slot_def split: option.splits)
  with th(1) show ?thesis by (rule that)
qed

lemma log_ok_accept:
  assumes "db_ok db" "owned db (sp_delivery p)" "log_ok db log"
  shows "log_ok db (log @ plan_slot p)"
proof (cases "dl_ThreadID (sp_delivery p)")
  case (Some t)
  obtain th where th: "Thread_Get db t = Inr th" "dl_ThreadSeq (sp_delivery p) = Some (th_LastSentSeq th + 1)"
    by (rule owned_head [OF assms(1,2) Some])
  have "q \<le> th_LastSentSeq th + 1" if "(t, q) \<in> set log" for q
    using assms(3) that th(1) unfolding log_ok_def by (metis sum.inject(2))
  with assms(3) th Some show ?thesis
    by (auto simp: log_ok_def plan_slot_def landed_in_def ThreadSeq_def sorted_append)
qed (use assms(3) in \<open>simp add: plan_slot_def\<close>)

text \<open>A transaction on delivery \<open>i\<close> keeps the invariant when no other worker is in flight for \<open>i\<close>.\<close>

lemma sys_ok_frame:
  assumes "sys_ok s" "db_ok db'" "frame i (sy_db s) db'" "set ps \<subseteq> set (sy_inflight s)" "distinct (map plan_id ps)"
    and "i \<notin> set (map plan_id ps)"
  shows "sys_ok (s\<lparr>sy_db := db', sy_inflight := ps\<rparr>)"
proof -
  have "owned db' (sp_delivery p)" if "p \<in> set ps" for p
  proof (rule owned_frame [OF assms(3)])
    show "dl_ID (sp_delivery p) \<noteq> i" using that assms(6) unfolding plan_id_def by (metis image_eqI set_map)
    show "owned (sy_db s) (sp_delivery p)" using that assms(1,4) by (auto simp: sys_ok_def)
  qed
  with assms(1,2,5) log_ok_frame [OF assms(3)] show ?thesis by (simp add: sys_ok_def)
qed

lemma frame_any:
  assumes "\<And>i. frame i db db'" "owned db d"
  shows "owned db' d"
  by (rule owned_frame [OF assms(1) _ assms(2), of "dl_ID d + 1"]) simp

lemma sys_ok_everywhere:
  assumes "sys_ok s" "db_ok db'" "\<And>i. frame i (sy_db s) db'"
  shows "sys_ok (s\<lparr>sy_db := db'\<rparr>)"
  using assms(1,2) log_ok_frame [OF assms(3)] frame_any [OF assms(3)] by (simp add: sys_ok_def)

lemma distinct_remove1_map:
  "distinct (map f ps) \<Longrightarrow> p \<in> set ps \<Longrightarrow> distinct (map f (remove1 p ps)) \<and> f p \<notin> set (map f (remove1 p ps))"
proof (induction ps)
  case (Cons x ps)
  show ?case
  proof (cases "p = x")
    case False
    have "set (remove1 p ps) \<subseteq> set ps" by (rule set_remove1_subset)
    moreover have "f p \<noteq> f x" using Cons.prems False by (metis distinct.simps(2) image_eqI list.set_map list.simps(9) set_ConsD)
    ultimately show ?thesis using Cons False by (auto dest: image_mono [where f = f])
  qed (use Cons.prems in simp)
qed simp

lemmas inflight_remove = distinct_remove1_map [where f = plan_id]

lemma prepare_keeps:
  assumes "sys_ok s" "lease_runs X s i now" "prepare X (sy_db s) i now = Inr (out, plan, db')"
  shows "sys_ok (s\<lparr>sy_db := db', sy_inflight := (case plan of None \<Rightarrow> [] | Some p \<Rightarrow> [p]) @ sy_inflight s\<rparr>)"
proof (cases "i \<in> set (map plan_id (sy_inflight s))")
  case True
  then obtain p where p: "p \<in> set (sy_inflight s)" "plan_id p = i" by auto
  then obtain r where r: "r \<in> set (db_deliveries (sy_db s))" "same_slot r (sp_delivery p)" "dl_Status r = DeliverySending"
    using assms(1) unfolding sys_ok_def owned_def by (elim conjE) (metis (no_types))
  have i: "dl_ID r = i" using r(2) p(2) by (simp add: same_slot_def plan_id_def)
  have db: "db_ok (sy_db s)" using assms(1) by (simp add: sys_ok_def)
  have "plan = None \<and> db' = sy_db s"
    using assms(2) True r(1) i
    by (intro prepare_leased [OF db r(1,3) _ assms(3) [folded i]]) (simp add: lease_runs_def)
  then show ?thesis using assms(1) by simp
next
  case False
  have ok: "db_ok db'" "frame i (sy_db s) db'" "\<And>p. plan = Some p \<Longrightarrow> plan_id p = i \<and> owned db' (sp_delivery p)"
    using prepare_ok [of "sy_db s" i X now] assms(1,3) by (simp_all add: sys_ok_def prepared_ok_def plan_id_def)
  have "sys_ok (s\<lparr>sy_db := db', sy_inflight := sy_inflight s\<rparr>)"
    by (rule sys_ok_frame [OF assms(1) ok(1,2)]) (use assms(1) False in \<open>simp_all add: sys_ok_def\<close>)
  then show ?thesis using ok(3) False by (cases plan) (auto simp: sys_ok_def)
qed

lemma record_keeps:
  assumes "sys_ok s" "p \<in> set (sy_inflight s)" "record_send X (sy_db s) p answer now = Inr (out, db')"
  shows "sys_ok (s\<lparr>sy_db := db', sy_inflight := remove1 p (sy_inflight s)\<rparr>)"
proof (rule sys_ok_frame [OF assms(1)])
  have "db_ok db' \<and> frame (dl_ID (sp_delivery p)) (sy_db s) db'"
    by (rule record_send_ok [OF _ _ assms(3)]) (use assms(1,2) in \<open>simp_all add: sys_ok_def\<close>)
  then show "db_ok db'" "frame (plan_id p) (sy_db s) db'" by (simp_all add: plan_id_def)
  show "set (remove1 p (sy_inflight s)) \<subseteq> set (sy_inflight s)" by (rule set_remove1_subset)
  show "distinct (map plan_id (remove1 p (sy_inflight s)))" "plan_id p \<notin> set (map plan_id (remove1 p (sy_inflight s)))"
    using inflight_remove [OF _ assms(2)] assms(1) by (simp_all add: sys_ok_def)
qed

lemma dispatch_step_ok:
  assumes "dispatch_step X s s'" "sys_ok s"
  shows "sys_ok s'"
  using assms
proof (induction rule: dispatch_step.induct)
  case (ensure fresh s c k u)
  then show ?case using Ensure_ok [of "sy_db s" fresh] by (intro sys_ok_everywhere) (simp_all add: sys_ok_def)
next
  case (create p s now db' made)
  then show ?case using createDelivery_ok [OF _ create(1-3)] by (intro sys_ok_everywhere) (simp_all add: sys_ok_def)
next
  case (prepare s i now out plan db')
  then show ?case by (intro prepare_keeps)
next
  case (accept p s)
  then show ?case by (simp add: sys_ok_def log_ok_accept)
next
  case (record_answer p s answer now out db')
  then show ?case by (intro record_keeps)
next
  case (crash p s)
  then show ?case using inflight_remove [of "sy_inflight s" p] by (auto simp: sys_ok_def dest: notin_set_remove1)
next
  case (skip p s db' row now)
  then show ?case using Delivery_skip_ok [OF _ skip(1-4)] by (intro sys_ok_everywhere) (simp_all add: sys_ok_def)
next
  case (elsewhere s db')
  then show ?case by (intro sys_ok_everywhere) (simp_all add: sys_ok_def same_order_db_ok same_order_frame)
qed

lemma boot_ok: "db_ok db \<Longrightarrow> sys_ok (boot db)"
  by (simp add: sys_ok_def boot_def log_ok_def landed_in_def)

lemma reachable_ok:
  assumes "(dispatch_step X)\<^sup>*\<^sup>* s s'" "sys_ok s"
  shows "sys_ok s'"
  using assms by (induction rule: rtranclp_induct) (simp_all add: dispatch_step_ok)

lemma one_worker_per_thread:
  assumes "sys_ok s" "p \<in> set (sy_inflight s)" "q \<in> set (sy_inflight s)"
    "dl_ThreadID (sp_delivery p) = Some t" "dl_ThreadID (sp_delivery q) = Some t"
  shows "p = q"
proof -
  have ok: "db_ok (sy_db s)" "distinct (map plan_id (sy_inflight s))" using assms(1) by (simp_all add: sys_ok_def)
  have o: "owned (sy_db s) (sp_delivery p)" "owned (sy_db s) (sp_delivery q)" using assms(1-3) by (simp_all add: sys_ok_def)
  obtain th where "Thread_Get (sy_db s) t = Inr th" "dl_ThreadSeq (sp_delivery p) = Some (th_LastSentSeq th + 1)"
    by (rule owned_head [OF ok(1) o(1) assms(4)])
  moreover obtain th' where "Thread_Get (sy_db s) t = Inr th'" "dl_ThreadSeq (sp_delivery q) = Some (th_LastSentSeq th' + 1)"
    by (rule owned_head [OF ok(1) o(2) assms(5)])
  ultimately have seq: "dl_ThreadSeq (sp_delivery p) = dl_ThreadSeq (sp_delivery q)" "dl_ThreadSeq (sp_delivery p) \<noteq> None" by simp_all
  obtain r where r: "r \<in> set (db_deliveries (sy_db s))" "same_slot r (sp_delivery p)" using o(1) unfolding owned_def by (elim bexE conjE)
  obtain r' where r': "r' \<in> set (db_deliveries (sy_db s))" "same_slot r' (sp_delivery q)" using o(2) unfolding owned_def by (elim bexE conjE)
  have "r = r'"
    by (rule tables_ok_same_slot [OF db_okD(1) [OF ok(1)] r(1) r'(1), of t "ThreadSeq (sp_delivery p)"])
      (use r(2) r'(2) seq assms(4,5) in \<open>auto simp: same_slot_def ThreadSeq_def\<close>)
  then have "plan_id p = plan_id q" using r(2) r'(2) by (simp add: same_slot_def plan_id_def)
  then show ?thesis using ok(2) assms(2,3) by (auto simp: distinct_map inj_on_def)
qed

section \<open>Properties\<close>


text \<open>A run of two workers: the first delivery of a thread is sent and recorded, then the second is sent.\<close>

definition ex_ext :: "unit ext" where
  "ex_ext = \<lparr>x_U = canonical_lib, x_Policy = DefaultPolicy, x_GateLease = 120 * Second, x_Lease = 120 * Second,
     x_Build = (\<lambda>_ _. Inr ()), x_Renderer = (\<lambda>_. None),
     x_Render = (\<lambda>_ _ _ _ _. (\<lparr>m_Payload = ''{}'', m_Hash = ''h'', m_Fallback = ''f''\<rparr>, None)),
     x_Map = (\<lambda>_ m. (m, None)), x_Open = (\<lambda>_. None), x_Backoff = (\<lambda>_. Second)\<rparr>"

definition ex_start :: DB where
  "ex_start = \<lparr>db_threads = [ex_thread_row\<lparr>th_NextSeq := 3\<rparr>],
     db_deliveries = [ex_delivery 11 1 DeliveryPending, ex_delivery 12 2 DeliveryPending],
     db_notifications = [\<lparr>nt_ID = 50, nt_SubjectKind = SubjectCase, nt_SubjectID = 8,
       nt_ConversationKind = ConversationCase, nt_ConversationID = 8, nt_AlertID = None, nt_CaseID = Some 8, nt_Reason = ReasonFired,
       nt_PolicyID = None, nt_StateVersion = 1, nt_IdempotencyKey = ''k'', nt_Status = StatusPending, nt_SuppressedReason = None,
       nt_CreatedAt = 100\<rparr>],
     db_channels = [\<lparr>ch_ID = 60, ch_Capabilities = 0, ch_Enabled = True, ch_DeletedAt = None, ch_HealthStatus = HealthHealthy,
       ch_Mapped = False, ch_Verbosity = VerbosityAll, ch_ThreadUpdates = True\<rparr>],
     db_events = [], db_jobs = [11, 12], db_incidents = [], db_receipts = []\<rparr>"

definition ex_answer :: DeliverResult where
  "ex_answer = \<lparr>r_MessageID = ''171.1'', r_ConversationID = ''C1'', r_ExternalURL = [], r_ExternalID = []\<rparr>"

lemma ex_start_ok: "db_ok ex_start"
  by (simp add: db_ok_def ex_start_def ex_thread_row_def ex_delivery_def tables_ok_def thread_ok_def row_ok_def seq_ok_def
      known_def Thread_Get_def get_row_def)

lemma ex_run:
  "case prepare ex_ext ex_start 11 1000 of
     Inr (_, Some p, db1) \<Rightarrow> plan_slot p = [(3, 1)] \<and>
       (case record_send ex_ext db1 p (Inr ex_answer) 1001 of
          Inr (_, db2) \<Rightarrow>
            (case prepare ex_ext db2 12 1002 of Inr (_, Some q, _) \<Rightarrow> plan_slot q = [(3, 2)] | _ \<Rightarrow> False)
        | _ \<Rightarrow> False)
   | _ \<Rightarrow> False"
  by code_simp


end
