(* ===== verification/Dispatch_Outcome.thy ===== *)
theory Dispatch_Outcome
  imports Dispatch_System
begin

text \<open>
  What the second transaction leaves behind: after an accepted message the row, the head of its thread and the status of
  its notification say so; after a refusal exactly one of three things has happened.
\<close>

section \<open>Reading a row after an update\<close>

lemma Delivery_Get_set_deliveries:
  "(\<And>x. dl_ID (f x) = dl_ID x) \<Longrightarrow>
    Delivery_Get (set_deliveries db P f) i = rbind (Delivery_Get db i) (\<lambda>x. Inr (if P x then f x else x))"
  by (simp add: Delivery_Get_def set_deliveries_def get_row_update_where)

lemma Delivery_Get_set_threads [simp]: "Delivery_Get (set_threads db P f) i = Delivery_Get db i"
  by (simp add: Delivery_Get_def set_threads_def)

lemma Delivery_Get_order: "same_order db db' \<Longrightarrow> Delivery_Get db' i = Delivery_Get db i"
  by (simp add: same_order_def Delivery_Get_def)

lemma Thread_Get_order: "same_order db db' \<Longrightarrow> Thread_Get db' t = Thread_Get db t"
  by (simp add: same_order_def Thread_Get_def)

lemma StatusesFor_order: "same_order db db' \<Longrightarrow> StatusesFor db' n = StatusesFor db n"
  by (simp add: same_order_def StatusesFor_def)

lemma Notification_Get_frame [simp]:
  "Notification_Get (set_deliveries db P f) n = Notification_Get db n"
  "Notification_Get (set_threads db Q g) n = Notification_Get db n"
  "Notification_Get (SetHealth db c h) n = Notification_Get db n"
  "Notification_Get (set_health db c ho) n = Notification_Get db n"
  "Notification_Get (Enqueue db j) n = Notification_Get db n"
  "Notification_Get (append_event db e) n = Notification_Get db n"
  by (auto simp: Notification_Get_def set_deliveries_def set_threads_def SetHealth_def set_health_def Enqueue_def append_event_def
      split: option.split prod.split)

lemma Notification_Get_recordReceipt: "Notification_Get (recordReceipt db p res) n = Notification_Get db n"
  by (simp add: recordReceipt_def RecordReceipt_def Notification_Get_def)

lemma Notification_Get_outcome: "Notification_Get (AppendDeliveryOutcome U db d a c) n = Notification_Get db n"
  by (auto simp: AppendDeliveryOutcome_def Let_def split: option.split prod.split)

section \<open>Folding the fan-out\<close>

definition folded :: "DB \<Rightarrow> uuid \<Rightarrow> bool" where
  "folded db n \<longleftrightarrow> (\<exists>x. Notification_Get db n = Inr x \<and> nt_Status x = AggregateStatus (StatusesFor db n))"

lemma AggregateStatus_suppressed: "AggregateStatus ss = StatusSuppressed \<longleftrightarrow> ss = []"
  by (simp add: AggregateStatus_def split: prod.split)

lemma StatusesFor_nonempty:
  assumes "Delivery_Get db i = Inr r" "dl_NotificationID r = n"
  shows "StatusesFor db n \<noteq> []"
  using Delivery_GetD [OF assms(1)] assms(2) by (auto simp: StatusesFor_def filter_empty_conv)

lemma settle_folds:
  assumes "Notification_Get db (dl_NotificationID d) = Inr n" "StatusesFor db (dl_NotificationID d) \<noteq> []"
  obtains db' where "settle X db d = Inr db'" "folded db' (dl_NotificationID d)"
proof -
  let ?db1 = "AppendDeliveryOutcome (x_U X) db d (nt_AlertID n) (nt_CaseID n)" and ?nid = "dl_NotificationID d"
  let ?a = "AggregateStatus (StatusesFor ?db1 ?nid)"
  have n1: "Notification_Get ?db1 ?nid = Inr n" by (simp add: Notification_Get_outcome assms(1))
  have s1: "StatusesFor ?db1 ?nid = StatusesFor db ?nid" by (rule StatusesFor_order [OF AppendDeliveryOutcome_order])
  have id: "nt_ID n = ?nid" using assms(1) by (auto simp: Notification_Get_def dest!: get_row_InrD)
  have ns: "?a \<noteq> StatusSuppressed" using assms(2) by (simp add: s1 AggregateStatus_suppressed)
  show ?thesis
  proof (cases "?a = nt_Status n")
    case True
    show ?thesis by (rule that [of ?db1]) (use True n1 in \<open>auto simp: settle_def assms(1) Let_def folded_def\<close>)
  next
    case False
    let ?db2 = "?db1\<lparr>db_notifications := update_where (\<lambda>x. nt_ID x = nt_ID n \<and> nt_Status x \<noteq> ?a) (\<lambda>x. x\<lparr>nt_Status := ?a\<rparr>)
      (db_notifications ?db1)\<rparr>"
    have "Notification_Get ?db2 ?nid = rbind (Notification_Get ?db1 ?nid)
        (\<lambda>x. Inr (if nt_ID x = nt_ID n \<and> nt_Status x \<noteq> ?a then x\<lparr>nt_Status := ?a\<rparr> else x))"
      by (simp add: Notification_Get_def get_row_update_where)
    then have "Notification_Get ?db2 ?nid = Inr (n\<lparr>nt_Status := ?a\<rparr>)" using False n1 by auto
    moreover have "StatusesFor ?db2 ?nid = StatusesFor ?db1 ?nid" by (simp add: StatusesFor_def)
    ultimately have "folded ?db2 ?nid" by (auto simp: folded_def)
    moreover have "settle X db d = Inr ?db2" using False ns by (simp add: settle_def assms(1) Let_def SetStatus_def)
    ultimately show ?thesis by (intro that)
  qed
qed

section \<open>After an accepted message\<close>

lemma owned_row:
  assumes "db_ok db" "owned db d" "Delivery_Get db (dl_ID d) = Inr r"
  shows "dl_Status r = DeliverySending" "dl_ThreadID r = dl_ThreadID d" "dl_ThreadSeq r = dl_ThreadSeq d"
proof -
  obtain x where x: "x \<in> set (db_deliveries db)" "same_slot x d" "dl_Status x = DeliverySending"
    using assms(2) unfolding owned_def by (elim bexE conjE)
  have "r = x"
    by (rule tables_ok_same_id [OF db_okD(1) [OF assms(1)] _ x(1)]) (use Delivery_GetD [OF assms(3)] x(2) in \<open>simp_all add: same_slot_def\<close>)
  then show "dl_Status r = DeliverySending" "dl_ThreadID r = dl_ThreadID d" "dl_ThreadSeq r = dl_ThreadSeq d"
    using x(2,3) by (simp_all add: same_slot_def)
qed

text \<open>The message id and the conversation a success is filed under.\<close>

definition filed_message :: "sendPlan \<Rightarrow> DeliverResult \<Rightarrow> string" where
  "filed_message p res = (if r_MessageID res = [] \<and> sp_mode p = ModeUpdateRoot then str_of (th_ThreadID (sp_thread p)) else r_MessageID res)"

definition filed_conversation :: "sendPlan \<Rightarrow> DeliverResult \<Rightarrow> string" where
  "filed_conversation p res = (if r_ConversationID res = [] then str_of (th_ConversationID (sp_thread p)) else r_ConversationID res)"

lemma thread_after_send:
  assumes "db_ok db" "owned db d" "dl_ThreadID d = Some t" "m \<noteq> []" "mode = ModePostRoot \<longrightarrow> c \<noteq> []"
    and "Thread_Get db1 t = Thread_Get db t"
  obtains db2 th where "(if mode = ModePostRoot then RecordRoot db1 t c m (dl_ID d) (ThreadSeq d)
      else if IsReply mode then Inr (RecordReply db1 t (ThreadSeq d)) else Inr (AdvanceSent db1 t (ThreadSeq d))) = Inr db2"
    "Thread_Get db2 t = Inr th" "th_LastSentSeq th = ThreadSeq d" "mode = ModePostRoot \<longrightarrow> th_ThreadID th = Some m \<and> th_State th = ThreadOpen"
    "db_deliveries db2 = db_deliveries db1" "db_notifications db2 = db_notifications db1"
proof -
  obtain th0 where th0: "Thread_Get db t = Inr th0" "dl_ThreadSeq d = Some (th_LastSentSeq th0 + 1)" by (rule owned_head [OF assms(1-3)])
  obtain r where r: "r \<in> set (db_deliveries db)" "same_slot r d" using assms(2) unfolding owned_def by (elim bexE conjE)
  have "th_LastSentSeq th0 + 1 < th_NextSeq th0"
    using db_okD(3) [OF assms(1) r(1)] r(2) assms(3) th0 by (simp add: row_ok_def seq_ok_def same_slot_def)
  note lt = this
  have seq: "ThreadSeq d = th_LastSentSeq th0 + 1" by (simp add: ThreadSeq_def th0(2))
  have get: "Thread_Get db1 t = Inr th0" "th_ID th0 = t" using th0(1) assms(6) Thread_GetD [OF th0(1)] by simp_all
  let ?db2 = "if mode = ModePostRoot then set_threads db1 (\<lambda>x. th_ID x = t)
        (\<lambda>x. x\<lparr>th_ConversationID := Some c, th_ThreadID := Some m, th_RootDeliveryID := Some (dl_ID d),
               th_State := ThreadOpen, th_DeadReason := None, th_LastSentSeq := max (th_LastSentSeq x) (ThreadSeq d)\<rparr>)
      else if IsReply mode then RecordReply db1 t (ThreadSeq d) else AdvanceSent db1 t (ThreadSeq d)"
  let ?th = "if mode = ModePostRoot then th0\<lparr>th_ConversationID := Some c, th_ThreadID := Some m, th_RootDeliveryID := Some (dl_ID d),
      th_State := ThreadOpen, th_DeadReason := None, th_LastSentSeq := ThreadSeq d\<rparr>
    else if IsReply mode then th0\<lparr>th_ReplyCount := th_ReplyCount th0 + 1, th_LastSentSeq := ThreadSeq d\<rparr>
    else th0\<lparr>th_LastSentSeq := ThreadSeq d\<rparr>"
  have "Thread_Get ?db2 t = Inr ?th"
    using get lt by (simp add: RecordReply_def AdvanceSent_def Thread_Get_set_threads seq)
  then show ?thesis
    by (intro that [of ?db2 ?th]) (use assms(4,5) in \<open>simp_all add: RecordRoot_def RecordReply_def AdvanceSent_def set_threads_def\<close>)
qed

lemma succeed_files:
  assumes "db_ok db" "owned db d" "Delivery_Get db (dl_ID d) = Inr r" "dl_NotificationID r = dl_NotificationID d"
    and "Notification_Get db (dl_NotificationID d) = Inr n"
    and m: "m = (if r_MessageID res = [] \<and> mode = ModeUpdateRoot then str_of (th_ThreadID th) else r_MessageID res)" "m \<noteq> []"
    and c: "c = (if r_ConversationID res = [] then str_of (th_ConversationID th) else r_ConversationID res)"
      "mode = ModePostRoot \<longrightarrow> c \<noteq> []"
  obtains db' r' where "succeed X db d th ch mode res now = Inr db'" "Delivery_Get db' (dl_ID d) = Inr r'"
    "dl_Status r' = DeliverySent" "dl_ProviderMessageID r' = Some m" "folded db' (dl_NotificationID d)"
    "\<forall>t. dl_ThreadID d = Some t \<longrightarrow> (\<exists>th'. Thread_Get db' t = Inr th' \<and> th_LastSentSeq th' = ThreadSeq d \<and>
       (mode = ModePostRoot \<longrightarrow> th_ThreadID th' = Some m \<and> th_State th' = ThreadOpen))"
proof -
  let ?f = "\<lambda>d. d\<lparr>dl_Status := DeliverySent, dl_ProviderMessageID := Some m,
     dl_ProviderConversationID := (if c \<noteq> [] then Some c else None),
     dl_SentAt := Some now, dl_ErrorClass := None, dl_NextAttemptAt := None, dl_UpdatedAt := max (dl_UpdatedAt d) now\<rparr>"
  let ?db1 = "set_deliveries db (\<lambda>x. dl_ID x = dl_ID d \<and> dl_Status x = DeliverySending) ?f"
  note own = owned_row [OF assms(1-3)]
  have rid: "dl_ID r = dl_ID d" "r \<in> set (db_deliveries db)" using Delivery_GetD [OF assms(3)] by simp_all
  have sent: "MarkSent db (dl_ID d) m c now = Inr (?db1, True)"
    using m(2) rid own(1) by (auto simp: MarkSent_def list_ex_iff)
  have r1: "Delivery_Get ?db1 (dl_ID d) = Inr (?f r)" by (simp add: Delivery_Get_set_deliveries assms(3) rid(1) own(1))
  obtain db2 where db2: "(case dl_ThreadID d of None \<Rightarrow> Inr ?db1
      | Some t \<Rightarrow> if mode = ModePostRoot then RecordRoot ?db1 t c m (dl_ID d) (ThreadSeq d)
          else if IsReply mode then Inr (RecordReply ?db1 t (ThreadSeq d)) else Inr (AdvanceSent ?db1 t (ThreadSeq d))) = Inr db2"
    "db_deliveries db2 = db_deliveries ?db1" "db_notifications db2 = db_notifications ?db1"
    "\<forall>t. dl_ThreadID d = Some t \<longrightarrow> (\<exists>th'. Thread_Get db2 t = Inr th' \<and> th_LastSentSeq th' = ThreadSeq d \<and>
       (mode = ModePostRoot \<longrightarrow> th_ThreadID th' = Some m \<and> th_State th' = ThreadOpen))"
  proof (cases "dl_ThreadID d")
    case (Some t)
    obtain db2 th' where T: "(if mode = ModePostRoot then RecordRoot ?db1 t c m (dl_ID d) (ThreadSeq d)
        else if IsReply mode then Inr (RecordReply ?db1 t (ThreadSeq d)) else Inr (AdvanceSent ?db1 t (ThreadSeq d))) = Inr db2"
      "Thread_Get db2 t = Inr th'" "th_LastSentSeq th' = ThreadSeq d" "mode = ModePostRoot \<longrightarrow> th_ThreadID th' = Some m \<and> th_State th' = ThreadOpen"
      "db_deliveries db2 = db_deliveries ?db1" "db_notifications db2 = db_notifications ?db1"
      by (rule thread_after_send [OF assms(1,2) Some m(2) c(2), of ?db1]) simp_all
    show ?thesis by (rule that [OF _ T(5,6)]) (unfold Some option.case, rule T(1), use T(2-4) in simp)
  qed (rule that [of ?db1], simp_all)
  let ?db3 = "if ch_HealthStatus ch \<noteq> HealthHealthy then SetHealth db2 (ch_ID ch) HealthHealthy else db2"
  let ?d = "d\<lparr>dl_Status := DeliverySent, dl_Mode := mode, dl_ProviderMessageID := Some m\<rparr>"
  have so: "same_order db2 ?db3" by (simp add: same_order_def SetHealth_def)
  have r3: "Delivery_Get ?db3 (dl_ID d) = Inr (?f r)"
  proof -
    have rows: "db_deliveries ?db3 = db_deliveries ?db1" using so db2(2) by (simp only: same_order_def)
    show ?thesis unfolding Delivery_Get_def rows by (rule r1 [unfolded Delivery_Get_def])
  qed
  have n3: "Notification_Get ?db3 (dl_NotificationID d) = Inr n"
    using assms(5) db2(3) by (simp add: Notification_Get_def SetHealth_def set_deliveries_def)
  have "StatusesFor ?db3 (dl_NotificationID ?d) \<noteq> []" by (rule StatusesFor_nonempty [OF r3]) (simp add: assms(4))
  then obtain db' where s: "settle X ?db3 ?d = Inr db'" "folded db' (dl_NotificationID d)"
    using settle_folds [of ?db3 ?d n X] n3 by auto
  note so' = same_order_trans [OF so settle_order [OF s(1)]]
  show ?thesis
  proof (rule that [of db' "?f r"])
    show "succeed X db d th ch mode res now = Inr db'"
      unfolding succeed_def Let_def m(1) [symmetric] c(1) [symmetric] by (simp only: sent rbind_simps prod.case simp_thms if_False db2(1) s(1))
    show "Delivery_Get db' (dl_ID d) = Inr (?f r)" using r3 by (simp add: Delivery_Get_order [OF settle_order [OF s(1)]])
    show "\<forall>t. dl_ThreadID d = Some t \<longrightarrow> (\<exists>th'. Thread_Get db' t = Inr th' \<and> th_LastSentSeq th' = ThreadSeq d \<and>
       (mode = ModePostRoot \<longrightarrow> th_ThreadID th' = Some m \<and> th_State th' = ThreadOpen))"
      using db2(4) by (simp add: Thread_Get_order [OF so'])
  qed (simp_all add: s(2))
qed


text \<open>The example thread with its first delivery being sent, and the plan of the worker sending it.\<close>

definition ex_busy :: "DeliveryStatus \<Rightarrow> DB" where
  "ex_busy st = ex_start\<lparr>db_deliveries := [ex_delivery 11 1 st, ex_delivery 12 2 DeliveryPending]\<rparr>"

definition ex_plan :: sendPlan where
  "ex_plan = \<lparr>sp_delivery = ex_delivery 11 1 DeliverySending, sp_thread = ex_thread_row,
     sp_channel = \<lparr>ch_ID = 60, ch_Capabilities = 0, ch_Enabled = True, ch_DeletedAt = None, ch_HealthStatus = HealthHealthy,
       ch_Mapped = False, ch_Verbosity = VerbosityAll, ch_ThreadUpdates = True\<rparr>,
     sp_mode = ModePostRoot, sp_msg = \<lparr>m_Payload = ''{}'', m_Hash = ''h'', m_Fallback = ''f''\<rparr>, sp_incidentID = 0\<rparr>"

lemma ex_busy_ok: "db_ok (ex_busy DeliverySending)" "owned (ex_busy DeliverySending) (sp_delivery ex_plan)"
  by (simp_all add: ex_busy_def ex_plan_def owned_def same_slot_def db_ok_def ex_start_def ex_thread_row_def ex_delivery_def tables_ok_def
      thread_ok_def row_ok_def seq_ok_def known_def Thread_Get_def get_row_def)

lemma ex_busy_rows:
  "Delivery_Get (ex_busy st) (dl_ID (sp_delivery ex_plan)) = Inr (ex_delivery 11 1 st)"
  "dl_NotificationID (ex_delivery 11 1 st) = dl_NotificationID (sp_delivery ex_plan)"
  "Notification_Get (ex_busy st) (dl_NotificationID (sp_delivery ex_plan)) = Inr \<lparr>nt_ID = 50, nt_SubjectKind = SubjectCase, nt_SubjectID = 8,
       nt_ConversationKind = ConversationCase, nt_ConversationID = 8, nt_AlertID = None, nt_CaseID = Some 8, nt_Reason = ReasonFired,
       nt_PolicyID = None, nt_StateVersion = 1, nt_IdempotencyKey = ''k'', nt_Status = StatusPending, nt_SuppressedReason = None,
       nt_CreatedAt = 100\<rparr>"
  by (simp_all add: ex_busy_def ex_plan_def ex_start_def ex_delivery_def Delivery_Get_def Notification_Get_def get_row_def)


section \<open>After a refusal\<close>

definition thread_error :: "Cause \<Rightarrow> Delivery \<Rightarrow> (DeadReason \<times> uuid) option" where
  "thread_error cause d =
     (case (if classOf cause = ClassPermanent \<or> classOf cause = ClassAuthExpired then DeadReasonFor (providerCode cause) else None,
            dl_ThreadID d) of
        (Some reason, Some t) \<Rightarrow> Some (reason, t)
      | _ \<Rightarrow> None)"

lemma dispatch_fail_cases:
  "dispatch_fail X db d c cause (classOf cause) now =
     (case thread_error cause d of
        Some (reason, t) \<Rightarrow> Inr (outcome0, fail_thread db d c t reason (classOf cause) now)
      | None \<Rightarrow> fail_delivery X db d c cause (classOf cause) now)"
  by (auto simp: dispatch_fail_def thread_error_def split: option.splits)

lemma retryAfter_rate_limited: "0 < retryAfter X cause ClassRateLimited n"
  by (auto simp: retryAfter_def Let_def DefaultRateLimitDelay_def duration_units split: option.split prod.split)

lemma set_health_order [simp]: "Delivery_Get (set_health db c h) i = Delivery_Get db i" "Thread_Get (set_health db c h) t = Thread_Get db t"
  by (simp_all add: Delivery_Get_order [OF same_order_ops(2)] Thread_Get_order [OF same_order_ops(2)])

lemma mark_failed_row:
  assumes "Delivery_Get db i = Inr r"
  shows "\<exists>r'. Delivery_Get (MarkFailed db i cls due now) i = Inr r' \<and> dl_Status r' = DeliveryFailed \<and> dl_NextAttemptAt r' = Some due \<and>
    dl_NotificationID r' = dl_NotificationID r"
  using Delivery_GetD [OF assms] by (simp add: MarkFailed_def Delivery_Get_set_deliveries assms)

lemma mark_dead_row:
  assumes "Delivery_Get db i = Inr r"
  shows "\<exists>r'. Delivery_Get (Delivery_MarkDead db i cls now) i = Inr r' \<and> dl_Status r' = DeliveryDead \<and>
    dl_NotificationID r' = dl_NotificationID r"
  using Delivery_GetD [OF assms] by (simp add: Delivery_MarkDead_def Delivery_Get_set_deliveries assms)

lemma fail_thread_leaves:
  assumes "Delivery_Get db (dl_ID d) = Inr r"
  shows "\<exists>r'. Delivery_Get (fail_thread db d c t reason cls now) (dl_ID d) = Inr r' \<and> dl_Status r' = DeliveryFailed \<and>
      dl_NextAttemptAt r' = Some now" (is ?row)
    and "dl_ID d \<in> set (db_jobs (fail_thread db d c t reason cls now))" (is ?job)
    and "Thread_Get (fail_thread db d c t reason cls now) t = Inr th \<Longrightarrow> th_State th = ThreadDead" (is "?th \<Longrightarrow> _")
proof -
  let ?db2 = "set_health (Thread_MarkDead db t reason) (ch_ID c) (DeadReason_DestinationHealth reason)"
  have "Delivery_Get ?db2 (dl_ID d) = Inr r" using assms by (simp add: Thread_MarkDead_def)
  from mark_failed_row [OF this, of cls now now] show ?row
    by (auto simp: fail_thread_def Let_def Delivery_Get_order [OF same_order_ops(3)])
  show ?job by (simp add: fail_thread_def Let_def Enqueue_def)
  have get: "Thread_Get (fail_thread db d c t reason cls now) t = rbind (Thread_Get db t)
      (\<lambda>x. Inr (if th_ID x = t \<and> th_State x \<noteq> ThreadDead then x\<lparr>th_State := ThreadDead, th_DeadReason := Some reason\<rparr> else x))"
    by (simp add: fail_thread_def Let_def Thread_Get_order [OF same_order_ops(3)] MarkFailed_def Thread_MarkDead_def Thread_Get_set_threads)
  show "th_State th = ThreadDead" if th: ?th
  proof -
    obtain x where x: "Thread_Get db t = Inr x"
        "th = (if th_ID x = t \<and> th_State x \<noteq> ThreadDead then x\<lparr>th_State := ThreadDead, th_DeadReason := Some reason\<rparr> else x)"
      using th by (auto simp: get rbind_Inr_iff)
    then show ?thesis using Thread_GetD [OF x(1)] by simp
  qed
qed

lemma fail_delivery_gives_up:
  assumes "Delivery_Get db (dl_ID d) = Inr r" "dl_NotificationID r = dl_NotificationID d" "Notification_Get db (dl_NotificationID d) = Inr n"
    and "Exhausted cls (dl_Attempts d)"
  obtains db' r' where "fail_delivery X db d c cause cls now = Inr (outcome0, db')" "Delivery_Get db' (dl_ID d) = Inr r'"
    "dl_Status r' = DeliveryDead" "folded db' (dl_NotificationID d)"
    "\<forall>t th. dl_ThreadID d = Some t \<and> Thread_Get db t = Inr th \<and> ThreadSeq d < th_NextSeq th \<longrightarrow>
       (\<exists>th'. Thread_Get db' t = Inr th' \<and> ThreadSeq d \<le> th_LastSentSeq th')"
proof -
  let ?db2 = "Delivery_MarkDead (set_health db (ch_ID c) (ErrorClass_DestinationHealth cls)) (dl_ID d) cls now"
  let ?db3 = "case dl_ThreadID d of Some t \<Rightarrow> AdvanceSent ?db2 t (ThreadSeq d) | None \<Rightarrow> ?db2"
  let ?d = "d\<lparr>dl_Status := DeliveryDead, dl_ErrorClass := Some cls\<rparr>"
  obtain r' where r': "Delivery_Get ?db2 (dl_ID d) = Inr r'" "dl_Status r' = DeliveryDead" "dl_NotificationID r' = dl_NotificationID d"
    using mark_dead_row [of "set_health db (ch_ID c) (ErrorClass_DestinationHealth cls)" "dl_ID d" r cls now] assms(1,2) by auto
  have r3: "Delivery_Get ?db3 (dl_ID d) = Inr r'" using r'(1) by (simp add: AdvanceSent_def split: option.split)
  have n3: "Notification_Get ?db3 (dl_NotificationID d) = Inr n"
    using assms(3) by (simp add: AdvanceSent_def Delivery_MarkDead_def split: option.split)
  obtain db' where s: "settle X ?db3 ?d = Inr db'" "folded db' (dl_NotificationID d)"
    using settle_folds [of ?db3 ?d n X] n3 StatusesFor_nonempty [OF r3 r'(3)] by auto
  note so = settle_order [OF s(1)]
  show ?thesis
  proof (rule that [of db' r'])
    show "fail_delivery X db d c cause cls now = Inr (outcome0, db')" using assms(4) s(1) by (simp add: fail_delivery_def Let_def)
    show "Delivery_Get db' (dl_ID d) = Inr r'" using r3 by (simp add: Delivery_Get_order [OF so])
    show "\<forall>t th. dl_ThreadID d = Some t \<and> Thread_Get db t = Inr th \<and> ThreadSeq d < th_NextSeq th \<longrightarrow>
       (\<exists>th'. Thread_Get db' t = Inr th' \<and> ThreadSeq d \<le> th_LastSentSeq th')"
      by (auto simp: Thread_Get_order [OF so] AdvanceSent_def Thread_Get_set_threads Delivery_MarkDead_def dest: Thread_GetD)
  qed (simp_all add: r'(2) s(2))
qed

lemma fail_delivery_retries:
  assumes "Delivery_Get db (dl_ID d) = Inr r" "dl_NotificationID r = dl_NotificationID d" "Notification_Get db (dl_NotificationID d) = Inr n"
    and "\<not> Exhausted cls (dl_Attempts d)" "wait = retryAfter X cause cls (dl_Attempts d)"
  obtains out db' r' where "fail_delivery X db d c cause cls now = Inr (out, db')" "Delivery_Get db' (dl_ID d) = Inr r'"
    "job_result out = (if cls = ClassRateLimited then JobSnooze wait ''rate_limited'' else JobRetry cause)"
    "dl_Status r' = DeliveryFailed" "dl_NextAttemptAt r' = Some (now + wait)" "folded db' (dl_NotificationID d)"
    "\<forall>t. Thread_Get db' t = Thread_Get db t"
proof -
  let ?db2 = "MarkFailed (set_health db (ch_ID c) (ErrorClass_DestinationHealth cls)) (dl_ID d) cls (now + wait) now"
  let ?d = "d\<lparr>dl_Status := DeliveryFailed, dl_ErrorClass := Some cls\<rparr>"
  obtain r' where r': "Delivery_Get ?db2 (dl_ID d) = Inr r'" "dl_Status r' = DeliveryFailed" "dl_NextAttemptAt r' = Some (now + wait)"
      "dl_NotificationID r' = dl_NotificationID d"
    using mark_failed_row [of "set_health db (ch_ID c) (ErrorClass_DestinationHealth cls)" "dl_ID d" r cls "now + wait" now] assms(1,2) by auto
  have n2: "Notification_Get ?db2 (dl_NotificationID d) = Inr n" using assms(3) by (simp add: MarkFailed_def)
  obtain db' where s: "settle X ?db2 ?d = Inr db'" "folded db' (dl_NotificationID d)"
    using settle_folds [of ?db2 ?d n X] n2 StatusesFor_nonempty [OF r'(1,4)] by auto
  note so = settle_order [OF s(1)]
  let ?out = "if cls = ClassRateLimited then outcome0\<lparr>o_snoozeFor := wait, o_snoozeReason := ''rate_limited''\<rparr>
    else outcome0\<lparr>o_retry := Some cause\<rparr>"
  show ?thesis
  proof (rule that [of ?out db' r'])
    show "fail_delivery X db d c cause cls now = Inr (?out, db')"
      using assms(4) s(1) by (simp add: fail_delivery_def Let_def assms(5))
    show "job_result ?out = (if cls = ClassRateLimited then JobSnooze wait ''rate_limited'' else JobRetry cause)"
      using retryAfter_rate_limited [of X cause "dl_Attempts d"] by (simp add: job_result_def outcome0_def assms(5))
    show "Delivery_Get db' (dl_ID d) = Inr r'" using r'(1) by (simp add: Delivery_Get_order [OF so])
    show "\<forall>t. Thread_Get db' t = Thread_Get db t" by (simp add: Thread_Get_order [OF so] MarkFailed_def)
  qed (simp_all add: r'(2,3) s(2))
qed


text \<open>The finding: the row was recorded as sent, and the late failure of a first worker turns it back to failed.\<close>

definition ex_timeout :: Cause where
  "ex_timeout = \<lparr>ca_provider = None, ca_kind = KindUnavailable, ca_retryAfter = None\<rparr>"


end
