(* ===== verification/Suppression_Correct.thy ===== *)
theory Suppression_Correct
  imports Notify_Reason Snooze
begin

text \<open>
  One silence, one reason. The order of the reasons for silence is written down twice, in the alert domain
  (\<^verbatim>\<open>SuppressorPrecedence\<close> of \<^verbatim>\<open>snooze.go\<close>) and in the notification domain (\<^verbatim>\<open>suppressorOrder\<close> of \<^verbatim>\<open>suppression.go\<close>); the
  two agree, and what is reported does not depend on the order in which the gates were asked.
\<close>

lemma order_strings: "map SuppressedReason_String suppressorOrder = SuppressorPrecedence"
  by (simp add: suppressorOrder_def SuppressorPrecedence_def SuppressorChannelDisabled_def SuppressorNoPolicy_def
      SuppressorSnoozed_def SuppressorThrottled_def SuppressorBelowThreshold_def SuppressorVerbosity_def SuppressorDuplicateRender_def)

lemma SuppressedReason_Valid_iff: "SuppressedReason_Valid r \<longleftrightarrow> r \<in> set suppressorOrder"
  by (auto simp: SuppressedReason_Valid_def list_ex_iff)

lemma order_strings_inj: "inj_on SuppressedReason_String (set suppressorOrder)"
  by (simp add: suppressorOrder_def inj_on_def)

lemma distinct_order: "distinct suppressorOrder"
  by (simp add: suppressorOrder_def)

text \<open>The rank is the position in the order.\<close>

lemma rank_from_nth: "distinct ks \<Longrightarrow> j < length ks \<Longrightarrow> rank_from i ks (ks ! j) = Some (i + j)"
proof (induction ks arbitrary: i j)
  case (Cons k ks)
  then show ?case by (cases j) auto
qed simp

lemma rank_from_None: "rank_from i ks r = None \<longleftrightarrow> r \<notin> set ks"
  by (induction ks arbitrary: i) auto

lemma Rank_nth: "j < length suppressorOrder \<Longrightarrow> Rank (suppressorOrder ! j) = j"
  by (simp add: Rank_def rank_from_nth [OF distinct_order])

lemma Rank_invalid: "r \<notin> set suppressorOrder \<Longrightarrow> Rank r = length suppressorOrder"
  by (simp add: Rank_def rank_from_None [THEN iffD2])

lemma find_least_rank:
  "find P suppressorOrder = Some w \<longleftrightarrow>
     w \<in> set suppressorOrder \<and> P w \<and> (\<forall>r\<in>set suppressorOrder. P r \<longrightarrow> Rank w \<le> Rank r)" (is "?l \<longleftrightarrow> ?r")
proof
  assume ?l
  then obtain i where i: "i < length suppressorOrder" "P (suppressorOrder ! i)" "w = suppressorOrder ! i"
      "\<forall>j<i. \<not> P (suppressorOrder ! j)" by (auto simp: find_Some_iff)
  have "Rank w \<le> Rank r" if r: "r \<in> set suppressorOrder" "P r" for r
  proof -
    obtain j where j: "j < length suppressorOrder" "r = suppressorOrder ! j" using r(1) by (auto simp: in_set_conv_nth)
    with i(4) r(2) have "\<not> j < i" by auto
    then show ?thesis using i(1,3) j by (simp add: Rank_nth)
  qed
  then show ?r using i by auto
next
  assume r: ?r
  then obtain i where i: "i < length suppressorOrder" "w = suppressorOrder ! i" by (auto simp: in_set_conv_nth)
  have "\<not> P (suppressorOrder ! j)" if "j < i" for j
  proof
    assume "P (suppressorOrder ! j)"
    with r i that have "Rank w \<le> Rank (suppressorOrder ! j)" by auto
    then show False using i that by (simp add: Rank_nth)
  qed
  then show ?l using r i by (auto simp: find_Some_iff)
qed

lemma find_map: "find P (map f xs) = map_option f (find (P \<circ> f) xs)"
  by (induction xs) simp_all

text \<open>Every gate adds its reason if it applies; \<open>gather\<close> is any sequence of such additions.\<close>

definition gather :: "(bool \<times> SuppressedReason) list \<Rightarrow> Suppressors" where
  "gather gates = fold (\<lambda>(cond, r) seen. AddIf seen cond r) gates []"

lemma set_gather: "set (gather gates) = {r. (True, r) \<in> set gates \<and> r \<in> set suppressorOrder}"
proof -
  have "set (fold (\<lambda>(cond, r) seen. AddIf seen cond r) gates seen) =
      set seen \<union> {r. (True, r) \<in> set gates \<and> r \<in> set suppressorOrder}" for seen
    by (induction gates arbitrary: seen)
      (auto simp: AddIf_def Suppressors_Add_def SuppressedReason_Valid_iff split: if_splits)
  then show ?thesis by (simp add: gather_def)
qed

lemma map_of_applies: "map_of (map (\<lambda>r. (r, True)) rs) s = Some True \<longleftrightarrow> s \<in> set rs"
  by (induction rs) auto

text \<open>
  C30. The reason reported for a silence is, among the gates that applied, the one that comes first in the order of
  precedence, whichever order the gates were asked in; one is reported exactly when some gate
  applied; the full record starts with it; and the alert domain's own precedence gives the same answer on the
  same set of reasons.
\<close>

theorem silence_has_one_reason:
  "(Winner (gather gates) = Some w \<longleftrightarrow> (True, w) \<in> set gates \<and> SuppressedReason_Valid w \<and>
      (\<forall>r. \<not> ((True, r) \<in> set gates \<and> Rank r < Rank w))) \<and>
   (Winner (gather gates) = None \<longleftrightarrow> (\<forall>r. \<not> ((True, r) \<in> set gates \<and> SuppressedReason_Valid r))) \<and>
   Suppressors_All (gather gates) = filter (\<lambda>r. (True, r) \<in> set gates) suppressorOrder \<and>
   (case Winner (gather gates) of None \<Rightarrow> [] | Some w' \<Rightarrow> SuppressedReason_String w') =
     FirstSuppressor (map (\<lambda>r. (SuppressedReason_String r, True)) (gather gates))"
proof (intro conjI)
  have mem: "r \<in> set (gather gates) \<longleftrightarrow> (True, r) \<in> set gates" if "r \<in> set suppressorOrder" for r
    using that by (simp add: set_gather)
  have find: "Winner (gather gates) = find (\<lambda>r. (True, r) \<in> set gates) suppressorOrder"
    unfolding Winner_def by (rule find_cong) (simp_all add: mem)
  have outside: "r \<in> set suppressorOrder" if "Rank r < Rank w'" "w' \<in> set suppressorOrder" for r w'
  proof (rule ccontr)
    assume "r \<notin> set suppressorOrder"
    moreover have "Rank w' < length suppressorOrder" using that(2) by (auto simp: in_set_conv_nth Rank_nth)
    ultimately show False using that(1) by (simp add: Rank_invalid)
  qed
  show "Winner (gather gates) = Some w \<longleftrightarrow> (True, w) \<in> set gates \<and> SuppressedReason_Valid w \<and>
      (\<forall>r. \<not> ((True, r) \<in> set gates \<and> Rank r < Rank w))"
    unfolding find find_least_rank SuppressedReason_Valid_iff using outside [of _ w] by (metis not_less)
  show "Winner (gather gates) = None \<longleftrightarrow> (\<forall>r. \<not> ((True, r) \<in> set gates \<and> SuppressedReason_Valid r))"
    unfolding find find_None_iff SuppressedReason_Valid_iff by auto
  show "Suppressors_All (gather gates) = filter (\<lambda>r. (True, r) \<in> set gates) suppressorOrder"
  proof -
    have "filter (\<lambda>r. r \<in> set (gather gates)) suppressorOrder = filter (\<lambda>r. (True, r) \<in> set gates) suppressorOrder"
      by (rule filter_cong) (simp_all add: mem)
    then show ?thesis by (auto simp: Suppressors_All_def)
  qed
  have sub: "set (gather gates) \<subseteq> set suppressorOrder" by (auto simp: set_gather)
  have "map_of (map (\<lambda>r. (SuppressedReason_String r, True)) (gather gates)) (SuppressedReason_String r) = Some True \<longleftrightarrow>
      r \<in> set (gather gates)" if "r \<in> set suppressorOrder" for r
    using map_of_applies [of "map SuppressedReason_String (gather gates)"] inj_on_image_mem_iff [OF order_strings_inj that sub]
    by (simp add: o_def)
  then have "find ((\<lambda>s. map_of (map (\<lambda>r. (SuppressedReason_String r, True)) (gather gates)) s = Some True) \<circ> SuppressedReason_String)
      suppressorOrder = Winner (gather gates)"
    unfolding Winner_def by (intro find_cong) (simp_all add: o_def)
  then show "(case Winner (gather gates) of None \<Rightarrow> [] | Some w' \<Rightarrow> SuppressedReason_String w') =
     FirstSuppressor (map (\<lambda>r. (SuppressedReason_String r, True)) (gather gates))"
    unfolding FirstSuppressor_def order_strings [symmetric] find_map by (simp split: option.split)
qed

end
