(* ===== verification/Digest_Windows.thy ===== *)
theory Digest_Windows
  imports Go_Strings
begin

text \<open>
  The windows of a digest, \<^verbatim>\<open>internal/notification/domain/digest.go\<close>: a policy with a digest window is reported on once per
  window, and the windows of a policy tile the calendar. A tick asks which closed windows are still owed
  (\<open>DigestWindows\<close>), at most six at a time; older ones are counted as abandoned.

  Instants are nanoseconds since Go's zero time, so the Unix epoch is a constant.
\<close>

definition unix_epoch :: time where "unix_epoch = 62135596800 * Second"

definition Unix :: "time \<Rightarrow> int" where
  "Unix t = (t - unix_epoch) div Second"

definition time_Unix :: "int \<Rightarrow> time" where
  "time_Unix s = unix_epoch + s * Second"

definition MinDigestWindow :: duration where "MinDigestWindow = 5 * Minute"
definition MaxDigestWindow :: duration where "MaxDigestWindow = 24 * Hour"
definition MinDigestFloor :: int where "MinDigestFloor = 1"
definition MaxDigestFloor :: int where "MaxDigestFloor = 10000"
definition digestAlignmentPeriod :: duration where "digestAlignmentPeriod = 24 * Hour"
definition DigestLookback :: duration where "DigestLookback = 2 * Minute"
definition MaxDigestBackfill :: int where "MaxDigestBackfill = 6"

definition DigestWindowAligned :: "duration \<Rightarrow> bool" where
  "DigestWindowAligned d = (if d \<le> 0 \<or> go_mod d Second \<noteq> 0 then False else go_mod digestAlignmentPeriod d = 0)"

record Digest =
  dg_Window :: duration
  dg_Floor :: int
  dg_InvestigatorID :: uuid

definition Digest_Enabled :: "Digest \<Rightarrow> bool" where
  "Digest_Enabled d \<longleftrightarrow> dg_Window d > 0"

definition Digest_Clears :: "Digest \<Rightarrow> int \<Rightarrow> bool" where
  "Digest_Clears d count = (if count \<le> 0 then False else count \<ge> dg_Floor d)"

definition WindowStart :: "Digest \<Rightarrow> time \<Rightarrow> time" where
  "WindowStart d t =
     (if \<not> Digest_Enabled d then t
      else
        let secs = go_div (dg_Window d) Second;
            u = Unix t;
            start = u - go_mod u secs
        in time_Unix (if u < 0 \<and> go_mod u secs \<noteq> 0 then start - secs else start))"

definition WindowEnd :: "Digest \<Rightarrow> time \<Rightarrow> time" where
  "WindowEnd d start = start + dg_Window d"

definition LookbackStart :: "Digest \<Rightarrow> time \<Rightarrow> time" where
  "LookbackStart d start = start - DigestLookback"

definition WindowOrdinal :: "Digest \<Rightarrow> time \<Rightarrow> int" where
  "WindowOrdinal d start =
     (if \<not> Digest_Enabled d then 0 else go_div (Unix start) (go_div (dg_Window d) Second))"

text \<open>\<^verbatim>\<open>owed\<close>: the first and the last closed window not yet covered, and how many there are.\<close>

definition owed :: "Digest \<Rightarrow> time \<Rightarrow> time \<Rightarrow> (time \<times> time \<times> int) option" where
  "owed d now coveredTo =
     (if \<not> Digest_Enabled d then None
      else
        let newest = WindowStart d now - dg_Window d;
            epoch = time_Unix 0
        in if \<not> newest > epoch then None
           else if IsZero coveredTo then Some (newest, newest, 1)
           else
             let first0 = WindowStart d coveredTo;
                 first = (if \<not> first0 > epoch then epoch + dg_Window d else first0)
             in if first > newest then None
                else Some (first, newest, go_div (t_sub newest first) (dg_Window d) + 1))"

text \<open>The loop \<^verbatim>\<open>for w := first; !w.After(newest); w = w.Add(d.Window)\<close>; a window of no length never gets here.\<close>

function windows_from :: "duration \<Rightarrow> time \<Rightarrow> time \<Rightarrow> time list" where
  "windows_from step w newest = (if step > 0 \<and> w \<le> newest then w # windows_from step (w + step) newest else [])"
  by auto
termination
  by (relation "measure (\<lambda>(step, w, newest). nat (newest - w + 1))") auto

declare windows_from.simps [simp del]

definition DigestWindows :: "Digest \<Rightarrow> time \<Rightarrow> time \<Rightarrow> time list" where
  "DigestWindows d now coveredTo =
     (case owed d now coveredTo of
        None \<Rightarrow> []
      | Some (first, newest, n) \<Rightarrow>
          windows_from (dg_Window d)
            (if n > MaxDigestBackfill then newest - (MaxDigestBackfill - 1) * dg_Window d else first) newest)"

definition AbandonedWindows :: "Digest \<Rightarrow> time \<Rightarrow> time \<Rightarrow> int" where
  "AbandonedWindows d now coveredTo =
     (case owed d now coveredTo of
        None \<Rightarrow> 0
      | Some (_, _, n) \<Rightarrow> if n \<le> MaxDigestBackfill then 0 else n - MaxDigestBackfill)"

definition UnreportableBefore :: "Digest \<Rightarrow> time \<Rightarrow> time \<Rightarrow> time" where
  "UnreportableBefore d now coveredTo =
     (if \<not> Digest_Enabled d \<or> IsZero coveredTo then 0
      else
        let horizon = WindowStart d now - MaxDigestBackfill * dg_Window d
        in LookbackStart d (if horizon > coveredTo then horizon else coveredTo))"

section \<open>Windows tile the calendar\<close>

lemma go_floor:
  assumes "0 < b"
  shows "(if u < 0 \<and> go_mod u b \<noteq> 0 then u - go_mod u b - b else u - go_mod u b) = u div b * b"
proof (cases "0 \<le> u")
  case True
  then show ?thesis using assms by (simp add: go_mod_nonneg minus_mod_eq_div_mult)
next
  case False
  have "go_div u b = - ((- u) div b)" using False assms by (simp add: go_div_def)
  then have m: "go_mod u b = u + b * ((- u) div b)" by (simp add: go_mod_def)
  have "b * ((- u) div b) = - u - (- u) mod b" by (simp add: minus_mod_eq_mult_div)
  with m have rem: "go_mod u b = - ((- u) mod b)" by simp
  have "(- u) mod b = (if u mod b = 0 then 0 else b - u mod b)" by (simp add: zmod_zminus1_eq_if)
  then show ?thesis using rem False by (auto simp: minus_mod_eq_div_mult)
qed

lemma aligned_window:
  assumes "DigestWindowAligned (dg_Window d)"
  obtains s where "0 < s" "dg_Window d = s * Second" "go_div (dg_Window d) Second = s" "digestAlignmentPeriod mod dg_Window d = 0" "Digest_Enabled d"
proof -
  have w: "0 < dg_Window d" "go_mod (dg_Window d) Second = 0" "go_mod digestAlignmentPeriod (dg_Window d) = 0"
    using assms by (auto simp: DigestWindowAligned_def split: if_splits)
  then obtain s where s: "dg_Window d = s * Second"
    by (auto simp: go_mod_eq_0_iff Second_def elim!: dvdE)
  with w(1) have "0 < s" by (simp add: Second_def zero_less_mult_iff)
  moreover from this have "go_div (dg_Window d) Second = s" by (simp add: go_div_nonneg s Second_def)
  ultimately show ?thesis
    using that s w by (simp add: Digest_Enabled_def go_mod_nonneg digestAlignmentPeriod_def duration_units)
qed

lemma WindowStart_eq:
  assumes "DigestWindowAligned (dg_Window d)"
  shows "WindowStart d t = unix_epoch + (t - unix_epoch) div dg_Window d * dg_Window d"
proof -
  obtain s where s: "0 < s" "dg_Window d = s * Second" "go_div (dg_Window d) Second = s" "Digest_Enabled d"
    by (rule aligned_window [OF assms])
  have "Unix t div s = (t - unix_epoch) div dg_Window d"
    using s(1) zdiv_zmult2_eq [of s "t - unix_epoch" Second] by (simp add: Unix_def s(2) mult.commute)
  moreover have "WindowStart d t = time_Unix (Unix t div s * s)"
    using s(4) unfolding WindowStart_def Let_def s(3) go_floor [OF s(1), symmetric] by simp
  ultimately show ?thesis by (simp add: time_Unix_def s(2) mult.assoc)
qed

text \<open>The \<open>k\<close>th window of the calendar, and the one an instant is in.\<close>

definition nth_window :: "Digest \<Rightarrow> int \<Rightarrow> time" where
  "nth_window d k = unix_epoch + k * dg_Window d"

definition window_index :: "Digest \<Rightarrow> time \<Rightarrow> int" where
  "window_index d t = (t - unix_epoch) div dg_Window d"

lemma aligned_pos: "DigestWindowAligned (dg_Window d) \<Longrightarrow> 0 < dg_Window d"
  by (auto simp: DigestWindowAligned_def split: if_splits)

lemma WindowStart_nth: "DigestWindowAligned (dg_Window d) \<Longrightarrow> WindowStart d t = nth_window d (window_index d t)"
  by (simp add: WindowStart_eq nth_window_def window_index_def)

lemma index_nth [simp]: "DigestWindowAligned (dg_Window d) \<Longrightarrow> window_index d (nth_window d k) = k"
  using aligned_pos by (fastforce simp: window_index_def nth_window_def)

lemma nth_window_le [simp]: "DigestWindowAligned (dg_Window d) \<Longrightarrow> nth_window d j \<le> nth_window d k \<longleftrightarrow> j \<le> k"
  using aligned_pos [of d] by (simp add: nth_window_def)

lemma nth_window_less [simp]: "DigestWindowAligned (dg_Window d) \<Longrightarrow> nth_window d j < nth_window d k \<longleftrightarrow> j < k"
  using aligned_pos [of d] by (simp add: nth_window_def)

lemma nth_window_eq [simp]: "DigestWindowAligned (dg_Window d) \<Longrightarrow> nth_window d j = nth_window d k \<longleftrightarrow> j = k"
  using aligned_pos [of d] by (simp add: nth_window_def)

lemma nth_window_step [simp]: "nth_window d k + dg_Window d = nth_window d (k + 1)" "nth_window d k - dg_Window d = nth_window d (k - 1)"
  by (simp_all add: nth_window_def algebra_simps)

lemma epoch_nth: "time_Unix 0 = nth_window d 0" "unix_epoch = nth_window d 0"
  by (simp_all add: time_Unix_def nth_window_def)

lemma index_bounds:
  assumes "DigestWindowAligned (dg_Window d)"
  shows "nth_window d (window_index d t) \<le> t" "t < nth_window d (window_index d t + 1)"
proof -
  have w: "0 < dg_Window d" by (rule aligned_pos [OF assms])
  have "(t - unix_epoch) div dg_Window d * dg_Window d + (t - unix_epoch) mod dg_Window d = t - unix_epoch" by (rule div_mult_mod_eq)
  then have eq: "nth_window d (window_index d t) = t - (t - unix_epoch) mod dg_Window d"
    unfolding nth_window_def window_index_def by linarith
  have "0 \<le> (t - unix_epoch) mod dg_Window d" "(t - unix_epoch) mod dg_Window d < dg_Window d" using w by simp_all
  then show "nth_window d (window_index d t) \<le> t" "t < nth_window d (window_index d t + 1)"
    unfolding nth_window_step(1) [symmetric] eq by simp_all
qed

lemma index_unique:
  assumes "DigestWindowAligned (dg_Window d)" "nth_window d k \<le> t" "t < nth_window d (k + 1)"
  shows "window_index d t = k"
proof -
  note b = index_bounds [OF assms(1), of t]
  have "nth_window d k < nth_window d (window_index d t + 1)" "nth_window d (window_index d t) < nth_window d (k + 1)"
    using b assms(2,3) by linarith+
  then show ?thesis using assms(1) by simp
qed

lemma WindowOrdinal_nth:
  assumes "DigestWindowAligned (dg_Window d)"
  shows "WindowOrdinal d (nth_window d k) = k"
proof -
  obtain s where s: "0 < s" "dg_Window d = s * Second" "go_div (dg_Window d) Second = s" "Digest_Enabled d"
    by (rule aligned_window [OF assms])
  have "Unix (nth_window d k) = k * s" by (simp add: Unix_def nth_window_def s(2) mult.assoc [symmetric] Second_def)
  moreover have "go_div (k * s) s = k" using s(1) by (simp add: go_div_def sgn_mult abs_mult sgn_mult_abs)
  ultimately show ?thesis by (simp add: WindowOrdinal_def s(3,4))
qed

text \<open>
  C31. The windows of an accepted length tile the calendar. Every instant is in exactly one window, the one \<open>WindowStart\<close>
  names, also before the epoch; the end of a window is the start of the next; the ordinal counts them
  without gaps and tells windows apart; and midnight UTC of every day is a boundary.
\<close>

theorem digest_windows_tile:
  assumes "DigestWindowAligned (dg_Window d)"
  shows "(WindowStart d u = WindowStart d t \<longleftrightarrow> WindowStart d t \<le> u \<and> u < WindowEnd d (WindowStart d t)) \<and>
    WindowStart d (WindowEnd d (WindowStart d t)) = WindowEnd d (WindowStart d t) \<and>
    WindowOrdinal d (WindowEnd d (WindowStart d t)) = WindowOrdinal d (WindowStart d t) + 1 \<and>
    (WindowOrdinal d (WindowStart d u) = WindowOrdinal d (WindowStart d t) \<longleftrightarrow> WindowStart d u = WindowStart d t) \<and>
    WindowStart d (time_Unix (86400 * k)) = time_Unix (86400 * k)"
proof -
  have "WindowStart d u = WindowStart d t \<longleftrightarrow> WindowStart d t \<le> u \<and> u < WindowEnd d (WindowStart d t)"
    using index_bounds [OF assms, of u] index_unique [OF assms, of "window_index d t" u]
    by (auto simp: WindowStart_nth assms WindowEnd_def)
  moreover obtain m where m: "digestAlignmentPeriod = dg_Window d * m"
    by (rule aligned_window [OF assms]) (auto simp: mod_eq_0_iff_dvd)
  then have "time_Unix (86400 * k) = nth_window d (m * k)"
    by (simp add: time_Unix_def nth_window_def digestAlignmentPeriod_def duration_units algebra_simps)
  ultimately show ?thesis by (simp add: WindowStart_nth assms WindowEnd_def WindowOrdinal_nth)
qed

theorem digest_windows_tile_witness:
  "WindowStart \<lparr>dg_Window = 3600 * Second, dg_Floor = 1, dg_InvestigatorID = 0\<rparr> (time_Unix (86400 * 19000)) = time_Unix (86400 * 19000)"
  using digest_windows_tile [of "\<lparr>dg_Window = 3600 * Second, dg_Floor = 1, dg_InvestigatorID = 0\<rparr>" 0 0 19000]
  by (simp add: DigestWindowAligned_def go_mod_nonneg digestAlignmentPeriod_def duration_units)

section \<open>The backlog\<close>

lemma windows_from_upto:
  assumes "DigestWindowAligned (dg_Window d)"
  shows "windows_from (dg_Window d) (nth_window d a) (nth_window d b) = map (nth_window d) [a..b]"
proof (induction "nat (b - a + 1)" arbitrary: a)
  case 0
  then show ?case using assms by (simp add: windows_from.simps)
next
  case (Suc n)
  then have "a \<le> b" "n = nat (b - (a + 1) + 1)" by simp_all
  with Suc(1) [of "a + 1"] show ?case
    using assms aligned_pos [OF assms] by (simp add: windows_from.simps [of _ "nth_window d a"] upto.simps [of a])
qed

definition first_owed :: "Digest \<Rightarrow> time \<Rightarrow> int" where
  "first_owed d coveredTo = max (window_index d coveredTo) 1"

lemma owed_eq:
  assumes "DigestWindowAligned (dg_Window d)" "coveredTo \<noteq> 0" "now \<le> time_Unix 0 + max_duration"
  shows "owed d now coveredTo =
    (if first_owed d coveredTo \<le> window_index d now - 1
     then Some (nth_window d (first_owed d coveredTo), nth_window d (window_index d now - 1), window_index d now - first_owed d coveredTo)
     else None)"
proof -
  let ?K = "window_index d now" and ?m = "first_owed d coveredTo"
  have w: "0 < dg_Window d" "Digest_Enabled d" using aligned_pos [OF assms(1)] by (simp_all add: Digest_Enabled_def)
  have first: "(if \<not> WindowStart d coveredTo > nth_window d 0 then nth_window d 0 + dg_Window d else WindowStart d coveredTo) = nth_window d ?m"
    using assms(1) by (auto simp: WindowStart_nth first_owed_def max_def)
  have len: "go_div (t_sub (nth_window d (?K - 1)) (nth_window d ?m)) (dg_Window d) + 1 = ?K - ?m" if "?m \<le> ?K - 1"
  proof -
    have diff: "nth_window d (?K - 1) - nth_window d ?m = (?K - 1 - ?m) * dg_Window d" by (simp add: nth_window_def algebra_simps)
    have "nth_window d ?m \<ge> nth_window d 0" using assms(1) by (simp add: first_owed_def)
    moreover have "nth_window d (?K - 1) \<le> now"
      using index_bounds(1) [OF assms(1), of now] assms(1) by (meson nth_window_le order_trans zle_diff1_eq less_imp_le order_refl)
    ultimately have "nth_window d (?K - 1) - nth_window d ?m \<le> max_duration"
      using assms(3) epoch_nth(1) [of d] by linarith
    moreover have "0 \<le> (?K - 1 - ?m) * dg_Window d" using that w(1) by simp
    ultimately have "t_sub (nth_window d (?K - 1)) (nth_window d ?m) = (?K - 1 - ?m) * dg_Window d"
      unfolding diff [symmetric] by (intro t_sub_exact) (simp_all add: min_duration_def)
    then show ?thesis using that w(1) by (simp add: go_div_nonneg)
  qed
  show ?thesis
  proof (cases "?m \<le> ?K - 1")
    case True
    moreover have "nth_window d (?K - 1) > nth_window d 0" using True assms(1) by (simp add: first_owed_def)
    ultimately show ?thesis
      using w(2) assms(1,2) len by (simp add: owed_def Let_def first epoch_nth(1) [of d]) (simp add: WindowStart_nth)
  next
    case False
    then show ?thesis
      using w(2) assms(1,2) by (simp add: owed_def Let_def first epoch_nth(1) [of d]) (simp add: WindowStart_nth)
  qed
qed

lemma DigestWindows_eq:
  assumes "DigestWindowAligned (dg_Window d)" "coveredTo \<noteq> 0" "now \<le> time_Unix 0 + max_duration"
  shows "DigestWindows d now coveredTo = map (nth_window d) [max (first_owed d coveredTo) (window_index d now - 6)..window_index d now - 1]"
proof -
  have sixth: "nth_window d (window_index d now - 1) - (MaxDigestBackfill - 1) * dg_Window d = nth_window d (window_index d now - 6)"
    by (simp add: nth_window_def MaxDigestBackfill_def algebra_simps)
  show ?thesis
  proof (cases "first_owed d coveredTo \<le> window_index d now - 1")
    case True
    have lower: "(if window_index d now - first_owed d coveredTo > MaxDigestBackfill then nth_window d (window_index d now - 6)
        else nth_window d (first_owed d coveredTo)) = nth_window d (max (first_owed d coveredTo) (window_index d now - 6))"
    proof (cases "window_index d now - first_owed d coveredTo > MaxDigestBackfill")
      case True
      then have "max (first_owed d coveredTo) (window_index d now - 6) = window_index d now - 6" by (simp add: MaxDigestBackfill_def)
      with True show ?thesis by simp
    next
      case False
      then have "max (first_owed d coveredTo) (window_index d now - 6) = first_owed d coveredTo" by (simp add: MaxDigestBackfill_def)
      with False show ?thesis by simp
    qed
    show ?thesis
      using True unfolding DigestWindows_def owed_eq [OF assms] if_P [OF True] option.case prod.case sixth lower
      by (intro windows_from_upto [OF assms(1)])
  next
    case False
    then show ?thesis by (simp add: DigestWindows_def owed_eq [OF assms])
  qed
qed

text \<open>A window that is closed, after the epoch and not before the mark.\<close>

definition owed_window :: "Digest \<Rightarrow> time \<Rightarrow> time \<Rightarrow> time \<Rightarrow> bool" where
  "owed_window d now coveredTo w \<longleftrightarrow> WindowStart d w = w \<and> time_Unix 0 < w \<and> WindowStart d coveredTo \<le> w \<and> WindowEnd d w \<le> WindowStart d now"

lemma owed_window_iff:
  assumes "DigestWindowAligned (dg_Window d)"
  shows "owed_window d now coveredTo w \<longleftrightarrow> (\<exists>k. w = nth_window d k \<and> first_owed d coveredTo \<le> k \<and> k \<le> window_index d now - 1)"
proof
  assume w: "owed_window d now coveredTo w"
  define k where "k = window_index d w"
  have "w = nth_window d k" using w by (simp add: owed_window_def WindowStart_nth assms k_def)
  then show "\<exists>k. w = nth_window d k \<and> first_owed d coveredTo \<le> k \<and> k \<le> window_index d now - 1"
    using w assms by (intro exI [of _ k]) (simp add: owed_window_def WindowStart_nth WindowEnd_def epoch_nth(1) [of d] first_owed_def)
next
  assume "\<exists>k. w = nth_window d k \<and> first_owed d coveredTo \<le> k \<and> k \<le> window_index d now - 1"
  then show "owed_window d now coveredTo w"
    using assms by (auto simp: owed_window_def WindowStart_nth WindowEnd_def epoch_nth(1) [of d] first_owed_def)
qed



end
