(* ===== verification/Notify_Policy.thy ===== *)
theory Notify_Policy
  imports Thread_Store Digest_Windows "HOL-Library.Product_Lexorder"
begin

text \<open>
  Notification policies: matchers (\<^verbatim>\<open>internal/alerts/domain/matcher.go\<close>), the policy and its validator
  (\<^verbatim>\<open>internal/notification/domain/policy.go\<close>), and the service that routes a fact to a policy and previews the routing
  (\<^verbatim>\<open>internal/notification/service/policy.go\<close>). Go's regular expressions are a parameter: which patterns compile and
  which strings they match. The cache of compiled patterns changes no answer and is not kept.
\<close>

section \<open>Matchers\<close>

record regexlib =
  rx_Compiles :: "string \<Rightarrow> bool"
  rx_MatchString :: "string \<Rightarrow> string \<Rightarrow> bool"

datatype MatchOp = OpEqual | OpNotEqual | OpMatch | OpNotMatch | OpOther string

definition MatchOp_Valid :: "MatchOp \<Rightarrow> bool" where
  "MatchOp_Valid op \<longleftrightarrow> (case op of OpOther _ \<Rightarrow> False | _ \<Rightarrow> True)"

definition IsRegex :: "MatchOp \<Rightarrow> bool" where
  "IsRegex op \<longleftrightarrow> op = OpMatch \<or> op = OpNotMatch"

record Matcher =
  mt_Name :: string
  mt_Op :: MatchOp
  mt_Value :: string

definition anchoredRegex :: "regexlib \<Rightarrow> string \<Rightarrow> string result" where
  "anchoredRegex RX v =
     (let pattern = ''^(?:'' @ v @ '')$'' in
      if rx_Compiles RX pattern then Inr pattern
      else Inl (errs_Validation ''policy_matcher_regex'' [Violation ''matchers.value'' ''regex'']))"

definition op_error :: error where
  "op_error = errs_Validation ''policy_matcher_op'' [Violation ''matchers.op'' ''enum'']"

definition Matcher_Validate :: "regexlib \<Rightarrow> Matcher \<Rightarrow> error option" where
  "Matcher_Validate RX m =
     (if TrimSpace (mt_Name m) = [] then Some (errs_Validation ''policy_matcher_name'' [Violation ''matchers.name'' ''required''])
      else if \<not> MatchOp_Valid (mt_Op m) then Some op_error
      else if IsRegex (mt_Op m) then (case anchoredRegex RX (mt_Value m) of Inl e \<Rightarrow> Some e | Inr _ \<Rightarrow> None)
      else None)"

text \<open>\<^verbatim>\<open>labels[m.Name]\<close>: a label that is not there reads as the empty string.\<close>

definition label_of :: "(string \<times> string) list \<Rightarrow> string \<Rightarrow> string" where
  "label_of labels k = (case map_of labels k of Some v \<Rightarrow> v | None \<Rightarrow> [])"

definition Matcher_Matches :: "regexlib \<Rightarrow> Matcher \<Rightarrow> (string \<times> string) list \<Rightarrow> bool result" where
  "Matcher_Matches RX m labels =
     (let got = label_of labels (mt_Name m) in
      case mt_Op m of
        OpEqual \<Rightarrow> Inr (got = mt_Value m)
      | OpNotEqual \<Rightarrow> Inr (got \<noteq> mt_Value m)
      | OpOther _ \<Rightarrow> Inl op_error
      | _ \<Rightarrow> rbind (anchoredRegex RX (mt_Value m)) (\<lambda>re.
          let hit = rx_MatchString RX re got in
          Inr (if mt_Op m = OpNotMatch then \<not> hit else hit)))"

fun MatchAll :: "regexlib \<Rightarrow> Matcher list \<Rightarrow> (string \<times> string) list \<Rightarrow> bool result" where
  "MatchAll RX [] labels = Inr True"
| "MatchAll RX (m # ms) labels = rbind (Matcher_Matches RX m labels) (\<lambda>ok. if \<not> ok then Inr False else MatchAll RX ms labels)"

section \<open>Policies\<close>

definition MaxPolicyMatchers :: nat where "MaxPolicyMatchers = 32"
definition MaxPolicyReasons :: nat where "MaxPolicyReasons = 27"
definition MaxPolicyChannels :: nat where "MaxPolicyChannels = 16"
definition MinPolicyPriority :: int where "MinPolicyPriority = 0"
definition MaxPolicyPriority :: int where "MaxPolicyPriority = 10000"
definition MaxPolicyNameLength :: nat where "MaxPolicyNameLength = 120"
definition MaxPolicySubjectKinds :: nat where "MaxPolicySubjectKinds = 4"
definition MinCountThreshold :: int where "MinCountThreshold = 2"
definition MaxCountThreshold :: int where "MaxCountThreshold = MaxDigestFloor"
definition MinCountWindow :: duration where "MinCountWindow = Minute"
definition MaxCountWindow :: duration where "MaxCountWindow = 24 * Hour"

record Throttle =
  tr_Max :: int
  tr_Window :: duration

definition Throttle_Enabled :: "Throttle \<Rightarrow> bool" where
  "Throttle_Enabled t \<longleftrightarrow> tr_Max t > 0 \<and> tr_Window t > 0"

record CountOverWindow =
  cw_Min :: int
  cw_Window :: duration

definition Count_Enabled :: "CountOverWindow \<Rightarrow> bool" where
  "Count_Enabled c \<longleftrightarrow> cw_Min c > 0 \<and> cw_Window c > 0"

definition Count_Clears :: "CountOverWindow \<Rightarrow> int \<Rightarrow> bool" where
  "Count_Clears c n = (if \<not> Count_Enabled c then True else n \<ge> cw_Min c)"

type_synonym SubjectBinding = "SubjectKind list"

definition Unrestricted :: "SubjectBinding \<Rightarrow> bool" where
  "Unrestricted b \<longleftrightarrow> length b = 0"

definition Binds :: "SubjectBinding \<Rightarrow> SubjectKind \<Rightarrow> bool" where
  "Binds b k = (if Unrestricted b then True else list_ex (\<lambda>have. have = k) b)"

definition Sole :: "SubjectBinding \<Rightarrow> SubjectKind option" where
  "Sole b = (if length b \<noteq> 1 then None else Some (b ! 0))"

record NotificationPolicy =
  po_ID :: uuid
  po_Name :: string
  po_Priority :: int
  po_Enabled :: bool
  po_Matchers :: "Matcher list"
  po_Reasons :: "Reason list"
  po_ChannelIDs :: "uuid list"
  po_Throttle :: Throttle
  po_Subjects :: SubjectBinding
  po_Count :: CountOverWindow
  po_Digest :: Digest
  po_CreatedAt :: time
  po_DeletedAt :: "time option"

definition Policy_Live :: "NotificationPolicy \<Rightarrow> bool" where
  "Policy_Live p \<longleftrightarrow> po_Enabled p \<and> po_DeletedAt p = None"

definition Handles :: "NotificationPolicy \<Rightarrow> Reason \<Rightarrow> bool" where
  "Handles p r = (if \<not> Binds (po_Subjects p) (Reason_Subject r) then False else list_ex (\<lambda>k. k = r) (po_Reasons p))"

definition Policy_Digests :: "NotificationPolicy \<Rightarrow> bool" where
  "Policy_Digests p \<longleftrightarrow> Digest_Enabled (po_Digest p) \<and> Handles p ReasonDigest"

definition Policy_Matches :: "regexlib \<Rightarrow> NotificationPolicy \<Rightarrow> (string \<times> string) list \<Rightarrow> bool result" where
  "Policy_Matches RX p labels = MatchAll RX (po_Matchers p) labels"

text \<open>The loop over a list of enum values: an unknown one is reported each time, a repeated one once.\<close>

fun scan_items :: "('a \<Rightarrow> bool) \<Rightarrow> string \<Rightarrow> 'a list \<Rightarrow> 'a list \<Rightarrow> 'a list \<Rightarrow> violation list" where
  "scan_items valid field seen duplicated [] = []"
| "scan_items valid field seen duplicated (r # rs) =
     (if \<not> valid r then [Violation field ''enum''] else []) @
     (if r \<in> set seen \<and> r \<notin> set duplicated then [Violation field ''duplicate_items''] else []) @
     scan_items valid field (r # seen) (if r \<in> set seen \<and> r \<notin> set duplicated then r # duplicated else duplicated) rs"

definition validateSubjects :: "NotificationPolicy \<Rightarrow> violation list" where
  "validateSubjects p =
     (if Unrestricted (po_Subjects p) then []
      else
        (if length (po_Subjects p) > MaxPolicySubjectKinds then [Violation ''subject_kinds'' ''max_items''] else []) @
        scan_items SubjectKind_Valid ''subject_kinds'' [] [] (po_Subjects p) @
        (if length (po_Reasons p) > 0 \<and>
            \<not> list_ex (\<lambda>r. Reason_Valid r \<and> Binds (po_Subjects p) (Reason_Subject r)) (po_Reasons p)
         then [Violation ''subject_kinds'' ''incoherent''] else []))"

definition validateDigest :: "NotificationPolicy \<Rightarrow> violation list" where
  "validateDigest p =
     (let d = po_Digest p in
      (if dg_Window d \<noteq> 0 then
         (if dg_Window d < MinDigestWindow \<or> dg_Window d > MaxDigestWindow then [Violation ''digest_window_seconds'' ''range'']
          else if \<not> DigestWindowAligned (dg_Window d) then [Violation ''digest_window_seconds'' ''alignment'']
          else []) @
         (if \<not> Binds (po_Subjects p) SubjectDigest then [Violation ''subject_kinds'' ''incoherent'']
          else if \<not> Handles p ReasonDigest then [Violation ''reasons'' ''required'']
          else [])
       else []) @
      (if dg_Floor d \<noteq> 0 \<and> (dg_Floor d < MinDigestFloor \<or> dg_Floor d > MaxDigestFloor) then [Violation ''digest_floor'' ''range'']
       else if dg_Floor d > 0 \<and> dg_Window d = 0 then [Violation ''digest_floor'' ''incomplete'']
       else []) @
      (if dg_InvestigatorID d \<noteq> 0 \<and> dg_Window d = 0 then [Violation ''digest_investigator_id'' ''incomplete''] else []))"

definition validateCount :: "NotificationPolicy \<Rightarrow> violation list" where
  "validateCount p =
     (let c = po_Count p in
      (if cw_Min c \<noteq> 0 \<and> (cw_Min c < MinCountThreshold \<or> cw_Min c > MaxCountThreshold) then [Violation ''count_min'' ''range''] else []) @
      (if cw_Window c \<noteq> 0 \<and> (cw_Window c < MinCountWindow \<or> cw_Window c > MaxCountWindow)
       then [Violation ''count_window_seconds'' ''range''] else []) @
      (if cw_Min c > 0 \<and> cw_Window c = 0 then [Violation ''count_window_seconds'' ''incomplete'']
       else if cw_Window c > 0 \<and> cw_Min c = 0 then [Violation ''count_min'' ''incomplete'']
       else []) @
      (if Count_Enabled c then
         (case Sole (po_Subjects p) of
            None \<Rightarrow> [Violation ''subject_kinds'' ''required'']
          | Some kind \<Rightarrow> if kind \<noteq> SubjectCase then [Violation ''subject_kinds'' ''unsupported''] else [])
       else []))"

definition Policy_Validate :: "regexlib \<Rightarrow> NotificationPolicy \<Rightarrow> error option" where
  "Policy_Validate RX p =
     (let n = length (TrimSpace (po_Name p));
          v = (if n < 1 \<or> n > MaxPolicyNameLength then [Violation ''name'' ''length''] else []) @
              (if po_Priority p < MinPolicyPriority \<or> po_Priority p > MaxPolicyPriority then [Violation ''priority'' ''range''] else []) @
              (if length (po_Matchers p) > MaxPolicyMatchers then [Violation ''matchers'' ''max_items''] else []) @
              concat (map (\<lambda>m. case Matcher_Validate RX m of Some e \<Rightarrow> errViolations e | None \<Rightarrow> []) (po_Matchers p)) @
              (if length (po_Reasons p) < 1 then [Violation ''reasons'' ''required'']
               else if length (po_Reasons p) > MaxPolicyReasons then [Violation ''reasons'' ''max_items''] else []) @
              scan_items Reason_Valid ''reasons'' [] [] (po_Reasons p) @
              (if length (po_ChannelIDs p) < 1 then [Violation ''channel_ids'' ''required'']
               else if length (po_ChannelIDs p) > MaxPolicyChannels then [Violation ''channel_ids'' ''max_items''] else []) @
              concat (map (\<lambda>i. if i = 0 then [Violation ''channel_ids'' ''required''] else []) (po_ChannelIDs p)) @
              (if (tr_Max (po_Throttle p) > 0) \<noteq> (tr_Window (po_Throttle p) > 0) then [Violation ''throttle'' ''incomplete''] else []) @
              validateSubjects p @ validateDigest p @ validateCount p
      in violations_err ''policy_invalid'' v)"

section \<open>Routing\<close>

text \<open>\<^verbatim>\<open>ListLive\<close> orders by priority, then age, then id. \<^verbatim>\<open>ListByIDs\<close> orders by name, which its callers do not rely on.\<close>

definition ListLive :: "NotificationPolicy list \<Rightarrow> NotificationPolicy list" where
  "ListLive policies = sort_key (\<lambda>p. (po_Priority p, po_CreatedAt p, po_ID p)) (filter Policy_Live policies)"

definition ListByIDs :: "DB \<Rightarrow> uuid list \<Rightarrow> Channel list" where
  "ListByIDs db ids = filter (\<lambda>c. ch_ID c \<in> set ids) (db_channels db)"

record Match =
  ma_Policy :: "NotificationPolicy option"
  ma_Channels :: "Channel list"
  ma_Live :: "Channel list"

definition no_match :: Match where
  "no_match = \<lparr>ma_Policy = None, ma_Channels = [], ma_Live = []\<rparr>"

definition Routed :: "Match \<Rightarrow> bool" where
  "Routed m \<longleftrightarrow> ma_Policy m \<noteq> None"

definition Deliverable :: "Match \<Rightarrow> bool" where
  "Deliverable m \<longleftrightarrow> length (ma_Live m) > 0"

fun evaluate_loop :: "regexlib \<Rightarrow> DB \<Rightarrow> NotificationPolicy list \<Rightarrow> Reason \<Rightarrow> (string \<times> string) list \<Rightarrow> Match" where
  "evaluate_loop RX db [] r labels = no_match"
| "evaluate_loop RX db (p # ps) r labels =
     (if \<not> Handles p r then evaluate_loop RX db ps r labels
      else case Policy_Matches RX p labels of
        Inl _ \<Rightarrow> evaluate_loop RX db ps r labels
      | Inr False \<Rightarrow> evaluate_loop RX db ps r labels
      | Inr True \<Rightarrow>
          let channels = ListByIDs db (po_ChannelIDs p)
          in \<lparr>ma_Policy = Some p, ma_Channels = channels, ma_Live = filter Live channels\<rparr>)"

definition unknown_reason :: error where
  "unknown_reason = errs_Validation ''unknown_reason'' [Violation ''reason'' ''enum'']"

definition Policies_Evaluate ::
  "regexlib \<Rightarrow> DB \<Rightarrow> NotificationPolicy list \<Rightarrow> Reason \<Rightarrow> (string \<times> string) list \<Rightarrow> Match result" where
  "Policies_Evaluate RX db policies r labels =
     (if \<not> Reason_Valid r then Inl unknown_reason
      else Inr (evaluate_loop RX db (ListLive policies) r labels))"

section \<open>Preview\<close>

fun evaluateMatchers :: "regexlib \<Rightarrow> Matcher list \<Rightarrow> (string \<times> string) list \<Rightarrow> string \<times> bool \<times> bool" where
  "evaluateMatchers RX [] labels = ([], False, True)"
| "evaluateMatchers RX (m # ms) labels =
     (case Matcher_Matches RX m labels of
        Inl _ \<Rightarrow> (mt_Name m, True, False)
      | Inr ok \<Rightarrow> if \<not> ok then (mt_Name m, False, False) else evaluateMatchers RX ms labels)"

record PreviewOutcome =
  pv_PolicyID :: uuid
  pv_Matched :: bool
  pv_Verdict :: string
  pv_FailedMatcher :: string

record PreviewDestination =
  pd_ChannelID :: uuid
  pd_Live :: bool
  pd_Modes :: "Mode list"
  pd_ReplyDropReason :: string

record Preview =
  pr_Outcomes :: "PreviewOutcome list"
  pr_Matched :: "NotificationPolicy option"
  pr_Destinations :: "PreviewDestination list"
  pr_Suppressed :: "SuppressedReason option"

fun preview_loop ::
  "regexlib \<Rightarrow> NotificationPolicy list \<Rightarrow> Reason \<Rightarrow> (string \<times> string) list \<Rightarrow> NotificationPolicy option \<Rightarrow>
   PreviewOutcome list \<times> NotificationPolicy option" where
  "preview_loop RX [] r labels matched = ([], matched)"
| "preview_loop RX (p # ps) r labels matched =
     (let (verdict, failed, m) =
        (if matched \<noteq> None then (''not_reached'', [], matched)
         else if \<not> Handles p r then (''reason_not_handled'', [], matched)
         else case evaluateMatchers RX (po_Matchers p) labels of (failed, invalid, hit) \<Rightarrow>
           if invalid then (''matcher_invalid'', failed, matched)
           else if \<not> hit then (''matcher_failed'', failed, matched)
           else (''matched'', [], Some p));
        (outs, final) = preview_loop RX ps r labels m
      in (\<lparr>pv_PolicyID = po_ID p, pv_Matched = (verdict = ''matched''), pv_Verdict = verdict, pv_FailedMatcher = failed\<rparr> # outs, final))"

datatype PreviewRequest = PreviewDraft NotificationPolicy | PreviewByID uuid | PreviewAll

definition previewCandidates :: "regexlib \<Rightarrow> NotificationPolicy list \<Rightarrow> PreviewRequest \<Rightarrow> NotificationPolicy list result" where
  "previewCandidates RX policies req =
     (case req of
        PreviewDraft p \<Rightarrow> or_fail (Policy_Validate RX p) (Inr [p])
      | PreviewByID i \<Rightarrow> rbind (get_row po_ID ''policy_not_found'' policies i) (\<lambda>p. Inr [p])
      | PreviewAll \<Rightarrow> Inr (ListLive policies))"

definition preview_input :: "Reason \<Rightarrow> Channel \<Rightarrow> PlanInput" where
  "preview_input r c = \<lparr>pi_Reason = r, pi_Verbosity = Verbosity_Normalise (ch_Verbosity c), pi_ThreadUpdates = ch_ThreadUpdates c,
     pi_Capabilities = ch_Capabilities c, pi_ThreadExists = False, pi_Flapping = False\<rparr>"

definition Policies_Preview ::
  "regexlib \<Rightarrow> DB \<Rightarrow> NotificationPolicy list \<Rightarrow> PreviewRequest \<Rightarrow> Reason \<Rightarrow> (string \<times> string) list \<Rightarrow> Preview result" where
  "Policies_Preview RX db policies req r labels =
     (if \<not> Reason_Valid r then Inl unknown_reason
      else rbind (previewCandidates RX policies req) (\<lambda>candidates.
        case preview_loop RX candidates r labels None of
          (outs, None) \<Rightarrow> Inr \<lparr>pr_Outcomes = outs, pr_Matched = None, pr_Destinations = [], pr_Suppressed = Some SuppressedNoPolicy\<rparr>
        | (outs, Some p) \<Rightarrow>
            let channels = ListByIDs db (po_ChannelIDs p);
                anyLive = list_ex Live channels;
                anyDelivery = list_ex (\<lambda>c. Live c \<and> \<not> Plan_Empty (PlanFor (preview_input r c))) channels
            in Inr \<lparr>pr_Outcomes = outs, pr_Matched = Some p,
                 pr_Destinations = map (\<lambda>c. let plan = PlanFor (preview_input r c) in
                   \<lparr>pd_ChannelID = ch_ID c, pd_Live = Live c, pd_Modes = p_Modes plan, pd_ReplyDropReason = p_ReplyDropReason plan\<rparr>) channels,
                 pr_Suppressed = (if \<not> anyLive then Some SuppressedChannelDisabled
                   else if \<not> anyDelivery then Some SuppressedVerbosity else None)\<rparr>))"

section \<open>What an accepted policy promises\<close>

lemma scan_items_Nil:
  assumes "set duplicated \<subseteq> set seen" "set rs \<inter> set duplicated = {}"
  shows "scan_items valid field seen duplicated rs = [] \<longleftrightarrow> (\<forall>r\<in>set rs. valid r) \<and> distinct rs \<and> set rs \<inter> set seen = {}"
  using assms
proof (induction rs arbitrary: seen duplicated)
  case (Cons r rs)
  show ?case
  proof (cases "r \<in> set seen")
    case True
    then show ?thesis using Cons.prems by auto
  next
    case False
    then have "scan_items valid field seen duplicated (r # rs) = [] \<longleftrightarrow> valid r \<and> scan_items valid field (r # seen) duplicated rs = []"
      by simp
    also have "\<dots> \<longleftrightarrow> valid r \<and> (\<forall>x\<in>set rs. valid x) \<and> distinct rs \<and> set rs \<inter> set (r # seen) = {}"
      using Cons.IH [of duplicated "r # seen"] Cons.prems by auto
    also have "\<dots> \<longleftrightarrow> (\<forall>x\<in>set (r # rs). valid x) \<and> distinct (r # rs) \<and> set (r # rs) \<inter> set seen = {}"
      using False by auto
    finally show ?thesis .
  qed
qed simp

lemmas scan_all_Nil = scan_items_Nil [where seen = "[]" and duplicated = "[]", simplified]

lemma Matcher_Validate_total:
  assumes "Matcher_Validate RX m = None"
  shows "\<exists>b. Matcher_Matches RX m labels = Inr b"
proof -
  have op: "MatchOp_Valid (mt_Op m)" and
    re: "IsRegex (mt_Op m) \<Longrightarrow> anchoredRegex RX (mt_Value m) = Inr (''^(?:'' @ mt_Value m @ '')$'')"
    using assms by (auto simp: Matcher_Validate_def anchoredRegex_def Let_def split: if_splits)
  show ?thesis
    using op re by (cases "mt_Op m") (simp_all add: Matcher_Matches_def Let_def MatchOp_Valid_def IsRegex_def)
qed

lemma MatchAll_total: "\<forall>m\<in>set ms. Matcher_Validate RX m = None \<Longrightarrow> \<exists>b. MatchAll RX ms labels = Inr b"
proof (induction ms)
  case (Cons m ms)
  obtain b where "Matcher_Matches RX m labels = Inr b" using Matcher_Validate_total [of RX m labels] Cons.prems by auto
  with Cons show ?case by auto
qed auto

lemma Matcher_Validate_violations: "Matcher_Validate RX m = Some e \<Longrightarrow> errViolations e \<noteq> []"
  by (auto simp: Matcher_Validate_def op_error_def anchoredRegex_def Let_def split: if_splits sum.splits)

lemma Policy_Validate_None:
  assumes "Policy_Validate RX p = None"
  shows "\<forall>m\<in>set (po_Matchers p). Matcher_Validate RX m = None" "po_Reasons p \<noteq> []" "\<forall>r\<in>set (po_Reasons p). Reason_Valid r"
    "distinct (po_Reasons p)" "validateSubjects p = []" "validateDigest p = []" "validateCount p = []"
    "po_ChannelIDs p \<noteq> []" "0 \<notin> set (po_ChannelIDs p)" "length (po_ChannelIDs p) \<le> 16"
    "tr_Max (po_Throttle p) > 0 \<longleftrightarrow> tr_Window (po_Throttle p) > 0" "0 \<le> po_Priority p" "po_Priority p \<le> 10000"
proof -
  note V = assms [unfolded Policy_Validate_def Let_def violations_err_None_iff append_is_Nil_conv]
  from V have ms: "concat (map (\<lambda>m. case Matcher_Validate RX m of Some e \<Rightarrow> errViolations e | None \<Rightarrow> []) (po_Matchers p)) = []"
    by (elim conjE)
  show "\<forall>m\<in>set (po_Matchers p). Matcher_Validate RX m = None"
  proof
    fix m assume "m \<in> set (po_Matchers p)"
    with ms have "(case Matcher_Validate RX m of Some e \<Rightarrow> errViolations e | None \<Rightarrow> []) = []" by simp
    then show "Matcher_Validate RX m = None"
      by (cases "Matcher_Validate RX m") (simp_all add: Matcher_Validate_violations)
  qed
  from V have "(if length (po_Reasons p) < 1 then [Violation ''reasons'' ''required'']
      else if length (po_Reasons p) > MaxPolicyReasons then [Violation ''reasons'' ''max_items''] else []) = []" by (elim conjE)
  then show "po_Reasons p \<noteq> []" by (auto split: if_splits)
  from V have "scan_items Reason_Valid ''reasons'' [] [] (po_Reasons p) = []" by (elim conjE)
  then show "\<forall>r\<in>set (po_Reasons p). Reason_Valid r" "distinct (po_Reasons p)" by (simp_all add: scan_all_Nil)
  from V show "validateSubjects p = []" by (elim conjE)
  from V show "validateDigest p = []" by (elim conjE)
  from V show "validateCount p = []" by (elim conjE)
  from V have "concat (map (\<lambda>i. if i = 0 then [Violation ''channel_ids'' ''required''] else []) (po_ChannelIDs p)) = []" by (elim conjE)
  then show "0 \<notin> set (po_ChannelIDs p)" by (auto split: if_splits)
  from V have "(if length (po_ChannelIDs p) < 1 then [Violation ''channel_ids'' ''required'']
      else if length (po_ChannelIDs p) > MaxPolicyChannels then [Violation ''channel_ids'' ''max_items''] else []) = []" by (elim conjE)
  then show "po_ChannelIDs p \<noteq> []" "length (po_ChannelIDs p) \<le> 16" by (auto simp: MaxPolicyChannels_def split: if_splits)
  from V have "(if (tr_Max (po_Throttle p) > 0) \<noteq> (tr_Window (po_Throttle p) > 0) then [Violation ''throttle'' ''incomplete''] else []) = []"
    by (elim conjE)
  then show "tr_Max (po_Throttle p) > 0 \<longleftrightarrow> tr_Window (po_Throttle p) > 0" by (simp split: if_splits)
  from V have "(if po_Priority p < MinPolicyPriority \<or> po_Priority p > MaxPolicyPriority then [Violation ''priority'' ''range''] else []) = []"
    by (elim conjE)
  then show "0 \<le> po_Priority p" "po_Priority p \<le> 10000" by (simp_all add: MinPolicyPriority_def MaxPolicyPriority_def split: if_splits)
qed

lemma Handles_iff: "Handles p r \<longleftrightarrow> Binds (po_Subjects p) (Reason_Subject r) \<and> r \<in> set (po_Reasons p)"
  by (auto simp: Handles_def list_ex_iff)

text \<open>
  C33. An accepted policy can do what it says. It reacts to at least one reason, every reason it lists is known and listed
  once (so the ceiling of 27 is never what decides), matching it against any labels never fails, each of its
  destinations is named, a digest it asks for is routed by itself over windows that tile the day, and a count
  condition counts cases, needs at least two of them and has a window of a minute to a day.
\<close>

theorem accepted_policy_works:
  assumes "Policy_Validate RX p = None"
  shows "(\<exists>r. Handles p r) \<and> (\<forall>r\<in>set (po_Reasons p). Reason_Valid r) \<and> distinct (po_Reasons p) \<and> length (po_Reasons p) \<le> MaxPolicyReasons \<and>
    (\<exists>b. Policy_Matches RX p labels = Inr b) \<and> 0 \<notin> set (po_ChannelIDs p) \<and> po_ChannelIDs p \<noteq> [] \<and>
    (dg_Window (po_Digest p) \<noteq> 0 \<longrightarrow> Policy_Digests p \<and> DigestWindowAligned (dg_Window (po_Digest p)) \<and>
       MinDigestWindow \<le> dg_Window (po_Digest p) \<and> dg_Window (po_Digest p) \<le> MaxDigestWindow) \<and>
    (Count_Enabled (po_Count p) \<longrightarrow> po_Subjects p = [SubjectCase] \<and> 2 \<le> cw_Min (po_Count p) \<and>
       Minute \<le> cw_Window (po_Count p) \<and> cw_Window (po_Count p) \<le> 24 * Hour) \<and>
    (Throttle_Enabled (po_Throttle p) \<longleftrightarrow> tr_Max (po_Throttle p) > 0)"
proof (intro conjI impI)
  note V = Policy_Validate_None [OF assms]
  show "\<exists>r. Handles p r"
  proof (cases "Unrestricted (po_Subjects p)")
    case True
    have "hd (po_Reasons p) \<in> set (po_Reasons p)" using V(2) by simp
    then show ?thesis using True by (auto simp: Handles_iff Binds_def)
  next
    case False
    then show ?thesis using V(2,5) by (auto simp: validateSubjects_def list_ex_iff Handles_iff split: if_splits)
  qed
  show "\<forall>r\<in>set (po_Reasons p). Reason_Valid r" "distinct (po_Reasons p)" by (rule V)+
  have "set (po_Reasons p) \<subseteq> set allReasons" using V(3) by (auto simp: Reason_Valid_iff)
  then have "card (set (po_Reasons p)) \<le> card (set allReasons)" by (intro card_mono) simp
  also have "\<dots> \<le> length allReasons" by (rule card_length)
  finally show "length (po_Reasons p) \<le> MaxPolicyReasons"
    using distinct_card [OF V(4)] by (simp add: allReasons_def MaxPolicyReasons_def)
  show "\<exists>b. Policy_Matches RX p labels = Inr b" unfolding Policy_Matches_def by (rule MatchAll_total [OF V(1)])
  show "0 \<notin> set (po_ChannelIDs p)" "po_ChannelIDs p \<noteq> []" by (rule V)+
  {
    assume w: "dg_Window (po_Digest p) \<noteq> 0"
    show "DigestWindowAligned (dg_Window (po_Digest p))" "MinDigestWindow \<le> dg_Window (po_Digest p)"
        "dg_Window (po_Digest p) \<le> MaxDigestWindow"
      using V(6) w by (auto simp: validateDigest_def Let_def split: if_splits)
    then have "Digest_Enabled (po_Digest p)" by (simp add: Digest_Enabled_def MinDigestWindow_def duration_units)
    moreover have "Handles p ReasonDigest" using V(6) w by (auto simp: validateDigest_def Let_def split: if_splits)
    ultimately show "Policy_Digests p" by (simp add: Policy_Digests_def)
  next
    assume c: "Count_Enabled (po_Count p)"
    then have "Sole (po_Subjects p) = Some SubjectCase"
      using V(7) by (auto simp: validateCount_def Let_def split: if_splits option.splits)
    then show "po_Subjects p = [SubjectCase]" by (cases "po_Subjects p") (auto simp: Sole_def split: if_splits)
    show "2 \<le> cw_Min (po_Count p)" "Minute \<le> cw_Window (po_Count p)" "cw_Window (po_Count p) \<le> 24 * Hour"
      using V(7) c by (auto simp: validateCount_def Let_def Count_Enabled_def MinCountThreshold_def MinCountWindow_def MaxCountWindow_def
          split: if_splits)
  }
  show "Throttle_Enabled (po_Throttle p) \<longleftrightarrow> tr_Max (po_Throttle p) > 0" using V(11) by (auto simp: Throttle_Enabled_def)
qed

text \<open>A policy that is accepted, and the labels it matches.\<close>

definition ex_regex :: regexlib where
  "ex_regex = \<lparr>rx_Compiles = (\<lambda>_. True), rx_MatchString = (\<lambda>re s. re = ''^(?:'' @ s @ '')$'')\<rparr>"

definition ex_policy :: NotificationPolicy where
  "ex_policy = \<lparr>po_ID = 70, po_Name = ''team'', po_Priority = 10, po_Enabled = True,
     po_Matchers = [\<lparr>mt_Name = ''team'', mt_Op = OpMatch, mt_Value = ''db''\<rparr>],
     po_Reasons = [ReasonFired, ReasonAllResolved, ReasonDigest], po_ChannelIDs = [60],
     po_Throttle = \<lparr>tr_Max = 5, tr_Window = Hour\<rparr>, po_Subjects = [],
     po_Count = \<lparr>cw_Min = 0, cw_Window = 0\<rparr>,
     po_Digest = \<lparr>dg_Window = Hour, dg_Floor = 1, dg_InvestigatorID = 0\<rparr>, po_CreatedAt = 5, po_DeletedAt = None\<rparr>"

lemma ex_policy_ok: "Policy_Validate ex_regex ex_policy = None"
  by code_simp

theorem accepted_policy_works_witness:
  "(\<exists>b. Policy_Matches ex_regex ex_policy [(''team'', ''db'')] = Inr b) \<and> Policy_Digests ex_policy \<and> Throttle_Enabled (po_Throttle ex_policy)"
  using accepted_policy_works [OF ex_policy_ok, of "[(''team'', ''db'')]"] by (simp add: ex_policy_def duration_units)

section \<open>Preview and routing agree\<close>

lemma evaluateMatchers_MatchAll:
  "evaluateMatchers RX ms labels = (f, bad, hit) \<Longrightarrow>
    (bad \<longleftrightarrow> (\<exists>e. MatchAll RX ms labels = Inl e)) \<and> (hit \<longleftrightarrow> MatchAll RX ms labels = Inr True) \<and> \<not> (bad \<and> hit)"
proof (induction ms arbitrary: f bad hit)
  case (Cons m ms)
  then show ?case by (cases "Matcher_Matches RX m labels") (auto split: if_splits)
qed auto

definition verdict_of :: "regexlib \<Rightarrow> NotificationPolicy \<Rightarrow> Reason \<Rightarrow> (string \<times> string) list \<Rightarrow> bool" where
  "verdict_of RX p r labels \<longleftrightarrow> Handles p r \<and> Policy_Matches RX p labels = Inr True"

lemma evaluate_loop_find:
  "evaluate_loop RX db ps r labels =
     (case find (\<lambda>p. verdict_of RX p r labels) ps of
        None \<Rightarrow> no_match
      | Some p \<Rightarrow> \<lparr>ma_Policy = Some p, ma_Channels = ListByIDs db (po_ChannelIDs p), ma_Live = filter Live (ListByIDs db (po_ChannelIDs p))\<rparr>)"
proof (induction ps)
  case (Cons p ps)
  then show ?case
    by (cases "Policy_Matches RX p labels") (auto simp: verdict_of_def Let_def split: bool.splits)
qed simp

lemma preview_loop_done: "snd (preview_loop RX ps r labels (Some q)) = Some q \<and>
    map pv_Matched (fst (preview_loop RX ps r labels (Some q))) = map (\<lambda>_. False) ps"
  by (induction ps) (auto simp: Let_def split: prod.splits)

lemma preview_loop_find:
  "snd (preview_loop RX ps r labels None) = find (\<lambda>p. verdict_of RX p r labels) ps \<and>
   length (filter pv_Matched (fst (preview_loop RX ps r labels None))) = (if find (\<lambda>p. verdict_of RX p r labels) ps = None then 0 else 1)"
proof (induction ps)
  case (Cons p ps)
  obtain f bad hit where e: "evaluateMatchers RX (po_Matchers p) labels = (f, bad, hit)" by (cases "evaluateMatchers RX (po_Matchers p) labels") auto
  note E = evaluateMatchers_MatchAll [OF e]
  have v: "verdict_of RX p r labels \<longleftrightarrow> Handles p r \<and> hit" using E by (simp add: verdict_of_def Policy_Matches_def)
  have idle: "filter pv_Matched (fst (preview_loop RX ps r labels (Some p))) = []"
    using preview_loop_done [of RX ps r labels p] by (auto simp: filter_empty_conv dest!: map_eq_imp_length_eq [of pv_Matched] arg_cong [where f = set])
  show ?case
    using Cons v E preview_loop_done [of RX ps r labels p] idle by (auto simp: Let_def e split: prod.splits)
qed simp

end
