(* ===== verification/Notify.thy ===== *)
theory Notify
  imports Notify_Policy Dispatch Alert_Keys
begin

text \<open>
  The notifier (\<^verbatim>\<open>internal/notification/service/notify.go\<close>, \<^verbatim>\<open>incident.go\<close>): a fact about a case or an incident becomes one
  notification row, either suppressed with its reason or fanned out into deliveries, in one transaction.

  Parameters (record \<open>world\<close>): the snapshot reader, the incident reader, the reader of incident conversations, the
  organisation's default verbosity, the policies, the hash and the regular expressions. \<^verbatim>\<open>uuid.New\<close> draws from a
  supply \<open>draw\<close>; the counter of what was drawn is passed along and is the last part of a result, so that a theorem can say that the
  ids a run drew were new.
\<close>

unbundle bit_operations_syntax

section \<open>Facts\<close>

record AlertFacts =
  af_ID :: uuid
  af_Labels :: "(string \<times> string) list"
  af_SnoozedUntil :: "time option"
  af_IsFlapping :: bool

definition AlertFacts_Snoozed :: "AlertFacts \<Rightarrow> time \<Rightarrow> bool" where
  "AlertFacts_Snoozed a now \<longleftrightarrow> (case af_SnoozedUntil a of None \<Rightarrow> False | Some u \<Rightarrow> u > now)"

record Snapshot =
  sn_StateVersion :: int
  sn_GroupLabels :: "(string \<times> string) list"
  sn_Alerts :: "AlertFacts list"
  sn_Focus :: "AlertFacts option"
  sn_SnoozedAlerts :: "(uuid \<times> time) list"
  sn_MemberCount :: int
  sn_SnoozedMemberCount :: int
  sn_TakenAt :: time

definition AllMembersSnoozed :: "Snapshot \<Rightarrow> bool" where
  "AllMembersSnoozed s \<longleftrightarrow> sn_MemberCount s > 0 \<and> sn_SnoozedMemberCount s \<ge> sn_MemberCount s"

definition FocusSnoozed :: "Snapshot \<Rightarrow> time \<Rightarrow> bool" where
  "FocusSnoozed s now =
     (case sn_Focus s of
        None \<Rightarrow> False
      | Some f \<Rightarrow> if AlertFacts_Snoozed f now then True
          else (case map_of (sn_SnoozedAlerts s) (af_ID f) of None \<Rightarrow> False | Some u \<Rightarrow> u > now))"

definition AnyFlapping :: "Snapshot \<Rightarrow> bool" where
  "AnyFlapping s = (case sn_Focus s of Some f \<Rightarrow> af_IsFlapping f | None \<Rightarrow> list_ex af_IsFlapping (sn_Alerts s))"

definition matchLabels :: "Snapshot \<Rightarrow> (string \<times> string) list" where
  "matchLabels s =
     (case sn_Focus s of
        None \<Rightarrow> sn_GroupLabels s
      | Some f \<Rightarrow> if af_Labels f = [] then sn_GroupLabels s else af_Labels f @ sn_GroupLabels s)"

record IncidentMember =
  im_CaseID :: uuid
  im_Labels :: "(string \<times> string) list"
  im_RemovedAt :: time

definition Member_Current :: "IncidentMember \<Rightarrow> bool" where
  "Member_Current m \<longleftrightarrow> IsZero (im_RemovedAt m)"

record IncidentFacts =
  in_ID :: uuid
  in_Conversation :: bool
  in_Members :: "IncidentMember list"

text \<open>\<^verbatim>\<open>MatchLabels\<close>: what the labels of all current members agree on.\<close>

definition common_labels :: "(string \<times> string) list \<Rightarrow> IncidentMember \<Rightarrow> (string \<times> string) list" where
  "common_labels out m = filter (\<lambda>(k, v). label_of (im_Labels m) k = v) out"

definition Incident_MatchLabels :: "IncidentFacts \<Rightarrow> (string \<times> string) list" where
  "Incident_MatchLabels f =
     (case filter Member_Current (in_Members f) of
        [] \<Rightarrow> []
      | m # ms \<Rightarrow> foldl common_labels (im_Labels m) ms)"

record world =
  w_U :: uuidlib
  w_H :: "string \<Rightarrow> string"
  w_RX :: regexlib
  w_Org :: uuid
  w_Policies :: "NotificationPolicy list"
  w_Snapshot :: "uuid \<Rightarrow> uuid option \<Rightarrow> Snapshot result"
  w_Conversation :: "(uuid \<Rightarrow> (uuid option) result) option"
  w_Settings :: "(Verbosity result) option"
  w_Incident :: "(uuid \<Rightarrow> IncidentFacts result) option"

section \<open>Notification rows\<close>

definition Notification_Digest :: "Notification \<Rightarrow> bool" where
  "Notification_Digest n \<longleftrightarrow> nt_SubjectKind n = SubjectDigest"

definition Notification_Incident :: "Notification \<Rightarrow> bool" where
  "Notification_Incident n \<longleftrightarrow> nt_SubjectKind n = SubjectIncident"

definition InIncidentConversation :: "Notification \<Rightarrow> bool" where
  "InIncidentConversation n \<longleftrightarrow> nt_ConversationKind n = ConversationIncident"

definition IncidentPointer :: "Notification \<Rightarrow> bool" where
  "IncidentPointer n \<longleftrightarrow> Notification_Incident n \<and> nt_ConversationKind n = ConversationCase"

definition GetByIdempotencyKey :: "DB \<Rightarrow> string \<Rightarrow> Notification option" where
  "GetByIdempotencyKey db key = find (\<lambda>n. nt_IdempotencyKey n = key) (db_notifications db)"

definition Notification_Insert :: "DB \<Rightarrow> Notification \<Rightarrow> (Notification \<times> bool \<times> DB) result" where
  "Notification_Insert db n =
     (if nt_ID n = 0 then Inl (errs_New KindInternal ''notification_not_found'')
      else case GetByIdempotencyKey db (nt_IdempotencyKey n) of
        None \<Rightarrow> Inr (n, True, db\<lparr>db_notifications := db_notifications db @ [n]\<rparr>)
      | Some existing \<Rightarrow> Inr (existing, False, db))"

definition CountRecent :: "DB \<Rightarrow> uuid \<Rightarrow> time \<Rightarrow> int" where
  "CountRecent db conversationID since =
     int (length (filter (\<lambda>n. nt_ConversationID n = conversationID \<and> nt_CreatedAt n \<ge> since \<and> nt_Status n \<noteq> StatusSuppressed)
       (db_notifications db)))"

definition CountRecentSubjects :: "DB \<Rightarrow> uuid \<Rightarrow> SubjectKind \<Rightarrow> uuid \<Rightarrow> time \<Rightarrow> time \<Rightarrow> int" where
  "CountRecentSubjects db policyID kind excluding since until =
     int (length (remdups (map nt_SubjectID (filter (\<lambda>n. nt_PolicyID n = Some policyID \<and> nt_SubjectKind n = kind \<and>
       nt_SubjectID n \<noteq> excluding \<and> nt_CreatedAt n \<ge> since \<and> nt_CreatedAt n \<le> until) (db_notifications db)))))"

definition AppendNotificationCreated :: "uuidlib \<Rightarrow> DB \<Rightarrow> Notification \<Rightarrow> DB" where
  "AppendNotificationCreated U db n =
     (if nt_AlertID n = None \<and> nt_CaseID n = None then db
      else append_event db (EventNotificationCreated, nt_ID n, ''notif:'' @ uuidString U (nt_ID n) @ '':created''))"

definition AppendNotificationSuppressed :: "uuidlib \<Rightarrow> DB \<Rightarrow> Notification \<Rightarrow> DB" where
  "AppendNotificationSuppressed U db n =
     (if nt_AlertID n = None \<and> nt_CaseID n = None then db
      else append_event db (EventNotificationSuppressed, nt_ID n, ''notif:'' @ uuidString U (nt_ID n) @ '':suppressed''))"

section \<open>Planning\<close>

record destination =
  ds_channel :: Channel
  ds_plan :: Plan
  ds_input :: PlanInput

definition planInput :: "Reason \<Rightarrow> Channel \<Rightarrow> Verbosity \<Rightarrow> bool \<Rightarrow> bool \<Rightarrow> PlanInput" where
  "planInput r c def rootExists flapping =
     (let verbosity = (if \<not> Verbosity_Valid (ch_Verbosity c) then def else ch_Verbosity c)
      in \<lparr>pi_Reason = r, pi_Verbosity = Verbosity_Normalise verbosity, pi_ThreadUpdates = ch_ThreadUpdates c,
          pi_Capabilities = ch_Capabilities c, pi_ThreadExists = rootExists, pi_Flapping = flapping\<rparr>)"

definition orgDefaults :: "world \<Rightarrow> Verbosity" where
  "orgDefaults W =
     (case w_Settings W of
        Some (Inr v) \<Rightarrow> if Verbosity_Valid v then v else VerbosityStatusChanges
      | _ \<Rightarrow> VerbosityStatusChanges)"

fun plan_loop :: "Reason \<Rightarrow> Verbosity \<Rightarrow> bool \<Rightarrow> Channel list \<Rightarrow> Suppressors \<Rightarrow> destination list \<times> Suppressors" where
  "plan_loop r def flapping [] seen = ([], seen)"
| "plan_loop r def flapping (c # cs) seen =
     (let inp = planInput r c def False flapping;
          p = PlanFor inp;
          seen1 = (if p_ReplyDropped p \<and> p_ReplyDropReason p \<in> {''verbosity'', ''thread_updates'', ''no_threading'', ''fresh_root''}
                  then Suppressors_Add seen SuppressedVerbosity else seen);
          (out, seen2) = plan_loop r def flapping cs seen1
      in if Plan_Empty p then (out, seen2) else (\<lparr>ds_channel = c, ds_plan = p, ds_input = inp\<rparr> # out, seen2))"

definition plan_destinations :: "world \<Rightarrow> Reason \<Rightarrow> Snapshot \<Rightarrow> Match \<Rightarrow> Verbosity \<Rightarrow> destination list \<times> Suppressors" where
  "plan_destinations W r snap m def =
     (if \<not> Routed m then ([], [])
      else case plan_loop r def (AnyFlapping snap) (ma_Live m) [] of
        (out, seen) \<Rightarrow> (sort_key (\<lambda>d. uuidString (w_U W) (ch_ID (ds_channel d))) out, seen))"

definition needsThread :: "Channel \<Rightarrow> bool" where
  "needsThread c \<longleftrightarrow> Has (ch_Capabilities c) CapThreading \<or> Has (ch_Capabilities c) CapAmend"

definition threadSubjectOf :: "Notification \<Rightarrow> SubjectKind \<times> uuid" where
  "threadSubjectOf n = (ConversationKind_SubjectKind (nt_ConversationKind n), nt_ConversationID n)"

definition digestModes :: "Channel \<Rightarrow> bool \<Rightarrow> Mode list" where
  "digestModes c rootLanded = (if \<not> needsThread c \<or> \<not> rootLanded then [ModePostRoot] else [ModeThreadReply])"

definition incidentModes :: "Notification \<Rightarrow> Channel \<Rightarrow> bool \<Rightarrow> Mode list" where
  "incidentModes n c rootLanded =
     (if \<not> needsThread c then [ModePostRoot]
      else if IncidentPointer n then [ModeThreadReply]
      else
        let modes = (if \<not> rootLanded then [ModePostRoot]
                     else if Has (ch_Capabilities c) CapAmend then [ModeUpdateRoot] else []) @
                    (if nt_Reason n \<noteq> ReasonDrawn \<and> ch_ThreadUpdates c \<and> Has (ch_Capabilities c) CapThreading
                     then [ModeThreadReply] else [])
        in if length modes = 0 then [ModePostRoot] else modes)"

definition caseModesInIncident :: "PlanInput \<Rightarrow> Channel \<Rightarrow> bool \<Rightarrow> Mode list" where
  "caseModesInIncident inp c rootLanded =
     (if \<not> needsThread c then p_Modes (PlanFor inp)
      else
        let canAmend = Has (ch_Capabilities c) CapAmend;
            canThread = Has (ch_Capabilities c) CapThreading;
            inp1 = inp\<lparr>pi_ThreadExists := True, pi_Capabilities := pi_Capabilities inp OR CapAmend\<rparr>;
            ms = p_Modes (PlanFor inp1);
            reply0 = list_ex IsReply ms;
            root0 = list_ex (\<lambda>m. \<not> IsReply m) ms;
            (root, reply1) = (if root0 \<and> \<not> canAmend then (False, True) else (root0, reply0));
            reply = (reply1 \<and> canThread)
        in if \<not> root \<and> \<not> reply then []
           else (if \<not> rootLanded then [ModePostRoot] else if root then [ModeUpdateRoot] else []) @
                (if reply then [ModeThreadReply] else []))"

definition modesFor :: "Notification \<Rightarrow> destination \<Rightarrow> bool \<Rightarrow> Mode list" where
  "modesFor n d rootLanded =
     (if Notification_Digest n then digestModes (ds_channel d) rootLanded
      else if Notification_Incident n then incidentModes n (ds_channel d) rootLanded
      else
        let inp = (ds_input d)\<lparr>pi_ThreadExists := rootLanded\<rparr> in
        if InIncidentConversation n then caseModesInIncident inp (ds_channel d) rootLanded
        else if \<not> Plan_Empty (PlanFor inp) then p_Modes (PlanFor inp)
        else (case PrimaryMode (ds_plan d) of Some m \<Rightarrow> [m] | None \<Rightarrow> []))"

section \<open>Fanning out\<close>

definition new_delivery :: "uuid \<Rightarrow> Notification \<Rightarrow> Channel \<Rightarrow> uuid option \<Rightarrow> Mode \<Rightarrow> time \<Rightarrow> NewDelivery" where
  "new_delivery i n c threadID mode now = \<lparr>nd_ID = i, nd_NotificationID = nt_ID n, nd_ChannelID = ch_ID c, nd_ThreadID = threadID,
     nd_ThreadSeq = 0, nd_Mode = mode, nd_CreatedAt = now\<rparr>"

fun create_modes ::
  "(nat \<Rightarrow> uuid) \<Rightarrow> Notification \<Rightarrow> Channel \<Rightarrow> uuid option \<Rightarrow> time \<Rightarrow> Mode list \<Rightarrow> DB \<times> int \<times> nat \<Rightarrow> (DB \<times> int \<times> nat) result" where
  "create_modes draw n c threadID now [] st = Inr st"
| "create_modes draw n c threadID now (mode # modes) (db, created, k) =
     rbind (createDelivery db (new_delivery (draw k) n c threadID mode now) now) (\<lambda>(db1, made).
       create_modes draw n c threadID now modes (db1, if made then created + 1 else created, Suc k))"

definition fan_one ::
  "(nat \<Rightarrow> uuid) \<Rightarrow> Notification \<Rightarrow> time \<Rightarrow> destination \<Rightarrow> DB \<times> int \<times> nat \<Rightarrow> (DB \<times> int \<times> nat) result" where
  "fan_one draw n now d st = (case st of (db, created, k) \<Rightarrow>
     if needsThread (ds_channel d) then
       (case threadSubjectOf n of (kind, subject) \<Rightarrow>
        case Ensure db (draw k) (ch_ID (ds_channel d)) kind subject of (db1, th) \<Rightarrow>
          create_modes draw n (ds_channel d) (Some (th_ID th)) now (modesFor n d (RootLanded th)) (db1, created, Suc k))
     else create_modes draw n (ds_channel d) None now (modesFor n d False) (db, created, k))"

fun fanOut :: "(nat \<Rightarrow> uuid) \<Rightarrow> Notification \<Rightarrow> time \<Rightarrow> destination list \<Rightarrow> DB \<times> int \<times> nat \<Rightarrow> (DB \<times> int \<times> nat) result" where
  "fanOut draw n now [] st = Inr st"
| "fanOut draw n now (d # ds) st = rbind (fan_one draw n now d st) (fanOut draw n now ds)"

section \<open>A fact about a case\<close>

record Intent =
  it_CaseID :: uuid
  it_Reason :: Reason
  it_StateVersion :: int
  it_AlertID :: "uuid option"
  it_OccasionID :: uuid

record Result =
  re_Notification :: Notification
  re_Created :: bool
  re_Deliveries :: int
  re_Suppressed :: "SuppressedReason option"

definition Notification_IdempotencyKey :: "world \<Rightarrow> SubjectKind \<Rightarrow> uuid \<Rightarrow> Reason \<Rightarrow> int \<Rightarrow> uuid \<Rightarrow> string" where
  "Notification_IdempotencyKey W kind subjectID r v occasion =
     ComputeIdempotencyKey (w_H W) (w_Org W) (SubjectKind_String kind) subjectID (Reason_String r) v occasion"

definition subjectOf :: "Intent \<Rightarrow> SubjectKind \<times> uuid" where
  "subjectOf i =
     (case it_AlertID i of
        Some a \<Rightarrow> if Reason_Subject (it_Reason i) = SubjectAlert then (SubjectAlert, a) else (SubjectCase, it_CaseID i)
      | None \<Rightarrow> (SubjectCase, it_CaseID i))"

definition mint :: "world \<Rightarrow> Intent \<Rightarrow> Snapshot \<Rightarrow> uuid \<Rightarrow> time \<Rightarrow> Notification" where
  "mint W i snap fresh now =
     (let v0 = (if it_StateVersion i \<le> 0 then sn_StateVersion snap else it_StateVersion i);
          v = (if v0 \<le> 0 then 1 else v0)
      in case subjectOf i of (kind, subjectID) \<Rightarrow>
        \<lparr>nt_ID = fresh, nt_SubjectKind = kind, nt_SubjectID = subjectID, nt_ConversationKind = ConversationCase,
         nt_ConversationID = it_CaseID i, nt_AlertID = it_AlertID i, nt_CaseID = Some (it_CaseID i), nt_Reason = it_Reason i,
         nt_PolicyID = None, nt_StateVersion = v,
         nt_IdempotencyKey = Notification_IdempotencyKey W kind subjectID (it_Reason i) v (it_OccasionID i),
         nt_Status = StatusPending, nt_SuppressedReason = None, nt_CreatedAt = now\<rparr>)"

definition placeInIncident :: "world \<Rightarrow> Notification \<Rightarrow> Notification result" where
  "placeInIncident W n =
     (case w_Conversation W of
        None \<Rightarrow> Inr n
      | Some conversationFor \<Rightarrow>
          if nt_ConversationKind n \<noteq> ConversationCase then Inr n
          else rbind (conversationFor (nt_ConversationID n)) (\<lambda>ref.
            case ref of None \<Rightarrow> Inr n
            | Some i \<Rightarrow> Inr (n\<lparr>nt_ConversationKind := ConversationIncident, nt_ConversationID := i\<rparr>)))"

definition gate_snooze :: "Intent \<Rightarrow> Snapshot \<Rightarrow> bool" where
  "gate_snooze i snap \<longleftrightarrow> \<not> SnoozeExempt (it_Reason i) \<and>
     (if sn_Focus snap \<noteq> None then FocusSnoozed snap (sn_TakenAt snap) else AllMembersSnoozed snap)"

definition gate_throttle :: "DB \<Rightarrow> uuid \<Rightarrow> Snapshot \<Rightarrow> Match \<Rightarrow> bool" where
  "gate_throttle db conversationID snap m =
     (case ma_Policy m of
        None \<Rightarrow> False
      | Some p \<Rightarrow> Throttle_Enabled (po_Throttle p) \<and>
          CountRecent db conversationID (sn_TakenAt snap - tr_Window (po_Throttle p)) \<ge> tr_Max (po_Throttle p))"

definition gate_count :: "DB \<Rightarrow> Intent \<Rightarrow> Snapshot \<Rightarrow> Match \<Rightarrow> bool" where
  "gate_count db i snap m =
     (case ma_Policy m of
        None \<Rightarrow> False
      | Some p \<Rightarrow> Count_Enabled (po_Count p) \<and>
          (case subjectOf i of (kind, subjectID) \<Rightarrow> Sole (po_Subjects p) = Some kind \<and>
             \<not> Count_Clears (po_Count p) (CountRecentSubjects db (po_ID p) kind subjectID
                  (sn_TakenAt snap - cw_Window (po_Count p)) (sn_TakenAt snap) + 1)))"

definition suppressors :: "DB \<Rightarrow> Intent \<Rightarrow> uuid \<Rightarrow> Snapshot \<Rightarrow> Match \<Rightarrow> Suppressors" where
  "suppressors db i conversationID snap m =
     (let s1 = AddIf [] (\<not> Routed m) SuppressedNoPolicy;
          s2 = AddIf s1 (Routed m \<and> \<not> Deliverable m) SuppressedChannelDisabled;
          s3 = AddIf s2 (gate_snooze i snap) SuppressedSnoozed;
          s4 = AddIf s3 (gate_throttle db conversationID snap m) SuppressedThrottled
      in AddIf s4 (gate_count db i snap m) SuppressedBelowThreshold)"

definition record_suppressed :: "world \<Rightarrow> DB \<Rightarrow> Notification \<Rightarrow> SuppressedReason \<Rightarrow> (Result \<times> DB) result" where
  "record_suppressed W db n reason =
     rbind (Notification_Insert db (n\<lparr>nt_Status := StatusSuppressed, nt_SuppressedReason := Some reason\<rparr>)) (\<lambda>(stored, created, db1).
       Inr (\<lparr>re_Notification = stored, re_Created = created, re_Deliveries = 0, re_Suppressed = nt_SuppressedReason stored\<rparr>,
            if created then AppendNotificationSuppressed (w_U W) db1 stored else db1))"

text \<open>The tail of \<^verbatim>\<open>evaluate\<close>: insert, fan out, mark dispatched.\<close>

definition dispatch_notification ::
  "world \<Rightarrow> (nat \<Rightarrow> uuid) \<Rightarrow> DB \<Rightarrow> nat \<Rightarrow> Notification \<Rightarrow> destination list \<Rightarrow> time \<Rightarrow> (Result \<times> DB \<times> nat) result" where
  "dispatch_notification W draw db k n dests now =
     rbind (Notification_Insert db n) (\<lambda>(stored, created, db1).
       if \<not> created \<and> nt_Status stored = StatusSuppressed
       then Inr (\<lparr>re_Notification = stored, re_Created = False, re_Deliveries = 0, re_Suppressed = nt_SuppressedReason stored\<rparr>, db1, k)
       else rbind (fanOut draw stored now dests (db1, 0, k)) (\<lambda>(db2, made, k2).
         rbind (SetStatus db2 (nt_ID stored) StatusDispatched) (\<lambda>db3.
           let stored1 = stored\<lparr>nt_Status := StatusDispatched\<rparr> in
           Inr (\<lparr>re_Notification = stored1, re_Created = created, re_Deliveries = made, re_Suppressed = None\<rparr>,
                if created then AppendNotificationCreated (w_U W) db3 stored1 else db3, k2))))"

text \<open>\<open>spent k r\<close>: the result \<open>r\<close> of a step that draws no id, with the counter at \<open>k\<close>.\<close>

definition spent :: "nat \<Rightarrow> (Result \<times> DB) result \<Rightarrow> (Result \<times> DB \<times> nat) result" where
  "spent k r = rbind r (\<lambda>(res, db). Inr (res, db, k))"

definition evaluate :: "world \<Rightarrow> (nat \<Rightarrow> uuid) \<Rightarrow> DB \<Rightarrow> Intent \<Rightarrow> time \<Rightarrow> (Result \<times> DB \<times> nat) result" where
  "evaluate W draw db i now =
     rbind (w_Snapshot W (it_CaseID i) (it_AlertID i)) (\<lambda>snap.
     rbind (placeInIncident W (mint W i snap (draw 0) now)) (\<lambda>n0.
     rbind (Policies_Evaluate (w_RX W) db (w_Policies W) (it_Reason i) (matchLabels snap)) (\<lambda>m.
       let n = (case ma_Policy m of Some p \<Rightarrow> n0\<lparr>nt_PolicyID := Some (po_ID p)\<rparr> | None \<Rightarrow> n0) in
       case Winner (suppressors db i (nt_ConversationID n) snap m) of
         Some reason \<Rightarrow> spent 1 (record_suppressed W db n reason)
       | None \<Rightarrow>
           (case plan_destinations W (it_Reason i) snap m (orgDefaults W) of (dests, soft) \<Rightarrow>
              if length dests = 0
              then spent 1 (record_suppressed W db n (case Winner soft of Some r \<Rightarrow> r | None \<Rightarrow> SuppressedVerbosity))
              else dispatch_notification W draw db 1 n dests now))))"

definition Evaluate :: "world \<Rightarrow> (nat \<Rightarrow> uuid) \<Rightarrow> DB \<Rightarrow> Intent \<Rightarrow> time \<Rightarrow> (Result \<times> DB \<times> nat) result" where
  "Evaluate W draw db i now =
     (if \<not> Reason_Valid (it_Reason i) then Inl unknown_reason
      else if AlertScoped (it_Reason i) \<and> it_AlertID i = None
      then Inl (errs_Validation ''alert_scoped_reason_needs_alert'' [Violation ''alert_id'' ''required''])
      else if it_CaseID i = 0 then Inl (errs_Validation ''case_required'' [Violation ''case_id'' ''required''])
      else evaluate W draw db i now)"


section \<open>A fact about an incident\<close>

record IncidentIntent =
  ii_IncidentID :: uuid
  ii_Reason :: Reason
  ii_OccasionID :: uuid
  ii_Remedy :: bool

text \<open>A destination of an incident carries only its channel: the plan and its input are Go's zero values.\<close>

definition bare_destination :: "Channel \<Rightarrow> destination" where
  "bare_destination c = \<lparr>ds_channel = c, ds_plan = \<lparr>p_Modes = [], p_ReplyDropped = False, p_ReplyDropReason = []\<rparr>,
     ds_input = \<lparr>pi_Reason = ReasonOther [], pi_Verbosity = VerbosityOther [], pi_ThreadUpdates = False, pi_Capabilities = 0,
       pi_ThreadExists = False, pi_Flapping = False\<rparr>\<rparr>"

text \<open>The loop of \<^verbatim>\<open>incidentFanOut\<close>: a threaded channel is skipped on the record when the incident is no conversation.\<close>

fun skip_threaded ::
  "(nat \<Rightarrow> uuid) \<Rightarrow> Notification \<Rightarrow> bool \<Rightarrow> time \<Rightarrow> Channel list \<Rightarrow> DB \<times> int \<times> nat \<Rightarrow> destination list \<times> DB \<times> int \<times> nat" where
  "skip_threaded draw n conversation now [] st = ([], st)"
| "skip_threaded draw n conversation now (c # cs) (db, created, k) =
     (if \<not> needsThread c \<or> conversation then
        case skip_threaded draw n conversation now cs (db, created, k) of (sendable, st) \<Rightarrow> (bare_destination c # sendable, st)
      else case Delivery_Create db (new_delivery (draw k) n c None ModePostRoot now) of (db1, row, madeNew) \<Rightarrow>
        if \<not> madeNew then skip_threaded draw n conversation now cs (db1, created, Suc k)
        else skip_threaded draw n conversation now cs (MarkSkipped db1 (dl_ID row) now, created + 1, Suc k))"

definition incidentFanOut ::
  "world \<Rightarrow> (nat \<Rightarrow> uuid) \<Rightarrow> Notification \<Rightarrow> Channel list \<Rightarrow> bool \<Rightarrow> time \<Rightarrow> DB \<times> nat \<Rightarrow> (DB \<times> int \<times> nat) result" where
  "incidentFanOut W draw n live conversation now st =
     (case st of (db, k) \<Rightarrow>
      case skip_threaded draw n conversation now (sort_key (\<lambda>c. uuidString (w_U W) (ch_ID c)) live) (db, 0, k) of
        (sendable, db1, created, k1) \<Rightarrow>
          rbind (fanOut draw n now sendable (db1, 0, k1)) (\<lambda>(db2, made, k2). Inr (db2, created + made, k2)))"

definition ForSubjects :: "DB \<Rightarrow> SubjectKind \<Rightarrow> uuid list \<Rightarrow> Thread list" where
  "ForSubjects db kind ids =
     (if ids = [] then []
      else sort_key (\<lambda>t. (th_SubjectID t, th_ChannelID t))
        (filter (\<lambda>t. th_SubjectKind t = kind \<and> th_SubjectID t \<in> set ids) (db_threads db)))"

definition spoken_thread :: "Thread \<Rightarrow> bool" where
  "spoken_thread t \<longleftrightarrow> \<not> (\<not> Sendable t \<or> \<not> RootLanded t \<and> th_NextSeq t \<le> 1)"

definition pointer_note :: "world \<Rightarrow> uuid \<Rightarrow> uuid \<Rightarrow> uuid \<Rightarrow> time \<Rightarrow> Notification" where
  "pointer_note W fresh incident caseID now =
     \<lparr>nt_ID = fresh, nt_SubjectKind = SubjectIncident, nt_SubjectID = incident, nt_ConversationKind = ConversationCase,
      nt_ConversationID = caseID, nt_AlertID = None, nt_CaseID = None, nt_Reason = ReasonCaseAdded, nt_PolicyID = None,
      nt_StateVersion = 1, nt_IdempotencyKey = Notification_IdempotencyKey W SubjectIncident incident ReasonCaseAdded 1 caseID,
      nt_Status = StatusPending, nt_SuppressedReason = None, nt_CreatedAt = now\<rparr>"

fun point_threads ::
  "(nat \<Rightarrow> uuid) \<Rightarrow> Notification \<Rightarrow> time \<Rightarrow> (Thread \<times> Channel) list \<Rightarrow> DB \<times> nat \<Rightarrow> (DB \<times> nat) result" where
  "point_threads draw n now [] st = Inr st"
| "point_threads draw n now ((t, c) # ts) (db, k) =
     rbind (createDelivery db (new_delivery (draw k) n c (Some (th_ID t)) ModeThreadReply now) now) (\<lambda>(db1, _).
       point_threads draw n now ts (db1, Suc k))"

fun point_cases ::
  "world \<Rightarrow> (nat \<Rightarrow> uuid) \<Rightarrow> uuid \<Rightarrow> time \<Rightarrow> (uuid \<Rightarrow> (Thread \<times> Channel) list) \<Rightarrow> uuid list \<Rightarrow> DB \<times> nat \<Rightarrow> (DB \<times> nat) result" where
  "point_cases W draw incident now targets [] st = Inr st"
| "point_cases W draw incident now targets (caseID # cases) (db, k) =
     (if length (targets caseID) = 0 then point_cases W draw incident now targets cases (db, k)
      else rbind (Notification_Insert db (pointer_note W (draw k) incident caseID now)) (\<lambda>(stored, created, db1).
        if \<not> created then point_cases W draw incident now targets cases (db1, Suc k)
        else rbind (point_threads draw stored now (targets caseID) (db1, Suc k)) (\<lambda>(db2, k2).
          rbind (SetStatus db2 (nt_ID stored) StatusDispatched) (\<lambda>db3.
            point_cases W draw incident now targets cases (db3, k2)))))"

definition point_targets :: "Thread list \<Rightarrow> Channel list \<Rightarrow> uuid \<Rightarrow> (Thread \<times> Channel) list" where
  "point_targets threads live caseID =
     List.map_filter (\<lambda>t. map_option (Pair t) (find (\<lambda>c. ch_ID c = th_ChannelID t) live))
       (filter (\<lambda>t. th_SubjectID t = caseID) threads)"

definition pointMembers :: "world \<Rightarrow> (nat \<Rightarrow> uuid) \<Rightarrow> IncidentFacts \<Rightarrow> time \<Rightarrow> DB \<times> nat \<Rightarrow> (DB \<times> nat) result" where
  "pointMembers W draw facts now st =
     (case st of (db, k) \<Rightarrow>
      let current = map im_CaseID (filter Member_Current (in_Members facts));
          threads = filter spoken_thread (ForSubjects db SubjectCase current);
          channelIDs = map th_ChannelID threads
      in if length channelIDs = 0 then Inr (db, k)
         else
           let live = filter (\<lambda>c. Live c \<and> Has (ch_Capabilities c) CapThreading) (ListByIDs db channelIDs)
           in point_cases W draw (in_ID facts) now (point_targets threads live) current (db, k))"

definition incident_note :: "world \<Rightarrow> IncidentIntent \<Rightarrow> uuid \<Rightarrow> uuid \<Rightarrow> time \<Rightarrow> Notification" where
  "incident_note W i incident fresh now =
     \<lparr>nt_ID = fresh, nt_SubjectKind = SubjectIncident, nt_SubjectID = incident, nt_ConversationKind = ConversationIncident,
      nt_ConversationID = incident, nt_AlertID = None, nt_CaseID = None, nt_Reason = ii_Reason i, nt_PolicyID = None,
      nt_StateVersion = 1,
      nt_IdempotencyKey = Notification_IdempotencyKey W SubjectIncident incident (ii_Reason i) 1 (ii_OccasionID i),
      nt_Status = StatusPending, nt_SuppressedReason = None, nt_CreatedAt = now\<rparr>"

text \<open>The tail of \<^verbatim>\<open>evaluateIncident\<close>; it appends nothing to a timeline.\<close>

definition dispatch_incident ::
  "world \<Rightarrow> (nat \<Rightarrow> uuid) \<Rightarrow> DB \<Rightarrow> nat \<Rightarrow> Notification \<Rightarrow> Channel list \<Rightarrow> bool \<Rightarrow> time \<Rightarrow> (Result \<times> DB \<times> nat) result" where
  "dispatch_incident W draw db k n live conversation now =
     rbind (Notification_Insert db n) (\<lambda>(stored, created, db1).
       if \<not> created \<and> nt_Status stored = StatusSuppressed
       then Inr (\<lparr>re_Notification = stored, re_Created = False, re_Deliveries = 0, re_Suppressed = nt_SuppressedReason stored\<rparr>, db1, k)
       else rbind (incidentFanOut W draw stored live conversation now (db1, k)) (\<lambda>(db2, made, k2).
         rbind (SetStatus db2 (nt_ID stored) StatusDispatched) (\<lambda>db3.
           Inr (\<lparr>re_Notification = stored\<lparr>nt_Status := StatusDispatched\<rparr>, re_Created = created, re_Deliveries = made,
                 re_Suppressed = None\<rparr>, db3, k2))))"

definition evaluateIncident ::
  "world \<Rightarrow> (uuid \<Rightarrow> IncidentFacts result) \<Rightarrow> (nat \<Rightarrow> uuid) \<Rightarrow> DB \<Rightarrow> IncidentIntent \<Rightarrow> time \<Rightarrow> (Result \<times> DB \<times> nat) result" where
  "evaluateIncident W reader draw db i now =
     rbind (reader (ii_IncidentID i)) (\<lambda>facts.
     rbind (if in_Conversation facts then pointMembers W draw facts now (db, 0) else Inr (db, 0)) (\<lambda>(db1, k).
       let n0 = incident_note W i (in_ID facts) (draw k) now in
       rbind (Policies_Evaluate (w_RX W) db1 (w_Policies W) (ii_Reason i) (Incident_MatchLabels facts)) (\<lambda>m.
         case ma_Policy m of
           None \<Rightarrow> spent (Suc k) (record_suppressed W db1 n0 SuppressedNoPolicy)
         | Some p \<Rightarrow>
             let n = n0\<lparr>nt_PolicyID := Some (po_ID p)\<rparr> in
             if \<not> Deliverable m then spent (Suc k) (record_suppressed W db1 n SuppressedChannelDisabled)
             else dispatch_incident W draw db1 (Suc k) n (ma_Live m) (in_Conversation facts) now)))"

definition EvaluateIncident :: "world \<Rightarrow> (nat \<Rightarrow> uuid) \<Rightarrow> DB \<Rightarrow> IncidentIntent \<Rightarrow> time \<Rightarrow> (Result \<times> DB \<times> nat) result" where
  "EvaluateIncident W draw db i now =
     (if \<not> Reason_Valid (ii_Reason i) \<or> Reason_Subject (ii_Reason i) \<noteq> SubjectIncident then Inl unknown_reason
      else if ii_IncidentID i = 0 then Inl (errs_Validation ''incident_required'' [Violation ''incident_id'' ''required''])
      else if ii_OccasionID i = 0 then Inl (errs_Validation ''occasion_required'' [Violation ''occasion_id'' ''required''])
      else if IsRemedy (ii_Reason i) \<noteq> ii_Remedy i then Inl (errs_Validation ''remedy_fact_invalid'' [Violation ''remedy'' ''required''])
      else case w_Incident W of
        None \<Rightarrow> Inl (errs_New KindInternal ''incident_reader_unwired'')
      | Some reader \<Rightarrow> evaluateIncident W reader draw db i now)"

end
