(* ===== verification/Notify_Run.thy ===== *)
theory Notify_Run
  imports Notify Dispatch_System
begin

text \<open>
  The transactions of the notifier as runs. What a fan-out and a whole evaluation do to the tables is a sequence of a few
  primitive operations; the locales \<open>fan_rel\<close> and \<open>notify_rel\<close> say what a relation on the tables must admit to hold of every
  such sequence, and their lemmas follow the code once. They are interpreted on the step relation of the
  dispatcher, on the outbox (what is created is queued), and on the stability of what later runs look up.
\<close>

section \<open>The contract\<close>

locale fan_rel =
  fixes R :: "DB \<times> nat \<Rightarrow> DB \<times> nat \<Rightarrow> bool" and draw :: "nat \<Rightarrow> uuid" and owner :: "uuid \<Rightarrow> bool"
  assumes refl: "R st st"
    and trans: "R st st' \<Longrightarrow> R st' st'' \<Longrightarrow> R st st''"
    and ensure: "R (db, k) (fst (Ensure db (draw k) c kind subject), Suc k)"
    and create: "nd_ID p = draw k \<Longrightarrow> owner (nd_NotificationID p) \<Longrightarrow> createDelivery db p now = Inr (db', made) \<Longrightarrow> R (db, k) (db', Suc k)"
begin

lemma create_modes_rel:
  "owner (nt_ID n) \<Longrightarrow> create_modes draw n c threadID now modes (db, created, k) = Inr (db', created', k') \<Longrightarrow> R (db, k) (db', k')"
proof (induction modes arbitrary: db created k)
  case Nil
  then show ?case by (simp add: refl)
next
  case (Cons m modes)
  then obtain db1 made where c: "createDelivery db (new_delivery (draw k) n c threadID m now) now = Inr (db1, made)"
      "create_modes draw n c threadID now modes (db1, if made then created + 1 else created, Suc k) = Inr (db', created', k')"
    by (auto simp: rbind_Inr_iff)
  show ?case
    by (rule trans [OF create [OF _ _ c(1)] Cons.IH [OF Cons.prems(1) c(2)]]) (simp_all add: new_delivery_def Cons.prems(1))
qed

lemma fan_one_rel:
  assumes "owner (nt_ID n)" "fan_one draw n now d (db, created, k) = Inr (db', created', k')"
  shows "R (db, k) (db', k')"
proof (cases "needsThread (ds_channel d)")
  case True
  obtain kind subject where s: "threadSubjectOf n = (kind, subject)" by (cases "threadSubjectOf n")
  obtain db1 th where e: "Ensure db (draw k) (ch_ID (ds_channel d)) kind subject = (db1, th)"
    by (cases "Ensure db (draw k) (ch_ID (ds_channel d)) kind subject")
  have c: "create_modes draw n (ds_channel d) (Some (th_ID th)) now (modesFor n d (RootLanded th)) (db1, created, Suc k) = Inr (db', created', k')"
    using assms(2) True s e by (simp add: fan_one_def)
  have "R (db, k) (db1, Suc k)" using ensure [of db k "ch_ID (ds_channel d)" kind subject] by (simp add: e)
  then show ?thesis by (rule trans [OF _ create_modes_rel [OF assms(1) c]])
next
  case False
  then show ?thesis using assms by (auto simp: fan_one_def intro: create_modes_rel [OF assms(1)])
qed

lemma fanOut_rel: "owner (nt_ID n) \<Longrightarrow> fanOut draw n now ds (db, created, k) = Inr (db', created', k') \<Longrightarrow> R (db, k) (db', k')"
proof (induction ds arbitrary: db created k)
  case (Cons d ds)
  then obtain db1 created1 k1 where "fan_one draw n now d (db, created, k) = Inr (db1, created1, k1)"
      "fanOut draw n now ds (db1, created1, k1) = Inr (db', created', k')"
    by (auto simp: rbind_Inr_iff)
  then show ?case using Cons.IH Cons.prems(1) fan_one_rel trans by blast
qed (simp add: refl)

lemma point_threads_rel: "owner (nt_ID n) \<Longrightarrow> point_threads draw n now ts (db, k) = Inr (db', k') \<Longrightarrow> R (db, k) (db', k')"
proof (induction ts arbitrary: db k)
  case (Cons t ts)
  obtain x c where t: "t = (x, c)" by (cases t)
  obtain db1 made where s: "createDelivery db (new_delivery (draw k) n c (Some (th_ID x)) ModeThreadReply now) now = Inr (db1, made)"
      "point_threads draw n now ts (db1, Suc k) = Inr (db', k')"
    using Cons.prems by (auto simp: rbind_Inr_iff t)
  show ?case
    by (rule trans [OF create [OF _ _ s(1)] Cons.IH [OF Cons.prems(1) s(2)]]) (simp_all add: new_delivery_def Cons.prems(1))
qed (simp add: refl)

end

locale notify_rel = fan_rel R draw "\<lambda>_. True" for R draw +
  assumes set_notes: "R (db, k) (db\<lparr>db_notifications := ns\<rparr>, k)"
    and set_events: "R (db, k) (db\<lparr>db_events := es\<rparr>, k)"
    and spend: "R (db, k) (db, Suc k)"
    and skip: "nd_ID p = draw k \<Longrightarrow> nd_ThreadID p = None \<Longrightarrow> Delivery_Create db p = (db', row, made) \<Longrightarrow>
      R (db, k) (if made then MarkSkipped db' (dl_ID row) now else db', Suc k)"
begin

lemma insert_rel: "Notification_Insert db n = Inr (stored, created, db') \<Longrightarrow> R (db, k) (db', k)"
  using set_notes refl by (auto simp: Notification_Insert_def split: if_splits option.splits)

lemma SetStatus_rel: "SetStatus db i status = Inr db' \<Longrightarrow> R (db, k) (db', k)"
  using set_notes by (auto simp: SetStatus_def split: if_splits)

lemma append_event_rel: "R (db, k) (append_event db e, k)"
  using set_events refl by (simp add: append_event_def split: prod.split)

lemma append_rel:
  "R (db, k) (AppendNotificationCreated U db n, k)" "R (db, k) (AppendNotificationSuppressed U db n, k)"
  using append_event_rel refl by (simp_all add: AppendNotificationCreated_def AppendNotificationSuppressed_def)

lemma record_suppressed_rel: "record_suppressed W db n reason = Inr (res, db') \<Longrightarrow> R (db, k) (db', k)"
  using append_rel(2) trans [OF insert_rel] insert_rel by (auto simp: record_suppressed_def rbind_Inr_iff split: if_splits)

lemma dispatch_notification_rel:
  assumes "dispatch_notification W draw db k n dests now = Inr (res, db', k')"
  shows "R (db, k) (db', k')"
proof -
  obtain stored created db1 where i: "Notification_Insert db n = Inr (stored, created, db1)"
    using assms by (auto simp: dispatch_notification_def rbind_Inr_iff)
  show ?thesis
  proof (cases "\<not> created \<and> nt_Status stored = StatusSuppressed")
    case True
    then show ?thesis using assms insert_rel [OF i] by (auto simp: dispatch_notification_def i)
  next
    case False
    then obtain db2 made db3 where f: "fanOut draw stored now dests (db1, 0, k) = Inr (db2, made, k')"
        "SetStatus db2 (nt_ID stored) StatusDispatched = Inr db3"
        "db' = (if created then AppendNotificationCreated (w_U W) db3 (stored\<lparr>nt_Status := StatusDispatched\<rparr>) else db3)"
      using assms by (auto simp: dispatch_notification_def i rbind_Inr_iff Let_def)
    have "R (db, k) (db3, k')" by (rule trans [OF insert_rel [OF i] trans [OF fanOut_rel [OF TrueI f(1)] SetStatus_rel [OF f(2)]]])
    then show ?thesis unfolding f(3) using trans [OF _ append_rel(1)] by (cases created) simp_all
  qed
qed

lemma spent_rel: "spent k' (record_suppressed W db n reason) = Inr (res, db', k'') \<Longrightarrow> R (db, k) (db', k) \<and> k'' = k'"
  by (auto simp: spent_def rbind_Inr_iff dest: record_suppressed_rel)

lemma evaluate_rel:
  assumes "evaluate W draw db i now = Inr (res, db', k')"
  shows "R (db, 0) (db', k')"
proof -
  obtain snap n m where d: "(case Winner (suppressors db i (nt_ConversationID n) snap m) of
         Some reason \<Rightarrow> spent 1 (record_suppressed W db n reason)
       | None \<Rightarrow>
           (case plan_destinations W (it_Reason i) snap m (orgDefaults W) of (dests, soft) \<Rightarrow>
              if length dests = 0
              then spent 1 (record_suppressed W db n (case Winner soft of Some r \<Rightarrow> r | None \<Rightarrow> SuppressedVerbosity))
              else dispatch_notification W draw db 1 n dests now)) = Inr (res, db', k')"
    using assms unfolding evaluate_def rbind_Inr_iff Let_def by blast
  have one: "R (db, 0) (db, 1)" using spend [of db 0] by simp
  have "(\<exists>reason. spent 1 (record_suppressed W db n reason) = Inr (res, db', k')) \<or> (\<exists>dests. dispatch_notification W draw db 1 n dests now = Inr (res, db', k'))"
    using d by (auto split: option.splits prod.splits if_splits)
  then have "R (db, 1) (db', k')" using spent_rel dispatch_notification_rel by blast
  with one show ?thesis by (rule trans)
qed

lemma skip_threaded_rel:
  "skip_threaded draw n conversation now cs (db, created, k) = (sendable, db', created', k') \<Longrightarrow> R (db, k) (db', k')"
proof (induction cs arbitrary: db created k sendable)
  case (Cons c cs)
  show ?case
  proof (cases "\<not> needsThread c \<or> conversation")
    case True
    then show ?thesis using Cons by (auto split: prod.splits)
  next
    case False
    obtain db1 row made where d: "Delivery_Create db (new_delivery (draw k) n c None ModePostRoot now) = (db1, row, made)"
      by (cases "Delivery_Create db (new_delivery (draw k) n c None ModePostRoot now)")
    have s: "R (db, k) (if made then MarkSkipped db1 (dl_ID row) now else db1, Suc k)"
      by (rule skip [OF _ _ d]) (simp_all add: new_delivery_def)
    moreover have "R (if made then MarkSkipped db1 (dl_ID row) now else db1, Suc k) (db', k')"
      using Cons False d by (auto split: if_splits)
    ultimately show ?thesis by (rule trans)
  qed
qed (simp add: refl)

lemma incidentFanOut_rel:
  assumes "incidentFanOut W draw n live conversation now (db, k) = Inr (db', made, k')"
  shows "R (db, k) (db', k')"
proof -
  obtain sendable db1 created k1 where s: "skip_threaded draw n conversation now (sort_key (\<lambda>c. uuidString (w_U W) (ch_ID c)) live) (db, 0, k) =
      (sendable, db1, created, k1)"
    by (cases "skip_threaded draw n conversation now (sort_key (\<lambda>c. uuidString (w_U W) (ch_ID c)) live) (db, 0, k)")
  obtain made' where "fanOut draw n now sendable (db1, 0, k1) = Inr (db', made', k')"
    using assms by (auto simp: incidentFanOut_def s rbind_Inr_iff)
  then show ?thesis using skip_threaded_rel [OF s] fanOut_rel [OF TrueI] trans by blast
qed

lemma point_cases_rel: "point_cases W draw incident now targets cases (db, k) = Inr (db', k') \<Longrightarrow> R (db, k) (db', k')"
proof (induction cases arbitrary: db k)
  case (Cons c cases)
  show ?case
  proof (cases "length (targets c) = 0")
    case False
    then obtain stored created db1 where i: "Notification_Insert db (pointer_note W (draw k) incident c now) = Inr (stored, created, db1)"
      using Cons.prems by (auto simp: rbind_Inr_iff)
    have r1: "R (db, k) (db1, Suc k)" using insert_rel [OF i] spend trans by blast
    show ?thesis
    proof (cases created)
      case True
      then obtain db2 k2 db3 where p: "point_threads draw stored now (targets c) (db1, Suc k) = Inr (db2, k2)"
          "SetStatus db2 (nt_ID stored) StatusDispatched = Inr db3" "point_cases W draw incident now targets cases (db3, k2) = Inr (db', k')"
        using Cons.prems False by (auto simp: i rbind_Inr_iff)
      show ?thesis
        by (rule trans [OF r1 trans [OF point_threads_rel [OF TrueI p(1)] trans [OF SetStatus_rel [OF p(2)] Cons.IH [OF p(3)]]]])
    qed (use Cons.prems Cons.IH r1 trans False in \<open>auto simp: i\<close>)
  qed (use Cons in simp)
qed (simp add: refl)

lemma pointMembers_rel: "pointMembers W draw facts now (db, k) = Inr (db', k') \<Longrightarrow> R (db, k) (db', k')"
  using refl by (auto simp: pointMembers_def Let_def split: if_splits dest: point_cases_rel)

lemma dispatch_incident_rel:
  assumes "dispatch_incident W draw db k n live conversation now = Inr (res, db', k')"
  shows "R (db, k) (db', k')"
proof -
  obtain stored created db1 where i: "Notification_Insert db n = Inr (stored, created, db1)"
    using assms by (auto simp: dispatch_incident_def rbind_Inr_iff)
  show ?thesis
  proof (cases "\<not> created \<and> nt_Status stored = StatusSuppressed")
    case True
    then show ?thesis using assms insert_rel [OF i] by (auto simp: dispatch_incident_def i)
  next
    case False
    then obtain db2 made where f: "incidentFanOut W draw stored live conversation now (db1, k) = Inr (db2, made, k')"
        "SetStatus db2 (nt_ID stored) StatusDispatched = Inr db'"
      using assms by (auto simp: dispatch_incident_def i rbind_Inr_iff)
    show ?thesis by (rule trans [OF insert_rel [OF i] trans [OF incidentFanOut_rel [OF f(1)] SetStatus_rel [OF f(2)]]])
  qed
qed

lemma evaluateIncident_rel:
  assumes "evaluateIncident W reader draw db i now = Inr (res, db', k')"
  shows "R (db, 0) (db', k')"
proof -
  obtain facts db1 k m where p: "(if in_Conversation facts then pointMembers W draw facts now (db, 0) else Inr (db, 0)) = Inr (db1, k)"
    and e: "(let n0 = incident_note W i (in_ID facts) (draw k) now in
         case ma_Policy m of
           None \<Rightarrow> spent (Suc k) (record_suppressed W db1 n0 SuppressedNoPolicy)
         | Some p \<Rightarrow>
             let n = n0\<lparr>nt_PolicyID := Some (po_ID p)\<rparr> in
             if \<not> Deliverable m then spent (Suc k) (record_suppressed W db1 n SuppressedChannelDisabled)
             else dispatch_incident W draw db1 (Suc k) n (ma_Live m) (in_Conversation facts) now) = Inr (res, db', k')"
    using assms unfolding evaluateIncident_def rbind_Inr_iff Let_def by (elim exE conjE) (auto simp only: prod.case rbind_Inr_iff)
  have "(\<exists>n reason. spent (Suc k) (record_suppressed W db1 n reason) = Inr (res, db', k')) \<or>
      (\<exists>n. dispatch_incident W draw db1 (Suc k) n (ma_Live m) (in_Conversation facts) now = Inr (res, db', k'))"
    using e by (cases "ma_Policy m") (auto simp: Let_def split: if_splits)
  then have "R (db1, Suc k) (db', k')" using spent_rel dispatch_incident_rel by blast
  moreover have "R (db, 0) (db1, k)" using p refl by (auto split: if_splits dest: pointMembers_rel)
  ultimately show ?thesis using trans spend by blast
qed

lemma Evaluate_rel: "Evaluate W draw db i now = Inr (res, db', k') \<Longrightarrow> R (db, 0) (db', k')"
  by (auto simp: Evaluate_def split: if_splits intro: evaluate_rel)

lemma EvaluateIncident_rel: "EvaluateIncident W draw db i now = Inr (res, db', k') \<Longrightarrow> R (db, 0) (db', k')"
  by (auto simp: EvaluateIncident_def split: if_splits option.splits intro: evaluateIncident_rel)

end

section \<open>Runs of the dispatcher\<close>

text \<open>The ids a supply gives from \<open>k\<close> up to \<open>K\<close> are distinct and new to the tables.\<close>

definition new_ids :: "(nat \<Rightarrow> uuid) \<Rightarrow> nat \<Rightarrow> nat \<Rightarrow> DB \<Rightarrow> bool" where
  "new_ids draw k K db \<longleftrightarrow> inj_on draw {k..<K} \<and>
     (\<forall>j\<in>{k..<K}. draw j \<noteq> 0 \<and> draw j \<notin> set (map th_ID (db_threads db)) \<and> draw j \<notin> set (map dl_ID (db_deliveries db)))"

lemma new_idsD:
  assumes "new_ids draw k K db" "k < K"
  shows "draw k \<noteq> 0" "draw k \<notin> set (map th_ID (db_threads db))" "draw k \<notin> set (map dl_ID (db_deliveries db))"
  using assms by (auto simp: new_ids_def)

lemma new_ids_next:
  assumes "new_ids draw k K db" "k < K" "set (map th_ID (db_threads db')) \<subseteq> insert (draw k) (set (map th_ID (db_threads db)))"
    and "set (map dl_ID (db_deliveries db')) \<subseteq> insert (draw k) (set (map dl_ID (db_deliveries db)))"
  shows "new_ids draw (Suc k) K db'"
  unfolding new_ids_def
proof (intro conjI ballI)
  show "inj_on draw {Suc k..<K}" using assms(1) by (auto simp: new_ids_def intro: inj_on_subset)
  fix j assume j: "j \<in> {Suc k..<K}"
  have "draw j \<noteq> draw k" using assms(1,2) j inj_onD [of draw "{k..<K}" j k] by (auto simp: new_ids_def)
  moreover have "draw j \<noteq> 0 \<and> draw j \<notin> set (map th_ID (db_threads db)) \<and> draw j \<notin> set (map dl_ID (db_deliveries db))"
    using assms(1) j unfolding new_ids_def by (elim conjE ballE [of _ _ j]) auto
  ultimately show "draw j \<noteq> 0" "draw j \<notin> set (map th_ID (db_threads db'))" "draw j \<notin> set (map dl_ID (db_deliveries db'))"
    using assms(3,4) by blast+
qed

lemma new_ids_order: "same_order db db' \<Longrightarrow> new_ids draw k K db' = new_ids draw k K db"
  by (simp add: new_ids_def same_order_def)

lemma new_ids_spend: "new_ids draw k K db \<Longrightarrow> new_ids draw (Suc k) K db"
  by (auto simp: new_ids_def intro: inj_on_subset)

lemma Ensure_ids:
  "set (map th_ID (db_threads (fst (Ensure db i c kind u)))) \<subseteq> insert i (set (map th_ID (db_threads db)))"
  "db_deliveries (fst (Ensure db i c kind u)) = db_deliveries db" "db_jobs (fst (Ensure db i c kind u)) = db_jobs db"
  by (auto simp: Ensure_def Let_def split: option.splits)

text \<open>What one \<open>createDelivery\<close> with a fresh id does: nothing, or one new pending row and its job.\<close>

lemma createDelivery_fresh:
  assumes "nd_ID p \<notin> set (map dl_ID (db_deliveries db))" "createDelivery db p now = Inr (db', made)"
  obtains "made = False" "db' = db"
  | d where "made = True" "db_deliveries db' = db_deliveries db @ [d]" "dl_ID d = nd_ID p" "dl_NotificationID d = nd_NotificationID p"
    "dl_Status d = DeliveryPending" "db_jobs db' = db_jobs db @ [nd_ID p]" "map th_ID (db_threads db') = map th_ID (db_threads db)"
proof (cases made)
  case False
  then have "db' = db"
    using assms(2) by (auto simp: createDelivery_def Delivery_Create_def rbind_Inr_iff Let_def split: option.splits)
  then show ?thesis using False that(1) by simp
next
  case True
  then obtain row db1 where c: "Delivery_Create db (p\<lparr>nd_ThreadSeq := 0, nd_CreatedAt := now\<rparr>) = (db1, row, True)"
    using assms(2) by (auto simp: createDelivery_def split: prod.splits if_splits)
  note n = Delivery_Create_new [OF c]
  have other: "x \<in> set (db_deliveries db) \<Longrightarrow> dl_ID x \<noteq> nd_ID p" for x using assms(1) by (metis image_eqI set_map)
  show ?thesis
  proof (cases "nd_ThreadID p")
    case None
    then have "db' = Enqueue db1 (dl_ID row)" using assms(2) c by (simp add: createDelivery_def)
    then show ?thesis using True n by (intro that(2) [of row]) (simp_all add: Enqueue_def)
  next
    case (Some t)
    have "rbind (rbind (AllocateSeq db1 t) (\<lambda>(db2, seq). SetThreadSeq db2 (dl_ID row) seq now)) (\<lambda>db3. Inr (Enqueue db3 (dl_ID row), True)) = Inr (db', made)"
      using assms(2) c Some by (simp add: createDelivery_def)
    then obtain db1' seq db2 where "AllocateSeq db1 t = Inr (db1', seq)" "SetThreadSeq db1' (dl_ID row) seq now = Inr db2" "db' = Enqueue db2 (dl_ID row)"
      unfolding rbind_Inr_iff by (elim exE conjE) (auto simp only: prod.case Pair_inject sum.inject)
    moreover from this(1) obtain th where "Thread_Get db1 t = Inr th" "seq = th_NextSeq th"
        "db1' = set_threads db1 (\<lambda>x. th_ID x = t) (\<lambda>x. x\<lparr>th_NextSeq := th_NextSeq x + 1\<rparr>)"
      by (auto simp: AllocateSeq_def rbind_Inr_iff)
    ultimately have a: "SetThreadSeq (set_threads db1 (\<lambda>x. th_ID x = t) (\<lambda>x. x\<lparr>th_NextSeq := th_NextSeq x + 1\<rparr>)) (dl_ID row) (th_NextSeq th) now = Inr db2"
        "db' = Enqueue db2 (dl_ID row)" by simp_all
    show ?thesis
    proof (cases "dl_ThreadSeq row = None")
      case True
      let ?f = "\<lambda>d. d\<lparr>dl_ThreadSeq := Some (th_NextSeq th), dl_UpdatedAt := max (dl_UpdatedAt d) now\<rparr>"
      have "update_where (\<lambda>d. dl_ID d = dl_ID row \<and> dl_ThreadSeq d = None) ?f (db_deliveries db @ [row]) = db_deliveries db @ [?f row]"
        by (rule update_where_fresh) (use other n True in auto)
      then have "db_deliveries db2 = db_deliveries db @ [?f row]" "db_jobs db2 = db_jobs db" "map th_ID (db_threads db2) = map th_ID (db_threads db)"
        using a(1) n(1) by (auto simp: SetThreadSeq_def set_deliveries_def set_threads_def split: if_splits)
      then show ?thesis using \<open>made\<close> n a(2) by (intro that(2) [of "?f row"]) (simp_all add: Enqueue_def)
    qed (use c in \<open>auto simp: Delivery_Create_def Let_def split: option.splits\<close>)
  qed
qed

lemma createDelivery_new_ids:
  assumes "new_ids draw k K db" "k < K" "nd_ID p = draw k" "createDelivery db p now = Inr (db', made)"
  shows "new_ids draw (Suc k) K db'"
proof -
  have new: "nd_ID p \<notin> set (map dl_ID (db_deliveries db))" using new_idsD(3) [OF assms(1,2)] assms(3) by simp
  have "set (map dl_ID (db_deliveries db')) \<subseteq> insert (draw k) (set (map dl_ID (db_deliveries db)))"
       "set (map th_ID (db_threads db')) \<subseteq> insert (draw k) (set (map th_ID (db_threads db)))"
    by (rule createDelivery_fresh [OF new assms(4)]; use assms(3) in auto)+
  with assms(1,2) show ?thesis by (intro new_ids_next)
qed

lemma skip_new_ids:
  assumes "new_ids draw k K db" "k < K" "nd_ID p = draw k" "Delivery_Create db p = (db', row, True)"
  shows "new_ids draw (Suc k) K (MarkSkipped db' (dl_ID row) now)"
proof -
  have new: "nd_ID p \<notin> set (map dl_ID (db_deliveries db))" using new_idsD(3) [OF assms(1,2)] assms(3) by simp
  obtain d where "MarkSkipped db' (dl_ID row) now = db\<lparr>db_deliveries := db_deliveries db @ [d]\<rparr>" "dl_ID d = nd_ID p"
    by (rule Delivery_skip [OF new assms(4)])
  with assms(1-3) show ?thesis by (intro new_ids_next) auto
qed

lemma Delivery_Create_existing: "Delivery_Create db p = (db', row, False) \<Longrightarrow> db' = db"
  by (auto simp: Delivery_Create_def Let_def split: option.splits)

text \<open>The dispatcher reaches the tables of the second state from those of the first, with nothing in flight touched.\<close>

definition dispatch_run :: "'v ext \<Rightarrow> (nat \<Rightarrow> uuid) \<Rightarrow> Sys \<Rightarrow> DB \<times> nat \<Rightarrow> DB \<times> nat \<Rightarrow> bool" where
  "dispatch_run X draw s st st' \<longleftrightarrow> snd st \<le> snd st' \<and> (\<forall>K\<ge>snd st'. new_ids draw (snd st) K (fst st) \<longrightarrow>
     new_ids draw (snd st') K (fst st') \<and> (dispatch_step X)\<^sup>*\<^sup>* (s\<lparr>sy_db := fst st\<rparr>) (s\<lparr>sy_db := fst st'\<rparr>))"

lemma dispatch_run_step:
  assumes "\<And>K. new_ids draw k K db \<Longrightarrow> k < K \<Longrightarrow> new_ids draw (Suc k) K db' \<and> dispatch_step X (s\<lparr>sy_db := db\<rparr>) (s\<lparr>sy_db := db'\<rparr>)"
  shows "dispatch_run X draw s (db, k) (db', Suc k)"
  unfolding dispatch_run_def fst_conv snd_conv using assms by (auto intro: r_into_rtranclp)

lemma dispatch_run_order:
  assumes "same_order db db'"
  shows "dispatch_run X draw s (db, k) (db', k)"
  using dispatch_step.elsewhere [of "s\<lparr>sy_db := db\<rparr>" db' X] assms
  by (auto simp: dispatch_run_def new_ids_order [OF assms] intro: r_into_rtranclp)

interpretation run: notify_rel "dispatch_run X draw s" draw for X draw s
proof
  show "dispatch_run X draw s st st" for st by (simp add: dispatch_run_def)
  show "dispatch_run X draw s st st''" if "dispatch_run X draw s st st'" "dispatch_run X draw s st' st''" for st st' st''
    using that unfolding dispatch_run_def by (meson order_trans rtranclp_trans)
  show "dispatch_run X draw s (db, k) (fst (Ensure db (draw k) c kind subject), Suc k)" for db k c kind subject
  proof (rule dispatch_run_step)
    fix K assume f: "new_ids draw k K db" "k < K"
    have "new_ids draw (Suc k) K (fst (Ensure db (draw k) c kind subject))"
      by (rule new_ids_next [OF f]) (use Ensure_ids [of db "draw k" c kind subject] in auto)
    then show "new_ids draw (Suc k) K (fst (Ensure db (draw k) c kind subject)) \<and>
        dispatch_step X (s\<lparr>sy_db := db\<rparr>) (s\<lparr>sy_db := fst (Ensure db (draw k) c kind subject)\<rparr>)"
      using dispatch_step.ensure [of "draw k" "s\<lparr>sy_db := db\<rparr>" X] new_idsD(2) [OF f] by simp
  qed
  show "dispatch_run X draw s (db, k) (db', Suc k)"
    if p: "nd_ID p = draw k" "createDelivery db p now = Inr (db', made)" for p k db now db' made
  proof (rule dispatch_run_step)
    fix K assume f: "new_ids draw k K db" "k < K"
    show "new_ids draw (Suc k) K db' \<and> dispatch_step X (s\<lparr>sy_db := db\<rparr>) (s\<lparr>sy_db := db'\<rparr>)"
      using createDelivery_new_ids [OF f p] dispatch_step.create [of p "s\<lparr>sy_db := db\<rparr>" now db' made X] new_idsD(1,3) [OF f] p
      by simp
  qed
  show "dispatch_run X draw s (db, k) (db\<lparr>db_notifications := ns\<rparr>, k)" for db k ns
    by (rule dispatch_run_order) (simp add: same_order_def)
  show "dispatch_run X draw s (db, k) (db\<lparr>db_events := es\<rparr>, k)" for db k es
    by (rule dispatch_run_order) (simp add: same_order_def)
  show "dispatch_run X draw s (db, k) (db, Suc k)" for db k
    using new_ids_spend by (simp add: dispatch_run_def)
  show "dispatch_run X draw s (db, k) (if made then MarkSkipped db' (dl_ID row) now else db', Suc k)"
    if p: "nd_ID p = draw k" "nd_ThreadID p = None" "Delivery_Create db p = (db', row, made)" for p k db db' row made now
  proof (cases made)
    case False
    then show ?thesis using p(3) new_ids_spend by (auto simp: dispatch_run_def dest: Delivery_Create_existing)
  next
    case True
    have "dispatch_run X draw s (db, k) (MarkSkipped db' (dl_ID row) now, Suc k)"
    proof (rule dispatch_run_step)
      fix K assume f: "new_ids draw k K db" "k < K"
      have c: "Delivery_Create db p = (db', row, True)" using p(3) True by simp
      show "new_ids draw (Suc k) K (MarkSkipped db' (dl_ID row) now) \<and>
          dispatch_step X (s\<lparr>sy_db := db\<rparr>) (s\<lparr>sy_db := MarkSkipped db' (dl_ID row) now\<rparr>)"
        using skip_new_ids [OF f p(1) c] dispatch_step.skip [of p "s\<lparr>sy_db := db\<rparr>" db' row X now] new_idsD(1,3) [OF f] p(1,2) c
        by simp
    qed
    then show ?thesis using True by simp
  qed
qed

end
