(* ===== verification/Notify_Correct.thy ===== *)
theory Notify_Correct
  imports Notify_Run
begin

text \<open>
  Properties of the notifier: preview and routing agree (C34), a repeated intent is quiet (C35), its transactions are runs of
  the dispatcher's system (C36), what is created is queued in the same transaction (C37), and what a repeat does to the
  status of a finished notification (C38).
\<close>

section \<open>Preview and routing\<close>

lemma first_plan:
  assumes "pi_Reason inp = r" "pi_ThreadExists inp = False" "pi_ThreadUpdates inp = ch_ThreadUpdates c" "pi_Capabilities inp = ch_Capabilities c"
  shows "p_Modes (PlanFor inp) = p_Modes (PlanFor (preview_input r c))"
  using assms by (simp add: PlanFor_def plan_root_def rootModeFor_def preview_input_def Let_def AllowsReply_def ungatedReplies_def hasReply_def
      split: option.split)

lemma planInput_modes: "p_Modes (PlanFor (planInput r c def False flapping)) = p_Modes (PlanFor (preview_input r c))"
  by (rule first_plan) (simp_all add: planInput_def Let_def)

lemma plan_loop_dests:
  "map (\<lambda>d. (ds_channel d, p_Modes (ds_plan d))) (fst (plan_loop r def flapping cs seen)) =
     filter (\<lambda>(c, modes). modes \<noteq> []) (map (\<lambda>c. (c, p_Modes (PlanFor (preview_input r c)))) cs)"
proof (induction cs arbitrary: seen)
  case (Cons c cs)
  define seen1 where "seen1 = (let p = PlanFor (planInput r c def False flapping) in
    if p_ReplyDropped p \<and> p_ReplyDropReason p \<in> {''verbosity'', ''thread_updates'', ''no_threading'', ''fresh_root''}
    then Suppressors_Add seen SuppressedVerbosity else seen)"
  obtain out seen2 where l: "plan_loop r def flapping cs seen1 = (out, seen2)" by force
  have "plan_loop r def flapping (c # cs) seen = (if Plan_Empty (PlanFor (planInput r c def False flapping)) then (out, seen2)
      else (\<lparr>ds_channel = c, ds_plan = PlanFor (planInput r c def False flapping), ds_input = planInput r c def False flapping\<rparr> # out, seen2))"
    by (simp only: plan_loop.simps Let_def seen1_def [unfolded Let_def, symmetric] l prod.case)
  then show ?case using Cons.IH [of seen1] l by (simp add: Plan_Empty_def planInput_modes)
qed simp

lemma plan_destinations_set:
  assumes "Routed m"
  shows "(\<lambda>d. (ds_channel d, p_Modes (ds_plan d))) ` set (fst (plan_destinations W r snap m def)) =
    {(c, modes). c \<in> set (ma_Live m) \<and> modes = p_Modes (PlanFor (preview_input r c)) \<and> modes \<noteq> []}"
proof -
  obtain out seen where l: "plan_loop r def (AnyFlapping snap) (ma_Live m) [] = (out, seen)" by force
  have "(\<lambda>d. (ds_channel d, p_Modes (ds_plan d))) ` set out =
      set (filter (\<lambda>(c, modes). modes \<noteq> []) (map (\<lambda>c. (c, p_Modes (PlanFor (preview_input r c)))) (ma_Live m)))"
    using arg_cong [OF plan_loop_dests [of r def "AnyFlapping snap" "ma_Live m" "[]"], of set] l by simp
  also have "\<dots> = {(c, modes). c \<in> set (ma_Live m) \<and> modes = p_Modes (PlanFor (preview_input r c)) \<and> modes \<noteq> []}" by auto
  finally show ?thesis using assms l by (simp add: plan_destinations_def)
qed

lemma plan_destinations_empty:
  assumes "Routed m"
  shows "fst (plan_destinations W r snap m def) = [] \<longleftrightarrow> list_all (\<lambda>c. Plan_Empty (PlanFor (preview_input r c))) (ma_Live m)"
proof -
  have "fst (plan_destinations W r snap m def) = [] \<longleftrightarrow>
      (\<lambda>d. (ds_channel d, p_Modes (ds_plan d))) ` set (fst (plan_destinations W r snap m def)) = {}" by simp
  then show ?thesis unfolding plan_destinations_set [OF assms] by (auto simp: list_all_iff Plan_Empty_def)
qed

text \<open>
  C34. The preview of an organisation's policies tells what routing will do. Both refuse the same reasons with the same
  error. Otherwise the preview names the policy that routes and exactly one policy as matched when there is one, its
  live destinations are the channels routed to, the modes it shows are those the notifier plans for a first message, and its
  reason for silence is the one the notifier would record when nothing else (snooze, throttle, count) keeps it quiet.
\<close>

theorem preview_is_routing:
  "case (Policies_Evaluate RX db policies r labels, Policies_Preview RX db policies PreviewAll r labels) of
     (Inl e, Inl e') \<Rightarrow> e = e'
   | (Inr m, Inr pv) \<Rightarrow>
       pr_Matched pv = ma_Policy m \<and> length (filter pv_Matched (pr_Outcomes pv)) = (if Routed m then 1 else 0) \<and>
       map pd_ChannelID (filter pd_Live (pr_Destinations pv)) = map ch_ID (ma_Live m) \<and>
       (\<lambda>d. (ch_ID (ds_channel d), p_Modes (ds_plan d))) ` set (fst (plan_destinations W r snap m def)) =
         (\<lambda>x. (pd_ChannelID x, pd_Modes x)) ` {x \<in> set (pr_Destinations pv). pd_Live x \<and> pd_Modes x \<noteq> []} \<and>
       pr_Suppressed pv = (if \<not> Routed m then Some SuppressedNoPolicy else if \<not> Deliverable m then Some SuppressedChannelDisabled
         else if fst (plan_destinations W r snap m def) = [] then Some SuppressedVerbosity else None)
   | _ \<Rightarrow> False"
proof (cases "Reason_Valid r")
  case False
  then show ?thesis by (simp add: Policies_Evaluate_def Policies_Preview_def)
next
  case True
  let ?hit = "find (\<lambda>p. verdict_of RX p r labels) (ListLive policies)"
  obtain outs where l: "preview_loop RX (ListLive policies) r labels None = (outs, ?hit)"
      "length (filter pv_Matched outs) = (if ?hit = None then 0 else 1)"
    using preview_loop_find [of RX "ListLive policies" r labels] by (cases "preview_loop RX (ListLive policies) r labels None") auto
  show ?thesis
  proof (cases ?hit)
    case None
    then show ?thesis
      using True l by (simp add: Policies_Evaluate_def Policies_Preview_def previewCandidates_def evaluate_loop_find no_match_def Routed_def
          plan_destinations_def)
  next
    case (Some p)
    let ?cs = "ListByIDs db (po_ChannelIDs p)"
    let ?m = "\<lparr>ma_Policy = Some p, ma_Channels = ?cs, ma_Live = filter Live ?cs\<rparr>"
    let ?pd = "\<lambda>c. \<lparr>pd_ChannelID = ch_ID c, pd_Live = Live c, pd_Modes = p_Modes (PlanFor (preview_input r c)),
      pd_ReplyDropReason = p_ReplyDropReason (PlanFor (preview_input r c))\<rparr>"
    have routed: "Routed ?m" by (simp add: Routed_def)
    have ev: "Policies_Evaluate RX db policies r labels = Inr ?m" using True Some by (simp add: Policies_Evaluate_def evaluate_loop_find)
    have "(\<lambda>d. (ch_ID (ds_channel d), p_Modes (ds_plan d))) ` set (fst (plan_destinations W r snap ?m def)) =
        (\<lambda>(c, modes). (ch_ID c, modes)) ` (\<lambda>d. (ds_channel d, p_Modes (ds_plan d))) ` set (fst (plan_destinations W r snap ?m def))"
      by (simp add: image_image)
    also have "\<dots> = (\<lambda>x. (pd_ChannelID x, pd_Modes x)) ` {x \<in> ?pd ` set ?cs. pd_Live x \<and> pd_Modes x \<noteq> []}"
      unfolding plan_destinations_set [OF routed] by force
    finally have dests: "(\<lambda>d. (ch_ID (ds_channel d), p_Modes (ds_plan d))) ` set (fst (plan_destinations W r snap ?m def)) =
        (\<lambda>x. (pd_ChannelID x, pd_Modes x)) ` {x \<in> ?pd ` set ?cs. pd_Live x \<and> pd_Modes x \<noteq> []}" .
    have live: "map pd_ChannelID (filter pd_Live (map ?pd ?cs)) = map ch_ID (filter Live ?cs)"
      by (simp add: filter_map o_def)
    have sp: "(if \<not> list_ex Live ?cs then Some SuppressedChannelDisabled
        else if \<not> list_ex (\<lambda>c. Live c \<and> \<not> Plan_Empty (PlanFor (preview_input r c))) ?cs then Some SuppressedVerbosity else None) =
      (if \<not> Routed ?m then Some SuppressedNoPolicy else if \<not> Deliverable ?m then Some SuppressedChannelDisabled
       else if fst (plan_destinations W r snap ?m def) = [] then Some SuppressedVerbosity else None)"
      unfolding plan_destinations_empty [OF routed]
      by (simp add: Routed_def Deliverable_def filter_empty_conv list_ex_iff list_all_iff)
    show ?thesis
      using True l Some dests live sp routed by (simp add: ev Policies_Preview_def previewCandidates_def Let_def)
  qed
qed

section \<open>Transactions as runs\<close>

text \<open>
  C36. The notifier refines the dispatcher's system. Whatever workers are in flight, a transaction that evaluates a fact about a
  case or about an incident, with fresh ids, takes the system from its state to one reached by the step relation
  of the dispatcher, changing only the tables. So the guarantees about ordering hold with the notifier running, and
  the tables stay consistent.
\<close>

theorem notifier_is_a_run:
  assumes "Evaluate W draw (sy_db s) i now = Inr (res, db', k) \<or> EvaluateIncident W draw (sy_db s) j now = Inr (res, db', k)"
    and "new_ids draw 0 k (sy_db s)"
  shows "(dispatch_step X)\<^sup>*\<^sup>* s (s\<lparr>sy_db := db'\<rparr>) \<and> (sys_ok s \<longrightarrow> sys_ok (s\<lparr>sy_db := db'\<rparr>))"
proof -
  have "dispatch_run X draw s (sy_db s, 0) (db', k)"
    using assms(1) run.Evaluate_rel run.EvaluateIncident_rel by blast
  then have "(dispatch_step X)\<^sup>*\<^sup>* s (s\<lparr>sy_db := db'\<rparr>)" using assms(2) by (auto simp: dispatch_run_def)
  then show ?thesis using reachable_ok by blast
qed

section \<open>The outbox\<close>

text \<open>Every row the second state has and the first has not belongs to \<open>nid\<close>, is pending and was queued.\<close>

definition queued :: "uuid \<Rightarrow> DB \<Rightarrow> DB \<Rightarrow> bool" where
  "queued nid db db' \<longleftrightarrow> (\<exists>new. db_deliveries db' = db_deliveries db @ new \<and> db_jobs db' = db_jobs db @ map dl_ID new \<and>
     list_all (\<lambda>d. dl_NotificationID d = nid \<and> dl_Status d = DeliveryPending) new)"

definition outbox :: "(nat \<Rightarrow> uuid) \<Rightarrow> uuid \<Rightarrow> DB \<times> nat \<Rightarrow> DB \<times> nat \<Rightarrow> bool" where
  "outbox draw nid st st' \<longleftrightarrow> snd st \<le> snd st' \<and> (\<forall>K\<ge>snd st'. new_ids draw (snd st) K (fst st) \<longrightarrow>
     new_ids draw (snd st') K (fst st') \<and> queued nid (fst st) (fst st'))"

lemma queued_refl: "db_deliveries db' = db_deliveries db \<Longrightarrow> db_jobs db' = db_jobs db \<Longrightarrow> queued nid db db'"
  unfolding queued_def by (intro exI [of _ "[]"]) simp

lemma queued_trans: "queued nid db db1 \<Longrightarrow> queued nid db1 db2 \<Longrightarrow> queued nid db db2"
  unfolding queued_def by (elim exE) (rule exI, auto)

lemma outboxI:
  assumes "\<And>K. new_ids draw k K db \<Longrightarrow> k < K \<Longrightarrow> new_ids draw (Suc k) K db' \<and> queued nid db db'"
  shows "outbox draw nid (db, k) (db', Suc k)"
  unfolding outbox_def fst_conv snd_conv using assms by auto

lemma outbox_create:
  assumes "nd_ID p = draw k" "nd_NotificationID p = nid" "createDelivery db p now = Inr (db', made)"
  shows "outbox draw nid (db, k) (db', Suc k)"
proof (rule outboxI)
  fix K assume f: "new_ids draw k K db" "k < K"
  have new: "nd_ID p \<notin> set (map dl_ID (db_deliveries db))" using new_idsD(3) [OF f] assms(1) by simp
  have "queued nid db db'"
  proof (rule createDelivery_fresh [OF new assms(3)])
    fix d assume "db_deliveries db' = db_deliveries db @ [d]" "dl_ID d = nd_ID p" "dl_NotificationID d = nd_NotificationID p"
      "dl_Status d = DeliveryPending" "db_jobs db' = db_jobs db @ [nd_ID p]"
    then show ?thesis unfolding queued_def using assms(2) by (intro exI [of _ "[d]"]) simp
  qed (simp add: queued_refl)
  then show "new_ids draw (Suc k) K db' \<and> queued nid db db'" using createDelivery_new_ids [OF f assms(1,3)] by simp
qed

interpretation outbox: fan_rel "outbox draw nid" draw "\<lambda>i. i = nid" for draw nid
proof
  show "outbox draw nid st st" for st by (cases st) (simp add: outbox_def queued_refl)
  show "outbox draw nid st st''" if "outbox draw nid st st'" "outbox draw nid st' st''" for st st' st''
    using that unfolding outbox_def by (meson order_trans queued_trans)
  show "outbox draw nid (db, k) (fst (Ensure db (draw k) c kind subject), Suc k)" for db k c kind subject
  proof (rule outboxI)
    fix K assume f: "new_ids draw k K db" "k < K"
    have "new_ids draw (Suc k) K (fst (Ensure db (draw k) c kind subject))"
      by (rule new_ids_next [OF f]) (use Ensure_ids [of db "draw k" c kind subject] in auto)
    then show "new_ids draw (Suc k) K (fst (Ensure db (draw k) c kind subject)) \<and> queued nid db (fst (Ensure db (draw k) c kind subject))"
      by (simp add: queued_refl Ensure_ids)
  qed
qed (rule outbox_create)

text \<open>What \<open>fanOut\<close> counts is the number of rows it adds.\<close>

lemma Ensure_deliveries: "Ensure db i c kind u = (db', th) \<Longrightarrow> db_deliveries db' = db_deliveries db"
  using Ensure_ids(2) [of db i c kind u] by simp

lemma createDelivery_length:
  "createDelivery db p now = Inr (db', made) \<Longrightarrow> length (db_deliveries db') = length (db_deliveries db) + (if made then 1 else 0)"
  by (auto simp: createDelivery_def Delivery_Create_def rbind_Inr_iff AllocateSeq_def SetThreadSeq_def Let_def set_threads_def set_deliveries_def
      update_where_def Enqueue_def split: option.splits if_splits)

lemma create_modes_length:
  "create_modes draw n c threadID now modes (db, created, k) = Inr (db', created', k') \<Longrightarrow>
    created' = created + (int (length (db_deliveries db')) - int (length (db_deliveries db)))"
proof (induction modes arbitrary: db created k)
  case (Cons m modes)
  then obtain db1 made where c: "createDelivery db (new_delivery (draw k) n c threadID m now) now = Inr (db1, made)"
      "create_modes draw n c threadID now modes (db1, if made then created + 1 else created, Suc k) = Inr (db', created', k')"
    by (auto simp: rbind_Inr_iff)
  show ?case using Cons.IH [OF c(2)] createDelivery_length [OF c(1)] by simp
qed simp

lemma fan_one_length:
  assumes "fan_one draw n now d (db, created, k) = Inr (db', created', k')"
  shows "created' = created + (int (length (db_deliveries db')) - int (length (db_deliveries db)))"
  using assms by (auto simp: fan_one_def split: if_splits prod.splits dest!: create_modes_length Ensure_deliveries)

lemma fanOut_length:
  "fanOut draw n now ds (db, created, k) = Inr (db', created', k') \<Longrightarrow>
    created' = created + (int (length (db_deliveries db')) - int (length (db_deliveries db)))"
proof (induction ds arbitrary: db created k)
  case (Cons d ds)
  then obtain db1 created1 k1 where f: "fan_one draw n now d (db, created, k) = Inr (db1, created1, k1)"
      "fanOut draw n now ds (db1, created1, k1) = Inr (db', created', k')"
    by (auto simp: rbind_Inr_iff)
  show ?case using Cons.IH [OF f(2)] fan_one_length [OF f(1)] by simp
qed simp

section \<open>What an evaluation leaves\<close>

lemma spent_cases:
  assumes "spent k r = Inr (res, db', k')"
  shows "r = Inr (res, db')" "k' = k"
  using assms by (auto simp: spent_def rbind_Inr_iff)

lemma evaluate_cases:
  assumes "evaluate W draw db i now = Inr (res, db', k')"
  obtains (silent) n reason where "record_suppressed W db n reason = Inr (res, db')"
  | (loud) n dests where "dispatch_notification W draw db 1 n dests now = Inr (res, db', k')"
proof -
  obtain snap n m where "(case Winner (suppressors db i (nt_ConversationID n) snap m) of
         Some reason \<Rightarrow> spent 1 (record_suppressed W db n reason)
       | None \<Rightarrow>
           (case plan_destinations W (it_Reason i) snap m (orgDefaults W) of (dests, soft) \<Rightarrow>
              if length dests = 0
              then spent 1 (record_suppressed W db n (case Winner soft of Some r \<Rightarrow> r | None \<Rightarrow> SuppressedVerbosity))
              else dispatch_notification W draw db 1 n dests now)) = Inr (res, db', k')"
    using assms unfolding evaluate_def rbind_Inr_iff Let_def by blast
  then show ?thesis using that spent_cases(1) by (auto split: option.splits prod.splits if_splits)
qed

lemma Evaluate_evaluate: "Evaluate W draw db i now = Inr r \<Longrightarrow> evaluate W draw db i now = Inr r"
  by (simp add: Evaluate_def split: if_splits)

lemma Insert_cases:
  assumes "Notification_Insert db n = Inr (stored, created, db')"
  obtains (made) "created" "stored = n" "GetByIdempotencyKey db (nt_IdempotencyKey n) = None" "db' = db\<lparr>db_notifications := db_notifications db @ [n]\<rparr>"
  | (found) "\<not> created" "GetByIdempotencyKey db (nt_IdempotencyKey n) = Some stored" "db' = db" "nt_IdempotencyKey stored = nt_IdempotencyKey n"
proof (cases "GetByIdempotencyKey db (nt_IdempotencyKey n)")
  case None
  then show ?thesis using assms made by (auto simp: Notification_Insert_def split: if_splits)
next
  case (Some e)
  then have "nt_IdempotencyKey e = nt_IdempotencyKey n" unfolding GetByIdempotencyKey_def by (auto dest: find_SomeD)
  then show ?thesis using assms found Some by (auto simp: Notification_Insert_def split: if_splits)
qed

lemma Insert_lookup:
  assumes "Notification_Insert db n = Inr (stored, created, db')"
  shows "GetByIdempotencyKey db' (nt_IdempotencyKey n) = Some stored" "nt_IdempotencyKey stored = nt_IdempotencyKey n"
    "created \<longleftrightarrow> GetByIdempotencyKey db (nt_IdempotencyKey n) = None"
    "length (db_notifications db') = length (db_notifications db) + (if created then 1 else 0)"
    "db_deliveries db' = db_deliveries db" "db_jobs db' = db_jobs db" "db_threads db' = db_threads db" "db_channels db' = db_channels db"
  by (rule Insert_cases [OF assms]; simp add: GetByIdempotencyKey_def find_app)+

lemma SetStatus_lookup:
  assumes "SetStatus db (nt_ID n) StatusDispatched = Inr db'" "GetByIdempotencyKey db key = Some n"
  shows "GetByIdempotencyKey db' key = Some (n\<lparr>nt_Status := StatusDispatched\<rparr>)" "length (db_notifications db') = length (db_notifications db)"
    "db_deliveries db' = db_deliveries db" "db_jobs db' = db_jobs db" "db_threads db' = db_threads db" "db_channels db' = db_channels db"
proof -
  have db': "db' = db\<lparr>db_notifications := update_where (\<lambda>x. nt_ID x = nt_ID n \<and> nt_Status x \<noteq> StatusDispatched)
      (\<lambda>x. x\<lparr>nt_Status := StatusDispatched\<rparr>) (db_notifications db)\<rparr>" using assms(1) by (simp add: SetStatus_def)
  show "GetByIdempotencyKey db' key = Some (n\<lparr>nt_Status := StatusDispatched\<rparr>)"
    using assms(2) by (simp add: db' GetByIdempotencyKey_def find_update_where)
  show "length (db_notifications db') = length (db_notifications db)" by (simp add: db' update_where_def)
  show "db_deliveries db' = db_deliveries db" "db_jobs db' = db_jobs db" "db_threads db' = db_threads db" "db_channels db' = db_channels db"
    by (simp_all add: db')
qed

lemma append_tables [simp]:
  "db_deliveries (append_event db e) = db_deliveries db" "db_jobs (append_event db e) = db_jobs db"
  "db_notifications (append_event db e) = db_notifications db" "db_channels (append_event db e) = db_channels db"
  "db_threads (append_event db e) = db_threads db"
  by (simp_all add: append_event_def split: prod.split)

lemma append_created_tables [simp]:
  "db_deliveries (AppendNotificationCreated U db n) = db_deliveries db" "db_jobs (AppendNotificationCreated U db n) = db_jobs db"
  "db_notifications (AppendNotificationCreated U db n) = db_notifications db" "db_channels (AppendNotificationCreated U db n) = db_channels db"
  "db_threads (AppendNotificationCreated U db n) = db_threads db"
  by (simp_all add: AppendNotificationCreated_def)

lemma append_suppressed_tables [simp]:
  "db_deliveries (AppendNotificationSuppressed U db n) = db_deliveries db" "db_jobs (AppendNotificationSuppressed U db n) = db_jobs db"
  "db_notifications (AppendNotificationSuppressed U db n) = db_notifications db" "db_channels (AppendNotificationSuppressed U db n) = db_channels db"
  "db_threads (AppendNotificationSuppressed U db n) = db_threads db"
  by (simp_all add: AppendNotificationSuppressed_def)

lemma record_suppressed_lookup:
  assumes "record_suppressed W db n reason = Inr (res, db')"
  shows "GetByIdempotencyKey db' (nt_IdempotencyKey n) = Some (re_Notification res)" "nt_IdempotencyKey (re_Notification res) = nt_IdempotencyKey n"
    "re_Created res \<longleftrightarrow> GetByIdempotencyKey db (nt_IdempotencyKey n) = None" "re_Deliveries res = 0"
    "re_Suppressed res = nt_SuppressedReason (re_Notification res)"
    "re_Created res \<Longrightarrow> re_Notification res = n\<lparr>nt_Status := StatusSuppressed, nt_SuppressedReason := Some reason\<rparr>"
    "\<not> re_Created res \<Longrightarrow> db' = db"
    "length (db_notifications db') = length (db_notifications db) + (if re_Created res then 1 else 0)"
    "db_deliveries db' = db_deliveries db" "db_jobs db' = db_jobs db" "db_threads db' = db_threads db" "db_channels db' = db_channels db"
proof -
  obtain db1 where i: "Notification_Insert db (n\<lparr>nt_Status := StatusSuppressed, nt_SuppressedReason := Some reason\<rparr>) = Inr (re_Notification res, re_Created res, db1)"
      and r: "re_Deliveries res = 0" "re_Suppressed res = nt_SuppressedReason (re_Notification res)"
        "db' = (if re_Created res then AppendNotificationSuppressed (w_U W) db1 (re_Notification res) else db1)"
    using assms by (auto simp: record_suppressed_def rbind_Inr_iff)
  note L = Insert_lookup [OF i]
  have found: "GetByIdempotencyKey db' k = GetByIdempotencyKey db1 k" for k by (simp add: GetByIdempotencyKey_def r(3))
  show "GetByIdempotencyKey db' (nt_IdempotencyKey n) = Some (re_Notification res)" using L(1) by (simp add: found)
  show "nt_IdempotencyKey (re_Notification res) = nt_IdempotencyKey n" "re_Created res \<longleftrightarrow> GetByIdempotencyKey db (nt_IdempotencyKey n) = None"
    using L(2,3) by simp_all
  show "re_Deliveries res = 0" "re_Suppressed res = nt_SuppressedReason (re_Notification res)" by (rule r)+
  show "re_Notification res = n\<lparr>nt_Status := StatusSuppressed, nt_SuppressedReason := Some reason\<rparr>" if "re_Created res"
    using Insert_cases [OF i] that by metis
  show "db' = db" if "\<not> re_Created res" using Insert_cases [OF i] that r(3) by metis
  show "length (db_notifications db') = length (db_notifications db) + (if re_Created res then 1 else 0)"
    "db_deliveries db' = db_deliveries db" "db_jobs db' = db_jobs db" "db_threads db' = db_threads db" "db_channels db' = db_channels db"
    using L(4-8) by (simp_all add: r(3))
qed


text \<open>
  What a fan-out keeps: the notifications and channels, the answer to whether a conversation has a root, and
  every row of a notification, channel and mode.
\<close>

definition find_thread :: "DB \<Rightarrow> uuid \<Rightarrow> SubjectKind \<Rightarrow> uuid \<Rightarrow> Thread option" where
  "find_thread db c kind u = find (\<lambda>t. th_ChannelID t = c \<and> th_SubjectKind t = kind \<and> th_SubjectID t = u) (db_threads db)"

definition has_row :: "DB \<Rightarrow> uuid \<Rightarrow> uuid \<Rightarrow> Mode \<Rightarrow> bool" where
  "has_row db n c m \<longleftrightarrow> find (\<lambda>d. dl_NotificationID d = n \<and> dl_ChannelID d = c \<and> dl_Mode d = m) (db_deliveries db) \<noteq> None"

definition keeps :: "DB \<times> nat \<Rightarrow> DB \<times> nat \<Rightarrow> bool" where
  "keeps st st' \<longleftrightarrow> db_notifications (fst st') = db_notifications (fst st) \<and> db_channels (fst st') = db_channels (fst st) \<and>
     (\<forall>c kind u t. find_thread (fst st) c kind u = Some t \<longrightarrow> (\<exists>t'. find_thread (fst st') c kind u = Some t' \<and> RootLanded t' = RootLanded t)) \<and>
     (\<forall>n c m. has_row (fst st) n c m \<longrightarrow> has_row (fst st') n c m)"

lemma keepsI:
  assumes "db_notifications db' = db_notifications db" "db_channels db' = db_channels db"
    "\<And>c kind u t. find_thread db c kind u = Some t \<Longrightarrow> \<exists>t'. find_thread db' c kind u = Some t' \<and> RootLanded t' = RootLanded t"
    "\<And>n c m. has_row db n c m \<Longrightarrow> has_row db' n c m"
  shows "keeps (db, k) (db', k')"
  using assms by (simp add: keeps_def)

lemma Ensure_keeps: "keeps (db, k) (fst (Ensure db i c kind u), k')"
  by (rule keepsI) (auto simp: Ensure_def Let_def find_thread_def has_row_def find_app split: option.splits)

lemma has_row_set_deliveries:
  assumes "\<And>d. dl_NotificationID (f d) = dl_NotificationID d \<and> dl_ChannelID (f d) = dl_ChannelID d \<and> dl_Mode (f d) = dl_Mode d"
  shows "has_row (set_deliveries db P f) n c m \<longleftrightarrow> has_row db n c m"
  using assms by (simp add: has_row_def set_deliveries_def find_update_where)

lemma Delivery_Create_row:
  assumes "Delivery_Create db p = (db', row, made)"
  shows "has_row db' (nd_NotificationID p) (nd_ChannelID p) (nd_Mode p)" "has_row db n c m \<Longrightarrow> has_row db' n c m"
    "db_threads db' = db_threads db" "db_notifications db' = db_notifications db" "db_channels db' = db_channels db"
  using assms by (auto simp: Delivery_Create_def has_row_def find_app Let_def split: option.splits)

lemma createDelivery_keeps:
  assumes "createDelivery db p now = Inr (db', made)"
  shows "keeps (db, k) (db', k')" "has_row db' (nd_NotificationID p) (nd_ChannelID p) (nd_Mode p)"
proof -
  obtain db1 row made1 where c: "Delivery_Create db (p\<lparr>nd_ThreadSeq := 0, nd_CreatedAt := now\<rparr>) = (db1, row, made1)" by (metis surj_pair)
  note R = Delivery_Create_row [OF c, simplified]
  have "\<exists>db2. db' = db1 \<or> db' = Enqueue db1 (dl_ID row) \<or> (\<exists>t seq.
      db' = Enqueue (set_deliveries (set_threads db1 (\<lambda>x. th_ID x = t) (\<lambda>x. x\<lparr>th_NextSeq := th_NextSeq x + 1\<rparr>))
        (\<lambda>d. dl_ID d = dl_ID row \<and> dl_ThreadSeq d = None) (\<lambda>d. d\<lparr>dl_ThreadSeq := Some seq, dl_UpdatedAt := max (dl_UpdatedAt d) now\<rparr>)) (dl_ID row))"
    using assms c by (auto simp: createDelivery_def rbind_Inr_iff AllocateSeq_def SetThreadSeq_def split: if_splits option.splits)
  then have *: "has_row db' n c m = has_row db1 n c m" "db_notifications db' = db_notifications db" "db_channels db' = db_channels db"
      "find_thread db c kind u = Some t \<Longrightarrow> \<exists>t'. find_thread db' c kind u = Some t' \<and> RootLanded t' = RootLanded t" for n c m kind u t
    using R(3-5)
    by (auto simp: Enqueue_def has_row_def set_deliveries_def set_threads_def find_update_where find_thread_def RootLanded_def)
  then show "keeps (db, k) (db', k')" "has_row db' (nd_NotificationID p) (nd_ChannelID p) (nd_Mode p)"
    using R(1,2) by (auto intro!: keepsI)
qed

interpretation keeps: fan_rel keeps draw "\<lambda>_. True" for draw
proof
  show "keeps st st" for st by (cases st) (simp add: keeps_def)
  show "keeps st st''" if "keeps st st'" "keeps st' st''" for st st' st''
    using that unfolding keeps_def by (metis (no_types))
qed (simp_all add: Ensure_keeps createDelivery_keeps)

text \<open>A destination is settled when every message its plan asks for has a row: fanning out to it again does nothing.\<close>

definition settled :: "DB \<Rightarrow> Notification \<Rightarrow> destination \<Rightarrow> bool" where
  "settled db n d \<longleftrightarrow>
     (if needsThread (ds_channel d)
      then \<exists>t. find_thread db (ch_ID (ds_channel d)) (fst (threadSubjectOf n)) (snd (threadSubjectOf n)) = Some t \<and>
        list_all (has_row db (nt_ID n) (ch_ID (ds_channel d))) (modesFor n d (RootLanded t))
      else list_all (has_row db (nt_ID n) (ch_ID (ds_channel d))) (modesFor n d False))"

lemma settled_keeps:
  assumes "keeps (db, k) (db', k')" "settled db n d"
  shows "settled db' n d"
proof (cases "needsThread (ds_channel d)")
  case True
  obtain t where t: "find_thread db (ch_ID (ds_channel d)) (fst (threadSubjectOf n)) (snd (threadSubjectOf n)) = Some t"
      "list_all (has_row db (nt_ID n) (ch_ID (ds_channel d))) (modesFor n d (RootLanded t))"
    using assms(2) True by (auto simp: settled_def)
  obtain t' where "find_thread db' (ch_ID (ds_channel d)) (fst (threadSubjectOf n)) (snd (threadSubjectOf n)) = Some t'" "RootLanded t' = RootLanded t"
    using assms(1) t(1) unfolding keeps_def fst_conv by blast
  then show ?thesis using True t(2) assms(1) by (simp add: settled_def list_all_iff keeps_def)
qed (use assms in \<open>simp add: settled_def list_all_iff keeps_def\<close>)

lemma create_modes_rows:
  "create_modes draw n c threadID now modes (db, created, k) = Inr (db', created', k') \<Longrightarrow> list_all (has_row db' (nt_ID n) (ch_ID c)) modes"
proof (induction modes arbitrary: db created k)
  case (Cons m modes)
  then obtain db1 made where c: "createDelivery db (new_delivery (draw k) n c threadID m now) now = Inr (db1, made)"
      "create_modes draw n c threadID now modes (db1, if made then created + 1 else created, Suc k) = Inr (db', created', k')"
    by (auto simp: rbind_Inr_iff)
  have "keeps (db1, Suc k) (db', k')" by (rule keeps.create_modes_rel [OF TrueI c(2)])
  moreover have "has_row db1 (nt_ID n) (ch_ID c) m" using createDelivery_keeps(2) [OF c(1)] by (simp add: new_delivery_def)
  ultimately show ?case using Cons.IH [OF c(2)] by (simp add: keeps_def)
qed simp

lemma find_thread_Ensure: "Ensure db i c kind u = (db', th) \<Longrightarrow> find_thread db' c kind u = Some th"
  by (auto simp: Ensure_def find_thread_def find_app Let_def split: option.splits)

lemma fan_one_settles:
  assumes "fan_one draw n now d (db, created, k) = Inr (db', created', k')"
  shows "settled db' n d"
proof (cases "needsThread (ds_channel d)")
  case True
  obtain kind u where s: "threadSubjectOf n = (kind, u)" by (cases "threadSubjectOf n")
  obtain db1 th where e: "Ensure db (draw k) (ch_ID (ds_channel d)) kind u = (db1, th)" by (metis surj_pair)
  have c: "create_modes draw n (ds_channel d) (Some (th_ID th)) now (modesFor n d (RootLanded th)) (db1, created, Suc k) = Inr (db', created', k')"
    using assms True s e by (simp add: fan_one_def)
  have "keeps (db1, Suc k) (db', k')" by (rule keeps.create_modes_rel [OF TrueI c])
  then obtain t where "find_thread db' (ch_ID (ds_channel d)) kind u = Some t" "RootLanded t = RootLanded th"
    using find_thread_Ensure [OF e] unfolding keeps_def fst_conv by blast
  then show ?thesis using True create_modes_rows [OF c] by (simp add: settled_def s)
next
  case False
  then show ?thesis using assms create_modes_rows by (auto simp: fan_one_def settled_def)
qed

lemma fanOut_settles:
  "fanOut draw n now ds (db, created, k) = Inr (db', created', k') \<Longrightarrow> list_all (settled db' n) ds"
proof (induction ds arbitrary: db created k)
  case (Cons d ds)
  then obtain db1 created1 k1 where f: "fan_one draw n now d (db, created, k) = Inr (db1, created1, k1)"
      "fanOut draw n now ds (db1, created1, k1) = Inr (db', created', k')"
    by (auto simp: rbind_Inr_iff)
  show ?case
    using Cons.IH [OF f(2)] settled_keeps [OF keeps.fanOut_rel [OF TrueI f(2)] fan_one_settles [OF f(1)]] by simp
qed simp

lemma create_modes_quiet:
  "list_all (has_row db (nt_ID n) (ch_ID c)) modes \<Longrightarrow> \<exists>k'. create_modes draw n c threadID now modes (db, created, k) = Inr (db, created, k')"
proof (induction modes arbitrary: k)
  case (Cons m modes)
  have "createDelivery db (new_delivery (draw k) n c threadID m now) now = Inr (db, False)"
    using Cons.prems by (auto simp: createDelivery_def Delivery_Create_def new_delivery_def has_row_def split: option.split)
  then show ?case using Cons by simp
qed simp

lemma fan_one_quiet:
  assumes "settled db n d"
  shows "\<exists>k'. fan_one draw n now d (db, created, k) = Inr (db, created, k')"
proof (cases "needsThread (ds_channel d)")
  case True
  obtain kind u where s: "threadSubjectOf n = (kind, u)" by (cases "threadSubjectOf n")
  obtain t where t: "find_thread db (ch_ID (ds_channel d)) kind u = Some t"
      "list_all (has_row db (nt_ID n) (ch_ID (ds_channel d))) (modesFor n d (RootLanded t))"
    using assms True by (auto simp: settled_def s)
  have "Ensure db (draw k) (ch_ID (ds_channel d)) kind u = (db, t)" using t(1) by (simp add: Ensure_def find_thread_def)
  then show ?thesis using True s create_modes_quiet [OF t(2)] by (simp add: fan_one_def)
qed (use assms create_modes_quiet in \<open>simp add: fan_one_def settled_def\<close>)

lemma fanOut_quiet: "list_all (settled db n) ds \<Longrightarrow> \<exists>k'. fanOut draw n now ds (db, created, k) = Inr (db, created, k')"
proof (induction ds arbitrary: k)
  case (Cons d ds)
  obtain k1 where "fan_one draw n now d (db, created, k) = Inr (db, created, k1)" using fan_one_quiet [of db n d draw now created k] Cons.prems by auto
  then show ?case using Cons by simp
qed simp

lemma modesFor_status [simp]: "modesFor (n\<lparr>nt_Status := x\<rparr>) = modesFor n"
  by (intro ext) (simp add: modesFor_def Notification_Digest_def Notification_Incident_def InIncidentConversation_def incidentModes_def IncidentPointer_def)

lemma fanOut_status [simp]: "fanOut draw (n\<lparr>nt_Status := x\<rparr>) now ds st = fanOut draw n now ds st"
proof -
  have "create_modes draw (n\<lparr>nt_Status := x\<rparr>) c t now ms st = create_modes draw n c t now ms st" for c t ms st
    by (induction draw n c t now ms st rule: create_modes.induct) (simp_all add: new_delivery_def split: prod.split)
  then have "fan_one draw (n\<lparr>nt_Status := x\<rparr>) now d st = fan_one draw n now d st" for d st
    by (cases st) (simp add: fan_one_def threadSubjectOf_def split: prod.split)
  then have "fan_one draw (n\<lparr>nt_Status := x\<rparr>) now = fan_one draw n now" by (intro ext)
  then show ?thesis by (induction ds arbitrary: st) (simp_all add: rbind_def split: sum.split)
qed


section \<open>Once is enough\<close>

lemma dispatch_cases:
  assumes "dispatch_notification W draw db k n dests now = Inr (res, db', k')"
  obtains (silent) stored where "Notification_Insert db n = Inr (stored, False, db)" "nt_Status stored = StatusSuppressed" "db' = db"
    "res = \<lparr>re_Notification = stored, re_Created = False, re_Deliveries = 0, re_Suppressed = nt_SuppressedReason stored\<rparr>"
  | (sent) stored created db1 db2 made db3 where "Notification_Insert db n = Inr (stored, created, db1)"
    "fanOut draw stored now dests (db1, 0, k) = Inr (db2, made, k')" "SetStatus db2 (nt_ID stored) StatusDispatched = Inr db3"
    "db' = (if created then AppendNotificationCreated (w_U W) db3 (stored\<lparr>nt_Status := StatusDispatched\<rparr>) else db3)"
    "res = \<lparr>re_Notification = stored\<lparr>nt_Status := StatusDispatched\<rparr>, re_Created = created, re_Deliveries = made, re_Suppressed = None\<rparr>"
proof -
  obtain stored created db1 where i: "Notification_Insert db n = Inr (stored, created, db1)"
    using assms by (auto simp: dispatch_notification_def rbind_Inr_iff)
  show ?thesis
  proof (cases "\<not> created \<and> nt_Status stored = StatusSuppressed")
    case True
    moreover have "db1 = db" using Insert_cases [OF i] True by metis
    ultimately show ?thesis using assms i by (intro silent) (auto simp: dispatch_notification_def)
  next
    case False
    then obtain db2 made db3 where "fanOut draw stored now dests (db1, 0, k) = Inr (db2, made, k')"
        "SetStatus db2 (nt_ID stored) StatusDispatched = Inr db3"
        "db' = (if created then AppendNotificationCreated (w_U W) db3 (stored\<lparr>nt_Status := StatusDispatched\<rparr>) else db3)"
        "res = \<lparr>re_Notification = stored\<lparr>nt_Status := StatusDispatched\<rparr>, re_Created = created, re_Deliveries = made, re_Suppressed = None\<rparr>"
      using assms by (auto simp: dispatch_notification_def i rbind_Inr_iff Let_def)
    with i show ?thesis by (rule sent)
  qed
qed

text \<open>The rest of \<open>evaluate\<close> once snapshot, place and policy are known.\<close>

definition decide :: "world \<Rightarrow> (nat \<Rightarrow> uuid) \<Rightarrow> DB \<Rightarrow> Intent \<Rightarrow> time \<Rightarrow> Snapshot \<Rightarrow> Match \<Rightarrow> Notification \<Rightarrow> (Result \<times> DB \<times> nat) result" where
  "decide W draw db i now snap m n =
     (case Winner (suppressors db i (nt_ConversationID n) snap m) of
        Some reason \<Rightarrow> spent 1 (record_suppressed W db n reason)
      | None \<Rightarrow>
          (case plan_destinations W (it_Reason i) snap m (orgDefaults W) of (dests, soft) \<Rightarrow>
             if length dests = 0
             then spent 1 (record_suppressed W db n (case Winner soft of Some r \<Rightarrow> r | None \<Rightarrow> SuppressedVerbosity))
             else dispatch_notification W draw db 1 n dests now))"

definition routed_by :: "Match \<Rightarrow> Notification \<Rightarrow> Notification" where
  "routed_by m n = (case ma_Policy m of Some p \<Rightarrow> n\<lparr>nt_PolicyID := Some (po_ID p)\<rparr> | None \<Rightarrow> n)"

lemma evaluate_decide:
  "evaluate W draw db i now = Inr r \<longleftrightarrow> (\<exists>snap n m. w_Snapshot W (it_CaseID i) (it_AlertID i) = Inr snap \<and>
     placeInIncident W (mint W i snap (draw 0) now) = Inr n \<and>
     Policies_Evaluate (w_RX W) db (w_Policies W) (it_Reason i) (matchLabels snap) = Inr m \<and>
     decide W draw db i now snap m (routed_by m n) = Inr r)"
  unfolding evaluate_def rbind_Inr_iff Let_def decide_def routed_by_def by blast

lemma decide_branch:
  obtains (silent) reason where "\<And>draw now n. nt_ConversationID n = conv \<Longrightarrow> decide W draw db i now snap m n = spent 1 (record_suppressed W db n reason)"
  | (loud) "\<And>draw now n. nt_ConversationID n = conv \<Longrightarrow> decide W draw db i now snap m n =
      dispatch_notification W draw db 1 n (fst (plan_destinations W (it_Reason i) snap m (orgDefaults W))) now"
proof (cases "Winner (suppressors db i conv snap m)")
  case None
  obtain dests soft where p: "plan_destinations W (it_Reason i) snap m (orgDefaults W) = (dests, soft)" by force
  show ?thesis
  proof (cases "length dests = 0")
    case True
    then show ?thesis using None p by (intro silent [of "case Winner soft of Some r \<Rightarrow> r | None \<Rightarrow> SuppressedVerbosity"]) (simp add: decide_def)
  next
    case False
    then show ?thesis using None p by (intro loud) (simp add: decide_def)
  qed
next
  case (Some reason)
  then show ?thesis by (intro silent [of reason]) (simp add: decide_def)
qed

text \<open>Minting again differs in the id and the clock only.\<close>

lemma mint_again: "mint W i snap fr' now' = (mint W i snap fr now)\<lparr>nt_ID := fr', nt_CreatedAt := now'\<rparr>"
  by (simp add: mint_def Let_def split: prod.split)

lemma place_again:
  "placeInIncident W (n\<lparr>nt_ID := fr, nt_CreatedAt := t\<rparr>) = rbind (placeInIncident W n) (\<lambda>n'. Inr (n'\<lparr>nt_ID := fr, nt_CreatedAt := t\<rparr>))"
  by (simp add: placeInIncident_def rbind_def split: option.split sum.split)

lemma routed_again: "routed_by m (n\<lparr>nt_ID := fr, nt_CreatedAt := t\<rparr>) = (routed_by m n)\<lparr>nt_ID := fr, nt_CreatedAt := t\<rparr>"
  by (simp add: routed_by_def split: option.split)

lemma Policies_again: "db_channels db' = db_channels db \<Longrightarrow> Policies_Evaluate RX db' ps r labels = Policies_Evaluate RX db ps r labels"
proof -
  assume "db_channels db' = db_channels db"
  then have "ListByIDs db' = ListByIDs db" by (intro ext) (simp add: ListByIDs_def)
  then show ?thesis by (simp add: Policies_Evaluate_def evaluate_loop_find split: option.split)
qed

lemma Insert_again:
  assumes "GetByIdempotencyKey db (nt_IdempotencyKey n) = Some stored" "nt_ID n \<noteq> 0"
  shows "Notification_Insert db n = Inr (stored, False, db)"
  using assms by (simp add: Notification_Insert_def)

lemma record_again:
  assumes "GetByIdempotencyKey db (nt_IdempotencyKey n) = Some stored" "nt_ID n \<noteq> 0"
  shows "record_suppressed W db n reason =
    Inr (\<lparr>re_Notification = stored, re_Created = False, re_Deliveries = 0, re_Suppressed = nt_SuppressedReason stored\<rparr>, db)"
  using Insert_again [of db "n\<lparr>nt_Status := StatusSuppressed, nt_SuppressedReason := Some reason\<rparr>"] assms
  by (simp add: record_suppressed_def)

text \<open>The tables after a run hold everything the same intent would write again.\<close>

definition quiet :: "DB \<Rightarrow> string \<Rightarrow> destination list \<Rightarrow> bool" where
  "quiet db key dests \<longleftrightarrow> (\<exists>n. GetByIdempotencyKey db key = Some n \<and> (nt_Status n = StatusSuppressed \<or>
     list_all (settled db n) dests \<and> SetStatus db (nt_ID n) StatusDispatched = Inr db))"

lemma dispatch_again:
  assumes "quiet db (nt_IdempotencyKey n) dests" "nt_ID n \<noteq> 0"
  shows "\<exists>res k'. dispatch_notification W draw db k n dests now = Inr (res, db, k') \<and> \<not> re_Created res \<and> re_Deliveries res = 0"
proof -
  obtain stored where s: "GetByIdempotencyKey db (nt_IdempotencyKey n) = Some stored"
      "nt_Status stored = StatusSuppressed \<or> list_all (settled db stored) dests \<and> SetStatus db (nt_ID stored) StatusDispatched = Inr db"
    using assms(1) unfolding quiet_def by blast
  note i = Insert_again [OF s(1) assms(2)]
  show ?thesis
  proof (cases "nt_Status stored = StatusSuppressed")
    case True
    then show ?thesis by (simp add: dispatch_notification_def i)
  next
    case False
    then obtain k' where "fanOut draw stored now dests (db, 0, k) = Inr (db, 0, k')" using s(2) fanOut_quiet by blast
    then show ?thesis using False s(2) by (simp add: dispatch_notification_def i Let_def)
  qed
qed

lemma SetStatus_twice:
  assumes "SetStatus db i StatusDispatched = Inr db'" "db_notifications db'' = db_notifications db'"
  shows "SetStatus db'' i StatusDispatched = Inr db''"
proof -
  have "update_where (\<lambda>n. nt_ID n = i \<and> nt_Status n \<noteq> StatusDispatched) f
      (update_where (\<lambda>n. nt_ID n = i \<and> nt_Status n \<noteq> StatusDispatched) (\<lambda>n. n\<lparr>nt_Status := StatusDispatched\<rparr>) rows) =
      update_where (\<lambda>n. nt_ID n = i \<and> nt_Status n \<noteq> StatusDispatched) (\<lambda>n. n\<lparr>nt_Status := StatusDispatched\<rparr>) rows" for f rows
    by (simp add: update_where_def)
  then have "update_where (\<lambda>n. nt_ID n = i \<and> nt_Status n \<noteq> StatusDispatched) (\<lambda>n. n\<lparr>nt_Status := StatusDispatched\<rparr>) (db_notifications db'') =
      db_notifications db''" using assms(1) unfolding assms(2) by (auto simp: SetStatus_def)
  then show ?thesis by (simp add: SetStatus_def)
qed

lemma settled_status [simp]: "settled db (n\<lparr>nt_Status := x\<rparr>) d = settled db n d"
  by (simp add: settled_def threadSubjectOf_def)

lemma settled_tables: "db_threads db' = db_threads db \<Longrightarrow> db_deliveries db' = db_deliveries db \<Longrightarrow> settled db' n d = settled db n d"
proof -
  assume "db_threads db' = db_threads db" "db_deliveries db' = db_deliveries db"
  then have "find_thread db' = find_thread db" "has_row db' = has_row db" by (intro ext; simp add: find_thread_def has_row_def)+
  then show ?thesis by (simp add: settled_def)
qed

lemma dispatch_quiet:
  assumes "dispatch_notification W draw db k n dests now = Inr (res, db', k')"
  shows "quiet db' (nt_IdempotencyKey n) dests" "db_channels db' = db_channels db"
proof -
  have "quiet db' (nt_IdempotencyKey n) dests \<and> db_channels db' = db_channels db"
  proof (rule dispatch_cases [OF assms])
    fix stored assume "Notification_Insert db n = Inr (stored, False, db)" "nt_Status stored = StatusSuppressed" "db' = db"
    then show ?thesis using Insert_lookup(1) [of db n stored False db] by (auto simp: quiet_def)
  next
    fix stored created db1 db2 made db3
    assume i: "Notification_Insert db n = Inr (stored, created, db1)" and f: "fanOut draw stored now dests (db1, 0, k) = Inr (db2, made, k')"
      and s: "SetStatus db2 (nt_ID stored) StatusDispatched = Inr db3"
      and db': "db' = (if created then AppendNotificationCreated (w_U W) db3 (stored\<lparr>nt_Status := StatusDispatched\<rparr>) else db3)"
    have k: "db_notifications db2 = db_notifications db1" "db_channels db2 = db_channels db1"
      using keeps.fanOut_rel [OF TrueI f] by (simp_all add: keeps_def)
    have "GetByIdempotencyKey db2 (nt_IdempotencyKey n) = Some stored" using Insert_lookup(1) [OF i] k(1) by (simp add: GetByIdempotencyKey_def)
    note S = SetStatus_lookup [OF s this]
    have t: "db_threads db' = db_threads db2" "db_deliveries db' = db_deliveries db2" "db_channels db' = db_channels db2"
        "db_notifications db' = db_notifications db3" using S(3-6) by (simp_all add: db')
    have "GetByIdempotencyKey db' (nt_IdempotencyKey n) = Some (stored\<lparr>nt_Status := StatusDispatched\<rparr>)"
      using S(1) t(4) by (simp add: GetByIdempotencyKey_def)
    moreover have "list_all (settled db' (stored\<lparr>nt_Status := StatusDispatched\<rparr>)) dests"
      using fanOut_settles [OF f] settled_tables [OF t(1,2)] by (simp add: list_all_iff)
    moreover have "SetStatus db' (nt_ID stored) StatusDispatched = Inr db'" by (rule SetStatus_twice [OF s t(4)])
    ultimately have "quiet db' (nt_IdempotencyKey n) dests" by (simp add: quiet_def)
    then show ?thesis using t(3) k(2) Insert_lookup(8) [OF i] by simp
  qed
  then show "quiet db' (nt_IdempotencyKey n) dests" "db_channels db' = db_channels db" by simp_all
qed


lemma decide_again:
  assumes "decide W draw db i now snap m n = Inr (res, db', k)" "fr \<noteq> 0"
    and n'_def: "n' = n\<lparr>nt_ID := fr, nt_CreatedAt := t\<rparr>"
  shows "db_channels db' = db_channels db \<and> (\<exists>res' k'. decide W draw' db' i now' snap m n' = Inr (res', db', k') \<and>
    \<not> re_Created res' \<and> re_Deliveries res' = 0)"
proof -
  let ?dests = "fst (plan_destinations W (it_Reason i) snap m (orgDefaults W))"
  have n': "nt_ID n' \<noteq> 0" "nt_IdempotencyKey n' = nt_IdempotencyKey n" "nt_ConversationID n' = nt_ConversationID n"
    using assms(2) by (simp_all add: n'_def)
  have after: "db_channels db' = db_channels db \<and> (\<exists>stored. GetByIdempotencyKey db' (nt_IdempotencyKey n) = Some stored) \<and>
      (quiet db' (nt_IdempotencyKey n) ?dests \<or> db' = db \<and> (\<exists>reason. \<forall>draw now x. nt_ConversationID x = nt_ConversationID n \<longrightarrow>
         decide W draw db i now snap m x = spent 1 (record_suppressed W db x reason)))"
  proof (rule decide_branch [of "nt_ConversationID n" W db i snap m])
    fix reason assume b: "\<And>draw now x. nt_ConversationID x = nt_ConversationID n \<Longrightarrow> decide W draw db i now snap m x = spent 1 (record_suppressed W db x reason)"
    have r: "record_suppressed W db n reason = Inr (res, db')" using assms(1) b [of n] spent_cases(1) by simp
    note R = record_suppressed_lookup [OF r]
    show ?thesis
    proof (cases "re_Created res")
      case True
      then have "nt_Status (re_Notification res) = StatusSuppressed" using R(6) by simp
      then show ?thesis using R(1,12) by (auto simp: quiet_def)
    qed (use R(1,7,12) b in auto)
  next
    assume "\<And>draw now x. nt_ConversationID x = nt_ConversationID n \<Longrightarrow> decide W draw db i now snap m x = dispatch_notification W draw db 1 x ?dests now"
    then have "dispatch_notification W draw db 1 n ?dests now = Inr (res, db', k)" using assms(1) by simp
    from dispatch_quiet [OF this] show ?thesis by (auto simp: quiet_def)
  qed
  then obtain stored where s: "GetByIdempotencyKey db' (nt_IdempotencyKey n') = Some stored" using n'(2) by auto
  have silent: "\<exists>res' k'. spent 1 (record_suppressed W db' n' reason) = Inr (res', db', k') \<and> \<not> re_Created res' \<and> re_Deliveries res' = 0" for reason
    using record_again [OF s n'(1)] by (simp add: spent_def)
  have "\<exists>res' k'. decide W draw' db' i now' snap m n' = Inr (res', db', k') \<and> \<not> re_Created res' \<and> re_Deliveries res' = 0"
  proof (cases "quiet db' (nt_IdempotencyKey n) ?dests")
    case True
    show ?thesis
      by (rule decide_branch [of "nt_ConversationID n'" W db' i snap m])
        (use silent dispatch_again [of db' n' ?dests W draw' 1 now'] True n' in auto)
  next
    case False
    then obtain reason where "decide W draw' db' i now' snap m n' = spent 1 (record_suppressed W db' n' reason)" using after n'(3) by blast
    then show ?thesis using silent by simp
  qed
  then show ?thesis using after by simp
qed



text \<open>
  C37. Nothing is decided without a record and nothing is created without a job. An evaluated intent leaves one notification under
  its idempotency key, the one the result names: a new row exactly when there was none. The deliveries it adds all belong to
  that notification, are pending, are as many as the result says, and the same transaction queues one job for each,
  in the same order, and no other. A suppressed notification adds none; a new one is either suppressed with the reason the
  result gives or dispatched.
\<close>

theorem evaluated_intent_is_recorded:
  assumes "Evaluate W draw db i now = Inr (res, db', k)" "new_ids draw 0 k db"
  defines "n \<equiv> re_Notification res"
  shows "(\<exists>new. db_deliveries db' = db_deliveries db @ new \<and> db_jobs db' = db_jobs db @ map dl_ID new \<and>
      re_Deliveries res = int (length new) \<and> list_all (\<lambda>d. dl_NotificationID d = nt_ID n \<and> dl_Status d = DeliveryPending) new) \<and>
    GetByIdempotencyKey db' (nt_IdempotencyKey n) = Some n \<and>
    (re_Created res \<longleftrightarrow> GetByIdempotencyKey db (nt_IdempotencyKey n) = None) \<and>
    length (db_notifications db') = length (db_notifications db) + (if re_Created res then 1 else 0) \<and>
    (re_Suppressed res \<noteq> None \<longrightarrow> re_Deliveries res = 0) \<and>
    (re_Created res \<longrightarrow> (case re_Suppressed res of None \<Rightarrow> nt_Status n = StatusDispatched
       | Some r \<Rightarrow> nt_Status n = StatusSuppressed \<and> nt_SuppressedReason n = Some r))"
proof (rule evaluate_cases [OF Evaluate_evaluate [OF assms(1)]])
  fix x reason assume "record_suppressed W db x reason = Inr (res, db')"
  note R = record_suppressed_lookup [OF this]
  show ?thesis
    unfolding n_def using R(1-6,8) by (intro conjI exI [of _ "[]"]) (simp_all add: R(9,10))
next
  fix x dests assume d: "dispatch_notification W draw db 1 x dests now = Inr (res, db', k)"
  show ?thesis
  proof (rule dispatch_cases [OF d])
    fix stored assume i: "Notification_Insert db x = Inr (stored, False, db)" and r: "db' = db"
        "res = \<lparr>re_Notification = stored, re_Created = False, re_Deliveries = 0, re_Suppressed = nt_SuppressedReason stored\<rparr>"
    show ?thesis
      unfolding n_def using Insert_lookup(1-4) [OF i] by (intro conjI exI [of _ "[]"]) (simp_all add: r)
  next
    fix stored created db1 db2 made db3
    assume i: "Notification_Insert db x = Inr (stored, created, db1)" and f: "fanOut draw stored now dests (db1, 0, 1) = Inr (db2, made, k)"
      and s: "SetStatus db2 (nt_ID stored) StatusDispatched = Inr db3"
      and db': "db' = (if created then AppendNotificationCreated (w_U W) db3 (stored\<lparr>nt_Status := StatusDispatched\<rparr>) else db3)"
      and r: "res = \<lparr>re_Notification = stored\<lparr>nt_Status := StatusDispatched\<rparr>, re_Created = created, re_Deliveries = made, re_Suppressed = None\<rparr>"
    note I = Insert_lookup [OF i]
    have k: "db_notifications db2 = db_notifications db1" using keeps.fanOut_rel [OF TrueI f] by (simp add: keeps_def)
    then have "GetByIdempotencyKey db2 (nt_IdempotencyKey x) = Some stored" using I(1) by (simp add: GetByIdempotencyKey_def)
    note S = SetStatus_lookup [OF s this]
    have "new_ids draw 1 k db1" using new_ids_spend [OF assms(2)] I(5,7) by (simp add: new_ids_def)
    then have "queued (nt_ID stored) db1 db2" using outbox.fanOut_rel [OF HOL.refl f] by (auto simp: outbox_def)
    then obtain new where new: "db_deliveries db2 = db_deliveries db1 @ new" "db_jobs db2 = db_jobs db1 @ map dl_ID new"
        "list_all (\<lambda>d. dl_NotificationID d = nt_ID stored \<and> dl_Status d = DeliveryPending) new"
      unfolding queued_def by blast
    have "GetByIdempotencyKey db' (nt_IdempotencyKey x) = Some (stored\<lparr>nt_Status := StatusDispatched\<rparr>)"
      using S(1) by (simp add: GetByIdempotencyKey_def db')
    moreover have "db_deliveries db' = db_deliveries db @ new" "db_jobs db' = db_jobs db @ map dl_ID new"
        "length (db_notifications db') = length (db_notifications db) + (if created then 1 else 0)"
      using new(1,2) I(4-6) S(2-4) k by (simp_all add: db')
    moreover have "made = int (length new)" using fanOut_length [OF f] new(1) by simp
    ultimately show ?thesis
      unfolding n_def using I(2,3) new(3) by (intro conjI exI [of _ new]) (simp_all add: r)
  qed
qed



section \<open>An organisation with one policy and one channel\<close>

text \<open>Ids from \<open>base\<close> up: the supply of the examples.\<close>

definition ex_draw :: "uuid \<Rightarrow> nat \<Rightarrow> uuid" where
  "ex_draw base k = base + of_nat k"

definition ex_snapshot :: Snapshot where
  "ex_snapshot = \<lparr>sn_StateVersion = 3, sn_GroupLabels = [(''team'', ''db'')], sn_Alerts = [], sn_Focus = None, sn_SnoozedAlerts = [],
     sn_MemberCount = 1, sn_SnoozedMemberCount = 0, sn_TakenAt = 1000\<rparr>"

definition ex_world :: world where
  "ex_world = \<lparr>w_U = canonical_lib, w_H = (\<lambda>s. s), w_RX = ex_regex, w_Org = 1, w_Policies = [ex_policy], w_Snapshot = (\<lambda>_ _. Inr ex_snapshot),
     w_Conversation = None, w_Settings = None, w_Incident = None\<rparr>"

definition ex_channel :: Channel where
  "ex_channel = \<lparr>ch_ID = 60, ch_Capabilities = 0, ch_Enabled = True, ch_DeletedAt = None, ch_HealthStatus = HealthHealthy, ch_Mapped = False,
     ch_Verbosity = VerbosityAll, ch_ThreadUpdates = True\<rparr>"

definition ex_tables :: DB where
  "ex_tables = \<lparr>db_threads = [], db_deliveries = [], db_notifications = [], db_channels = [ex_channel], db_events = [], db_jobs = [],
     db_incidents = [], db_receipts = []\<rparr>"

definition ex_intent :: Intent where
  "ex_intent = \<lparr>it_CaseID = 8, it_Reason = ReasonFired, it_StateVersion = 3, it_AlertID = None, it_OccasionID = 0\<rparr>"

definition ex_match :: Match where
  "ex_match = \<lparr>ma_Policy = Some ex_policy, ma_Channels = [ex_channel], ma_Live = [ex_channel]\<rparr>"

definition ex_dest :: destination where
  "ex_dest = \<lparr>ds_channel = ex_channel, ds_plan = \<lparr>p_Modes = [ModePostRoot], p_ReplyDropped = False, p_ReplyDropReason = []\<rparr>,
     ds_input = planInput ReasonFired ex_channel VerbosityStatusChanges False False\<rparr>"

lemma ex_routes: "Policies_Evaluate (w_RX ex_world) ex_tables (w_Policies ex_world) ReasonFired (matchLabels ex_snapshot) = Inr ex_match"
  by code_simp

lemma ex_plans: "plan_destinations ex_world ReasonFired ex_snapshot ex_match (orgDefaults ex_world) = ([ex_dest], [])"
  by code_simp

lemma ex_wanted: "suppressors ex_tables ex_intent 8 ex_snapshot ex_match = []"
  by code_simp

lemma ex_modes: "nt_SubjectKind n = SubjectCase \<Longrightarrow> nt_ConversationKind n = ConversationCase \<Longrightarrow> modesFor n ex_dest False = [ModePostRoot]"
  by (simp add: modesFor_def Notification_Digest_def Notification_Incident_def InIncidentConversation_def ex_dest_def planInput_def ex_channel_def
    PlanFor_def Let_def Reason_Valid_def reasonSubjects_def plan_root_def rootModeFor_def hasReply_def Plan_Empty_def)

definition ex_note :: Notification where
  "ex_note = routed_by ex_match (mint ex_world ex_intent ex_snapshot 100 1000)"

lemma ex_note_simps [simp]:
  "nt_ID ex_note = 100" "nt_SubjectKind ex_note = SubjectCase" "nt_ConversationKind ex_note = ConversationCase" "nt_ConversationID ex_note = 8"
  "nt_Status ex_note = StatusPending" "nt_CaseID ex_note = Some 8" "nt_CreatedAt ex_note = 1000"
  by (simp_all add: ex_note_def routed_by_def ex_match_def mint_def subjectOf_def ex_intent_def Let_def)

lemma ex_place: "placeInIncident ex_world n = Inr n"
  by (simp add: placeInIncident_def ex_world_def)

lemma ex_mint: "routed_by ex_match (mint ex_world ex_intent ex_snapshot fr t) = ex_note\<lparr>nt_ID := fr, nt_CreatedAt := t\<rparr>"
  unfolding ex_note_def by (subst mint_again [where fr = 100 and now = 1000]) (rule routed_again)

text \<open>An evaluation in this organisation, when nothing suppresses it.\<close>

lemma ex_evaluate:
  assumes "db_channels db = [ex_channel]" "suppressors db ex_intent 8 ex_snapshot ex_match = []"
  shows "Evaluate ex_world draw db ex_intent now =
    dispatch_notification ex_world draw db 1 (ex_note\<lparr>nt_ID := draw 0, nt_CreatedAt := now\<rparr>) [ex_dest] now"
proof -
  have "Policies_Evaluate (w_RX ex_world) db (w_Policies ex_world) ReasonFired (matchLabels ex_snapshot) = Inr ex_match"
    using ex_routes Policies_again [of db ex_tables] assms(1) by (simp add: ex_tables_def)
  moreover have "it_Reason ex_intent = ReasonFired" "it_CaseID ex_intent = 8" "it_AlertID ex_intent = None" by (simp_all add: ex_intent_def)
  moreover have "w_Snapshot ex_world c a = Inr ex_snapshot" for c a by (simp add: ex_world_def)
  ultimately show ?thesis
    using ex_mint [of "draw 0" now] assms(2) ex_plans
    by (simp add: Evaluate_def evaluate_def ex_place routed_by_def ex_match_def [THEN arg_cong, of ma_Policy] Reason_Valid_iff allReasons_def AlertScoped_def
        Winner_def suppressorOrder_def Let_def)
qed

lemma ex_dest_bare: "needsThread (ds_channel ex_dest) = False" "ch_ID (ds_channel ex_dest) = 60"
  by (simp_all add: needsThread_def Has_def CapThreading_def CapAmend_def ex_dest_def ex_channel_def)

lemma ex_first:
  "\<exists>res db'. Evaluate ex_world (ex_draw 100) ex_tables ex_intent 1000 = Inr (res, db', 2) \<and> re_Created res \<and> re_Deliveries res = 1"
proof -
  have e: "Evaluate ex_world (ex_draw 100) ex_tables ex_intent 1000 = dispatch_notification ex_world (ex_draw 100) ex_tables 1 ex_note [ex_dest] 1000"
    using ex_evaluate [of ex_tables "ex_draw 100" 1000] ex_mint [of 100 1000, folded ex_note_def, symmetric]
    by (simp add: ex_tables_def [THEN arg_cong, of db_channels] ex_wanted ex_draw_def)
  show ?thesis unfolding e
    by (simp add: dispatch_notification_def Notification_Insert_def GetByIdempotencyKey_def ex_tables_def fan_one_def ex_dest_bare ex_modes
        createDelivery_def Delivery_Create_def Let_def SetStatus_def new_delivery_def)
qed

lemma ex_draw_ids:
  assumes "db_threads db = []" "\<And>d. d \<in> set (db_deliveries db) \<Longrightarrow> dl_ID d < 100"
  shows "new_ids (ex_draw 100) 0 2 db"
proof -
  have two: "{0..<2} = {0, 1 :: nat}" by auto
  have "(100 :: uuid) \<noteq> 101" "(100 :: uuid) \<noteq> 0" "(101 :: uuid) \<noteq> 0" "\<not> (101 :: uuid) < 100" by simp_all
  moreover have "100 \<notin> set (map dl_ID (db_deliveries db))" "101 \<notin> set (map dl_ID (db_deliveries db))"
    using assms(2) by (fastforce, fastforce)
  ultimately show ?thesis using assms(1) unfolding new_ids_def two by (simp add: ex_draw_def)
qed

lemma ex_tables_ok: "sys_ok (boot ex_tables)"
  by (rule boot_ok) (simp add: db_ok_def tables_ok_def ex_tables_def)

theorem notifier_is_a_run_witness:
  "\<exists>res db'. Evaluate ex_world (ex_draw 100) ex_tables ex_intent 1000 = Inr (res, db', 2) \<and> re_Deliveries res = 1 \<and>
     (dispatch_step ex_ext)\<^sup>*\<^sup>* (boot ex_tables) ((boot ex_tables)\<lparr>sy_db := db'\<rparr>) \<and> sys_ok ((boot ex_tables)\<lparr>sy_db := db'\<rparr>)"
proof -
  obtain res db' where r: "Evaluate ex_world (ex_draw 100) (sy_db (boot ex_tables)) ex_intent 1000 = Inr (res, db', 2)" "re_Deliveries res = 1"
    using ex_first by (auto simp: boot_def)
  have "new_ids (ex_draw 100) 0 2 (sy_db (boot ex_tables))" by (rule ex_draw_ids) (simp_all add: boot_def ex_tables_def)
  from notifier_is_a_run [OF disjI1 [OF r(1)] this, of ex_ext] ex_tables_ok show ?thesis using r by (auto simp: boot_def)
qed


theorem evaluated_intent_is_recorded_witness:
  "\<exists>res db' new. Evaluate ex_world (ex_draw 100) ex_tables ex_intent 1000 = Inr (res, db', 2) \<and> db_deliveries db' = new \<and> length new = 1 \<and>
     db_jobs db' = map dl_ID new \<and> GetByIdempotencyKey db' (nt_IdempotencyKey (re_Notification res)) = Some (re_Notification res)"
proof -
  obtain res db' where r: "Evaluate ex_world (ex_draw 100) ex_tables ex_intent 1000 = Inr (res, db', 2)" "re_Created res" "re_Deliveries res = 1"
    using ex_first by blast
  have "new_ids (ex_draw 100) 0 2 ex_tables" by (rule ex_draw_ids) (simp_all add: ex_tables_def)
  from evaluated_intent_is_recorded [OF r(1) this] show ?thesis
    using r by (auto simp: ex_tables_def [THEN arg_cong, of db_deliveries] ex_tables_def [THEN arg_cong, of db_jobs])
qed

text \<open>The same organisation after the message was sent and the notification settled.\<close>

definition ex_sent :: Delivery where
  "ex_sent = \<lparr>dl_ID = 51, dl_NotificationID = 50, dl_ChannelID = 60, dl_ThreadID = None, dl_ThreadSeq = None, dl_Mode = ModePostRoot,
     dl_Status = DeliverySent, dl_Attempts = 1, dl_NextAttemptAt = None, dl_RenderedHash = Some ''h'', dl_ProviderMessageID = Some ''m'',
     dl_ProviderConversationID = None, dl_ErrorClass = None, dl_Ambiguous = False, dl_SentAt = Some 1001, dl_CreatedAt = 1000, dl_UpdatedAt = 1001\<rparr>"

definition ex_delivered :: DB where
  "ex_delivered = ex_tables\<lparr>db_deliveries := [ex_sent], db_notifications := [ex_note\<lparr>nt_ID := 50, nt_Status := StatusDelivered\<rparr>]\<rparr>"

lemma ex_delivered_wanted: "suppressors ex_delivered ex_intent 8 ex_snapshot ex_match = []"
  by (simp add: suppressors_def Let_def AddIf_def Routed_def Deliverable_def ex_match_def gate_snooze_def ex_snapshot_def AllMembersSnoozed_def
      gate_throttle_def gate_count_def ex_policy_def CountRecent_def ex_delivered_def ex_tables_def Count_Enabled_def ex_intent_def)


end
