(* ===== verification/Case_Store.thy ===== *)
theory Case_Store
  imports Alert_Model Lifecycle
begin

text \<open>
  The tables of the alerts module and the statements of its repositories
  (\<^verbatim>\<open>internal/alerts/repository/alert.go\<close>, \<^verbatim>\<open>case.go\<close>, \<^verbatim>\<open>event.go\<close>), for the rows of one tenant.

  A row of \<^verbatim>\<open>alerts\<close> or \<^verbatim>\<open>alert_cases\<close> is the record of the domain with the row's columns: a \<^verbatim>\<open>NULL\<close> column is
  the zero value \<^verbatim>\<open>toDomain\<close> reads it as. The columns that copy a label (\<^verbatim>\<open>alertname\<close>, \<^verbatim>\<open>severity\<close>,
  \<^verbatim>\<open>namespace\<close>, \<^verbatim>\<open>service\<close>) and the time stamps of the row itself are not kept. The tables carry no
  constraint of the schema but the arbiter of an \<^verbatim>\<open>ON CONFLICT\<close>: that the writes produce no row a
  \<^verbatim>\<open>CHECK\<close> or a unique index would refuse is a theorem (\<open>Observe_Correct\<close>), not an assumption.
  Failures of the database itself roll the transaction back and are not modelled.
\<close>

section \<open>The tables\<close>

datatype Job =
    NotifyEvaluate (job_CaseID: uuid) (job_Reason: string) (job_StateVersion: int) (job_OccasionID: uuid)
      (job_AlertID: "uuid option") (job_Actor: string) (job_ScheduledAt: "time option")
  | EnrichRun uuid string

text \<open>A change notice of the stream: its kind, the resource and the payload.\<close>

type_synonym StreamFrame = "string \<times> uuid \<times> payload"

text \<open>
  The columns of \<^verbatim>\<open>alert_sources\<close> the expiry of a case reads, and whether \<^verbatim>\<open>source_health\<close> holds a row that calls the
  source healthy.
\<close>

record SourceRow =
  so_ID :: uuid
  so_ClusterID :: uuid
  so_DeletedAt :: "time option"
  so_MaxSilenceS :: "int option"
  so_Healthy :: bool

record Store =
  st_sources :: "SourceRow list"
  st_alerts :: "Alert list"
  st_labels :: "(uuid \<times> string \<times> string) list"
  st_labelNames :: "(string \<times> int) list"
  st_cases :: "Case list"
  st_nextNumber :: "int option"
  st_eventKeys :: "string list"
  st_events :: "Event list"
  st_frames :: "StreamFrame list"
  st_jobs :: "Job list"
  st_opened :: "uuid list"
  st_ended :: "uuid list"

definition as_internal :: "string \<Rightarrow> 'a result \<Rightarrow> 'a result" where
  "as_internal code r = (case r of Inl _ \<Rightarrow> Inl (errs_New KindInternal code) | Inr x \<Rightarrow> Inr x)"

lemma as_internal_Inr_iff [simp]: "as_internal code r = Inr x \<longleftrightarrow> r = Inr x"
  by (simp add: as_internal_def split: sum.split)

text \<open>\<^verbatim>\<open>GREATEST\<close> ignores \<^verbatim>\<open>NULL\<close>, \<^verbatim>\<open>COALESCE\<close> takes the first that is not; 0 is the \<^verbatim>\<open>NULL\<close> of a time.\<close>

definition greatest :: "time \<Rightarrow> time \<Rightarrow> time" where
  "greatest a b = (if IsZero a then b else if IsZero b then a else max a b)"

definition coalesce :: "time \<Rightarrow> time \<Rightarrow> time" where
  "coalesce a b = (if IsZero a then b else a)"

definition coalesce_opt :: "'a option \<Rightarrow> 'a option \<Rightarrow> 'a option" where
  "coalesce_opt a b = (case a of Some v \<Rightarrow> Some v | None \<Rightarrow> b)"

text \<open>\<^verbatim>\<open>time.Duration(ms) * time.Millisecond\<close>, an int64 product.\<close>

definition ms_duration :: "int \<Rightarrow> duration" where
  "ms_duration ms = sint (word_of_int (ms * Millisecond) :: 64 word)"

definition RequireID :: "string \<Rightarrow> uuid \<Rightarrow> error option" where
  "RequireID field i = (if i = uuid_Nil then Some (errs_New KindInternal (''missing_'' @ field)) else None)"

lemma RequireID_None_iff [simp]: "RequireID f i = None \<longleftrightarrow> i \<noteq> 0"
  by (simp add: RequireID_def)

section \<open>The alerts table\<close>

definition alert_toDomain :: "Alert \<Rightarrow> Alert result" where
  "alert_toDomain r =
     rbind (as_internal ''alert_labels_invalid'' (NewLabelSet (al_labels r))) (\<lambda>ls.
     rbind (as_internal ''alert_annotations_invalid'' (NewAnnotations (al_annotations r))) (\<lambda>ann.
     rbind (as_internal ''alert_key_invalid'' (NewAlertKey (al_key r))) (\<lambda>key.
     rbind (as_internal ''alert_fingerprint_invalid'' (NewSourceFingerprint (al_fingerprint r))) (\<lambda>fp.
     rbind (as_internal ''alert_cluster_key_invalid'' (NewClusterKey (al_clusterKey r))) (\<lambda>ck.
       as_internal ''alert_row_invalid''
         (NewAlert (r\<lparr>al_key := key, al_fingerprint := fp, al_clusterKey := ck, al_labels := ls,
                     al_annotations := ann\<rparr>)))))))"

record AlertUpsert =
  up_ID :: uuid
  up_ClusterID :: uuid
  up_AlertKey :: AlertKey
  up_Fingerprint :: SourceFingerprint
  up_AlertName :: string
  up_Severity :: "string option"
  up_Namespace :: "string option"
  up_Service :: "string option"
  up_ClusterKey :: ClusterKey
  up_Labels :: LabelSet
  up_Annotations :: Annotations
  up_GeneratorURL :: "string option"
  up_State :: State
  up_SeenAt :: time
  up_Synthetic :: bool

definition str_or_empty :: "string option \<Rightarrow> string" where
  "str_or_empty p = (case p of None \<Rightarrow> [] | Some s \<Rightarrow> s)"

text \<open>The collapse by key: the keys in the order they first appear, each with its last upsert.\<close>

definition upsert_collapse :: "AlertUpsert list \<Rightarrow> AlertKey list \<times> (AlertKey \<times> AlertUpsert) list" where
  "upsert_collapse ins = foldl (\<lambda>(order, winner) u.
     (if map_of winner (up_AlertKey u) = None then order @ [up_AlertKey u] else order,
      AList.update (up_AlertKey u) u winner)) ([], []) ins"

definition upsert_incomplete :: "AlertUpsert \<Rightarrow> error option" where
  "upsert_incomplete u =
     (case RequireID ''alert id'' (up_ID u) of Some e \<Rightarrow> Some e | None \<Rightarrow>
      case RequireID ''cluster_id'' (up_ClusterID u) of Some e \<Rightarrow> Some e | None \<Rightarrow>
      first_err
       [(up_AlertKey u = [] \<or> up_Fingerprint u = [] \<or> up_ClusterKey u = [],
           errs_New KindInternal ''alert_upsert_incomplete''),
        (Labels_IsZero (up_Labels u), errs_New KindInternal ''alert_upsert_incomplete''),
        (\<not> State_IsOpen (up_State u) \<and> \<not> State_IsTerminal (up_State u),
           errs_New KindInternal ''alert_upsert_incomplete''),
        (IsZero (up_SeenAt u), errs_New KindInternal ''alert_upsert_incomplete'')])"

definition first_some :: "'e option list \<Rightarrow> 'e option" where
  "first_some xs = (case List.find (\<lambda>x. x \<noteq> None) xs of Some e \<Rightarrow> e | None \<Rightarrow> None)"

definition inserted_alert :: "uuid \<Rightarrow> AlertUpsert \<Rightarrow> Alert" where
  "inserted_alert org u =
     \<lparr>al_id = up_ID u, al_orgID = org, al_clusterID = up_ClusterID u, al_key = up_AlertKey u,
      al_fingerprint = up_Fingerprint u, al_clusterKey = up_ClusterKey u, al_labels = up_Labels u,
      al_annotations = up_Annotations u, al_generatorURL = str_or_empty (up_GeneratorURL u),
      al_state = up_State u, al_currentCaseID = uuid_Nil, al_suppressionReason = SuppressionZero,
      al_suppressedBy = noSuppressedBy, al_firstSeenAt = up_SeenAt u, al_lastSeenAt = up_SeenAt u,
      al_lastStateChangeAt = up_SeenAt u, al_totalCases = 0, al_flapScore = 0, al_isFlapping = False,
      al_synthetic = up_Synthetic u\<rparr>"

definition updated_alert :: "AlertUpsert \<Rightarrow> Alert \<Rightarrow> Alert" where
  "updated_alert u r = r\<lparr>al_lastSeenAt := max (al_lastSeenAt r) (up_SeenAt u), al_labels := up_Labels u,
     al_annotations := up_Annotations u, al_generatorURL := str_or_empty (up_GeneratorURL u),
     al_fingerprint := up_Fingerprint u\<rparr>"

text \<open>The \<^verbatim>\<open>INSERT ... ON CONFLICT (org_id, alert_key) DO UPDATE\<close> of one proposed row.\<close>

definition upsert_row :: "uuid \<Rightarrow> AlertUpsert \<Rightarrow> Alert list \<Rightarrow> Alert list" where
  "upsert_row org u rows =
     (if list_ex (\<lambda>r. al_key r = up_AlertKey u) rows
      then update_where (\<lambda>r. al_key r = up_AlertKey u) (updated_alert u) rows
      else rows @ [inserted_alert org u])"

text \<open>The label projection the same statement maintains: \<^verbatim>\<open>want\<close>, \<^verbatim>\<open>gone\<close>, \<^verbatim>\<open>put\<close>, \<^verbatim>\<open>delta\<close>, \<^verbatim>\<open>bump\<close>, \<^verbatim>\<open>mint\<close>.\<close>

type_synonym label_row = "uuid \<times> string \<times> string"

definition label_slot :: "label_row \<Rightarrow> uuid \<times> string" where
  "label_slot l = (fst l, fst (snd l))"

definition label_want :: "Alert list \<Rightarrow> label_row list" where
  "label_want up = concat (map (\<lambda>a. if al_synthetic a then []
     else map (\<lambda>(n, v). (al_id a, n, v)) (al_labels a)) up)"

definition label_gone :: "Alert list \<Rightarrow> label_row list \<Rightarrow> label_row list" where
  "label_gone up rows = filter (\<lambda>l. fst l \<in> set (map al_id up) \<and>
     label_slot l \<notin> set (map label_slot (label_want up))) rows"

definition label_put_new :: "Alert list \<Rightarrow> label_row list \<Rightarrow> label_row list" where
  "label_put_new up rows = filter (\<lambda>w. label_slot w \<notin> set (map label_slot rows)) (label_want up)"

definition label_rows :: "Alert list \<Rightarrow> label_row list \<Rightarrow> label_row list" where
  "label_rows up rows =
     map (\<lambda>l. case List.find (\<lambda>w. label_slot w = label_slot l) (label_want up) of Some w \<Rightarrow> w | None \<Rightarrow> l)
       (filter (\<lambda>l. \<not> (fst l \<in> set (map al_id up) \<and> label_slot l \<notin> set (map label_slot (label_want up)))) rows)
     @ label_put_new up rows"

definition name_count :: "string \<Rightarrow> label_row list \<Rightarrow> int" where
  "name_count n rows = int (length (filter (\<lambda>l. fst (snd l) = n) rows))"

definition label_delta :: "Alert list \<Rightarrow> label_row list \<Rightarrow> string \<Rightarrow> int" where
  "label_delta up rows n = name_count n (label_put_new up rows) - name_count n (label_gone up rows)"

definition label_names :: "Alert list \<Rightarrow> label_row list \<Rightarrow> (string \<times> int) list \<Rightarrow> (string \<times> int) list" where
  "label_names up rows names =
     map (\<lambda>(n, c). (n, c + label_delta up rows n)) names @
     map (\<lambda>n. (n, label_delta up rows n))
       (filter (\<lambda>n. n \<notin> set (map fst names) \<and> label_delta up rows n > 0)
         (remdups (map (\<lambda>l. fst (snd l)) (label_put_new up rows @ label_gone up rows))))"

text \<open>
  The results are aligned with the input; \<^verbatim>\<open>WasInserted\<close> is set only at the first index of a key.
\<close>

fun upsert_results :: "(AlertKey \<Rightarrow> bool) \<Rightarrow> (AlertKey \<times> Alert) list \<Rightarrow> AlertKey list \<Rightarrow> AlertUpsert list \<Rightarrow>
  (Alert \<times> bool) list result" where
  "upsert_results fresh byKey seen [] = Inr []"
| "upsert_results fresh byKey seen (u # us) =
     (case map_of byKey (up_AlertKey u) of
        None \<Rightarrow> Inl (errs_New KindInternal ''alert_upsert_missing_row'')
      | Some a \<Rightarrow> rbind (upsert_results fresh byKey (up_AlertKey u # seen) us) (\<lambda>rest.
          Inr ((a, fresh (up_AlertKey u) \<and> up_AlertKey u \<notin> set seen) # rest)))"

fun read_all :: "('a \<Rightarrow> 'b result) \<Rightarrow> 'a list \<Rightarrow> 'b list result" where
  "read_all f [] = Inr []"
| "read_all f (r # rs) = rbind (f r) (\<lambda>a. rbind (read_all f rs) (\<lambda>as. Inr (a # as)))"

definition UpsertBatch :: "uuid \<Rightarrow> Store \<Rightarrow> AlertUpsert list \<Rightarrow> ((Alert \<times> bool) list \<times> Store) result" where
  "UpsertBatch org db ins =
     (if ins = [] then Inr ([], db)
      else case upsert_collapse ins of (order, winner) \<Rightarrow>
        let us = List.map_filter (map_of winner) order in
        or_fail (first_some (map upsert_incomplete us))
         (let rows = fold (upsert_row org) us (st_alerts db);
              up = filter (\<lambda>r. al_key r \<in> set order) rows;
              fresh = (\<lambda>k. \<not> list_ex (\<lambda>r. al_key r = k) (st_alerts db))
          in rbind (read_all alert_toDomain up) (\<lambda>as.
             rbind (upsert_results fresh (map (\<lambda>a. (al_key a, a)) as) [] ins) (\<lambda>out.
               Inr (out, db\<lparr>st_alerts := rows, st_labels := label_rows up (st_labels db),
                            st_labelNames := label_names up (st_labels db) (st_labelNames db)\<rparr>)))))"

definition GetByAlertKeys :: "Store \<Rightarrow> AlertKey list \<Rightarrow> (AlertKey \<times> Alert) list result" where
  "GetByAlertKeys db keys =
     (if keys = [] then Inr []
      else rbind (read_all alert_toDomain (filter (\<lambda>r. al_key r \<in> set keys) (st_alerts db)))
        (\<lambda>as. Inr (map (\<lambda>a. (al_key a, a)) as)))"

definition GetByAlertKey :: "Store \<Rightarrow> AlertKey \<Rightarrow> Alert result" where
  "GetByAlertKey db k =
     (case List.find (\<lambda>r. al_key r = k) (st_alerts db) of
        Some r \<Rightarrow> alert_toDomain r
      | None \<Rightarrow> Inl (errs_New KindNotFound ''alert_not_found''))"

text \<open>\<^verbatim>\<open>SetProjectionBatch\<close>: its refusals, in the order of the loop, and the \<^verbatim>\<open>UPDATE ... FROM unnest\<close>.\<close>

fun projection_refused :: "uuid list \<Rightarrow> (uuid \<times> AlertProjection) list \<Rightarrow> error option" where
  "projection_refused seen [] = None"
| "projection_refused seen ((i, p) # ws) =
     (case RequireID ''alert_id'' i of Some e \<Rightarrow> Some e | None \<Rightarrow>
      case first_err
       [(i \<in> set seen, errs_New KindInternal ''alert_projection_invalid''),
        (\<not> State_IsOpen (pr_State p) \<and> \<not> State_IsTerminal (pr_State p),
           errs_New KindInternal ''alert_projection_invalid''),
        (pr_TotalCases p < 0, errs_New KindInternal ''alert_projection_invalid''),
        (\<not> SuppressionReason_IsZero (pr_SuppressionReason p) \<and> pr_State p \<noteq> StateFiring,
           errs_New KindInternal ''alert_projection_invalid'')] of Some e \<Rightarrow> Some e
      | None \<Rightarrow> projection_refused (i # seen) ws)"

definition projected :: "AlertProjection \<Rightarrow> Alert \<Rightarrow> Alert" where
  "projected p a = a\<lparr>al_state := pr_State p, al_suppressionReason := pr_SuppressionReason p,
     al_suppressedBy := pr_SuppressedBy p, al_currentCaseID := derefID (pr_CurrentCaseID p),
     al_lastSeenAt := max (al_lastSeenAt a) (pr_LastSeenAt p),
     al_lastStateChangeAt := max (al_firstSeenAt a) (pr_LastStateChangeAt p),
     al_totalCases := pr_TotalCases p\<rparr>"

definition SetProjectionBatch :: "Store \<Rightarrow> (uuid \<times> AlertProjection) list \<Rightarrow> Store result" where
  "SetProjectionBatch db ins =
     (if ins = [] then Inr db
      else or_fail (projection_refused [] ins)
        (if length (filter (\<lambda>a. map_of ins (al_id a) \<noteq> None) (st_alerts db)) \<noteq> length ins
         then Inl (errs_New KindNotFound ''alert_not_found'')
         else Inr (db\<lparr>st_alerts := map (\<lambda>a. case map_of ins (al_id a) of Some p \<Rightarrow> projected p a | None \<Rightarrow> a)
                       (st_alerts db)\<rparr>)))"

definition Alert_GetByID :: "Store \<Rightarrow> uuid \<Rightarrow> Alert result" where
  "Alert_GetByID db i =
     (case List.find (\<lambda>r. al_id r = i) (st_alerts db) of
        Some r \<Rightarrow> alert_toDomain r
      | None \<Rightarrow> Inl (errs_New KindNotFound ''alert_not_found''))"

definition SetProjection :: "Store \<Rightarrow> uuid \<Rightarrow> AlertProjection \<Rightarrow> Store result" where
  "SetProjection db i p = SetProjectionBatch db [(i, p)]"

section \<open>The cases table\<close>

definition case_toDomain :: "Case \<Rightarrow> Case result" where
  "case_toDomain r = as_internal ''case_row_invalid'' (NewCase r)"

record OpenCaseRow =
  oc_ID :: uuid
  oc_AlertID :: uuid
  oc_Seq :: int
  oc_StartedAt :: time
  oc_SourceStartsAt :: time
  oc_SourceEndsAt :: time
  oc_SourceUpdatedAt :: time
  oc_Value :: "float64 option"
  oc_SkewMS :: int

definition opened_row :: "uuid \<Rightarrow> int \<Rightarrow> OpenCaseRow \<Rightarrow> Case" where
  "opened_row org number p = zeroCase\<lparr>c_id := oc_ID p, c_orgID := org, c_alertID := oc_AlertID p,
     c_seq := oc_Seq p, c_number := number, c_state := CaseOpen, c_startedAt := oc_StartedAt p,
     c_lastObservedAt := oc_StartedAt p, c_sourceStartsAt := oc_SourceStartsAt p,
     c_sourceEndsAt := oc_SourceEndsAt p, c_sourceUpdatedAt := oc_SourceUpdatedAt p,
     c_value := oc_Value p, c_observedSkew := ms_duration (oc_SkewMS p), c_ackState := AckStateUnacked,
     c_stateVersion := 1\<rparr>"

text \<open>
  \<^verbatim>\<open>OpenCase\<close>: the allocation of a number runs even when the \<^verbatim>\<open>SELECT\<close> finds no alert, but that error
  rolls it back.
\<close>

definition OpenCase :: "uuid \<Rightarrow> Store \<Rightarrow> OpenCaseRow \<Rightarrow> (Case \<times> Store) result" where
  "OpenCase org db p =
     or_fail (RequireID ''case id'' (oc_ID p)) (or_fail (RequireID ''alert_id'' (oc_AlertID p))
      (or_fail (first_err
        [(oc_Seq p < 1, errs_New KindInternal ''case_seq_invalid''),
         (IsZero (oc_StartedAt p) \<or> IsZero (oc_SourceStartsAt p), errs_New KindInternal ''case_time_missing'')])
       (if \<not> list_ex (\<lambda>a. al_id a = oc_AlertID p) (st_alerts db)
        then Inl (errs_New KindNotFound ''alert_not_found'')
        else let number = (case st_nextNumber db of None \<Rightarrow> 1 | Some n \<Rightarrow> n);
                 row = opened_row org number p
             in rbind (case_toDomain row) (\<lambda>c.
                  Inr (c, db\<lparr>st_nextNumber := Some (number + 1), st_cases := st_cases db @ [row]\<rparr>)))))"

definition cases_of :: "Store \<Rightarrow> uuid \<Rightarrow> Case list" where
  "cases_of db aid = filter (\<lambda>c. c_alertID c = aid) (st_cases db)"

text \<open>\<^verbatim>\<open>ORDER BY seq DESC LIMIT 1\<close>.\<close>

definition latest_row :: "Case list \<Rightarrow> Case option" where
  "latest_row cs = (case sort_key (\<lambda>c. - c_seq c) cs of [] \<Rightarrow> None | c # _ \<Rightarrow> Some c)"

definition GetLatestByAlert :: "Store \<Rightarrow> uuid \<Rightarrow> Case option result" where
  "GetLatestByAlert db aid =
     (case latest_row (cases_of db aid) of None \<Rightarrow> Inr None
      | Some r \<Rightarrow> rbind (case_toDomain r) (\<lambda>c. Inr (Some c)))"

text \<open>\<^verbatim>\<open>SELECT DISTINCT ON (alert_id) ... ORDER BY alert_id, seq DESC\<close>: one row per alert that has one.\<close>

definition LatestByAlerts :: "Store \<Rightarrow> uuid list \<Rightarrow> (uuid \<times> Case) list result" where
  "LatestByAlerts db ids =
     (if ids = [] then Inr []
      else rbind (read_all case_toDomain (List.map_filter (\<lambda>aid. latest_row (cases_of db aid))
               (remdups (filter (\<lambda>aid. aid \<in> set ids) (map c_alertID (st_cases db))))))
        (\<lambda>cs. Inr (map (\<lambda>c. (c_alertID c, c)) cs)))"

record Observation =
  ob_Source :: string
  ob_Synthetic :: bool
  ob_ClusterID :: uuid
  ob_ClusterKey :: ClusterKey
  ob_AlertKey :: AlertKey
  ob_SourceFingerprint :: SourceFingerprint
  ob_Labels :: LabelSet
  ob_Annotations :: Annotations
  ob_GeneratorURL :: string
  ob_Status :: string
  ob_SuppressionReason :: string
  ob_SuppressedBy :: SuppressedBy
  ob_SourceStartsAt :: time
  ob_SourceEndsAt :: time
  ob_SourceUpdatedAt :: time
  ob_Value :: "float64 option"
  ob_ObservedAt :: time
  ob_SkewMS :: int

definition observed_row :: "Observation \<Rightarrow> Case \<Rightarrow> Case" where
  "observed_row o' r = r\<lparr>c_lastObservedAt := max (c_lastObservedAt r) (ob_ObservedAt o'),
     c_sourceEndsAt := greatest (c_sourceEndsAt r) (ob_SourceEndsAt o'),
     c_sourceUpdatedAt := greatest (c_sourceUpdatedAt r) (ob_SourceUpdatedAt o'),
     c_value := coalesce_opt (ob_Value o') (c_value r), c_observedSkew := ms_duration (ob_SkewMS o'),
     c_resolvePendingAt := 0, c_resolvePendingEndAt := 0, c_stateVersion := c_stateVersion r + 1\<rparr>"

definition Case_Observe :: "Store \<Rightarrow> uuid \<Rightarrow> Observation \<Rightarrow> Store result" where
  "Case_Observe db i o' =
     or_fail (RequireID ''case id'' i) (or_fail (first_err
       [(IsZero (ob_ObservedAt o'), errs_New KindInternal ''observation_time_missing''),
        (\<not> list_ex (\<lambda>c. c_id c = i) (st_cases db), errs_New KindNotFound ''case_not_found'')])
      (Inr (db\<lparr>st_cases := update_where (\<lambda>c. c_id c = i) (observed_row o') (st_cases db)\<rparr>)))"

datatype TransitionKind =
  TransitionObserve | TransitionSuppress | TransitionUnsuppress | TransitionResolve | TransitionExpire

record CaseTransition =
  t_Kind :: TransitionKind
  t_ToState :: CaseState
  t_SuppressionReason :: SuppressionReason
  t_SuppressedBy :: "SuppressedBy option"
  t_ResolveReason :: ResolveReason
  t_EndedAt :: time
  t_LastObservedAt :: time
  t_SourceEndsAt :: time
  t_SourceUpdatedAt :: time
  t_ResolvePendingAt :: time
  t_ResolvePendingEndAt :: time
  t_SuppressCount :: "int option"
  t_Value :: "float64 option"
  t_DetectedBy :: string
  t_Clamped :: bool
  t_Expected :: int

definition transition_row :: "CaseTransition \<Rightarrow> Case \<Rightarrow> Case" where
  "transition_row t r = r\<lparr>c_state := t_ToState t, c_suppressionReason := t_SuppressionReason t,
     c_suppressedBy := (case t_SuppressedBy t of Some s \<Rightarrow> s | None \<Rightarrow> c_suppressedBy r),
     c_resolveReason := t_ResolveReason t, c_endedAt := t_EndedAt t,
     c_lastObservedAt := max (c_lastObservedAt r) (t_LastObservedAt t),
     c_sourceEndsAt := coalesce (t_SourceEndsAt t) (c_sourceEndsAt r),
     c_sourceUpdatedAt := coalesce (t_SourceUpdatedAt t) (c_sourceUpdatedAt r),
     c_suppressCount := (case t_SuppressCount t of Some n \<Rightarrow> n | None \<Rightarrow> c_suppressCount r),
     c_value := coalesce_opt (t_Value t) (c_value r),
     c_resolvePendingAt := t_ResolvePendingAt t, c_resolvePendingEndAt := t_ResolvePendingEndAt t,
     c_stateVersion := c_stateVersion r + 1\<rparr>"

definition transitionMiss :: "Store \<Rightarrow> uuid \<Rightarrow> error" where
  "transitionMiss db i =
     (if list_ex (\<lambda>c. c_id c = i) (st_cases db) then errs_New KindConflict ''case_superseded''
      else errs_New KindNotFound ''case_not_found'')"

definition Case_Transition :: "Store \<Rightarrow> uuid \<Rightarrow> CaseTransition \<Rightarrow> Store result" where
  "Case_Transition db i t =
     or_fail (RequireID ''case id'' i) (or_fail (first_err
       [(CaseState_IsZero (t_ToState t), errs_New KindInternal ''transition_state_invalid''),
        (IsZero (t_LastObservedAt t), errs_New KindInternal ''transition_time_missing''),
        (t_Expected t < 1, errs_New KindInternal ''transition_precondition_missing'')])
      (if list_ex (\<lambda>c. c_id c = i \<and> c_stateVersion c = t_Expected t) (st_cases db)
       then Inr (db\<lparr>st_cases := update_where (\<lambda>c. c_id c = i \<and> c_stateVersion c = t_Expected t)
                      (transition_row t) (st_cases db)\<rparr>)
       else Inl (transitionMiss db i)))"

definition Case_GetByID :: "Store \<Rightarrow> uuid \<Rightarrow> Case result" where
  "Case_GetByID db i =
     (case List.find (\<lambda>c. c_id c = i) (st_cases db) of
        Some r \<Rightarrow> case_toDomain r
      | None \<Rightarrow> Inl (errs_New KindNotFound ''case_not_found''))"

definition GetOpenByAlert :: "Store \<Rightarrow> uuid \<Rightarrow> Case option result" where
  "GetOpenByAlert db aid =
     (case List.find (\<lambda>c. c_endedAt c = 0) (cases_of db aid) of
        Some r \<Rightarrow> rbind (case_toDomain r) (\<lambda>c. Inr (Some c))
      | None \<Rightarrow> Inr None)"

record AckChange =
  ak_To :: AckState
  ak_At :: time
  ak_By :: "uuid option"
  ak_ByLabel :: "string option"
  ak_Note :: "string option"

definition ackStateOrUnacked :: "AckState \<Rightarrow> AckState" where
  "ackStateOrUnacked a = (if AckState_IsZero a then AckStateUnacked else a)"

definition ack_row :: "AckChange \<Rightarrow> Case \<Rightarrow> Case" where
  "ack_row a r =
     (if IsAcked (ak_To a)
      then r\<lparr>c_ackState := ackStateOrUnacked (ak_To a), c_ackedBy := derefID (ak_By a),
             c_ackedByLabel := str_or_empty (ak_ByLabel a), c_ackedAt := ak_At a,
             c_ackNote := str_or_empty (ak_Note a)\<rparr>
      else r\<lparr>c_ackState := ackStateOrUnacked (ak_To a), c_ackedBy := uuid_Nil, c_ackedByLabel := [],
             c_ackedAt := 0, c_ackNote := []\<rparr>)"

definition SetAck :: "Store \<Rightarrow> uuid \<Rightarrow> AckChange \<Rightarrow> int \<Rightarrow> Store result" where
  "SetAck db i a expectVersion =
     or_fail (RequireID ''case id'' i) (or_fail (first_err
       [(expectVersion < 1, errs_New KindInternal ''ack_precondition_missing''),
        (IsAcked (ak_To a) \<and> IsZero (ak_At a), errs_New KindInternal ''ack_time_missing''),
        (IsAcked (ak_To a) \<and> (ak_ByLabel a = None \<or> TrimSpace (str_or_empty (ak_ByLabel a)) = []),
           errs_New KindInternal ''ack_label_missing'')])
      (if list_ex (\<lambda>c. c_id c = i \<and> c_stateVersion c = expectVersion) (st_cases db)
       then Inr (db\<lparr>st_cases := update_where (\<lambda>c. c_id c = i \<and> c_stateVersion c = expectVersion)
                      (ack_row a) (st_cases db)\<rparr>)
       else Inl (transitionMiss db i)))"

definition BindRuleSnapshot :: "Store \<Rightarrow> uuid \<Rightarrow> uuid \<Rightarrow> Store result" where
  "BindRuleSnapshot db i snapshotID =
     or_fail (RequireID ''case id'' i) (or_fail (RequireID ''rule_snapshot_id'' snapshotID)
      (if list_ex (\<lambda>c. c_id c = i) (st_cases db)
       then Inr (db\<lparr>st_cases := update_where (\<lambda>c. c_id c = i) (\<lambda>c. c\<lparr>c_ruleSnapshotID := snapshotID\<rparr>)
                      (st_cases db)\<rparr>)
       else Inl (errs_New KindNotFound ''case_not_found'')))"

section \<open>The sources that cover a case\<close>

text \<open>
  \<^verbatim>\<open>Sources\<close>: the sources of the cluster of the case's alert, live and removed; the silence they all
  allow is set only when every live one names one.
\<close>

definition live_sources :: "SourceRow list \<Rightarrow> SourceRow list" where
  "live_sources ss = filter (\<lambda>s. so_DeletedAt s = None) ss"

definition effectiveSilence :: "SourceRow list \<Rightarrow> int option" where
  "effectiveSilence ss =
     (let live = live_sources ss; given = List.map_filter so_MaxSilenceS live in
      if live \<noteq> [] \<and> length live = length given then Some (fold max given (hd given)) else None)"

definition case_sources :: "SourceRow list \<Rightarrow> CaseSources" where
  "case_sources ss =
     \<lparr>cs_Live = int (length (live_sources ss)), cs_Removed = int (length ss) - int (length (live_sources ss)),
      cs_LiveIDs = sort (map so_ID (live_sources ss)),
      cs_MaxSilence = (case effectiveSilence ss of Some n \<Rightarrow> n * Second | None \<Rightarrow> 0),
      cs_LastRemovedAt = fold max (List.map_filter so_DeletedAt ss) 0\<rparr>"

definition Sources :: "Store \<Rightarrow> uuid \<Rightarrow> CaseSources result" where
  "Sources db i =
     or_fail (RequireID ''case id'' i)
      (case List.find (\<lambda>c. c_id c = i) (st_cases db) of
         None \<Rightarrow> Inl (errs_New KindNotFound ''case_not_found'')
       | Some c \<Rightarrow>
           (case List.find (\<lambda>a. al_id a = c_alertID c) (st_alerts db) of
              None \<Rightarrow> Inl (errs_New KindNotFound ''case_not_found'')
            | Some a \<Rightarrow> Inr (case_sources (filter (\<lambda>s. so_ClusterID s = al_clusterID a) (st_sources db)))))"

section \<open>The timeline\<close>

text \<open>The split of a batch: an event without a key is kept, of those with a key the first of each key.\<close>

fun split_events :: "string list \<Rightarrow> Event list \<Rightarrow> (Event list \<times> Event list) result" where
  "split_events seen [] = Inr ([], [])"
| "split_events seen (e # es) =
     (if ev_id e = uuid_Nil then Inl (errs_New KindInternal ''event_id_missing'')
      else if ev_dedupeKey e = [] then rbind (split_events seen es) (\<lambda>(keyed, unkeyed). Inr (keyed, e # unkeyed))
      else if ev_dedupeKey e \<in> set seen then split_events seen es
      else rbind (split_events (ev_dedupeKey e # seen) es) (\<lambda>(keyed, unkeyed). Inr (e # keyed, unkeyed)))"

text \<open>\<^verbatim>\<open>claimDedupeKeys\<close>: the keys nobody holds are claimed, and only their events are written.\<close>

definition AppendBatch :: "Store \<Rightarrow> Event list \<Rightarrow> (nat \<times> Store) result" where
  "AppendBatch db ins =
     (if ins = [] then Inr (0, db)
      else rbind (split_events [] ins) (\<lambda>(keyed, unkeyed).
        let won = filter (\<lambda>e. ev_dedupeKey e \<notin> set (st_eventKeys db)) keyed;
            accepted = unkeyed @ won
        in Inr (length accepted, db\<lparr>st_eventKeys := st_eventKeys db @ map ev_dedupeKey won,
                                    st_events := st_events db @ accepted\<rparr>)))"

end
