(* ===== verification/Observe.thy ===== *)
theory Observe
  imports Case_Store
begin

text \<open>
  The ingest path of the alerts service, \<^verbatim>\<open>internal/alerts/service/lifecycle.go\<close> with what it uses of
  \<^verbatim>\<open>service.go\<close> and \<^verbatim>\<open>deps.go\<close>: a batch of observations is upserted, each is decided against the batch's
  view of its alert's latest episode and persisted, and the projections, the timeline, the change
  notices and the jobs are written at the end.

  A transaction is a function of the store that returns the store it commits, or the error that rolls
  it back. \<^verbatim>\<open>id.New\<close> draws from a supply \<open>draw\<close>; the counter of what was drawn is passed along. What other
  modules answer (settings, retention windows, the announcements of opened and ended cases) and which
  optional dependencies are wired are the fields of \<open>AlertsWorld\<close>.
\<close>

section \<open>The service and what it is told\<close>

record Settings =
  set_ResolveGrace :: duration
  set_FlapThreshold :: int
  set_FlapWindow :: duration

definition DefaultSettings :: Settings where
  "DefaultSettings = \<lparr>set_ResolveGrace = DefaultResolveGrace, set_FlapThreshold = 5,
     set_FlapWindow = 7200 * Second\<rparr>"

definition normalise :: "Settings \<Rightarrow> Settings" where
  "normalise s =
     \<lparr>set_ResolveGrace = (if set_ResolveGrace s \<le> 0 then set_ResolveGrace DefaultSettings else set_ResolveGrace s),
      set_FlapThreshold = (if set_FlapThreshold s \<le> 0 then set_FlapThreshold DefaultSettings else set_FlapThreshold s),
      set_FlapWindow = (if set_FlapWindow s \<le> 0 then set_FlapWindow DefaultSettings else set_FlapWindow s)\<rparr>"

record AlertsWorld =
  aw_U :: uuidlib
  aw_org :: uuid
  aw_now :: time
  aw_settings :: "Settings result option"
  aw_alertBatch :: bool
  aw_occBatch :: bool
  aw_retention :: "(string \<Rightarrow> string \<Rightarrow> duration result) option"
  aw_enqueuer :: bool
  aw_stream :: bool
  aw_caseOpenings :: "(uuid list \<Rightarrow> error option) option"
  aw_caseEndings :: "(uuid list \<Rightarrow> error option) option"
  aw_expireUnheard :: bool
  aw_occSources :: bool
  aw_health :: "(uuid list \<Rightarrow> (uuid \<Rightarrow> bool) result) option"

definition lifecycleSettings :: "AlertsWorld \<Rightarrow> Settings" where
  "lifecycleSettings W =
     (case aw_settings W of None \<Rightarrow> DefaultSettings | Some (Inl _) \<Rightarrow> DefaultSettings
      | Some (Inr s) \<Rightarrow> normalise s)"

section \<open>Reading an observation\<close>

definition triggerFor :: "string \<Rightarrow> Trigger" where
  "triggerFor status =
     (let s = ToLower (TrimSpace status) in
      if s = ''resolved'' then TriggerObserveResolved
      else if s = ''suppressed'' then TriggerObserveSuppressed
      else TriggerObserveFiring)"

definition observationTime :: "Observation \<Rightarrow> time \<Rightarrow> ObservationTime result" where
  "observationTime o' now =
     (let occurred = (if triggerFor (ob_Status o') = TriggerObserveResolved \<and> \<not> IsZero (ob_SourceEndsAt o')
                      then ob_SourceEndsAt o' else ob_SourceStartsAt o');
          recorded = (if IsZero (ob_ObservedAt o') then now else ob_ObservedAt o')
      in NewObservationTime (if IsZero occurred then recorded else occurred) recorded)"

definition actorFor :: "string \<Rightarrow> Actor result" where
  "actorFor src = (if src = ''reconciler'' then SystemActor ActorReconciler else SystemActor ActorIngest)"

definition kindOf :: "TransitionID \<Rightarrow> TransitionKind" where
  "kindOf t =
     (case t of
        TransitionT3 \<Rightarrow> TransitionSuppress
      | TransitionT4 \<Rightarrow> TransitionUnsuppress
      | TransitionT5 \<Rightarrow> TransitionResolve
      | TransitionT6 \<Rightarrow> TransitionExpire
      | _ \<Rightarrow> TransitionObserve)"

definition suppressionReasonOf :: "Observation \<Rightarrow> SuppressionReason result" where
  "suppressionReasonOf o' =
     (let r = TrimSpace (ob_SuppressionReason o') in
      if r \<noteq> [] then NewSuppressionReason r
      else if SilencedBy (ob_SuppressedBy o') \<noteq> [] then Inr SuppressionSilence
      else if InhibitedBy (ob_SuppressedBy o') \<noteq> [] then Inr SuppressionInhibition
      else if MutedBy (ob_SuppressedBy o') \<noteq> [] then Inr SuppressionMuteTimeInterval
      else Inl (errs_New KindValidation ''suppression_reason_unknown''))"

definition strPtr :: "string \<Rightarrow> string option" where
  "strPtr v = (if v = [] then None else Some v)"

text \<open>\<^verbatim>\<open>buildUpserts\<close>, one observation at a time; each draws the id its alert would get.\<close>

definition buildUpsert :: "uuid \<Rightarrow> Observation \<Rightarrow> AlertUpsert result" where
  "buildUpsert i o' =
     (if Labels_IsZero (ob_Labels o') then Inl (errs_New KindValidation ''observation_labels_required'')
      else rbind (NewRawSeverity (mustGet (ob_Labels o') LabelSeverity)) (\<lambda>severity.
        Inr \<lparr>up_ID = i, up_ClusterID = ob_ClusterID o', up_AlertKey = ob_AlertKey o',
             up_Fingerprint = ob_SourceFingerprint o', up_AlertName = AlertName (ob_Labels o'),
             up_Severity = severity, up_Namespace = strPtr (LabelSet_Namespace (ob_Labels o')),
             up_Service = strPtr (LabelSet_Service (ob_Labels o')), up_ClusterKey = ob_ClusterKey o',
             up_Labels = ob_Labels o', up_Annotations = ob_Annotations o',
             up_GeneratorURL = strPtr (ob_GeneratorURL o'),
             up_State = (if triggerFor (ob_Status o') = TriggerObserveResolved then StateResolved else StateFiring),
             up_SeenAt = (if IsZero (ob_ObservedAt o') then ob_SourceStartsAt o' else ob_ObservedAt o'),
             up_Synthetic = ob_Synthetic o'\<rparr>))"

fun buildUpserts :: "(nat \<Rightarrow> uuid) \<Rightarrow> nat \<Rightarrow> Observation list \<Rightarrow> AlertUpsert list result" where
  "buildUpserts draw k [] = Inr []"
| "buildUpserts draw k (o' # obs) =
     rbind (buildUpsert (draw k) o') (\<lambda>u. rbind (buildUpserts draw (Suc k) obs) (\<lambda>us. Inr (u # us)))"

text \<open>The keys of a batch, each once, in the order they appear.\<close>

definition distinct_keys :: "'k list \<Rightarrow> 'k list" where
  "distinct_keys ks = rev (remdups (rev ks))"

fun prior_one_by_one :: "Store \<Rightarrow> AlertKey list \<Rightarrow> (AlertKey \<times> Alert) list result" where
  "prior_one_by_one db [] = Inr []"
| "prior_one_by_one db (k # ks) =
     (case GetByAlertKey db k of
        Inl e \<Rightarrow> if errKind e = KindNotFound then prior_one_by_one db ks else Inl e
      | Inr a \<Rightarrow> rbind (prior_one_by_one db ks) (\<lambda>rest. Inr ((k, a) # rest)))"

definition priorAlerts :: "AlertsWorld \<Rightarrow> Store \<Rightarrow> Observation list \<Rightarrow> (AlertKey \<times> Alert) list result" where
  "priorAlerts W db obs =
     (let keys = distinct_keys (map ob_AlertKey obs) in
      if aw_alertBatch W then GetByAlertKeys db keys else prior_one_by_one db keys)"

fun latest_one_by_one :: "Store \<Rightarrow> uuid list \<Rightarrow> (uuid \<times> Case) list result" where
  "latest_one_by_one db [] = Inr []"
| "latest_one_by_one db (i # ids) =
     rbind (GetLatestByAlert db i) (\<lambda>found. rbind (latest_one_by_one db ids) (\<lambda>rest.
       Inr (case found of Some c \<Rightarrow> (i, c) # rest | None \<Rightarrow> rest)))"

definition latestCases :: "AlertsWorld \<Rightarrow> Store \<Rightarrow> uuid list \<Rightarrow> (uuid \<times> Case) list result" where
  "latestCases W db ids = (if aw_occBatch W then LatestByAlerts db ids else latest_one_by_one db ids)"

section \<open>Commands\<close>

definition routingCommand :: "Trigger \<Rightarrow> Actor \<Rightarrow> ObservationTime \<Rightarrow> Settings \<Rightarrow> TransitionCommand" where
  "routingCommand trigger actor at cfg =
     \<lparr>cmd_Trigger = trigger, cmd_Actor = actor, cmd_At = at, cmd_EventID = uuid_Nil,
      cmd_SuppressionReason = SuppressionZero, cmd_SuppressedBy = noSuppressedBy, cmd_SourceEndsAt = 0,
      cmd_SourceUpdatedAt = 0, cmd_ResolveGrace = set_ResolveGrace cfg, cmd_CaseRetention = 0,
      cmd_SourceHealthy = False, cmd_ExpireAs = ResolveZero, cmd_MaxSilence = 0, cmd_NoLiveSource = False,
      cmd_MaterialChange = False, cmd_Value = None, cmd_ObservedSkew = 0, cmd_Summary = [], cmd_Payload = []\<rparr>"

definition edgeCommand :: "uuid \<Rightarrow> Observation \<Rightarrow> ObservationTime \<Rightarrow> Actor \<Rightarrow> Trigger \<Rightarrow> Settings \<Rightarrow>
  Alert option \<Rightarrow> Alert \<Rightarrow> TransitionCommand result" where
  "edgeCommand eventID o' at actor trigger cfg prior current =
     (let cmd = (routingCommand trigger actor at cfg)\<lparr>cmd_EventID := eventID,
            cmd_SourceEndsAt := ob_SourceEndsAt o', cmd_SourceUpdatedAt := ob_SourceUpdatedAt o',
            cmd_Value := ob_Value o', cmd_ObservedSkew := ms_duration (ob_SkewMS o'),
            cmd_MaterialChange := (case prior of None \<Rightarrow> False | Some p \<Rightarrow> al_id p \<noteq> uuid_Nil \<and>
              Materially p (al_labels current) (al_annotations current) (al_generatorURL current))\<rparr>
      in if trigger = TriggerObserveSuppressed
         then rbind (suppressionReasonOf o') (\<lambda>reason.
           Inr (cmd\<lparr>cmd_SuppressionReason := reason, cmd_SuppressedBy := ob_SuppressedBy o',
                    cmd_Payload := [(''silenced_by'', JStrs (SilencedBy (ob_SuppressedBy o'))),
                      (''inhibited_by'', JStrs (InhibitedBy (ob_SuppressedBy o'))),
                      (''muted_by'', JStrs (MutedBy (ob_SuppressedBy o')))]\<rparr>))
         else Inr cmd)"

definition caseRetention :: "AlertsWorld \<Rightarrow> Alert \<Rightarrow> duration result" where
  "caseRetention W a =
     (case aw_retention W of None \<Rightarrow> Inr 0
      | Some f \<Rightarrow> f (LabelSet_Namespace (al_labels a)) (AlertName (al_labels a)))"

section \<open>Events of the service itself\<close>

definition alertCreatedEvent :: "uuidlib \<Rightarrow> uuid \<Rightarrow> Alert \<Rightarrow> ObservationTime \<Rightarrow> Actor \<Rightarrow> Event result" where
  "alertCreatedEvent U eventID a at actor = NewEvent
     \<lparr>ev_id = eventID, ev_orgID = al_orgID a, ev_alertID = al_id a, ev_caseID = uuid_Nil, ev_groupID = uuid_Nil,
      ev_typ = EventAlertCreated, ev_at = at, ev_actor = actor,
      ev_summary = ''Alert first seen: '' @ AlertName (al_labels a),
      ev_payload = [(''alert_key'', JStr (al_key a))],
      ev_dedupeKey = ''alert:'' @ uuidString U (al_id a) @ '':created''\<rparr>"

definition autoUnackEvent :: "uuidlib \<Rightarrow> uuid \<Rightarrow> Case \<Rightarrow> ObservationTime \<Rightarrow> Event result" where
  "autoUnackEvent U eventID c at =
     rbind (SystemActor ActorSystem) (\<lambda>actor. NewEvent
       \<lparr>ev_id = eventID, ev_orgID = c_orgID c, ev_alertID = c_alertID c, ev_caseID = c_id c, ev_groupID = uuid_Nil,
        ev_typ = EventCaseUnacknowledged, ev_at = at, ev_actor = actor,
        ev_summary = ''Acknowledgement did not carry into the new case'',
        ev_payload = [(''reason'', JStr ''new_case'')],
        ev_dedupeKey = ''case:'' @ uuidString U (c_id c) @ '':unacknowledged:new_case''\<rparr>)"

section \<open>The accumulator\<close>

record notifyRequest =
  nr_caseID :: uuid
  nr_reason :: string
  nr_alertID :: "uuid option"
  nr_actor :: string
  nr_occasionID :: uuid

record ObserveOutcome =
  out_AlertID :: uuid
  out_AlertKey :: AlertKey
  out_CaseID :: uuid
  out_Transition :: string
  out_From :: string
  out_To :: string
  out_AlertCreated :: bool
  out_CaseOpened :: bool
  out_Clamped :: bool
  out_ClampSkew :: duration

record observeAccum =
  ac_latest :: "uuid \<rightharpoonup> Case"
  ac_newEpisode :: "uuid \<Rightarrow> int"
  ac_projections :: "uuid \<rightharpoonup> AlertProjection"
  ac_projectionOrder :: "uuid list"
  ac_frames :: "StreamFrame list"
  ac_events :: "Event list"
  ac_notifies :: "notifyRequest list"
  ac_enrichIDs :: "uuid list"
  ac_outcomes :: "ObserveOutcome list"

definition stageProjection :: "uuid \<Rightarrow> AlertProjection \<Rightarrow> observeAccum \<Rightarrow> observeAccum" where
  "stageProjection aid p acc =
     (case ac_projections acc aid of
        None \<Rightarrow> acc\<lparr>ac_projectionOrder := ac_projectionOrder acc @ [aid],
                    ac_projections := (ac_projections acc)(aid \<mapsto> p)\<rparr>
      | Some prev \<Rightarrow> acc\<lparr>ac_projections := (ac_projections acc)(aid \<mapsto>
          (if pr_LastSeenAt prev > pr_LastSeenAt p then p\<lparr>pr_LastSeenAt := pr_LastSeenAt prev\<rparr> else p))\<rparr>)"

definition projectionFor :: "Alert \<Rightarrow> Case \<Rightarrow> ObservationTime \<Rightarrow> bool \<Rightarrow> int \<Rightarrow> AlertProjection" where
  "projectionFor alert ac at stateChanged newEpisodes =
     \<lparr>pr_State = AlertState ac, pr_SuppressionReason = c_suppressionReason ac,
      pr_SuppressedBy = Case_SuppressedBy ac,
      pr_CurrentCaseID = (if Case_IsOpen ac then Some (c_id ac) else None),
      pr_LastSeenAt = recordedAt at,
      pr_LastStateChangeAt = (if stateChanged \<or> IsZero (al_lastStateChangeAt alert) then recordedAt at
                              else al_lastStateChangeAt alert),
      pr_TotalCases = al_totalCases alert + newEpisodes\<rparr>"

definition queueFrame :: "AlertsWorld \<Rightarrow> StreamFrame \<Rightarrow> observeAccum \<Rightarrow> observeAccum" where
  "queueFrame W f acc = (if aw_stream W then acc\<lparr>ac_frames := ac_frames acc @ [f]\<rparr> else acc)"

definition caseFramePayload :: "uuidlib \<Rightarrow> Case \<Rightarrow> payload" where
  "caseFramePayload U c = [(''alert_id'', JStr (uuidString U (c_alertID c))),
     (''state'', JStr (CaseState_String (c_state c))), (''ack'', JStr (AckState_String (c_ackState c)))]"

definition eventFramePayload :: "uuidlib \<Rightarrow> Event \<Rightarrow> payload" where
  "eventFramePayload U e = [(''type'', JStr (EventType_String (ev_typ e)))] @
     (if ev_alertID e \<noteq> uuid_Nil then [(''alert_id'', JStr (uuidString U (ev_alertID e)))] else []) @
     (if ev_groupID e \<noteq> uuid_Nil then [(''group_id'', JStr (uuidString U (ev_groupID e)))] else []) @
     (if ev_caseID e \<noteq> uuid_Nil then [(''case_id'', JStr (uuidString U (ev_caseID e)))] else [])"

text \<open>The reasons of \<^verbatim>\<open>service.go\<close>; only a transition that has one is announced.\<close>

definition reasonFor :: "TransitionID \<Rightarrow> string" where
  "reasonFor i =
     (case i of
        TransitionT1 \<Rightarrow> ''fired'' | TransitionT7 \<Rightarrow> ''fired''
      | TransitionT3 \<Rightarrow> ''suppressed'' | TransitionT4 \<Rightarrow> ''unsuppressed''
      | TransitionT5 \<Rightarrow> ''all_resolved'' | TransitionT6 \<Rightarrow> ''expired''
      | _ \<Rightarrow> [])"

fun TransitionID_String :: "TransitionID \<Rightarrow> string" where
  "TransitionID_String TransitionT1 = ''T1''"
| "TransitionID_String TransitionT2 = ''T2''"
| "TransitionID_String TransitionT3 = ''T3''"
| "TransitionID_String TransitionT4 = ''T4''"
| "TransitionID_String TransitionT5 = ''T5''"
| "TransitionID_String TransitionT6 = ''T6''"
| "TransitionID_String TransitionT7 = ''T7''"
| "TransitionID_String TransitionT9 = ''T9''"
| "TransitionID_String TransitionT10 = ''T10''"

section \<open>One observation\<close>

definition transitionOf :: "TransitionResult \<Rightarrow> SuppressedBy \<Rightarrow> CaseTransition" where
  "transitionOf r witnesses = (let c = tr_Case r in
     \<lparr>t_Kind = kindOf (tr_ID r), t_ToState = c_state c, t_SuppressionReason = c_suppressionReason c,
      t_SuppressedBy = Some (if SuppressionReason_IsZero (c_suppressionReason c) then noSuppressedBy else witnesses),
      t_ResolveReason = c_resolveReason c, t_EndedAt = c_endedAt c, t_LastObservedAt = c_lastObservedAt c,
      t_SourceEndsAt = c_sourceEndsAt c, t_SourceUpdatedAt = c_sourceUpdatedAt c,
      t_ResolvePendingAt = c_resolvePendingAt c, t_ResolvePendingEndAt = c_resolvePendingEndAt c,
      t_SuppressCount = (if c_suppressCount c > 0 then Some (c_suppressCount c) else None),
      t_Value = c_value c,
      t_DetectedBy = (if tr_DetectedBy r = ''reconciler'' then ''reconciler'' else ''ingest''),
      t_Clamped = tr_Clamped r, t_Expected = PreconditionFor (tr_Before r)\<rparr>)"

definition persistTransition :: "Store \<Rightarrow> TransitionResult \<Rightarrow> Observation \<Rightarrow> Store result" where
  "persistTransition db r o' =
     (if tr_ID r = TransitionT2 then Case_Observe db (c_id (tr_Case r)) o'
      else Case_Transition db (c_id (tr_Case r)) (transitionOf r (ob_SuppressedBy o')))"

definition openParams :: "AlertsWorld \<Rightarrow> uuid \<Rightarrow> uuid \<Rightarrow> Alert \<Rightarrow> Observation \<Rightarrow> ObservationTime \<Rightarrow> Actor \<Rightarrow> int \<Rightarrow>
  OpenCaseParams" where
  "openParams W caseID eventID alert o' at actor seq =
     \<lparr>p_ID = caseID, p_OrgID = aw_org W, p_AlertID = al_id alert, p_Seq = seq, p_Actor = actor, p_At = at,
      p_SourceStartsAt = ob_SourceStartsAt o', p_SourceEndsAt = ob_SourceEndsAt o',
      p_SourceUpdatedAt = ob_SourceUpdatedAt o', p_Value = ob_Value o',
      p_ObservedSkew = ms_duration (ob_SkewMS o'), p_EventID = eventID, p_Summary = [], p_Payload = []\<rparr>"

definition openRow :: "Case \<Rightarrow> Observation \<Rightarrow> OpenCaseRow" where
  "openRow draft o' =
     \<lparr>oc_ID = c_id draft, oc_AlertID = c_alertID draft, oc_Seq = c_seq draft, oc_StartedAt = c_startedAt draft,
      oc_SourceStartsAt = c_sourceStartsAt draft, oc_SourceEndsAt = c_sourceEndsAt draft,
      oc_SourceUpdatedAt = c_sourceUpdatedAt draft, oc_Value = c_value draft, oc_SkewMS = ob_SkewMS o'\<rparr>"

definition openEpisode :: "AlertsWorld \<Rightarrow> (nat \<Rightarrow> uuid) \<Rightarrow> nat \<Rightarrow> Store \<Rightarrow> Alert \<Rightarrow> Observation \<Rightarrow> ObservationTime \<Rightarrow>
  Actor \<Rightarrow> int \<Rightarrow> (Case \<times> Event list \<times> Store) result" where
  "openEpisode W draw k db alert o' at actor seq =
     rbind (OpenNewCase (aw_U W) (openParams W (draw k) (draw (Suc k)) alert o' at actor seq)) (\<lambda>(draft, evs).
       rbind (OpenCase (aw_org W) db (openRow draft o')) (\<lambda>(persisted, db'). Inr (persisted, evs, db')))"

type_synonym batch_state = "Store \<times> observeAccum \<times> nat"

text \<open>
  \<^verbatim>\<open>applyOpen\<close>: a new episode, its opening event, the acknowledgement that does not carry over, and what to
  announce.
\<close>

definition request :: "string \<Rightarrow> Alert \<Rightarrow> uuid \<Rightarrow> Actor \<Rightarrow> notifyRequest" where
  "request reason alert caseID actor =
     \<lparr>nr_caseID = caseID, nr_reason = reason, nr_alertID = Some (al_id alert),
      nr_actor = ActorKind_String (a_kind actor), nr_occasionID = uuid_Nil\<rparr>"

definition applyOpen :: "AlertsWorld \<Rightarrow> (nat \<Rightarrow> uuid) \<Rightarrow> Alert \<Rightarrow> Observation \<Rightarrow> ObservationTime \<Rightarrow> Actor \<Rightarrow> Decision \<Rightarrow>
  ObserveOutcome \<Rightarrow> batch_state \<Rightarrow> (Case \<times> ObserveOutcome \<times> batch_state) result" where
  "applyOpen W draw alert o' at actor d out st = (case st of (db, acc, k) \<Rightarrow>
     rbind (openEpisode W draw k db alert o' at actor (d_Seq d)) (\<lambda>(opened, evs, db').
       let acc1 = acc\<lparr>ac_events := ac_events acc @ evs, ac_enrichIDs := ac_enrichIDs acc @ [c_id opened],
                      ac_newEpisode := (ac_newEpisode acc)(al_id alert := ac_newEpisode acc (al_id alert) + 1)\<rparr>;
           out1 = out\<lparr>out_CaseOpened := True, out_Transition := TransitionID_String (d_ID d),
                      out_From := State_String (d_From d), out_To := State_String (AlertState opened)\<rparr>;
           fired = request ''fired'' alert (c_id opened) actor
       in if d_DropsAck d
          then rbind (autoUnackEvent (aw_U W) (draw (k + 2)) opened at) (\<lambda>ev.
            Inr (opened, out1, db', acc1\<lparr>ac_events := ac_events acc1 @ [ev],
                 ac_notifies := ac_notifies acc1 @ [request ''unacked'' alert (c_id opened) actor, fired]\<rparr>, k + 3))
          else Inr (opened, out1, db', acc1\<lparr>ac_notifies := ac_notifies acc1 @ [fired]\<rparr>, k + 2)))"

definition applyEdge :: "Alert \<Rightarrow> Observation \<Rightarrow> TransitionResult \<Rightarrow> Actor \<Rightarrow> ObserveOutcome \<Rightarrow>
  Store \<times> observeAccum \<Rightarrow> (Case \<times> bool \<times> ObserveOutcome \<times> Store \<times> observeAccum) result" where
  "applyEdge alert o' r actor out st = (case st of (db, acc) \<Rightarrow>
     rbind (persistTransition db r o') (\<lambda>db'.
       let acc1 = acc\<lparr>ac_events := ac_events acc @ tr_Events r\<rparr>;
           out1 = out\<lparr>out_Transition := TransitionID_String (tr_ID r), out_From := State_String (tr_From r),
                      out_To := State_String (tr_To r), out_Clamped := tr_Clamped r,
                      out_ClampSkew := tr_ClampSkew r\<rparr>;
           acc2 = (if reasonFor (tr_ID r) \<noteq> [] \<and> \<not> tr_CloseDeferred r
                   then acc1\<lparr>ac_notifies := ac_notifies acc1 @
                          [request (reasonFor (tr_ID r)) alert (c_id (tr_Case r)) actor]\<rparr>
                   else acc1)
       in Inr (tr_Case r, tr_From r \<noteq> tr_To r, out1, db', acc2)))"

definition noTransition :: "ObserveOutcome \<Rightarrow> observeAccum \<Rightarrow> observeAccum" where
  "noTransition out acc = acc\<lparr>ac_outcomes := ac_outcomes acc @ [out]\<rparr>"

text \<open>What follows the decision: the batch's view, the staged projection and the two notices.\<close>

definition settle_one :: "AlertsWorld \<Rightarrow> Alert \<Rightarrow> ObservationTime \<Rightarrow> Case \<Rightarrow> bool \<Rightarrow> ObserveOutcome \<Rightarrow> observeAccum \<Rightarrow>
  observeAccum" where
  "settle_one W alert at ac stateChanged out acc =
     (let acc1 = acc\<lparr>ac_latest := (ac_latest acc)(al_id alert \<mapsto> ac)\<rparr>;
          acc2 = stageProjection (al_id alert)
            (projectionFor alert ac at stateChanged (ac_newEpisode acc (al_id alert))) acc1;
          acc3 = queueFrame W (''case.upserted'', c_id ac, caseFramePayload (aw_U W) ac) acc2;
          acc4 = queueFrame W (''alert.upserted'', al_id alert,
            [(''alert_key'', JStr (al_key alert)), (''state'', JStr (State_String (al_state alert)))]) acc3
      in acc4\<lparr>ac_outcomes := ac_outcomes acc4 @ [out\<lparr>out_CaseID := c_id ac\<rparr>]\<rparr>)"

definition first_outcome :: "Alert \<Rightarrow> bool \<Rightarrow> ObserveOutcome" where
  "first_outcome alert created =
     \<lparr>out_AlertID = al_id alert, out_AlertKey = al_key alert, out_CaseID = uuid_Nil, out_Transition = [],
      out_From = [], out_To = [], out_AlertCreated = created, out_CaseOpened = False, out_Clamped = False,
      out_ClampSkew = 0\<rparr>"

text \<open>The edge: the command, the retention window when upstream reports the clearing, the machine, the write.\<close>

definition observe_edge :: "AlertsWorld \<Rightarrow> (nat \<Rightarrow> uuid) \<Rightarrow> Settings \<Rightarrow> Alert option \<Rightarrow> Alert \<Rightarrow> Observation \<Rightarrow>
  ObservationTime \<Rightarrow> Actor \<Rightarrow> ObserveOutcome \<Rightarrow> Case \<Rightarrow> batch_state \<Rightarrow> batch_state result" where
  "observe_edge W draw cfg prior alert o' at actor out current st = (case st of (db, acc, k) \<Rightarrow>
     let trigger = triggerFor (ob_Status o') in
     rbind (edgeCommand (draw k) o' at actor trigger cfg prior alert) (\<lambda>cmd0.
     rbind (if trigger = TriggerObserveResolved
            then rbind (caseRetention W alert) (\<lambda>w. Inr (cmd0\<lparr>cmd_CaseRetention := w\<rparr>)) else Inr cmd0) (\<lambda>cmd.
     case Apply (aw_U W) current cmd of
       Inl e \<Rightarrow> if errKind e = KindPrecondition then Inr (db, noTransition out acc, Suc k) else Inl e
     | Inr r \<Rightarrow> rbind (applyEdge alert o' r actor out (db, acc)) (\<lambda>(ac, changed, out1, db', acc1).
         Inr (db', settle_one W alert at ac changed out1 acc1, Suc k)))))"

definition created_event :: "AlertsWorld \<Rightarrow> (nat \<Rightarrow> uuid) \<Rightarrow> Alert \<Rightarrow> bool \<Rightarrow> ObservationTime \<Rightarrow> Actor \<Rightarrow>
  observeAccum \<times> nat \<Rightarrow> (observeAccum \<times> nat) result" where
  "created_event W draw alert created at actor st = (case st of (acc, k) \<Rightarrow>
     if created
     then rbind (alertCreatedEvent (aw_U W) (draw k) alert at actor) (\<lambda>ev.
       Inr (acc\<lparr>ac_events := ac_events acc @ [ev]\<rparr>, Suc k))
     else Inr (acc, k))"

definition observeOne :: "AlertsWorld \<Rightarrow> (nat \<Rightarrow> uuid) \<Rightarrow> Settings \<Rightarrow> (AlertKey \<times> Alert) list \<Rightarrow> batch_state \<Rightarrow>
  Observation \<times> Alert \<times> bool \<Rightarrow> batch_state result" where
  "observeOne W draw cfg prior st x = (case (st, x) of ((db, acc, k), (o', alert, created)) \<Rightarrow>
     rbind (observationTime o' (aw_now W)) (\<lambda>at.
     rbind (actorFor (ob_Source o')) (\<lambda>actor.
     rbind (created_event W draw alert created at actor (acc, k)) (\<lambda>(acc1, k1).
     let current = (case ac_latest acc1 (al_id alert) of Some c \<Rightarrow> c | None \<Rightarrow> zeroCase);
         out = first_outcome alert created
     in case Decide current (routingCommand (triggerFor (ob_Status o')) actor at cfg) of
          Inl e \<Rightarrow> if errKind e = KindPrecondition then Inr (db, noTransition out acc1, k1) else Inl e
        | Inr d \<Rightarrow>
            if d_OpensEpisode d
            then rbind (applyOpen W draw alert o' at actor d out (db, acc1, k1)) (\<lambda>(ac, out1, db', acc2, k2).
              Inr (db', settle_one W alert at ac True out1 acc2, k2))
            else observe_edge W draw cfg (map_of prior (al_key alert)) alert o' at actor out current
              (db, acc1, k1)))))"

section \<open>The batch\<close>

definition batch_repeats :: "string \<Rightarrow> uuid list \<Rightarrow> observeAccum \<Rightarrow> observeAccum" where
  "batch_repeats reason ids acc =
     (if reason = [] then acc
      else acc\<lparr>ac_notifies := ac_notifies acc @
        map (\<lambda>c. \<lparr>nr_caseID = c_id c, nr_reason = reason, nr_alertID = None, nr_actor = ''ingest'',
                  nr_occasionID = uuid_Nil\<rparr>)
          (filter (\<lambda>c. IsZero (c_endedAt c)) (List.map_filter (ac_latest acc) ids))\<rparr>)"

definition flushProjections :: "Store \<Rightarrow> observeAccum \<Rightarrow> Store result" where
  "flushProjections db acc =
     SetProjectionBatch db (List.map_filter (\<lambda>i. map_option (Pair i) (ac_projections acc i)) (ac_projectionOrder acc))"

definition refuseRetired :: "Event list \<Rightarrow> error option" where
  "refuseRetired evs =
     (if list_ex (\<lambda>e. Retired (ev_typ e)) evs then Some (errs_New KindInternal ''event_type_retired'') else None)"

definition appendEventsBatched :: "AlertsWorld \<Rightarrow> Store \<Rightarrow> observeAccum \<Rightarrow> (nat \<times> Store \<times> observeAccum) result" where
  "appendEventsBatched W db acc =
     (if ac_events acc = [] then Inr (0, db, acc)
      else or_fail (refuseRetired (ac_events acc))
        (rbind (AppendBatch db (ac_events acc)) (\<lambda>(n, db').
          Inr (n, db', fold (\<lambda>e. queueFrame W (''event.appended'', ev_id e, eventFramePayload (aw_U W) e))
                    (ac_events acc) acc))))"

definition flushFrames :: "AlertsWorld \<Rightarrow> Store \<Rightarrow> StreamFrame list \<Rightarrow> Store" where
  "flushFrames W db frames = (if aw_stream W then db\<lparr>st_frames := st_frames db @ frames\<rparr> else db)"

definition enqueueEnrich :: "AlertsWorld \<Rightarrow> Store \<Rightarrow> uuid list \<Rightarrow> nat \<times> Store" where
  "enqueueEnrich W db ids =
     (if \<not> aw_enqueuer W \<or> ids = [] then (0, db)
      else (length ids, db\<lparr>st_jobs := st_jobs db @ map (\<lambda>i. EnrichRun i ''inline'') ids\<rparr>))"

definition announceOpenings :: "AlertsWorld \<Rightarrow> Store \<Rightarrow> uuid list \<Rightarrow> Store result" where
  "announceOpenings W db ids =
     (case aw_caseOpenings W of None \<Rightarrow> Inr db
      | Some f \<Rightarrow> if ids = [] then Inr db else or_fail (f ids) (Inr (db\<lparr>st_opened := st_opened db @ ids\<rparr>)))"

definition announceEndings :: "AlertsWorld \<Rightarrow> Store \<Rightarrow> notifyRequest list \<Rightarrow> Store result" where
  "announceEndings W db reqs =
     (case aw_caseEndings W of None \<Rightarrow> Inr db
      | Some f \<Rightarrow>
          let ended = map nr_caseID (filter (\<lambda>r. nr_caseID r \<noteq> uuid_Nil \<and>
                (nr_reason r = ''all_resolved'' \<or> nr_reason r = ''expired'')) reqs)
          in if ended = [] then Inr db else or_fail (f ended) (Inr (db\<lparr>st_ended := st_ended db @ ended\<rparr>)))"

definition PreNotificationBudget :: duration where "PreNotificationBudget = 2000 * Millisecond"

definition notify_job :: "AlertsWorld \<Rightarrow> uuid list \<Rightarrow> notifyRequest \<Rightarrow> Job" where
  "notify_job W waiting r = NotifyEvaluate (nr_caseID r) (nr_reason r) 1 (nr_occasionID r) (nr_alertID r) (nr_actor r)
     (if nr_reason r = ''fired'' \<and> nr_caseID r \<in> set waiting then Some (aw_now W + PreNotificationBudget) else None)"

definition enqueueNotify :: "AlertsWorld \<Rightarrow> Store \<Rightarrow> notifyRequest list \<Rightarrow> uuid list \<Rightarrow> (nat \<times> Store) result" where
  "enqueueNotify W db reqs waiting =
     rbind (announceEndings W db reqs) (\<lambda>db1.
       if \<not> aw_enqueuer W \<or> reqs = [] then Inr (0, db1)
       else let jobs = map (notify_job W waiting) (filter (\<lambda>r. nr_caseID r \<noteq> uuid_Nil \<and> nr_reason r \<noteq> []) reqs)
            in Inr (length jobs, db1\<lparr>st_jobs := st_jobs db1 @ jobs\<rparr>))"

record ObserveResult =
  or_Outcomes :: "ObserveOutcome list"
  or_EventsWritten :: nat
  or_JobsEnqueued :: nat

definition finish_batch :: "AlertsWorld \<Rightarrow> string \<Rightarrow> uuid list \<Rightarrow> batch_state \<Rightarrow> (ObserveResult \<times> Store \<times> nat) result" where
  "finish_batch W reason ids st = (case st of (db0, acc0, k) \<Rightarrow>
     let acc = batch_repeats reason ids acc0 in
     rbind (flushProjections db0 acc) (\<lambda>db1.
     rbind (appendEventsBatched W db1 acc) (\<lambda>(written, db2, acc1).
     case enqueueEnrich W (flushFrames W db2 (ac_frames acc1)) (ac_enrichIDs acc1) of (enrichN, db3) \<Rightarrow>
     rbind (announceOpenings W db3 (ac_enrichIDs acc1)) (\<lambda>db4.
     rbind (enqueueNotify W db4 (ac_notifies acc1) (if enrichN > 0 then ac_enrichIDs acc1 else [])) (\<lambda>(notifyN, db5).
       Inr (\<lparr>or_Outcomes = ac_outcomes acc1, or_EventsWritten = written, or_JobsEnqueued = enrichN + notifyN\<rparr>,
            db5, k))))))"

definition first_accum :: "(uuid \<times> Case) list \<Rightarrow> observeAccum" where
  "first_accum latest = \<lparr>ac_latest = map_of latest, ac_newEpisode = (\<lambda>_. 0), ac_projections = Map.empty,
     ac_projectionOrder = [], ac_frames = [], ac_events = [], ac_notifies = [], ac_enrichIDs = [], ac_outcomes = []\<rparr>"

text \<open>\<^verbatim>\<open>Service.observe\<close>, the body of the transaction.\<close>

definition observe_tx :: "AlertsWorld \<Rightarrow> (nat \<Rightarrow> uuid) \<Rightarrow> string \<Rightarrow> Store \<Rightarrow> Observation list \<Rightarrow>
  (ObserveResult \<times> Store \<times> nat) result" where
  "observe_tx W draw reason db obs =
     rbind (priorAlerts W db obs) (\<lambda>prior.
     rbind (buildUpserts draw 0 obs) (\<lambda>upserts.
     rbind (UpsertBatch (aw_org W) db upserts) (\<lambda>(results, db1).
     let ids = distinct_keys (map (\<lambda>r. al_id (fst r)) results) in
     rbind (latestCases W db1 ids) (\<lambda>latest.
     rbind (run_steps (observeOne W draw (lifecycleSettings W) prior) (db1, first_accum latest, length obs)
              (zip obs results))
       (finish_batch W reason ids)))))"

text \<open>
  \<^verbatim>\<open>ObserveBatch\<close>: the retry loop. \<open>dbs n\<close> is the committed store the transaction of attempt \<open>n\<close> starts from
  and \<open>draws n\<close> its supply of ids; inside a caller's transaction (\<open>nested\<close>) there is no retry.
\<close>

definition observeMaxAttempts :: nat where "observeMaxAttempts = 3"

function observe_attempts :: "AlertsWorld \<Rightarrow> bool \<Rightarrow> (nat \<Rightarrow> nat \<Rightarrow> uuid) \<Rightarrow> string \<Rightarrow> (nat \<Rightarrow> Store) \<Rightarrow> Observation list \<Rightarrow>
  nat \<Rightarrow> (ObserveResult \<times> Store \<times> nat) result" where
  "observe_attempts W nested draws reason dbs obs attempt =
     (case observe_tx W (draws attempt) reason (dbs attempt) obs of
        Inr r \<Rightarrow> Inr r
      | Inl e \<Rightarrow>
          if errKind e \<noteq> KindConflict \<or> attempt \<ge> observeMaxAttempts \<or> nested then Inl e
          else observe_attempts W nested draws reason dbs obs (Suc attempt))"
  by pat_completeness auto

termination
  by (relation "measure (\<lambda>(_, _, _, _, _, _, n). observeMaxAttempts - n)") auto

definition ObserveBatch :: "AlertsWorld \<Rightarrow> bool \<Rightarrow> (nat \<Rightarrow> nat \<Rightarrow> uuid) \<Rightarrow> string \<Rightarrow> (nat \<Rightarrow> Store) \<Rightarrow> Observation list \<Rightarrow>
  (ObserveResult \<times> Store \<times> nat) result" where
  "ObserveBatch W nested draws reason dbs obs =
     (if obs = [] then Inr (\<lparr>or_Outcomes = [], or_EventsWritten = 0, or_JobsEnqueued = 0\<rparr>, dbs 1, 0)
      else observe_attempts W nested draws reason dbs obs 1)"

end
