(* ===== verification/Case_Sweep.thy ===== *)
theory Case_Sweep
  imports Observe
begin

text \<open>
  The other writers of a case: the sweeps of \<^verbatim>\<open>internal/alerts/service/sweep.go\<close> (the reaper and the
  delayed close, with the candidate queries of \<^verbatim>\<open>repository/case.go\<close>) and the acknowledgement of
  \<^verbatim>\<open>internal/alerts/service/actions.go\<close>.

  A sweep lists candidates and then gives each its own transaction, which reads the row again and
  decides anew; an error there is logged and the next candidate is taken, so the store of a failed
  transaction is the one it started from.
\<close>

section \<open>Writing outside a batch\<close>

definition publish :: "AlertsWorld \<Rightarrow> StreamFrame \<Rightarrow> Store \<Rightarrow> Store" where
  "publish W f db = (if aw_stream W then db\<lparr>st_frames := st_frames db @ [f]\<rparr> else db)"

definition publishCase :: "AlertsWorld \<Rightarrow> Case \<Rightarrow> Store \<Rightarrow> Store" where
  "publishCase W c db = publish W (''case.upserted'', c_id c, caseFramePayload (aw_U W) c) db"

definition publishAlert :: "AlertsWorld \<Rightarrow> uuid \<Rightarrow> payload \<Rightarrow> Store \<Rightarrow> Store" where
  "publishAlert W i extra db = publish W (''alert.upserted'', i, extra) db"

definition publishEvent :: "AlertsWorld \<Rightarrow> Event \<Rightarrow> Store \<Rightarrow> Store" where
  "publishEvent W e db = publish W (''event.appended'', ev_id e, eventFramePayload (aw_U W) e) db"

definition appendEvents :: "AlertsWorld \<Rightarrow> Store \<Rightarrow> Event list \<Rightarrow> (nat \<times> Store) result" where
  "appendEvents W db evs =
     (if evs = [] then Inr (0, db)
      else or_fail (refuseRetired evs) (rbind (AppendBatch db evs) (\<lambda>(n, db'). Inr (n, fold (publishEvent W) evs db'))))"

definition projectFromCase :: "Store \<Rightarrow> Alert \<Rightarrow> Case \<Rightarrow> ObservationTime \<Rightarrow> bool \<Rightarrow> int \<Rightarrow> Store result" where
  "projectFromCase db alert ac at stateChanged newEpisodes =
     SetProjection db (al_id alert) (projectionFor alert ac at stateChanged newEpisodes)"

text \<open>What both sweeps do once the compare-and-set was won: projection, timeline, notices, announcement.\<close>

definition record_end :: "AlertsWorld \<Rightarrow> Store \<Rightarrow> TransitionResult \<Rightarrow> ObservationTime \<Rightarrow> State \<Rightarrow> string \<Rightarrow> Store result" where
  "record_end W db r at state reason =
     rbind (Alert_GetByID db (c_alertID (tr_Case r))) (\<lambda>alert.
     rbind (projectFromCase db alert (tr_Case r) at True 0) (\<lambda>db1.
     rbind (appendEvents W db1 (tr_Events r)) (\<lambda>(_, db2).
     rbind (enqueueNotify W
              (publishAlert W (al_id alert) [(''state'', JStr (State_String state))] (publishCase W (tr_Case r) db2))
              [\<lparr>nr_caseID = c_id (tr_Case r), nr_reason = reason, nr_alertID = Some (al_id alert),
                nr_actor = ''reaper'', nr_occasionID = uuid_Nil\<rparr>] [])
       (\<lambda>(_, db3). Inr db3))))"

section \<open>The reaper\<close>

definition unreapable :: "Case \<Rightarrow> time \<Rightarrow> duration \<Rightarrow> string" where
  "unreapable row now grace =
     (if ClosePending row then ''case holds an upstream resolve''
      else if \<not> Case_IsOpen row then ''case is already '' @ State_String (AlertState row)
      else if IsZero (c_sourceEndsAt row) then ''no upstream end time''
      else if \<not> now > c_sourceEndsAt row + grace then ''resolve_grace has not elapsed since source_ends_at''
      else [])"

definition unexpirable :: "Case \<Rightarrow> time \<Rightarrow> duration \<Rightarrow> ResolveReason \<Rightarrow> CaseSources \<Rightarrow> uuid list \<Rightarrow> string" where
  "unexpirable row now grace reason cluster proven =
     (if ClosePending row then ''case holds an upstream resolve''
      else if \<not> Case_IsOpen row then ''case is already '' @ State_String (AlertState row)
      else case reason of
        ResolveTimeout \<Rightarrow>
          (if \<not> SameLiveSet cluster proven
           then ''the sources proven healthy are no longer the cluster's live sources'' else [])
      | ResolveSilent \<Rightarrow>
          (if \<not> SameLiveSet cluster proven
           then ''the sources proven healthy are no longer the cluster's live sources''
           else if cs_MaxSilence cluster \<le> 0 then ''a live source turned max_silence_s off''
           else if \<not> now > c_lastObservedAt row + cs_MaxSilence cluster then ''heard about within max_silence_s''
           else [])
      | ResolveSourceRemoved \<Rightarrow>
          (if cs_Live cluster > 0 then ''a live source feeds the cluster again''
           else if cs_Removed cluster = 0 then ''no source was ever removed from the cluster''
           else if \<not> cs_LastRemovedAt cluster < now - grace
           then ''a source was removed from the cluster within resolve_grace''
           else [])
      | _ \<Rightarrow> ''not an expiry: '' @ ResolveReason_String reason)"

definition expireCommand :: "Actor \<Rightarrow> ObservationTime \<Rightarrow> uuid \<Rightarrow> Settings \<Rightarrow> ResolveReason \<Rightarrow> CaseSources \<Rightarrow>
  TransitionCommand" where
  "expireCommand actor at eventID cfg reason cluster =
     (routingCommand TriggerReap actor at cfg)\<lparr>cmd_EventID := eventID,
       cmd_SourceHealthy := (reason \<noteq> ResolveSourceRemoved), cmd_ExpireAs := reason,
       cmd_MaxSilence := cs_MaxSilence cluster,
       cmd_NoLiveSource := (cs_Live cluster = 0 \<and> cs_Removed cluster > 0)\<rparr>"

text \<open>
  \<^verbatim>\<open>expire\<close>, one transaction: the row is read again, every reason to stand down leaves the store as it is, and
  a lost compare-and-set abandons the expiry.
\<close>

definition expire :: "AlertsWorld \<Rightarrow> uuid \<Rightarrow> Store \<Rightarrow> uuid \<Rightarrow> time \<Rightarrow> Settings \<Rightarrow> ResolveReason \<Rightarrow> uuid list \<Rightarrow>
  (bool \<times> Store) result" where
  "expire W eventID db candidate now cfg reason proven =
     rbind (SystemActor ActorReaper) (\<lambda>actor.
     rbind (NewObservationTime now now) (\<lambda>at.
     case Case_GetByID db candidate of
       Inl e \<Rightarrow> if errKind e = KindNotFound then Inr (False, db) else Inl e
     | Inr fresh \<Rightarrow>
         if reason = ResolveTimeout \<and> unreapable fresh now (set_ResolveGrace cfg) \<noteq> [] then Inr (False, db)
         else case Sources db (c_id fresh) of
           Inl e \<Rightarrow> if errKind e = KindNotFound then Inr (False, db) else Inl e
         | Inr cluster \<Rightarrow>
             if unexpirable fresh now (set_ResolveGrace cfg) reason cluster proven \<noteq> [] then Inr (False, db)
             else case Apply (aw_U W) fresh (expireCommand actor at eventID cfg reason cluster) of
               Inl e \<Rightarrow> if errKind e = KindPrecondition then Inr (False, db) else Inl e
             | Inr r \<Rightarrow>
                 if tr_To r \<noteq> StateExpired \<or> c_resolveReason (tr_Case r) \<noteq> reason \<or> \<not> IsExpiry reason
                 then Inl (errs_New KindInternal ''reaper_would_fabricate_resolution'')
                 else case Case_Transition db (c_id (tr_Case r)) (transitionOf r noSuppressedBy) of
                   Inl e \<Rightarrow> if errKind e = KindConflict then Inr (False, db) else Inl e
                 | Inr db1 \<Rightarrow> rbind (record_end W db1 r at StateExpired ''expired'') (\<lambda>db2. Inr (True, db2))))"

text \<open>The candidate queries. The limits are those of \<^verbatim>\<open>db.ClampLimit\<close>.\<close>

definition ClampLimit :: "int \<Rightarrow> nat" where
  "ClampLimit n = (if n \<le> 0 then 50 else if n > 200 then 200 else nat n)"

definition DefaultSweepLimit :: int where "DefaultSweepLimit = 200"

definition cluster_sources :: "Store \<Rightarrow> Case \<Rightarrow> SourceRow list" where
  "cluster_sources db c =
     (case List.find (\<lambda>a. al_id a = c_alertID c) (st_alerts db) of None \<Rightarrow> []
      | Some a \<Rightarrow> filter (\<lambda>s. so_ClusterID s = al_clusterID a) (live_sources (st_sources db)))"

definition liveSourcesHealthy :: "Store \<Rightarrow> Case \<Rightarrow> bool" where
  "liveSourcesHealthy db c \<longleftrightarrow> cluster_sources db c \<noteq> [] \<and> list_all so_Healthy (cluster_sources db c)"

definition ReapCandidates :: "Store \<Rightarrow> time \<Rightarrow> int \<Rightarrow> Case list result" where
  "ReapCandidates db before limit =
     (if IsZero before then Inl (errs_New KindInternal ''reap_bound_missing'')
      else read_all case_toDomain (take (ClampLimit limit) (sort_key c_sourceEndsAt (filter (\<lambda>c.
        c_endedAt c = 0 \<and> c_sourceEndsAt c \<noteq> 0 \<and> c_sourceEndsAt c < before \<and> c_resolvePendingAt c = 0 \<and>
        liveSourcesHealthy db c) (st_cases db)))))"

definition SilentCandidates :: "Store \<Rightarrow> time \<Rightarrow> int \<Rightarrow> Case list result" where
  "SilentCandidates db now limit =
     (if IsZero now then Inl (errs_New KindInternal ''silent_bound_missing'')
      else read_all case_toDomain (take (ClampLimit limit) (sort_key c_lastObservedAt (filter (\<lambda>c.
        c_endedAt c = 0 \<and> c_resolvePendingAt c = 0 \<and> c_lastObservedAt c < now - Hour \<and>
        liveSourcesHealthy db c \<and>
        (case effectiveSilence (cluster_sources db c) of None \<Rightarrow> False
         | Some s \<Rightarrow> c_lastObservedAt c + s * Second < now)) (st_cases db)))))"

definition orphanedClusters :: "Store \<Rightarrow> time \<Rightarrow> uuid list" where
  "orphanedClusters db removedBefore =
     filter (\<lambda>cl. list_all (\<lambda>s. so_ClusterID s = cl \<longrightarrow>
         (case so_DeletedAt s of None \<Rightarrow> False | Some t \<Rightarrow> t < removedBefore)) (st_sources db))
       (remdups (map so_ClusterID (st_sources db)))"

definition SourceRemovedCandidates :: "Store \<Rightarrow> time \<Rightarrow> int \<Rightarrow> Case list result" where
  "SourceRemovedCandidates db removedBefore limit =
     (if IsZero removedBefore then Inl (errs_New KindInternal ''source_removed_bound_missing'')
      else let clusters = orphanedClusters db removedBefore in
        if clusters = [] then Inr []
        else read_all case_toDomain (take (ClampLimit limit) (sort_key c_lastObservedAt (filter (\<lambda>c.
          c_endedAt c = 0 \<and> c_resolvePendingAt c = 0 \<and>
          list_ex (\<lambda>a. al_id a = c_alertID c \<and> al_clusterID a \<in> set clusters) (st_alerts db)) (st_cases db)))))"

definition CloseDueCandidates :: "Store \<Rightarrow> time \<Rightarrow> int \<Rightarrow> Case list result" where
  "CloseDueCandidates db asOf limit =
     (if IsZero asOf then Inl (errs_New KindInternal ''close_due_bound_missing'')
      else read_all case_toDomain (take (ClampLimit limit) (sort_key c_resolvePendingAt (filter (\<lambda>c.
        c_resolvePendingAt c \<noteq> 0 \<and> c_resolvePendingAt c \<le> asOf) (st_cases db)))))"

definition SourceIDs :: "Store \<Rightarrow> uuid list \<Rightarrow> uuid \<Rightarrow> uuid list" where
  "SourceIDs db ids i =
     (if i \<notin> set ids then []
      else case List.find (\<lambda>c. c_id c = i) (st_cases db) of None \<Rightarrow> []
        | Some c \<Rightarrow> sort (map so_ID (cluster_sources db c)))"

record ReapResult =
  rr_Considered :: nat
  rr_Expired :: nat
  rr_Held :: nat
  rr_HeldSources :: "uuid list"
  rr_Superseded :: nat
  rr_Silent :: nat
  rr_SourceRemoved :: nat
  rr_seen :: "uuid list"

definition newReapTally :: ReapResult where
  "newReapTally = \<lparr>rr_Considered = 0, rr_Expired = 0, rr_Held = 0, rr_HeldSources = [], rr_Superseded = 0,
     rr_Silent = 0, rr_SourceRemoved = 0, rr_seen = []\<rparr>"

definition reap_consider :: "uuid \<Rightarrow> ReapResult \<Rightarrow> bool \<times> ReapResult" where
  "reap_consider i t =
     (if i \<in> set (rr_seen t) then (False, t)
      else (True, t\<lparr>rr_seen := i # rr_seen t, rr_Considered := rr_Considered t + 1\<rparr>))"

definition reap_hold :: "uuid list \<Rightarrow> ReapResult \<Rightarrow> ReapResult" where
  "reap_hold blind t = t\<lparr>rr_Held := rr_Held t + 1, rr_HeldSources := fold List.insert blind (rr_HeldSources t)\<rparr>"

definition record_expiry :: "ResolveReason \<Rightarrow> bool result \<Rightarrow> ReapResult \<Rightarrow> ReapResult" where
  "record_expiry reason r t =
     (case r of
        Inl _ \<Rightarrow> t
      | Inr False \<Rightarrow> t\<lparr>rr_Superseded := rr_Superseded t + 1\<rparr>
      | Inr True \<Rightarrow>
          let t1 = t\<lparr>rr_Expired := rr_Expired t + 1\<rparr> in
          if reason = ResolveSilent then t1\<lparr>rr_Silent := rr_Silent t1 + 1\<rparr>
          else if reason = ResolveSourceRemoved then t1\<lparr>rr_SourceRemoved := rr_SourceRemoved t1 + 1\<rparr>
          else t1)"

text \<open>\<^verbatim>\<open>tryExpire\<close>: an error is logged and counted nowhere; its transaction left nothing behind.\<close>

definition tryExpire :: "AlertsWorld \<Rightarrow> (nat \<Rightarrow> uuid) \<Rightarrow> time \<Rightarrow> Settings \<Rightarrow> ResolveReason \<Rightarrow> uuid list \<Rightarrow> uuid \<Rightarrow>
  Store \<times> ReapResult \<times> nat \<Rightarrow> Store \<times> ReapResult \<times> nat" where
  "tryExpire W draw now cfg reason proven i st = (case st of (db, t, k) \<Rightarrow>
     case expire W (draw k) db i now cfg reason proven of
       Inl e \<Rightarrow> (db, record_expiry reason (Inl e) t, Suc k)
     | Inr (expired, db') \<Rightarrow> (db', record_expiry reason (Inr expired) t, Suc k))"

definition resolveSources :: "AlertsWorld \<Rightarrow> Store \<Rightarrow> Case list \<Rightarrow> uuid \<Rightarrow> uuid list" where
  "resolveSources W db candidates =
     (if aw_occSources W then SourceIDs db (map c_id candidates) else (\<lambda>_. []))"

definition healthBySource :: "AlertsWorld \<Rightarrow> uuid list \<Rightarrow> uuid \<Rightarrow> bool" where
  "healthBySource W sources =
     (case aw_health W of None \<Rightarrow> (\<lambda>_. False)
      | Some f \<Rightarrow>
          let known = distinct_keys (filter (\<lambda>s. s \<noteq> uuid_Nil) sources) in
          if known = [] then (\<lambda>_. False)
          else case f known of Inl _ \<Rightarrow> (\<lambda>_. False) | Inr healthy \<Rightarrow> healthy)"

fun reap_removed :: "AlertsWorld \<Rightarrow> (nat \<Rightarrow> uuid) \<Rightarrow> time \<Rightarrow> Settings \<Rightarrow> Case list \<Rightarrow> Store \<times> ReapResult \<times> nat \<Rightarrow>
  Store \<times> ReapResult \<times> nat" where
  "reap_removed W draw now cfg [] st = st"
| "reap_removed W draw now cfg (c # cs) (db, t, k) =
     reap_removed W draw now cfg cs
       (tryExpire W draw now cfg ResolveSourceRemoved [] (c_id c) (db, snd (reap_consider (c_id c) t), k))"

fun reap_guarded :: "AlertsWorld \<Rightarrow> (nat \<Rightarrow> uuid) \<Rightarrow> time \<Rightarrow> Settings \<Rightarrow> (uuid \<Rightarrow> uuid list) \<Rightarrow> (uuid \<Rightarrow> bool) \<Rightarrow>
  (Case \<times> ResolveReason) list \<Rightarrow> Store \<times> ReapResult \<times> nat \<Rightarrow> Store \<times> ReapResult \<times> nat" where
  "reap_guarded W draw now cfg sources healthy [] st = st"
| "reap_guarded W draw now cfg sources healthy ((c, reason) # gs) (db, t, k) =
     (case reap_consider (c_id c) t of (new, t1) \<Rightarrow>
      if \<not> new then reap_guarded W draw now cfg sources healthy gs (db, t1, k)
      else let srcs = sources (c_id c); blind = filter (\<lambda>s. \<not> healthy s) srcs in
        if srcs = [] then reap_guarded W draw now cfg sources healthy gs (db, reap_hold [] t1, k)
        else if blind \<noteq> [] then reap_guarded W draw now cfg sources healthy gs (db, reap_hold blind t1, k)
        else reap_guarded W draw now cfg sources healthy gs
               (tryExpire W draw now cfg reason srcs (c_id c) (db, t1, k)))"

definition reapGuarded :: "AlertsWorld \<Rightarrow> (nat \<Rightarrow> uuid) \<Rightarrow> time \<Rightarrow> Settings \<Rightarrow> (Case \<times> ResolveReason) list \<Rightarrow>
  Store \<times> ReapResult \<times> nat \<Rightarrow> Store \<times> ReapResult \<times> nat" where
  "reapGuarded W draw now cfg guarded st =
     (let sources = resolveSources W (fst st) (map fst guarded);
          healthy = healthBySource W (concat (map sources (distinct_keys (map (c_id \<circ> fst) guarded))))
      in reap_guarded W draw now cfg sources healthy guarded st)"

definition Reap :: "AlertsWorld \<Rightarrow> (nat \<Rightarrow> uuid) \<Rightarrow> Store \<Rightarrow> int \<Rightarrow> (ReapResult \<times> Store) result" where
  "Reap W draw db limit0 =
     (let limit = (if limit0 \<le> 0 then DefaultSweepLimit else limit0);
          cfg = lifecycleSettings W; now = aw_now W; before = now - set_ResolveGrace cfg in
      rbind (if aw_expireUnheard W then SourceRemovedCandidates db before limit else Inr []) (\<lambda>removed.
      case reap_removed W draw now cfg removed (db, newReapTally, 0) of (db1, t1, k1) \<Rightarrow>
      rbind (ReapCandidates db1 before limit) (\<lambda>candidates.
      rbind (if aw_expireUnheard W then SilentCandidates db1 now limit else Inr []) (\<lambda>silent.
      case reapGuarded W draw now cfg
             (map (\<lambda>c. (c, ResolveTimeout)) candidates @ map (\<lambda>c. (c, ResolveSilent)) silent) (db1, t1, k1) of
        (db2, t2, _) \<Rightarrow> Inr (t2, db2)))))"

section \<open>The delayed close\<close>

definition unclosable :: "Case \<Rightarrow> time \<Rightarrow> string" where
  "unclosable row now =
     (if \<not> Case_IsOpen row then ''case is already '' @ State_String (AlertState row)
      else if \<not> ClosePending row then ''the alert re-fired inside the retention window''
      else if \<not> Alert_Case.CloseDue row now then ''the retention window has not elapsed''
      else [])"

definition closeDue :: "AlertsWorld \<Rightarrow> uuid \<Rightarrow> Store \<Rightarrow> uuid \<Rightarrow> time \<Rightarrow> (bool \<times> Store) result" where
  "closeDue W eventID db candidate now =
     rbind (SystemActor ActorReaper) (\<lambda>actor.
     rbind (NewObservationTime now now) (\<lambda>at.
     case Case_GetByID db candidate of
       Inl e \<Rightarrow> if errKind e = KindNotFound then Inr (False, db) else Inl e
     | Inr fresh \<Rightarrow>
         if unclosable fresh now \<noteq> [] then Inr (False, db)
         else case Apply (aw_U W) fresh
               ((routingCommand TriggerCloseDue actor at DefaultSettings)\<lparr>cmd_ResolveGrace := 0,
                  cmd_EventID := eventID\<rparr>) of
           Inl e \<Rightarrow> if errKind e = KindPrecondition then Inr (False, db) else Inl e
         | Inr r \<Rightarrow>
             if tr_To r \<noteq> StateResolved \<or> c_resolveReason (tr_Case r) \<noteq> ResolveUpstream
             then Inl (errs_New KindInternal ''delayed_close_would_change_meaning'')
             else case Case_Transition db (c_id (tr_Case r)) (transitionOf r noSuppressedBy) of
               Inl e \<Rightarrow> if errKind e = KindConflict then Inr (False, db) else Inl e
             | Inr db1 \<Rightarrow> rbind (record_end W db1 r at StateResolved ''all_resolved'') (\<lambda>db2. Inr (True, db2))))"

record CloseDueResult =
  cd_Considered :: nat
  cd_Closed :: nat
  cd_Superseded :: nat

fun close_due_loop :: "AlertsWorld \<Rightarrow> (nat \<Rightarrow> uuid) \<Rightarrow> time \<Rightarrow> Case list \<Rightarrow> Store \<times> CloseDueResult \<times> nat \<Rightarrow>
  Store \<times> CloseDueResult \<times> nat" where
  "close_due_loop W draw now [] st = st"
| "close_due_loop W draw now (c # cs) (db, t, k) =
     (case closeDue W (draw k) db (c_id c) now of
        Inl _ \<Rightarrow> close_due_loop W draw now cs (db, t, Suc k)
      | Inr (True, db') \<Rightarrow> close_due_loop W draw now cs (db', t\<lparr>cd_Closed := cd_Closed t + 1\<rparr>, Suc k)
      | Inr (False, db') \<Rightarrow> close_due_loop W draw now cs (db', t\<lparr>cd_Superseded := cd_Superseded t + 1\<rparr>, Suc k))"

definition Service_CloseDue :: "AlertsWorld \<Rightarrow> (nat \<Rightarrow> uuid) \<Rightarrow> Store \<Rightarrow> int \<Rightarrow> (CloseDueResult \<times> Store) result" where
  "Service_CloseDue W draw db limit0 =
     (let limit = (if limit0 \<le> 0 then DefaultSweepLimit else limit0) in
      rbind (CloseDueCandidates db (aw_now W) limit) (\<lambda>candidates.
        case close_due_loop W draw (aw_now W) candidates
               (db, \<lparr>cd_Considered = length candidates, cd_Closed = 0, cd_Superseded = 0\<rparr>, 0) of
          (db', t, _) \<Rightarrow> Inr (t, db')))"

section \<open>Acknowledging\<close>

definition ack_change :: "bool \<Rightarrow> string \<Rightarrow> Case \<Rightarrow> AckChange" where
  "ack_change ack note' nxt =
     \<lparr>ak_To = c_ackState nxt, ak_At = c_ackedAt nxt,
      ak_By = (if ack \<and> c_ackedBy nxt \<noteq> uuid_Nil then Some (c_ackedBy nxt) else None),
      ak_ByLabel = (if ack then Some (c_ackedByLabel nxt) else None),
      ak_Note = (if ack \<and> note' \<noteq> [] then Some note' else None)\<rparr>"

text \<open>The projection \<^verbatim>\<open>setAck\<close> writes names five fields; the two it does not name are the zero values of the literal.\<close>

definition ack_projection :: "Alert \<Rightarrow> Case \<Rightarrow> AlertProjection" where
  "ack_projection alert nxt =
     \<lparr>pr_State = al_state alert, pr_SuppressionReason = SuppressionZero, pr_SuppressedBy = noSuppressedBy,
      pr_CurrentCaseID = Some (c_id nxt), pr_LastSeenAt = al_lastSeenAt alert,
      pr_LastStateChangeAt = al_lastStateChangeAt alert, pr_TotalCases = al_totalCases alert\<rparr>"

definition setAck :: "AlertsWorld \<Rightarrow> uuid \<Rightarrow> Store \<Rightarrow> uuid \<Rightarrow> Actor \<Rightarrow> string \<Rightarrow> bool \<Rightarrow> string \<Rightarrow> (Case \<times> Store) result" where
  "setAck W eventID db caseID actor note' ack reason =
     (if Actor_IsZero actor \<or> \<not> IsHuman (a_kind actor) then Inl (errs_New KindValidation ''actor_required'')
      else rbind (Case_GetByID db caseID) (\<lambda>ac.
      rbind (Alert_GetByID db (c_alertID ac)) (\<lambda>alert.
      if \<not> Case_IsOpen ac then Inl (errs_New KindPrecondition ''case_terminal'')
      else rbind (NewObservationTime (aw_now W) (aw_now W)) (\<lambda>at.
      let cmd = \<lparr>ack_Actor = actor, ack_At = at, ack_EventID = eventID, ack_Note = note', ack_Reason = reason,
                 ack_Payload = []\<rparr> in
      rbind (if ack then Acknowledge (aw_U W) ac cmd else Unacknowledge (aw_U W) ac cmd) (\<lambda>(nxt, evs).
      rbind (SetAck db (c_id nxt) (ack_change ack note' nxt) (c_stateVersion ac)) (\<lambda>db1.
      rbind (SetProjection db1 (al_id alert) (ack_projection alert nxt)) (\<lambda>db2.
      rbind (appendEvents W db2 evs) (\<lambda>(_, db3).
      rbind (enqueueNotify W
               (publishAlert W (al_id alert) [(''ack'', JStr (AckState_String (c_ackState nxt)))]
                 (publishCase W nxt db3))
               [\<lparr>nr_caseID = c_id nxt, nr_reason = (if ack then ''acked'' else ''unacked''),
                 nr_alertID = Some (al_id alert), nr_actor = a_label actor, nr_occasionID = uuid_Nil\<rparr>] [])
        (\<lambda>(_, db4). Inr (nxt, db4))))))))))"

definition Service_Acknowledge :: "AlertsWorld \<Rightarrow> uuid \<Rightarrow> Store \<Rightarrow> uuid \<Rightarrow> Actor \<Rightarrow> string \<Rightarrow> (Case \<times> Store) result" where
  "Service_Acknowledge W eventID db caseID actor note' = setAck W eventID db caseID actor note' True ''manual''"

definition Service_Unacknowledge :: "AlertsWorld \<Rightarrow> uuid \<Rightarrow> Store \<Rightarrow> uuid \<Rightarrow> Actor \<Rightarrow> string \<Rightarrow> (Case \<times> Store) result" where
  "Service_Unacknowledge W eventID db caseID actor note' = setAck W eventID db caseID actor note' False ''manual''"

end
