(* ===== verification/Case_Table.thy ===== *)
theory Case_Table
  imports Case_Sweep Lifecycle_Runs
begin

text \<open>
  What a writer may do to the table of cases, and what that keeps.

  \<open>case_move\<close> is the abstract specification of the writers: a writer opens the next episode of an alert
  that has none open, or rewrites one row without changing which episode it is and without reopening
  it. \<open>rows_ok\<close> is the invariant the moves keep: the rows read back, the episodes of an alert are
  numbered \<open>1..n\<close> without a gap, and at most the last of them is open. The rest of the theory shows that
  the statements of the repository are such moves when they are given what the lifecycle machine answered.
\<close>

section \<open>The invariant of the table\<close>

text \<open>A row reads back: its typed columns hold values of their types, and \<^verbatim>\<open>toDomain\<close> accepts it.\<close>

definition readable :: "Case \<Rightarrow> bool" where
  "readable r \<longleftrightarrow> 1 \<le> c_stateVersion r \<and> c_ackState r \<noteq> AckStateZero \<and> (\<exists>c. NewCase r = Inr c)"

definition of_alert :: "uuid \<Rightarrow> Case list \<Rightarrow> Case list" where
  "of_alert i cs = filter (\<lambda>c. c_alertID c = i) cs"

lemma cases_of_alert: "cases_of db i = of_alert i (st_cases db)"
  by (simp add: cases_of_def of_alert_def)

text \<open>The episodes of one alert: numbered from 1 without a gap, and only the last may be open.\<close>

definition chain_ok :: "Case list \<Rightarrow> bool" where
  "chain_ok cs \<longleftrightarrow> c_seq ` set cs = {1..int (length cs)} \<and>
     (\<forall>c\<in>set cs. c_endedAt c = 0 \<longrightarrow> c_seq c = int (length cs))"

definition rows_ok :: "uuid \<Rightarrow> uuid list \<Rightarrow> Case list \<Rightarrow> bool" where
  "rows_ok org ids cs \<longleftrightarrow> distinct (map c_id cs) \<and>
     (\<forall>c\<in>set cs. readable c \<and> c_orgID c = org \<and> c_alertID c \<in> set ids) \<and>
     (\<forall>i\<in>set ids. chain_ok (of_alert i cs))"

text \<open>The sequence numbers of a chain are distinct, so the last episode is one row.\<close>

lemma chain_seq_inj: "chain_ok cs \<Longrightarrow> inj_on c_seq (set cs) \<and> distinct cs"
proof -
  assume "chain_ok cs"
  then have "card (c_seq ` set cs) = length cs" by (simp add: chain_ok_def)
  moreover have "card (c_seq ` set cs) \<le> card (set cs)" by (rule card_image_le) simp
  moreover have "card (set cs) \<le> length cs" by (rule card_length)
  ultimately show ?thesis by (metis List.finite_set card_distinct eq_card_imp_inj_on le_antisym)
qed

lemma chain_last:
  assumes "chain_ok cs" "cs \<noteq> []"
  shows "\<exists>r\<in>set cs. c_seq r = int (length cs)"
proof -
  have "1 \<le> int (length cs)" using assms(2) by (cases cs) auto
  then have "int (length cs) \<in> c_seq ` set cs" using assms(1) by (simp add: chain_ok_def)
  then show ?thesis by force
qed

lemma latest_row_max:
  assumes "chain_ok cs" "cs \<noteq> []"
  shows "\<exists>r\<in>set cs. latest_row cs = Some r \<and> c_seq r = int (length cs)"
proof -
  let ?s = "sort_key (\<lambda>c. - c_seq c) cs"
  obtain r rest where s: "?s = r # rest" using assms(2) by (cases ?s) (auto dest: arg_cong [where f = length])
  have mem: "set ?s = set cs" by simp
  have srt: "sorted (map (\<lambda>c. - c_seq c) ?s)" by simp
  from chain_last [OF assms] obtain q where q: "q \<in> set cs" "c_seq q = int (length cs)" by blast
  have "q = r \<or> q \<in> set rest" using q(1) mem s by auto
  then have "c_seq q \<le> c_seq r" using srt by (auto simp: s)
  moreover have "r \<in> set cs" using mem s by (metis list.set_intros(1))
  moreover from this have "c_seq r \<in> {1..int (length cs)}" using assms(1) by (auto simp: chain_ok_def)
  ultimately show ?thesis using q(2) s by (intro bexI [of _ r]) (auto simp: latest_row_def)
qed

lemma latest_row_None: "latest_row cs = None \<longleftrightarrow> cs = []"
  by (auto simp: latest_row_def split: list.split dest: arg_cong [where f = length])

section \<open>The moves\<close>

text \<open>The columns that say which episode a row is.\<close>

definition same_row :: "Case \<Rightarrow> Case \<Rightarrow> bool" where
  "same_row a b \<longleftrightarrow> c_id a = c_id b \<and> c_orgID a = c_orgID b \<and> c_alertID a = c_alertID b \<and> c_seq a = c_seq b"

inductive case_move :: "uuid \<Rightarrow> uuid list \<Rightarrow> Case list \<Rightarrow> Case list \<Rightarrow> bool" for org ids where
  next_episode: "\<lbrakk>readable r; c_orgID r = org; c_alertID r \<in> set ids; c_id r \<notin> c_id ` set cs;
      c_seq r = int (length (of_alert (c_alertID r) cs)) + 1; \<forall>c\<in>set (of_alert (c_alertID r) cs). c_endedAt c \<noteq> 0\<rbrakk>
    \<Longrightarrow> case_move org ids cs (cs @ [r])"
| rewrite: "\<lbrakk>r \<in> set cs; readable r'; same_row r' r; c_endedAt r' = 0 \<longrightarrow> c_endedAt r = 0\<rbrakk>
    \<Longrightarrow> case_move org ids cs (update_where (\<lambda>c. c_id c = c_id r) (\<lambda>_. r') cs)"

lemma of_alert_append [simp]: "of_alert i (cs @ [r]) = of_alert i cs @ (if c_alertID r = i then [r] else [])"
  by (simp add: of_alert_def)

lemma of_alert_update:
  assumes "\<And>c. c \<in> set cs \<Longrightarrow> P c \<Longrightarrow> c_alertID (f c) = c_alertID c"
  shows "of_alert i (update_where P f cs) = update_where P f (of_alert i cs)"
  using assms by (induction cs) (auto simp: of_alert_def update_where_def)

text \<open>With distinct ids, an \<^verbatim>\<open>UPDATE ... WHERE id\<close> touches the one row.\<close>

lemma update_one:
  assumes "distinct (map c_id cs)" "r \<in> set cs"
  shows "update_where (\<lambda>c. c_id c = c_id r) f cs = update_where (\<lambda>c. c_id c = c_id r) (\<lambda>_. f r) cs"
    "update_where (\<lambda>c. c_id c = c_id r \<and> c_stateVersion c = c_stateVersion r) f cs =
       update_where (\<lambda>c. c_id c = c_id r) (\<lambda>_. f r) cs"
proof -
  have "c = r" if "c \<in> set cs" "c_id c = c_id r" for c
    using assms that by (metis distinct_map inj_on_def)
  then show "update_where (\<lambda>c. c_id c = c_id r) f cs = update_where (\<lambda>c. c_id c = c_id r) (\<lambda>_. f r) cs"
    "update_where (\<lambda>c. c_id c = c_id r \<and> c_stateVersion c = c_stateVersion r) f cs =
       update_where (\<lambda>c. c_id c = c_id r) (\<lambda>_. f r) cs"
    unfolding update_where_def by (auto intro!: map_cong)
qed

lemma chain_ok_snoc:
  assumes "chain_ok cs" "c_seq r = int (length cs) + 1" "\<forall>c\<in>set cs. c_endedAt c \<noteq> 0"
  shows "chain_ok (cs @ [r])"
proof -
  have "insert (int (length cs) + 1) {1..int (length cs)} = {1..int (length cs) + 1}" by auto
  then show ?thesis using assms by (auto simp: chain_ok_def algebra_simps)
qed

lemma chain_ok_rewrite:
  assumes "chain_ok cs" "r \<in> set cs" "same_row r' r" "c_endedAt r' = 0 \<longrightarrow> c_endedAt r = 0"
    and "\<And>c. c \<in> set cs \<Longrightarrow> c_id c = c_id r \<Longrightarrow> c = r"
  shows "chain_ok (update_where (\<lambda>c. c_id c = c_id r) (\<lambda>_. r') cs)"
proof -
  have "map c_seq (update_where (\<lambda>c. c_id c = c_id r) (\<lambda>_. r') cs) = map c_seq cs"
    using assms(3,5) by (auto simp: update_where_def same_row_def)
  then have "c_seq ` set (update_where (\<lambda>c. c_id c = c_id r) (\<lambda>_. r') cs) = c_seq ` set cs"
    by (metis list.set_map)
  moreover have "length (update_where (\<lambda>c. c_id c = c_id r) (\<lambda>_. r') cs) = length cs"
    by (simp add: update_where_def)
  ultimately show ?thesis
    using assms unfolding chain_ok_def by (auto simp: set_update_where same_row_def)
qed

theorem move_rows_ok:
  assumes "case_move org ids cs cs'" "rows_ok org ids cs"
  shows "rows_ok org ids cs'"
  using assms(1)
proof cases
  case (next_episode r)
  have chain: "chain_ok (of_alert i cs')" if "i \<in> set ids" for i
  proof (cases "c_alertID r = i")
    case True
    then show ?thesis
      using chain_ok_snoc [of "of_alert i cs" r] assms(2) that next_episode by (simp add: rows_ok_def)
  qed (use assms(2) that next_episode in \<open>simp add: rows_ok_def\<close>)
  show ?thesis using assms(2) next_episode chain by (auto simp: rows_ok_def)
next
  case (rewrite r r')
  have one: "c = r" if "c \<in> set cs" "c_id c = c_id r" for c
    using assms(2) rewrite(2) that unfolding rows_ok_def by (metis distinct_map inj_on_def)
  have al: "c_alertID r' = c_alertID c" if "c \<in> set cs" "c_id c = c_id r" for c
    using one [OF that] rewrite(4) by (simp add: same_row_def)
  have ids: "map c_id cs' = map c_id cs"
    using one rewrite(1,4) by (auto simp: update_where_def same_row_def)
  have chain: "chain_ok (of_alert i cs')" if "i \<in> set ids" for i
  proof (cases "c_alertID r = i")
    case True
    have "chain_ok (update_where (\<lambda>c. c_id c = c_id r) (\<lambda>_. r') (of_alert i cs))"
      by (rule chain_ok_rewrite) (use assms(2) rewrite one True that in \<open>auto simp: rows_ok_def of_alert_def\<close>)
    then show ?thesis using rewrite(1) al by (simp add: of_alert_update)
  next
    case False
    have "update_where (\<lambda>c. c_id c = c_id r) (\<lambda>_. r') (of_alert i cs) = of_alert i cs"
      by (rule update_where_none) (use False one in \<open>auto simp: of_alert_def\<close>)
    then have "of_alert i cs' = of_alert i cs" using rewrite(1) al by (simp add: of_alert_update)
    then show ?thesis using assms(2) that by (simp add: rows_ok_def)
  qed
  show ?thesis
    using assms(2) rewrite chain ids unfolding rows_ok_def
    by (auto simp: set_update_where same_row_def)
qed

section \<open>A case in memory and its row\<close>

text \<open>
  A service decides on a case it read. \<open>tracks r m\<close>: the row \<open>r\<close> is the episode \<open>m\<close> describes and stands in
  the same state; the row's version is at least the one \<open>m\<close> was read at, and while it is the same
  version \<open>m\<close> is exactly what reading the row gives.
\<close>

definition same_standing :: "Case \<Rightarrow> Case \<Rightarrow> bool" where
  "same_standing r m \<longleftrightarrow> c_startedAt r = c_startedAt m \<and> c_sourceStartsAt r = c_sourceStartsAt m \<and>
     c_state r = c_state m \<and> c_suppressionReason r = c_suppressionReason m \<and>
     c_resolveReason r = c_resolveReason m \<and> c_endedAt r = c_endedAt m \<and>
     c_resolvePendingAt r = c_resolvePendingAt m \<and> c_resolvePendingEndAt r = c_resolvePendingEndAt m"

definition tracks :: "Case \<Rightarrow> Case \<Rightarrow> bool" where
  "tracks r m \<longleftrightarrow> same_row r m \<and> same_standing r m \<and> c_stateVersion m \<le> c_stateVersion r \<and>
     (c_stateVersion m = c_stateVersion r \<longrightarrow> NewCase r = Inr m)"

lemma NewCase_eq:
  assumes "NewCase r = Inr m"
  shows "m = r\<lparr>c_stateVersion := max (c_stateVersion r) 1, c_ackedByLabel := TrimSpace (c_ackedByLabel r),
      c_ackState := (if AckState_IsZero (c_ackState r) then AckStateUnacked else c_ackState r)\<rparr>"
  using assms by (simp add: NewCase_def Let_def)

lemma NewCase_tracks:
  assumes "NewCase r = Inr m" "readable r"
  shows "tracks r m"
  using assms(2) NewCase_eq [OF assms(1)] assms(1)
  by (simp add: readable_def) (simp add: tracks_def same_row_def same_standing_def max_def)

text \<open>What makes a row readable, with the reading's own normalisation worked in.\<close>

lemma readable_iff:
  "readable r \<longleftrightarrow> c_id r \<noteq> 0 \<and> c_orgID r \<noteq> 0 \<and> c_alertID r \<noteq> 0 \<and> 1 \<le> c_seq r \<and> 0 \<le> c_suppressCount r \<and>
     1 \<le> c_stateVersion r \<and> c_ackState r \<noteq> AckStateZero \<and> c_state r \<noteq> CaseStateZero \<and> c_startedAt r \<noteq> 0 \<and> c_lastObservedAt r \<noteq> 0 \<and>
     c_sourceStartsAt r \<noteq> 0 \<and> check (r\<lparr>c_ackedByLabel := TrimSpace (c_ackedByLabel r)\<rparr>) = None"
proof -
  have ack: "check (r\<lparr>c_stateVersion := v, c_ackedByLabel := l,
      c_ackState := (if c_ackState r = AckStateZero then AckStateUnacked else c_ackState r)\<rparr>) =
      check (r\<lparr>c_ackedByLabel := l\<rparr>)" for v l
    by (simp add: check_def oto_defs)
  show ?thesis
    by (auto simp: readable_def NewCase_def Let_def ack oto_defs split: if_splits)
qed

lemma readable_cong:
  assumes "readable r" "same_row r' r" "c_startedAt r' = c_startedAt r" "c_sourceStartsAt r' = c_sourceStartsAt r"
    "0 \<le> c_suppressCount r'" "1 \<le> c_stateVersion r'" "c_ackState r' \<noteq> AckStateZero" "c_state r' \<noteq> CaseStateZero" "c_lastObservedAt r' \<noteq> 0"
    "check (r'\<lparr>c_ackedByLabel := TrimSpace (c_ackedByLabel r')\<rparr>) = None"
  shows "readable r'"
  using assms unfolding readable_iff same_row_def by simp

section \<open>Persisting what the machine answered\<close>

text \<open>A repeated observation, folded into whatever row the case has by now.\<close>

lemma observed_row_tracks:
  assumes r: "readable r" and t: "tracks r m" and A: "Apply U m cmd = Inr tr" "tr_ID tr = TransitionT2"
    and cmd: "cmd_SourceEndsAt cmd = ob_SourceEndsAt o'" and obs: "ob_ObservedAt o' \<noteq> 0"
  shows "readable (observed_row o' r)" "tracks (observed_row o' r) (tr_Case tr)" "same_row (observed_row o' r) r"
    "c_endedAt (observed_row o' r) = c_endedAt r"
proof -
  let ?r = "observed_row o' r" and ?m = "tr_Case tr"
  from A have m: "?m = (observe (m\<lparr>c_lastObservedAt := recordedAt (cmd_At cmd)\<rparr>) cmd)
      \<lparr>c_resolvePendingAt := 0, c_resolvePendingEndAt := 0\<rparr>" and ok: "check ?m = None"
    by (auto elim!: Apply_edges)
  show row: "same_row ?r r" "c_endedAt ?r = c_endedAt r"
    by (simp_all add: observed_row_def same_row_def)
  from t m show "tracks ?r ?m"
    by (auto simp: tracks_def same_row_def same_standing_def observed_row_def)
  have src: "ob_SourceEndsAt o' \<noteq> 0 \<Longrightarrow> c_sourceStartsAt r \<le> ob_SourceEndsAt o'"
    using ok t by (simp add: check_None_iff m observe_sourceEndsAt cmd tracks_def same_standing_def split: if_splits)
  have old: "check (r\<lparr>c_ackedByLabel := TrimSpace (c_ackedByLabel r)\<rparr>) = None" using r by (simp add: readable_iff)
  show "readable ?r"
  proof (rule readable_cong [OF r])
    show "c_lastObservedAt ?r \<noteq> 0" using obs r by (auto simp: observed_row_def readable_iff max_def)
    show "check (?r\<lparr>c_ackedByLabel := TrimSpace (c_ackedByLabel ?r)\<rparr>) = None"
      using old src unfolding check_None_iff by (auto simp: observed_row_def greatest_def max_def)
  qed (use r row in \<open>simp_all add: observed_row_def readable_iff\<close>)
qed

text \<open>An edge, written under the version it was decided at.\<close>

lemma Apply_standing:
  assumes A: "Apply U m cmd = Inr tr" and wf: "case_wf m"
  shows "c_ackState (tr_Case tr) = c_ackState m" "c_ackedAt (tr_Case tr) = c_ackedAt m"
    "c_ackedByLabel (tr_Case tr) = c_ackedByLabel m" "c_ackNote (tr_Case tr) = c_ackNote m"
    "c_sourceEndsAt (tr_Case tr) = 0 \<Longrightarrow> c_sourceEndsAt m = 0"
    "check (tr_Case tr) = None" "c_endedAt (tr_Case tr) = 0 \<Longrightarrow> c_endedAt m = 0"
proof -
  have "c_ackState (tr_Case tr) = c_ackState m \<and> c_ackedAt (tr_Case tr) = c_ackedAt m \<and>
    c_ackedByLabel (tr_Case tr) = c_ackedByLabel m \<and> c_ackNote (tr_Case tr) = c_ackNote m \<and>
    (c_sourceEndsAt (tr_Case tr) = 0 \<longrightarrow> c_sourceEndsAt m = 0)"
    using A by (cases rule: Apply_edges) (simp_all add: observe_sourceEndsAt dropPending_def)
  then show "c_ackState (tr_Case tr) = c_ackState m" "c_ackedAt (tr_Case tr) = c_ackedAt m"
    "c_ackedByLabel (tr_Case tr) = c_ackedByLabel m" "c_ackNote (tr_Case tr) = c_ackNote m"
    "c_sourceEndsAt (tr_Case tr) = 0 \<Longrightarrow> c_sourceEndsAt m = 0" by simp_all
  show "check (tr_Case tr) = None" using Apply_check [OF A] wf by (simp add: case_wf_def case_ok_def)
  have "tr_Case tr = m \<or> c_state m = CaseOpen" using A by (cases rule: Apply_edges) (auto simp: phase_iffs)
  moreover have "c_state m = CaseOpen \<Longrightarrow> c_endedAt m = 0"
    using wf by (auto simp: case_wf_def case_ok_def check_None_iff)
  ultimately show "c_endedAt (tr_Case tr) = 0 \<Longrightarrow> c_endedAt m = 0" by auto
qed

lemma check_later:
  assumes "check c = None" "c_lastObservedAt c \<le> t"
  shows "check (c\<lparr>c_lastObservedAt := t\<rparr>) = None"
  using assms unfolding check_def first_err_None_iff by simp blast

lemma transition_row_fields [simp]:
  fixes tr :: TransitionResult and r :: Case and w :: SuppressedBy
  defines "r' \<equiv> transition_row (transitionOf tr w) r"
  shows "c_id r' = c_id r" "c_orgID r' = c_orgID r" "c_alertID r' = c_alertID r" "c_seq r' = c_seq r"
    "c_startedAt r' = c_startedAt r" "c_sourceStartsAt r' = c_sourceStartsAt r"
    "c_state r' = c_state (tr_Case tr)" "c_suppressionReason r' = c_suppressionReason (tr_Case tr)"
    "c_resolveReason r' = c_resolveReason (tr_Case tr)" "c_endedAt r' = c_endedAt (tr_Case tr)"
    "c_resolvePendingAt r' = c_resolvePendingAt (tr_Case tr)"
    "c_resolvePendingEndAt r' = c_resolvePendingEndAt (tr_Case tr)"
    "c_lastObservedAt r' = max (c_lastObservedAt r) (c_lastObservedAt (tr_Case tr))"
    "c_sourceEndsAt r' = (if c_sourceEndsAt (tr_Case tr) = 0 then c_sourceEndsAt r else c_sourceEndsAt (tr_Case tr))"
    "c_stateVersion r' = c_stateVersion r + 1" "c_ackState r' = c_ackState r" "c_ackedAt r' = c_ackedAt r"
    "c_ackedByLabel r' = c_ackedByLabel r" "c_ackNote r' = c_ackNote r"
    "c_suppressCount r' =
       (if c_suppressCount (tr_Case tr) > 0 then c_suppressCount (tr_Case tr) else c_suppressCount r)"
  by (simp_all add: r'_def transition_row_def transitionOf_def Let_def coalesce_def)

lemma transition_row_tracks:
  fixes w :: SuppressedBy
  assumes r: "readable r" "NewCase r = Inr m" and A: "Apply U m cmd = Inr tr"
    and last: "c_lastObservedAt (tr_Case tr) \<noteq> 0"
  defines "r' \<equiv> transition_row (transitionOf tr w) r"
  shows "readable r'" "tracks r' (tr_Case tr)" "same_row r' r" "c_endedAt r' = 0 \<Longrightarrow> c_endedAt r = 0"
proof -
  note m = NewCase_eq [OF r(2)] and wf = NewCase_wf [OF r(2)]
  note st = Apply_standing [OF A wf] and ep = Apply_same_episode [OF A]
  show row: "same_row r' r" by (simp add: r'_def same_row_def)
  from st(7) show "c_endedAt r' = 0 \<Longrightarrow> c_endedAt r = 0" by (simp add: r'_def m)
  have "case_wf (tr_Case tr)" by (rule Apply_wf [OF wf A])
  then have wf': "c_state (tr_Case tr) \<noteq> CaseStateZero" by (simp add: case_wf_def)
  from ep r(1) show "tracks r' (tr_Case tr)"
    by (auto simp: r'_def tracks_def same_row_def same_standing_def same_episode_def m readable_def)
  let ?n = "(tr_Case tr)\<lparr>c_lastObservedAt := max (c_lastObservedAt r) (c_lastObservedAt (tr_Case tr))\<rparr>"
  have "check (r'\<lparr>c_ackedByLabel := TrimSpace (c_ackedByLabel r')\<rparr>) = check ?n"
    using st(1-5) ep r by (intro check_cong) (auto simp: r'_def m same_episode_def oto_defs readable_iff)
  also have "\<dots> = None" by (rule check_later) (simp_all add: st(6))
  finally have ok: "check (r'\<lparr>c_ackedByLabel := TrimSpace (c_ackedByLabel r')\<rparr>) = None" .
  show "readable r'"
  proof (rule readable_cong [OF r(1) row])
    show "c_lastObservedAt r' \<noteq> 0" using last r(1) by (auto simp: r'_def readable_iff max_def)
  qed (use r wf' ok in \<open>simp_all add: r'_def readable_iff\<close>)
qed

text \<open>The first row of an episode.\<close>

lemma opened_row_fields [simp]:
  "c_id (opened_row org n p) = oc_ID p" "c_orgID (opened_row org n p) = org"
  "c_alertID (opened_row org n p) = oc_AlertID p" "c_seq (opened_row org n p) = oc_Seq p"
  "c_endedAt (opened_row org n p) = 0" "c_stateVersion (opened_row org n p) = 1"
  "c_ackState (opened_row org n p) = AckStateUnacked"
  by (simp_all add: opened_row_def zeroCase_def)

text \<open>An acknowledgement is written into the row it was decided on.\<close>

lemma ack_row_tracks:
  assumes r: "readable r" "NewCase r = Inr m" and nxt: "check nxt = None"
    and same: "nxt = m\<lparr>c_ackState := c_ackState nxt, c_ackedAt := c_ackedAt nxt, c_ackedBy := c_ackedBy nxt,
      c_ackedByLabel := c_ackedByLabel nxt, c_ackNote := c_ackNote nxt\<rparr>"
    and to: "c_ackState nxt \<noteq> AckStateZero" "ack \<longleftrightarrow> c_ackState nxt = AckStateAcked"
    and note': "ack \<Longrightarrow> c_ackNote nxt = note'" and lbl: "ack \<Longrightarrow> TrimSpace (c_ackedByLabel nxt) \<noteq> []"
  shows "readable (ack_row (ack_change ack note' nxt) r)" "same_row (ack_row (ack_change ack note' nxt) r) r"
    "same_standing (ack_row (ack_change ack note' nxt) r) r"
proof -
  let ?r = "ack_row (ack_change ack note' nxt) r"
  have un: "\<not> ack \<Longrightarrow> c_ackState nxt = AckStateUnacked" using to by (cases "c_ackState nxt") auto
  show row: "same_row ?r r" "same_standing ?r r"
    by (simp_all add: ack_row_def ack_change_def same_row_def same_standing_def)
  have old: "check (r\<lparr>c_ackedByLabel := TrimSpace (c_ackedByLabel r)\<rparr>) = None" using r by (simp add: readable_iff)
  have ack_part: "(c_ackState nxt = AckStateAcked \<longleftrightarrow> c_ackedAt nxt \<noteq> 0) \<and>
      (c_ackedAt nxt \<noteq> 0 \<longrightarrow> c_startedAt nxt \<le> c_ackedAt nxt) \<and> length (c_ackNote nxt) \<le> MaxAckNoteBytes"
    using nxt unfolding check_None_iff by blast
  have start: "c_startedAt nxt = c_startedAt r" by (subst same) (simp add: NewCase_eq [OF r(2)])
  show "readable ?r"
  proof (rule readable_cong [OF r(1) row(1)])
    show "check (?r\<lparr>c_ackedByLabel := TrimSpace (c_ackedByLabel ?r)\<rparr>) = None"
    proof (cases ack)
      case True
      then show ?thesis
        using old ack_part start to(2) note' lbl unfolding check_None_iff
        by (simp add: ack_row_def ack_change_def str_or_empty_def ackStateOrUnacked_def oto_defs) blast
    next
      case False
      then show ?thesis
        using old un unfolding check_None_iff
        by (simp add: ack_row_def ack_change_def ackStateOrUnacked_def oto_defs MaxAckNoteBytes_def) blast
    qed
  qed (use r to row(2) in \<open>simp_all add: ack_row_def ack_change_def readable_iff ackStateOrUnacked_def oto_defs same_standing_def\<close>)
qed

section \<open>The statements are moves\<close>

lemma Case_GetByID_Inr:
  assumes "Case_GetByID db i = Inr m"
  obtains r where "r \<in> set (st_cases db)" "c_id r = i" "NewCase r = Inr m"
  using assms by (auto simp: Case_GetByID_def case_toDomain_def dest: find_SomeD split: option.splits)

lemma Case_Observe_move:
  assumes "rows_ok org ids (st_cases db)" "Case_Observe db (c_id r) o' = Inr db'" "r \<in> set (st_cases db)" "tracks r m"
    "Apply U m cmd = Inr tr" "tr_ID tr = TransitionT2" "cmd_SourceEndsAt cmd = ob_SourceEndsAt o'"
  shows "db' = db\<lparr>st_cases := update_where (\<lambda>c. c_id c = c_id r) (\<lambda>_. observed_row o' r) (st_cases db)\<rparr>"
    "case_move org ids (st_cases db) (st_cases db')" "tracks (observed_row o' r) (tr_Case tr)"
proof -
  have r: "readable r" and d: "distinct (map c_id (st_cases db))" using assms(1,3) by (auto simp: rows_ok_def)
  from assms(2) have obs: "ob_ObservedAt o' \<noteq> 0"
    and db': "db' = db\<lparr>st_cases := update_where (\<lambda>c. c_id c = c_id r) (observed_row o') (st_cases db)\<rparr>"
    by (auto simp: Case_Observe_def split: if_splits)
  note o = observed_row_tracks [OF r assms(4-7) obs]
  show "db' = db\<lparr>st_cases := update_where (\<lambda>c. c_id c = c_id r) (\<lambda>_. observed_row o' r) (st_cases db)\<rparr>"
    using db' update_one(1) [OF d assms(3)] by simp
  then show "case_move org ids (st_cases db) (st_cases db')"
    using case_move.rewrite [OF assms(3) o(1,3)] o(4) by simp
  show "tracks (observed_row o' r) (tr_Case tr)" by (rule o(2))
qed

lemma Case_Transition_move:
  assumes "rows_ok org ids (st_cases db)" "Case_Transition db (c_id (tr_Case tr)) (transitionOf tr w) = Inr db'"
    "r \<in> set (st_cases db)" "tracks r m" "Apply U m cmd = Inr tr"
  shows "db' = db\<lparr>st_cases := update_where (\<lambda>c. c_id c = c_id r) (\<lambda>_. transition_row (transitionOf tr w) r) (st_cases db)\<rparr>"
    "case_move org ids (st_cases db) (st_cases db')" "tracks (transition_row (transitionOf tr w) r) (tr_Case tr)"
proof -
  have r: "readable r" and d: "distinct (map c_id (st_cases db))" using assms(1,3) by (auto simp: rows_ok_def)
  have id: "c_id (tr_Case tr) = c_id r"
    using Apply_same_episode [OF assms(5)] assms(4) by (simp add: same_episode_def tracks_def same_row_def)
  have ex: "t_Expected (transitionOf tr w) = c_stateVersion m"
    using Apply_result(2) [OF assms(5)] by (simp add: transitionOf_def Let_def PreconditionFor_def)
  from assms(2) id ex have last: "c_lastObservedAt (tr_Case tr) \<noteq> 0"
    and hit: "\<exists>c\<in>set (st_cases db). c_id c = c_id r \<and> c_stateVersion c = c_stateVersion m"
    and db': "db' = db\<lparr>st_cases := update_where (\<lambda>c. c_id c = c_id r \<and> c_stateVersion c = c_stateVersion m)
        (transition_row (transitionOf tr w)) (st_cases db)\<rparr>"
    by (auto simp: Case_Transition_def list_ex_iff transitionOf_def Let_def split: if_splits)
  from hit d assms(3) have v: "c_stateVersion m = c_stateVersion r" by (metis distinct_map inj_on_def)
  then have "NewCase r = Inr m" using assms(4) by (simp add: tracks_def)
  note t = transition_row_tracks [OF r this assms(5) last]
  show "db' = db\<lparr>st_cases := update_where (\<lambda>c. c_id c = c_id r) (\<lambda>_. transition_row (transitionOf tr w) r) (st_cases db)\<rparr>"
    using db' update_one(2) [OF d assms(3)] v by simp
  then show "case_move org ids (st_cases db) (st_cases db')"
    using case_move.rewrite [OF assms(3) t(1,3)] t(4) by simp
  show "tracks (transition_row (transitionOf tr w) r) (tr_Case tr)" by (rule t(2))
qed

lemma OpenCase_move:
  assumes "OpenCase org db p = Inr (c, db')" "oc_ID p \<notin> c_id ` set (st_cases db)"
    "oc_Seq p = int (length (cases_of db (oc_AlertID p))) + 1" "\<forall>c\<in>set (cases_of db (oc_AlertID p)). c_endedAt c \<noteq> 0"
  obtains r where "st_cases db' = st_cases db @ [r]" "st_alerts db' = st_alerts db" "tracks r c" "c_seq r = oc_Seq p"
    "c_alertID r = oc_AlertID p" "c_id r = oc_ID p" "c_endedAt r = 0"
    "case_move org (map al_id (st_alerts db)) (st_cases db) (st_cases db')"
proof -
  define n where "n = (case st_nextNumber db of None \<Rightarrow> 1 | Some n \<Rightarrow> n)"
  let ?r = "opened_row org n p"
  from assms(1) have al: "\<exists>a\<in>set (st_alerts db). al_id a = oc_AlertID p" and c: "NewCase ?r = Inr c"
    and db': "st_cases db' = st_cases db @ [?r]" "st_alerts db' = st_alerts db"
    by (auto simp: OpenCase_def n_def Let_def case_toDomain_def rbind_Inr_iff list_ex_iff split: if_splits)
  have r: "readable ?r" using c by (auto simp: readable_def)
  from al have al: "oc_AlertID p \<in> al_id ` set (st_alerts db)" by (metis imageI)
  have "case_move org (map al_id (st_alerts db)) (st_cases db) (st_cases db')"
    unfolding db' by (rule case_move.next_episode) (use r al assms(2-4) in \<open>simp_all add: cases_of_alert\<close>)
  then show thesis using that [of ?r] db' NewCase_tracks [OF c r] by simp
qed

end
