(* ===== verification/Observe_Batch.thy ===== *)
theory Observe_Batch
  imports Case_Table
begin

text \<open>
  One batch of observations against the tables.

  \<open>store_ok\<close> is the invariant of the store between transactions: the table of cases is in order (\<open>rows_ok\<close>) and
  every alert row projects its latest episode. Inside a batch the projections are staged, so the loop
  keeps \<open>batch_ok\<close> instead: what the batch remembers of an alert tracks the alert's last row, and what it
  staged is what that row will project to.
\<close>

section \<open>The invariant of the store\<close>

text \<open>
  What an alert row says of its episodes \<open>cs\<close>; the flag \<open>axis\<close> asks for the suppression column as well.
\<close>

definition projected_ok :: "bool \<Rightarrow> Alert \<Rightarrow> Case list \<Rightarrow> bool" where
  "projected_ok axis a cs \<longleftrightarrow> al_totalCases a = int (length cs) \<and> (cs = [] \<longrightarrow> al_currentCaseID a = uuid_Nil) \<and>
     (\<forall>c\<in>set cs. c_seq c = int (length cs) \<longrightarrow>
        al_state a = AlertState c \<and> al_currentCaseID a = (if c_endedAt c = 0 then c_id c else uuid_Nil) \<and>
        (axis \<longrightarrow> al_suppressionReason a = c_suppressionReason c))"

definition store_ok :: "bool \<Rightarrow> uuid \<Rightarrow> Store \<Rightarrow> bool" where
  "store_ok axis org db \<longleftrightarrow> distinct (map al_id (st_alerts db)) \<and> distinct (map al_key (st_alerts db)) \<and>
     rows_ok org (map al_id (st_alerts db)) (st_cases db) \<and>
     (\<forall>a\<in>set (st_alerts db). projected_ok axis a (cases_of db (al_id a)))"

lemma store_ok_axis: "store_ok True org db \<Longrightarrow> store_ok axis org db"
  by (auto simp: store_ok_def projected_ok_def)

text \<open>The ids a transaction draws are new: they differ from each other and from every id in the tables.\<close>

definition new_case_ids :: "(nat \<Rightarrow> uuid) \<Rightarrow> nat \<Rightarrow> Store \<Rightarrow> bool" where
  "new_case_ids draw K db \<longleftrightarrow> inj_on draw {..<K} \<and>
     (\<forall>j<K. draw j \<notin> c_id ` set (st_cases db) \<and> draw j \<notin> al_id ` set (st_alerts db))"

section \<open>Rewriting one row\<close>

lemma rewrite_other:
  assumes "distinct (map c_id cs)" "r \<in> set cs" "same_row r' r" "i \<noteq> c_alertID r"
  shows "of_alert i (update_where (\<lambda>c. c_id c = c_id r) (\<lambda>_. r') cs) = of_alert i cs"
proof -
  have one: "c = r" if "c \<in> set cs" "c_id c = c_id r" for c
    using assms(1,2) that by (metis distinct_map inj_on_def)
  have "of_alert i (update_where (\<lambda>c. c_id c = c_id r) (\<lambda>_. r') cs) =
      update_where (\<lambda>c. c_id c = c_id r) (\<lambda>_. r') (of_alert i cs)"
    using one assms(3) by (intro of_alert_update) (auto simp: same_row_def)
  also have "\<dots> = of_alert i cs"
    by (rule update_where_none) (use one assms(4) in \<open>auto simp: of_alert_def\<close>)
  finally show ?thesis .
qed

lemma rewrite_own:
  assumes "distinct (map c_id cs)" "r \<in> set cs" "same_row r' r"
  defines "cs' \<equiv> update_where (\<lambda>c. c_id c = c_id r) (\<lambda>_. r') cs"
  shows "length (of_alert (c_alertID r) cs') = length (of_alert (c_alertID r) cs)"
    "r' \<in> set (of_alert (c_alertID r) cs')" "map c_id cs' = map c_id cs"
proof -
  have one: "c = r" if "c \<in> set cs" "c_id c = c_id r" for c
    using assms(1,2) that by (metis distinct_map inj_on_def)
  have eq: "of_alert (c_alertID r) cs' = update_where (\<lambda>c. c_id c = c_id r) (\<lambda>_. r') (of_alert (c_alertID r) cs)"
    unfolding cs'_def using one assms(3) by (intro of_alert_update) (auto simp: same_row_def)
  then show "length (of_alert (c_alertID r) cs') = length (of_alert (c_alertID r) cs)" by (simp add: update_where_def)
  show "r' \<in> set (of_alert (c_alertID r) cs')"
    unfolding eq set_update_where using assms(2) by (auto simp: of_alert_def)
  show "map c_id cs' = map c_id cs"
    using one assms(3) by (auto simp: cs'_def update_where_def same_row_def)
qed

section \<open>What a batch remembers\<close>

fun view_ok :: "Case option \<Rightarrow> Case list \<Rightarrow> bool" where
  "view_ok None cs = (cs = [])"
| "view_ok (Some m) cs = (\<exists>r\<in>set cs. c_seq r = int (length cs) \<and> tracks r m)"

definition staged_ok :: "AlertProjection \<Rightarrow> Case \<Rightarrow> Case list \<Rightarrow> bool" where
  "staged_ok p m cs \<longleftrightarrow> pr_State p = AlertState m \<and> pr_SuppressionReason p = c_suppressionReason m \<and>
     derefID (pr_CurrentCaseID p) = (if c_endedAt m = 0 then c_id m else uuid_Nil) \<and> pr_TotalCases p = int (length cs)"

text \<open>An alert nothing was staged for has the episodes it had; otherwise the staged row is the one to be.\<close>

fun pending_ok :: "bool \<Rightarrow> AlertProjection option \<Rightarrow> Case option \<Rightarrow> Case list \<Rightarrow> Case list \<Rightarrow> bool" where
  "pending_ok known None latest cs cs1 = (cs = cs1)"
| "pending_ok known (Some p) latest cs cs1 = (known \<and> (\<exists>m. latest = Some m \<and> staged_ok p m cs))"

definition batch_ok :: "uuid \<Rightarrow> Store \<Rightarrow> uuid set \<Rightarrow> (nat \<Rightarrow> uuid) \<Rightarrow> nat \<Rightarrow> batch_state \<Rightarrow> bool" where
  "batch_ok org db1 ids draw K st = (case st of (db, acc, k) \<Rightarrow>
     st_alerts db = st_alerts db1 \<and> rows_ok org (map al_id (st_alerts db1)) (st_cases db) \<and>
     (\<forall>i\<in>ids. view_ok (ac_latest acc i) (cases_of db i) \<and>
        ac_newEpisode acc i = int (length (cases_of db i)) - int (length (cases_of db1 i))) \<and>
     (\<forall>i. pending_ok (i \<in> ids) (ac_projections acc i) (ac_latest acc i) (cases_of db i) (cases_of db1 i)) \<and>
     distinct (ac_projectionOrder acc) \<and> set (ac_projectionOrder acc) = dom (ac_projections acc) \<and>
     (\<forall>j. k \<le> j \<and> j < K \<longrightarrow> draw j \<notin> c_id ` set (st_cases db)))"

lemma batch_okD:
  assumes "batch_ok org db1 ids draw K (db, acc, k)"
  shows "st_alerts db = st_alerts db1" "rows_ok org (map al_id (st_alerts db1)) (st_cases db)"
    "i \<in> ids \<Longrightarrow> view_ok (ac_latest acc i) (cases_of db i)"
    "i \<in> ids \<Longrightarrow> ac_newEpisode acc i = int (length (cases_of db i)) - int (length (cases_of db1 i))"
    "pending_ok (i \<in> ids) (ac_projections acc i) (ac_latest acc i) (cases_of db i) (cases_of db1 i)"
    "distinct (ac_projectionOrder acc)" "set (ac_projectionOrder acc) = dom (ac_projections acc)"
    "k \<le> n \<Longrightarrow> n < K \<Longrightarrow> draw n \<notin> c_id ` set (st_cases db)"
  using assms by (simp_all add: batch_ok_def)

lemma batch_okI:
  assumes "st_alerts db = st_alerts db1" "rows_ok org (map al_id (st_alerts db1)) (st_cases db)"
    "\<And>i. i \<in> ids \<Longrightarrow> view_ok (ac_latest acc i) (cases_of db i)"
    "\<And>i. i \<in> ids \<Longrightarrow> ac_newEpisode acc i = int (length (cases_of db i)) - int (length (cases_of db1 i))"
    "\<And>i. pending_ok (i \<in> ids) (ac_projections acc i) (ac_latest acc i) (cases_of db i) (cases_of db1 i)"
    "distinct (ac_projectionOrder acc)" "set (ac_projectionOrder acc) = dom (ac_projections acc)"
    "\<And>n. k \<le> n \<Longrightarrow> n < K \<Longrightarrow> draw n \<notin> c_id ` set (st_cases db)"
  shows "batch_ok org db1 ids draw K (db, acc, k)"
  using assms by (simp add: batch_ok_def)

text \<open>The parts of the accumulator the invariant speaks of.\<close>

definition same_view :: "observeAccum \<Rightarrow> observeAccum \<Rightarrow> bool" where
  "same_view a b \<longleftrightarrow> ac_latest a = ac_latest b \<and> ac_newEpisode a = ac_newEpisode b \<and>
     ac_projections a = ac_projections b \<and> ac_projectionOrder a = ac_projectionOrder b"

lemma batch_ok_same_view:
  assumes B: "batch_ok org db1 ids draw K (db, acc, k)" and "same_view acc' acc" "k \<le> k'"
  shows "batch_ok org db1 ids draw K (db, acc', k')"
proof (rule batch_okI)
  fix n assume "k' \<le> n" "n < K"
  then show "draw n \<notin> c_id ` set (st_cases db)" using batch_okD(8) [OF B] assms(3) by simp
qed (use assms(2) batch_okD [OF B] in \<open>simp_all add: same_view_def\<close>)

lemma queueFrame_view [simp]:
  "ac_latest (queueFrame W f acc) = ac_latest acc" "ac_newEpisode (queueFrame W f acc) = ac_newEpisode acc"
  "ac_projections (queueFrame W f acc) = ac_projections acc"
  "ac_projectionOrder (queueFrame W f acc) = ac_projectionOrder acc" "ac_events (queueFrame W f acc) = ac_events acc"
  by (simp_all add: queueFrame_def)

lemma stageProjection_view [simp]:
  "ac_latest (stageProjection i p acc) = ac_latest acc" "ac_newEpisode (stageProjection i p acc) = ac_newEpisode acc"
  "ac_projectionOrder (stageProjection i p acc) =
     (if ac_projections acc i = None then ac_projectionOrder acc @ [i] else ac_projectionOrder acc)"
  "j \<noteq> i \<Longrightarrow> ac_projections (stageProjection i p acc) j = ac_projections acc j"
  "dom (ac_projections (stageProjection i p acc)) = insert i (dom (ac_projections acc))"
  by (auto simp: stageProjection_def split: option.split)

lemma stageProjection_own:
  "\<exists>q. ac_projections (stageProjection i p acc) i = Some q \<and> pr_State q = pr_State p \<and>
     pr_SuppressionReason q = pr_SuppressionReason p \<and> pr_CurrentCaseID q = pr_CurrentCaseID p \<and>
     pr_TotalCases q = pr_TotalCases p"
  by (auto simp: stageProjection_def split: option.split)

lemma settle_view:
  fixes alert :: Alert
  defines "i \<equiv> al_id alert"
  assumes "acc' = settle_one W alert at ac changed out acc"
  shows "ac_latest acc' = (ac_latest acc)(i \<mapsto> ac)" "ac_newEpisode acc' = ac_newEpisode acc"
    "j \<noteq> i \<Longrightarrow> ac_projections acc' j = ac_projections acc j"
    "dom (ac_projections acc') = insert i (dom (ac_projections acc))"
    "ac_projectionOrder acc' =
       (if ac_projections acc i = None then ac_projectionOrder acc @ [i] else ac_projectionOrder acc)"
    "\<exists>q. ac_projections acc' i = Some q \<and> pr_State q = AlertState ac \<and> pr_SuppressionReason q = c_suppressionReason ac \<and>
       pr_CurrentCaseID q = (if Case_IsOpen ac then Some (c_id ac) else None) \<and>
       pr_TotalCases q = al_totalCases alert + ac_newEpisode acc i"
proof -
  let ?p = "projectionFor alert ac at changed (ac_newEpisode acc i)"
  let ?acc1 = "acc\<lparr>ac_latest := (ac_latest acc)(i \<mapsto> ac)\<rparr>"
  have pr: "ac_projections acc' = ac_projections (stageProjection i ?p ?acc1)"
    "ac_projectionOrder acc' = ac_projectionOrder (stageProjection i ?p ?acc1)"
    "ac_latest acc' = (ac_latest acc)(i \<mapsto> ac)" "ac_newEpisode acc' = ac_newEpisode acc"
    by (simp_all add: assms settle_one_def Let_def)
  show "ac_latest acc' = (ac_latest acc)(i \<mapsto> ac)" "ac_newEpisode acc' = ac_newEpisode acc"
    "j \<noteq> i \<Longrightarrow> ac_projections acc' j = ac_projections acc j"
    "dom (ac_projections acc') = insert i (dom (ac_projections acc))"
    "ac_projectionOrder acc' =
       (if ac_projections acc i = None then ac_projectionOrder acc @ [i] else ac_projectionOrder acc)"
    using pr by simp_all
  show "\<exists>q. ac_projections acc' i = Some q \<and> pr_State q = AlertState ac \<and> pr_SuppressionReason q = c_suppressionReason ac \<and>
       pr_CurrentCaseID q = (if Case_IsOpen ac then Some (c_id ac) else None) \<and>
       pr_TotalCases q = al_totalCases alert + ac_newEpisode acc i"
    using stageProjection_own [of i ?p ?acc1] by (simp add: pr projectionFor_def)
qed

text \<open>
  The step every branch ends in: one alert's rows moved, its last row tracks the case the branch
  returns, and the episodes it opened were counted.
\<close>

lemma batch_ok_settle:
  assumes B: "batch_ok org db1 ids draw K (db, acc, k)"
    and move: "case_move org (map al_id (st_alerts db)) (st_cases db) (st_cases db')" "st_alerts db' = st_alerts db"
    and other: "\<And>j. j \<noteq> al_id alert \<Longrightarrow> cases_of db' j = cases_of db j"
    and own: "view_ok (Some ac) (cases_of db' (al_id alert))"
    and count: "ac_newEpisode acc' = (ac_newEpisode acc)(al_id alert :=
        int (length (cases_of db' (al_id alert))) - int (length (cases_of db1 (al_id alert))))"
    and acc': "ac_latest acc' = ac_latest acc" "ac_projections acc' = ac_projections acc"
        "ac_projectionOrder acc' = ac_projectionOrder acc"
    and i: "al_id alert \<in> ids" "al_totalCases alert = int (length (cases_of db1 (al_id alert)))"
    and k: "k \<le> k'" "\<And>j. k' \<le> j \<Longrightarrow> j < K \<Longrightarrow> draw j \<notin> c_id ` set (st_cases db')"
  shows "batch_ok org db1 ids draw K (db', settle_one W alert at ac changed out acc', k')"
proof -
  let ?i = "al_id alert" and ?acc = "settle_one W alert at ac changed out acc'"
  note v = settle_view [where acc' = ?acc and acc = acc', OF refl]
  have rows': "rows_ok org (map al_id (st_alerts db1)) (st_cases db')"
    using move_rows_ok [OF move(1)] batch_okD(1,2) [OF B] by simp
  have views': "view_ok (ac_latest ?acc j) (cases_of db' j)" if "j \<in> ids" for j
    using batch_okD(3) [OF B that] own other [of j] by (cases "j = ?i") (simp_all add: v(1) acc')
  have eps': "ac_newEpisode ?acc j = int (length (cases_of db' j)) - int (length (cases_of db1 j))" if "j \<in> ids" for j
    using batch_okD(4) [OF B that] other [of j] by (cases "j = ?i") (simp_all add: v(2) count)
  have pr': "pending_ok (j \<in> ids) (ac_projections ?acc j) (ac_latest ?acc j) (cases_of db' j) (cases_of db1 j)" for j
  proof (cases "j = ?i")
    case True
    obtain q where "ac_projections ?acc ?i = Some q" "pr_State q = AlertState ac"
      "pr_SuppressionReason q = c_suppressionReason ac"
      "pr_CurrentCaseID q = (if Case_IsOpen ac then Some (c_id ac) else None)"
      "pr_TotalCases q = al_totalCases alert + ac_newEpisode acc' ?i"
      using v(6) by blast
    with True i count show ?thesis by (simp add: v(1) staged_ok_def Case_IsOpen_def derefID_def)
  next
    case False
    with batch_okD(5) [OF B, of j] other [OF False] show ?thesis by (simp add: v(1,3) acc')
  qed
  have ord: "distinct (ac_projectionOrder ?acc)" "set (ac_projectionOrder ?acc) = dom (ac_projections ?acc)"
    using batch_okD(6,7) [OF B] by (auto simp: v(4,5) acc')
  show ?thesis
    by (rule batch_okI) (use batch_okD(1) [OF B] move(2) rows' views' eps' pr' ord k(2) in simp_all)
qed

section \<open>One observation\<close>

lemma Decide_Inr:
  assumes "Decide c cmd = Inr d"
  shows "d_OpensEpisode d \<Longrightarrow> c_state c \<noteq> CaseOpen \<and> d_Seq d = c_seq c + 1"
    "\<not> d_OpensEpisode d \<Longrightarrow> c_state c = CaseOpen"
proof -
  from assms obtain rule where rule: "selectRule c cmd = Inr rule"
    and d: "d_OpensEpisode d = r_opensNewCase rule" "d_OpensEpisode d \<Longrightarrow> d_Seq d = c_seq c + 1"
    by (auto simp: Decide_def rbind_Inr_iff split: if_splits)
  note r = selectRule_Inr [OF rule]
  have "r_opensNewCase rule \<longleftrightarrow> r_from rule \<in> {StateNone, StateResolved, StateExpired}"
    using r by (auto simp: transitionTable_def)
  moreover have "lifecyclePhase c \<in> {StateNone, StateResolved, StateExpired} \<longleftrightarrow> c_state c \<noteq> CaseOpen"
    by (cases "c_state c") (simp_all add: lifecyclePhase_def AlertState_def oto_defs)
  ultimately show "d_OpensEpisode d \<Longrightarrow> c_state c \<noteq> CaseOpen \<and> d_Seq d = c_seq c + 1"
    "\<not> d_OpensEpisode d \<Longrightarrow> c_state c = CaseOpen"
    using r d by simp_all
qed

lemma tracks_trans_row:
  assumes "tracks r m" "Apply U m cmd = Inr tr" "tracks r' (tr_Case tr)"
  shows "same_row r' r"
  using assms Apply_same_episode [OF assms(2)] by (simp add: tracks_def same_row_def same_episode_def)

lemma persist_edge:
  assumes "rows_ok org ids (st_cases db)" "r \<in> set (st_cases db)" "tracks r m" "Apply U m cmd = Inr tr"
    "cmd_SourceEndsAt cmd = ob_SourceEndsAt o'" "persistTransition db tr o' = Inr db'"
  obtains r' where "db' = db\<lparr>st_cases := update_where (\<lambda>c. c_id c = c_id r) (\<lambda>_. r') (st_cases db)\<rparr>"
    "case_move org ids (st_cases db) (st_cases db')" "tracks r' (tr_Case tr)" "same_row r' r"
proof (cases "tr_ID tr = TransitionT2")
  case True
  have "c_id (tr_Case tr) = c_id r"
    using Apply_same_episode [OF assms(4)] assms(3) by (simp add: same_episode_def tracks_def same_row_def)
  then have "Case_Observe db (c_id r) o' = Inr db'" using True assms(6) by (simp add: persistTransition_def)
  note m = Case_Observe_move [OF assms(1) this assms(2-4) True assms(5)]
  show thesis by (rule that [OF m tracks_trans_row [OF assms(3,4) m(3)]])
next
  case False
  then have "Case_Transition db (c_id (tr_Case tr)) (transitionOf tr (ob_SuppressedBy o')) = Inr db'"
    using assms(6) by (simp add: persistTransition_def)
  note m = Case_Transition_move [OF assms(1) this assms(2-4)]
  show thesis by (rule that [OF m tracks_trans_row [OF assms(3,4) m(3)]])
qed

lemma edgeCommand_Inr: "edgeCommand ev o' at actor trigger cfg prior cur = Inr cmd \<Longrightarrow>
    cmd_SourceEndsAt cmd = ob_SourceEndsAt o' \<and> cmd_Trigger cmd = trigger \<and> cmd_Actor cmd = actor \<and> cmd_At cmd = at"
  by (auto simp: edgeCommand_def Let_def routingCommand_def rbind_Inr_iff split: if_splits)

lemma observe_edge_cases:
  assumes "observe_edge W draw cfg prior alert o' at actor out m (db, acc, k) = Inr (db', acc', k')"
  obtains (none) cmd e where "db' = db" "acc' = noTransition out acc" "k' = Suc k" "Apply (aw_U W) m cmd = Inl e"
      "errKind e = KindPrecondition" "cmd_Trigger cmd = triggerFor (ob_Status o')"
  | (edge) cmd tr acc1 out1 where "Apply (aw_U W) m cmd = Inr tr" "cmd_SourceEndsAt cmd = ob_SourceEndsAt o'"
      "persistTransition db tr o' = Inr db'" "same_view acc1 acc" "k' = Suc k"
      "acc' = settle_one W alert at (tr_Case tr) (tr_From tr \<noteq> tr_To tr) out1 acc1"
      "cmd_Trigger cmd = triggerFor (ob_Status o')"
proof -
  from assms obtain cmd0 cmd where c0: "edgeCommand (draw k) o' at actor (triggerFor (ob_Status o')) cfg prior alert = Inr cmd0"
    and c1: "(if triggerFor (ob_Status o') = TriggerObserveResolved
       then rbind (caseRetention W alert) (\<lambda>w. Inr (cmd0\<lparr>cmd_CaseRetention := w\<rparr>)) else Inr cmd0) = Inr cmd"
    and rest: "(case Apply (aw_U W) m cmd of
       Inl e \<Rightarrow> if errKind e = KindPrecondition then Inr (db, noTransition out acc, Suc k) else Inl e
     | Inr r \<Rightarrow> rbind (applyEdge alert o' r actor out (db, acc)) (\<lambda>(ac, changed, out1, db', acc1).
         Inr (db', settle_one W alert at ac changed out1 acc1, Suc k))) = Inr (db', acc', k')"
    unfolding observe_edge_def Let_def case_prod_conv rbind_Inr_iff by blast
  from c1 have c: "cmd_SourceEndsAt cmd = cmd_SourceEndsAt cmd0" "cmd_Trigger cmd = cmd_Trigger cmd0"
    by (auto simp: rbind_Inr_iff split: if_splits)
  show thesis
  proof (cases "Apply (aw_U W) m cmd")
    case (Inl e)
    with rest c edgeCommand_Inr [OF c0] show thesis by (intro none) (auto split: if_splits)
  next
    case (Inr tr)
    with rest obtain ac changed out1 acc1 where
      e: "applyEdge alert o' tr actor out (db, acc) = Inr (ac, changed, out1, db', acc1)"
      and s: "acc' = settle_one W alert at ac changed out1 acc1" "k' = Suc k"
      by (auto simp: rbind_Inr_iff)
    from e have "persistTransition db tr o' = Inr db'" "ac = tr_Case tr" "changed = (tr_From tr \<noteq> tr_To tr)"
      "same_view acc1 acc"
      by (auto simp: applyEdge_def Let_def rbind_Inr_iff same_view_def split: if_splits)
    with Inr s c edgeCommand_Inr [OF c0] show thesis by (intro edge) auto
  qed
qed

lemma observe_edge_ok:
  assumes B: "batch_ok org db1 ids draw K (db, acc, k)" and i: "al_id alert \<in> ids"
      "al_totalCases alert = int (length (cases_of db1 (al_id alert)))"
    and m: "ac_latest acc (al_id alert) = Some m"
    and E: "observe_edge W draw cfg prior alert o' at actor out m (db, acc, k) = Inr (db', acc', k')"
  shows "batch_ok org db1 ids draw K (db', acc', k')"
  using E
proof (cases rule: observe_edge_cases)
  case none
  then show ?thesis using batch_ok_same_view [OF B] by (simp add: noTransition_def same_view_def)
next
  case (edge cmd tr acc1 out1)
  let ?i = "al_id alert"
  from batch_okD(3) [OF B i(1)] m obtain r where r: "r \<in> set (cases_of db ?i)"
    "c_seq r = int (length (cases_of db ?i))" "tracks r m" by auto
  then have mem: "r \<in> set (st_cases db)" "c_alertID r = ?i" by (simp_all add: cases_of_def)
  note rows = batch_okD(2) [OF B]
  have d: "distinct (map c_id (st_cases db))" using rows by (simp add: rows_ok_def)
  from persist_edge [OF rows mem(1) r(3) edge(1-3)] obtain r' where
    r': "db' = db\<lparr>st_cases := update_where (\<lambda>c. c_id c = c_id r) (\<lambda>_. r') (st_cases db)\<rparr>"
      "case_move org (map al_id (st_alerts db1)) (st_cases db) (st_cases db')" "tracks r' (tr_Case tr)" "same_row r' r" .
  note own = rewrite_own [OF d mem(1) r'(4)] and other = rewrite_other [OF d mem(1) r'(4)]
  have ids: "c_id ` set (st_cases db') = c_id ` set (st_cases db)"
    using arg_cong [OF own(3), of set] by (simp add: r'(1))
  show ?thesis
    unfolding edge(6)
  proof (rule batch_ok_settle [OF B])
    show "case_move org (map al_id (st_alerts db)) (st_cases db) (st_cases db')" using r'(2) batch_okD(1) [OF B] by simp
    show "view_ok (Some (tr_Case tr)) (cases_of db' ?i)"
      using own r(2) r'(3,4) mem(2) by (auto simp: r'(1) cases_of_alert same_row_def)
    show "ac_newEpisode acc1 = (ac_newEpisode acc)(?i := int (length (cases_of db' ?i)) - int (length (cases_of db1 ?i)))"
      using batch_okD(4) [OF B i(1)] own(1) edge(4) mem(2)
      by (simp add: same_view_def r'(1) cases_of_alert fun_upd_idem)
    show "draw j \<notin> c_id ` set (st_cases db')" if "k' \<le> j" "j < K" for j
      using batch_okD(8) [OF B, of j] that edge(5) ids by simp
  qed (use edge i r'(1) other mem(2) in \<open>simp_all add: same_view_def cases_of_alert\<close>)
qed

lemma applyOpen_cases:
  assumes "applyOpen W draw alert o' at actor d out (db, acc, k) = Inr (ac, out1, db', acc', k')"
  obtains draft evs where
    "OpenNewCase (aw_U W) (openParams W (draw k) (draw (Suc k)) alert o' at actor (d_Seq d)) = Inr (draft, evs)"
    "OpenCase (aw_org W) db (openRow draft o') = Inr (ac, db')" "k + 2 \<le> k'" "ac_latest acc' = ac_latest acc"
    "ac_projections acc' = ac_projections acc" "ac_projectionOrder acc' = ac_projectionOrder acc"
    "ac_newEpisode acc' = (ac_newEpisode acc)(al_id alert := ac_newEpisode acc (al_id alert) + 1)"
  using assms by (auto simp: applyOpen_def openEpisode_def Let_def rbind_Inr_iff split: if_splits)

lemma openParams_case:
  assumes "OpenNewCase U (openParams W caseID ev alert o' at actor seq) = Inr (draft, evs)"
  shows "oc_ID (openRow draft o') = caseID" "oc_AlertID (openRow draft o') = al_id alert"
    "oc_Seq (openRow draft o') = seq"
  using NewCase_fields [OF OpenNewCase_Inr(1) [OF assms]]
  by (simp_all add: openRow_def openCaseParams_def openParams_def)

lemma view_closed:
  assumes "rows_ok org ids (st_cases db)" "i \<in> set ids" "view_ok l (cases_of db i)"
    "c_state (case l of Some c \<Rightarrow> c | None \<Rightarrow> zeroCase) \<noteq> CaseOpen"
  shows "c_seq (case l of Some c \<Rightarrow> c | None \<Rightarrow> zeroCase) = int (length (cases_of db i))"
    "\<forall>c\<in>set (cases_of db i). c_endedAt c \<noteq> 0"
proof -
  show "c_seq (case l of Some c \<Rightarrow> c | None \<Rightarrow> zeroCase) = int (length (cases_of db i))"
    using assms(3) by (cases l) (auto simp: zeroCase_def tracks_def same_row_def)
  have chain: "chain_ok (cases_of db i)" using assms(1,2) by (simp add: rows_ok_def cases_of_alert)
  show "\<forall>c\<in>set (cases_of db i). c_endedAt c \<noteq> 0"
  proof (cases l)
    case (Some m)
    with assms(3) obtain r where r: "r \<in> set (cases_of db i)" "c_seq r = int (length (cases_of db i))" "tracks r m" by auto
    then have "readable r" using assms(1) by (auto simp: rows_ok_def cases_of_def)
    moreover have "c_state r \<noteq> CaseOpen" using r(3) Some assms(4) by (simp add: tracks_def same_standing_def)
    ultimately have "c_endedAt r \<noteq> 0" unfolding readable_iff check_None_iff by (cases "c_state r") auto
    then show ?thesis using chain chain_seq_inj [OF chain] r(1,2) unfolding chain_ok_def inj_on_def by metis
  qed (use assms(3) in simp)
qed

lemma applyOpen_ok:
  assumes B: "batch_ok (aw_org W) db1 ids draw K (db, acc, k)" and i: "al_id alert \<in> ids" "al_id alert \<in> al_id ` set (st_alerts db1)"
      "al_totalCases alert = int (length (cases_of db1 (al_id alert)))"
    and cur: "c_state cur \<noteq> CaseOpen" "d_Seq d = c_seq cur + 1"
      "cur = (case ac_latest acc (al_id alert) of Some c \<Rightarrow> c | None \<Rightarrow> zeroCase)"
    and O: "applyOpen W draw alert o' at actor d out (db, acc, k) = Inr (ac, out1, db', acc', k')"
    and K: "k' \<le> K" "inj_on draw {..<K}"
  shows "batch_ok (aw_org W) db1 ids draw K (db', settle_one W alert at ac True out1 acc', k')"
proof -
  let ?i = "al_id alert"
  note rows = batch_okD(2) [OF B]
  from O obtain draft evs where o: "OpenNewCase (aw_U W) (openParams W (draw k) (draw (Suc k)) alert o' at actor (d_Seq d)) = Inr (draft, evs)"
    "OpenCase (aw_org W) db (openRow draft o') = Inr (ac, db')" "k + 2 \<le> k'" "ac_latest acc' = ac_latest acc"
    "ac_projections acc' = ac_projections acc" "ac_projectionOrder acc' = ac_projectionOrder acc"
    "ac_newEpisode acc' = (ac_newEpisode acc)(?i := ac_newEpisode acc ?i + 1)"
    by (rule applyOpen_cases)
  note p = openParams_case [OF o(1)]
  have "c_state (case ac_latest acc ?i of Some c \<Rightarrow> c | None \<Rightarrow> zeroCase) \<noteq> CaseOpen" using cur by simp
  note v = view_closed [OF rows _ batch_okD(3) [OF B i(1)] this]
  have seq: "oc_Seq (openRow draft o') = int (length (cases_of db (oc_AlertID (openRow draft o')))) + 1"
    using v(1) cur i(2) p by simp
  have closed: "\<forall>c\<in>set (cases_of db (oc_AlertID (openRow draft o'))). c_endedAt c \<noteq> 0" using v(2) i(2) p by simp
  have fresh: "oc_ID (openRow draft o') \<notin> c_id ` set (st_cases db)" using batch_okD(8) [OF B, of k] o(3) K(1) p by simp
  from OpenCase_move [OF o(2) fresh seq closed] obtain r where r: "st_cases db' = st_cases db @ [r]" "st_alerts db' = st_alerts db"
    "tracks r ac" "c_seq r = oc_Seq (openRow draft o')" "c_alertID r = oc_AlertID (openRow draft o')"
    "c_id r = oc_ID (openRow draft o')" "c_endedAt r = 0"
    "case_move (aw_org W) (map al_id (st_alerts db)) (st_cases db) (st_cases db')" by metis
  have al: "c_alertID r = ?i" and id: "c_id r = draw k" using r p by simp_all
  have other: "cases_of db' j = cases_of db j" if "j \<noteq> ?i" for j using that al by (simp add: cases_of_alert r(1))
  have own: "cases_of db' ?i = cases_of db ?i @ [r]" using al by (simp add: cases_of_alert r(1))
  show ?thesis
  proof (rule batch_ok_settle [OF B r(8,2) other])
    show "view_ok (Some ac) (cases_of db' ?i)" using own seq p r(3,4) by simp
    show "ac_newEpisode acc' = (ac_newEpisode acc)(?i := int (length (cases_of db' ?i)) - int (length (cases_of db1 ?i)))"
      using o(7) batch_okD(4) [OF B i(1)] own by (simp add: algebra_simps)
    show "draw j \<notin> c_id ` set (st_cases db')" if "k' \<le> j" "j < K" for j
    proof -
      have "draw j \<noteq> draw k" using K that o(3) by (auto dest: inj_onD)
      then show ?thesis using batch_okD(8) [OF B, of j] that o(3) id by (simp add: r(1))
    qed
  qed (use o i in simp_all)
qed

lemma created_event_view:
  assumes "created_event W draw alert created at actor (acc, k) = Inr (acc', k')"
  shows "same_view acc' acc" "k \<le> k'"
  using assms by (auto simp: created_event_def rbind_Inr_iff same_view_def split: if_splits)

text \<open>The step of the loop: the decision of one observation, split into its branches.\<close>

lemma observeOne_cases:
  assumes "observeOne W draw cfg prior (db, acc, k) (o', alert, created) = Inr (db', acc', k')"
  obtains (none) acc1 at actor e where "same_view acc1 acc" "k \<le> k'" "db' = db"
      "acc' = noTransition (first_outcome alert created) acc1"
      "Decide (case ac_latest acc (al_id alert) of Some c \<Rightarrow> c | None \<Rightarrow> zeroCase)
         (routingCommand (triggerFor (ob_Status o')) actor at cfg) = Inl e"
  | (opens) at actor acc1 k1 d ac out1 acc2 where "same_view acc1 acc" "k \<le> k1"
      "c_state (case ac_latest acc (al_id alert) of Some c \<Rightarrow> c | None \<Rightarrow> zeroCase) \<noteq> CaseOpen"
      "d_Seq d = c_seq (case ac_latest acc (al_id alert) of Some c \<Rightarrow> c | None \<Rightarrow> zeroCase) + 1"
      "applyOpen W draw alert o' at actor d (first_outcome alert created) (db, acc1, k1) = Inr (ac, out1, db', acc2, k')"
      "acc' = settle_one W alert at ac True out1 acc2"
  | (edge) at actor acc1 k1 m where "same_view acc1 acc" "k \<le> k1" "ac_latest acc (al_id alert) = Some m"
      "observe_edge W draw cfg (map_of prior (al_key alert)) alert o' at actor (first_outcome alert created) m
         (db, acc1, k1) = Inr (db', acc', k')"
proof -
  let ?cur = "case ac_latest acc (al_id alert) of Some c \<Rightarrow> c | None \<Rightarrow> zeroCase"
  from assms obtain at actor acc1 k1 where c: "created_event W draw alert created at actor (acc, k) = Inr (acc1, k1)"
    and rest: "(case Decide (case ac_latest acc1 (al_id alert) of Some c \<Rightarrow> c | None \<Rightarrow> zeroCase)
          (routingCommand (triggerFor (ob_Status o')) actor at cfg) of
          Inl e \<Rightarrow> if errKind e = KindPrecondition then Inr (db, noTransition (first_outcome alert created) acc1, k1) else Inl e
        | Inr d \<Rightarrow>
            if d_OpensEpisode d
            then rbind (applyOpen W draw alert o' at actor d (first_outcome alert created) (db, acc1, k1))
              (\<lambda>(ac, out1, db', acc2, k2). Inr (db', settle_one W alert at ac True out1 acc2, k2))
            else observe_edge W draw cfg (map_of prior (al_key alert)) alert o' at actor (first_outcome alert created)
              (case ac_latest acc1 (al_id alert) of Some c \<Rightarrow> c | None \<Rightarrow> zeroCase) (db, acc1, k1)) = Inr (db', acc', k')"
    by (auto simp: observeOne_def Let_def rbind_Inr_iff)
  note v = created_event_view [OF c]
  have cur: "(case ac_latest acc1 (al_id alert) of Some c \<Rightarrow> c | None \<Rightarrow> zeroCase) = ?cur"
    using v(1) by (simp add: same_view_def)
  show thesis
  proof (cases "Decide ?cur (routingCommand (triggerFor (ob_Status o')) actor at cfg)")
    case (Inl e)
    with rest cur v show thesis by (intro none) (auto split: if_splits)
  next
    case (Inr d)
    show thesis
    proof (cases "d_OpensEpisode d")
      case True
      with rest cur Inr obtain ac out1 acc2 where
        "applyOpen W draw alert o' at actor d (first_outcome alert created) (db, acc1, k1) = Inr (ac, out1, db', acc2, k')"
        "acc' = settle_one W alert at ac True out1 acc2"
        by (auto simp: rbind_Inr_iff)
      with v Decide_Inr(1) [OF Inr True] show thesis by (intro opens) auto
    next
      case False
      then have "c_state ?cur = CaseOpen" by (rule Decide_Inr(2) [OF Inr])
      then obtain m where "ac_latest acc (al_id alert) = Some m"
        by (cases "ac_latest acc (al_id alert)") (auto simp: zeroCase_def)
      with rest cur Inr False v show thesis by (intro edge) auto
    qed
  qed
qed

lemma observeOne_mono:
  assumes "observeOne W draw cfg prior (db, acc, k) (o', alert, created) = Inr (db', acc', k')"
  shows "k \<le> k'"
  using assms
proof (cases rule: observeOne_cases)
  case (opens at actor acc1 k1 d ac out1 acc2)
  from opens(5) show ?thesis by (rule applyOpen_cases) (use opens(2) in simp)
next
  case (edge at actor acc1 k1 m)
  from edge(4) show ?thesis by (cases rule: observe_edge_cases) (use edge(2) in simp_all)
qed

theorem observeOne_ok:
  assumes B: "batch_ok (aw_org W) db1 ids draw K (db, acc, k)"
    and i: "al_id alert \<in> ids" "al_id alert \<in> al_id ` set (st_alerts db1)"
      "al_totalCases alert = int (length (cases_of db1 (al_id alert)))"
    and one: "observeOne W draw cfg prior (db, acc, k) (o', alert, created) = Inr (db', acc', k')"
    and K: "k' \<le> K" "inj_on draw {..<K}"
  shows "batch_ok (aw_org W) db1 ids draw K (db', acc', k')"
  using one
proof (cases rule: observeOne_cases)
  case (none acc1)
  then show ?thesis
    using batch_ok_same_view [OF B, of acc' k'] by (simp add: noTransition_def same_view_def)
next
  case (opens at actor acc1 k1 d ac out1 acc2)
  have B1: "batch_ok (aw_org W) db1 ids draw K (db, acc1, k1)" using B opens(1,2) by (rule batch_ok_same_view)
  show ?thesis
    unfolding opens(6)
    by (rule applyOpen_ok [OF B1 i opens(3,4) _ opens(5) K]) (use opens(1) in \<open>simp add: same_view_def\<close>)
next
  case (edge at actor acc1 k1 m)
  have B1: "batch_ok (aw_org W) db1 ids draw K (db, acc1, k1)" using B edge(1,2) by (rule batch_ok_same_view)
  show ?thesis
    by (rule observe_edge_ok [OF B1 i(1,3) _ edge(4)]) (use edge(1,3) in \<open>simp add: same_view_def\<close>)
qed

end
