(* ===== verification/Observe_Upsert.thy ===== *)
theory Observe_Upsert
  imports Observe_Batch
begin

text \<open>
  The two ends of a batch: the upsert of the alert rows it starts with and the reads that build its view,
  and the flush of the staged projections that restores the invariant of the store.
\<close>

section \<open>The upsert of the alerts\<close>

text \<open>
  The invariant seen from the rows alone: a row whose id no case names has no episode yet.
\<close>

definition alerts_ok :: "bool \<Rightarrow> (uuid \<Rightarrow> Case list) \<Rightarrow> Alert list \<Rightarrow> bool" where
  "alerts_ok axis eps rows \<longleftrightarrow> distinct (map al_id rows) \<and> distinct (map al_key rows) \<and>
     (\<forall>a\<in>set rows. projected_ok axis a (eps (al_id a)))"

lemma store_ok_alerts:
  "store_ok axis org db \<longleftrightarrow> alerts_ok axis (cases_of db) (st_alerts db) \<and>
     rows_ok org (map al_id (st_alerts db)) (st_cases db)"
  by (auto simp: store_ok_def alerts_ok_def)

lemma updated_alert_fields [simp]:
  "al_id (updated_alert u r) = al_id r" "al_key (updated_alert u r) = al_key r"
  "projected_ok axis (updated_alert u r) cs = projected_ok axis r cs"
  by (simp_all add: updated_alert_def projected_ok_def)

lemma inserted_alert_fields [simp]:
  "al_id (inserted_alert org u) = up_ID u" "al_key (inserted_alert org u) = up_AlertKey u"
  "projected_ok axis (inserted_alert org u) []"
  by (simp_all add: inserted_alert_def projected_ok_def)

lemma upsert_row_ids:
  "al_id ` set (upsert_row org u rows) \<subseteq> insert (up_ID u) (al_id ` set rows)"
  "al_id ` set rows \<subseteq> al_id ` set (upsert_row org u rows)"
proof -
  let ?rows = "update_where (\<lambda>r. al_key r = up_AlertKey u) (updated_alert u) rows"
  have "map al_id ?rows = map al_id rows" by (auto simp: update_where_def)
  then have "al_id ` set ?rows = al_id ` set rows" by (metis list.set_map)
  then show "al_id ` set (upsert_row org u rows) \<subseteq> insert (up_ID u) (al_id ` set rows)"
    "al_id ` set rows \<subseteq> al_id ` set (upsert_row org u rows)" by (auto simp: upsert_row_def)
qed

lemma upsert_row_ok:
  assumes ok: "alerts_ok axis eps rows" and fresh: "up_ID u \<notin> al_id ` set rows" "eps (up_ID u) = []"
  shows "alerts_ok axis eps (upsert_row org u rows)"
proof (cases "list_ex (\<lambda>r. al_key r = up_AlertKey u) rows")
  case True
  let ?rows = "update_where (\<lambda>r. al_key r = up_AlertKey u) (updated_alert u) rows"
  have "map al_id ?rows = map al_id rows" "map al_key ?rows = map al_key rows" by (auto simp: update_where_def)
  then have "distinct (map al_id ?rows)" "distinct (map al_key ?rows)" using ok by (simp_all add: alerts_ok_def)
  moreover have "\<forall>a\<in>set ?rows. projected_ok axis a (eps (al_id a))"
    using ok by (auto simp: update_where_def alerts_ok_def)
  ultimately show ?thesis using True by (simp add: alerts_ok_def upsert_row_def)
next
  case False
  then have "up_AlertKey u \<notin> al_key ` set rows" by (auto simp: list_ex_iff)
  with False ok fresh show ?thesis by (simp add: upsert_row_def alerts_ok_def)
qed

lemma disjoint_grow: "R' \<subseteq> insert u R \<Longrightarrow> u \<notin> A \<Longrightarrow> insert u A \<inter> R = {} \<Longrightarrow> A \<inter> R' = {}"
  by blast

lemma upsert_rows_ok:
  assumes "alerts_ok axis eps rows" "distinct (map up_ID us)" "up_ID ` set us \<inter> al_id ` set rows = {}"
    "\<And>i. i \<in> up_ID ` set us \<Longrightarrow> eps i = []"
  shows "alerts_ok axis eps (fold (upsert_row org) us rows) \<and>
    al_id ` set rows \<subseteq> al_id ` set (fold (upsert_row org) us rows)"
  using assms
proof (induction us arbitrary: rows)
  case (Cons u us)
  let ?rows = "upsert_row org u rows"
  have u: "up_ID u \<notin> al_id ` set rows" "up_ID u \<notin> up_ID ` set us" "eps (up_ID u) = []" using Cons.prems by auto
  have "alerts_ok axis eps ?rows" by (rule upsert_row_ok [OF Cons.prems(1) u(1,3)])
  moreover have "up_ID ` set us \<inter> al_id ` set ?rows = {}"
    by (rule disjoint_grow [OF upsert_row_ids(1) u(2)]) (use Cons.prems(3) in simp)
  ultimately have "alerts_ok axis eps (fold (upsert_row org) us ?rows) \<and>
      al_id ` set ?rows \<subseteq> al_id ` set (fold (upsert_row org) us ?rows)"
    using Cons.prems(2,4) by (intro Cons.IH) simp_all
  then show ?case using upsert_row_ids(2) [of rows org u] by (simp add: subset_trans)
qed simp

text \<open>The winners of the collapse come from the batch, one per key.\<close>

lemma map_of_AList_update: "map_of (AList.update k v al) = (map_of al)(k \<mapsto> v)"
  by (rule update_conv')

lemma upsert_collapse_ok:
  assumes "upsert_collapse ins = (order, winner)"
  shows "distinct order" "\<And>k u. map_of winner k = Some u \<Longrightarrow> u \<in> set ins \<and> up_AlertKey u = k"
proof -
  have "distinct order \<and> set order = dom (map_of winner) \<and>
      (\<forall>k u. map_of winner k = Some u \<longrightarrow> u \<in> set ins \<and> up_AlertKey u = k)"
    using assms
  proof (induction ins arbitrary: order winner rule: rev_induct)
    case (snoc u ins)
    obtain o1 w1 where c: "upsert_collapse ins = (o1, w1)" by fastforce
    note IH = snoc.IH [OF c]
    have "order = (if map_of w1 (up_AlertKey u) = None then o1 @ [up_AlertKey u] else o1)"
      "winner = AList.update (up_AlertKey u) u w1"
      using snoc.prems c by (simp_all add: upsert_collapse_def)
    with IH show ?case by (auto simp: map_of_AList_update split: if_splits)
  qed (simp add: upsert_collapse_def)
  then show "distinct order" "\<And>k u. map_of winner k = Some u \<Longrightarrow> u \<in> set ins \<and> up_AlertKey u = k" by blast+
qed

lemma winners_distinct:
  assumes "upsert_collapse ins = (order, winner)" "distinct (map up_ID ins)"
  shows "distinct (map up_ID (List.map_filter (map_of winner) order))"
    "set (List.map_filter (map_of winner) order) \<subseteq> set ins"
proof -
  note c = upsert_collapse_ok [OF assms(1)]
  show sub: "set (List.map_filter (map_of winner) order) \<subseteq> set ins"
    using c(2) by (auto simp: List.map_filter_def)
  have inj: "inj_on up_ID (set ins)" using assms(2) by (simp add: distinct_map)
  have "distinct (List.map_filter (map_of winner) ks)" if "distinct ks" for ks
    using that c(2) by (induction ks) (auto simp: List.map_filter_def, metis)
  then have "distinct (List.map_filter (map_of winner) order)" using c(1) by simp
  then show "distinct (map up_ID (List.map_filter (map_of winner) order))"
    using inj sub by (simp add: distinct_map inj_on_subset)
qed

section \<open>What the upsert answers\<close>

lemma alert_toDomain_Inr:
  assumes "alert_toDomain r = Inr a"
  shows "al_id a = al_id r" "al_totalCases a = al_totalCases r" "al_state a = al_state r"
  using assms by (auto simp: alert_toDomain_def rbind_Inr_iff dest!: NewAlert_Inr)

lemma read_all_image: "read_all f rs = Inr xs \<Longrightarrow> f ` set rs = Inr ` set xs"
proof (induction rs arbitrary: xs)
  case (Cons r rs)
  then obtain y ys where "f r = Inr y" "read_all f rs = Inr ys" "xs = y # ys" by (auto simp: rbind_Inr_iff)
  with Cons.IH show ?case by simp
qed simp

lemma read_all_mem:
  assumes "read_all f rs = Inr xs"
  shows "x \<in> set xs \<Longrightarrow> \<exists>r\<in>set rs. f r = Inr x" "r \<in> set rs \<Longrightarrow> \<exists>x\<in>set xs. f r = Inr x"
  using read_all_image [OF assms] by (metis imageE imageI)+

lemma upsert_results_Inr:
  assumes "upsert_results fresh byKey seen ins = Inr out"
  shows "length out = length ins" "x \<in> set out \<Longrightarrow> \<exists>k. map_of byKey k = Some (fst x)"
  using assms by (induction fresh byKey seen ins arbitrary: out x rule: upsert_results.induct)
    (auto simp: rbind_Inr_iff split: option.splits)

lemma rows_ok_more:
  assumes "rows_ok org ids cs" "set ids \<subseteq> set ids'"
  shows "rows_ok org ids' cs"
proof -
  have "of_alert i cs = []" if "i \<notin> set ids" for i using that assms(1) by (auto simp: rows_ok_def of_alert_def filter_empty_conv)
  then have "chain_ok (of_alert i cs)" for i
    using assms(1) by (cases "i \<in> set ids") (simp_all add: rows_ok_def chain_ok_def)
  then show ?thesis using assms by (auto simp: rows_ok_def)
qed

text \<open>
  The statement keeps the invariant, and every alert it answers is a row of the table with its count of
  episodes.
\<close>

lemma UpsertBatch_ok:
  assumes S: "store_ok axis org db" and U: "UpsertBatch org db ins = Inr (out, db1)"
    and ids: "distinct (map up_ID ins)" "up_ID ` set ins \<inter> al_id ` set (st_alerts db) = {}"
  shows "store_ok axis org db1" "st_cases db1 = st_cases db" "length out = length ins"
    "x \<in> set out \<Longrightarrow> \<exists>r\<in>set (st_alerts db1). al_id (fst x) = al_id r \<and>
       al_totalCases (fst x) = int (length (cases_of db1 (al_id r)))"
proof -
  have none: "cases_of db i = []" if "i \<notin> al_id ` set (st_alerts db)" for i
    using S that by (auto simp: store_ok_def rows_ok_def cases_of_def filter_empty_conv)
  have "store_ok axis org db1 \<and> st_cases db1 = st_cases db \<and> length out = length ins \<and>
    (\<forall>x\<in>set out. \<exists>r\<in>set (st_alerts db1). al_id (fst x) = al_id r \<and>
       al_totalCases (fst x) = int (length (cases_of db1 (al_id r))))"
  proof (cases "ins = []")
    case True
    with U S show ?thesis by (simp add: UpsertBatch_def)
  next
    case False
    obtain order winner where c: "upsert_collapse ins = (order, winner)" by fastforce
    define us where "us = List.map_filter (map_of winner) order"
    define rows where "rows = fold (upsert_row org) us (st_alerts db)"
    define up where "up = filter (\<lambda>r. al_key r \<in> set order) rows"
    from U False c obtain as fresh where r: "read_all alert_toDomain up = Inr as"
        "upsert_results fresh (map (\<lambda>a. (al_key a, a)) as) [] ins = Inr out"
      and db1: "st_alerts db1 = rows" "st_cases db1 = st_cases db"
      by (auto simp: UpsertBatch_def Let_def rbind_Inr_iff us_def rows_def up_def split: if_splits)
    note w = winners_distinct [OF c ids(1)]
    have us: "distinct (map up_ID us)" "up_ID ` set us \<inter> al_id ` set (st_alerts db) = {}"
      using w ids(2) by (auto simp: us_def)
    have eps: "cases_of db1 i = cases_of db i" for i by (simp add: cases_of_def db1)
    from S have "alerts_ok axis (cases_of db) (st_alerts db)" by (simp add: store_ok_alerts)
    then have "alerts_ok axis (cases_of db) rows \<and> al_id ` set (st_alerts db) \<subseteq> al_id ` set rows"
      unfolding rows_def using us none by (intro upsert_rows_ok) (auto simp: disjoint_iff)
    then have ok: "alerts_ok axis (cases_of db1) rows" "al_id ` set (st_alerts db) \<subseteq> al_id ` set rows"
      by (simp_all add: eps [abs_def])
    then have st: "store_ok axis org db1"
      using S rows_ok_more [of org "map al_id (st_alerts db)"] by (simp add: store_ok_alerts db1)
    have "\<exists>r\<in>set rows. al_id (fst x) = al_id r \<and> al_totalCases (fst x) = int (length (cases_of db1 (al_id r)))"
      if x: "x \<in> set out" for x
    proof -
      from upsert_results_Inr(2) [OF r(2) x] have "fst x \<in> set as" by (auto dest: map_of_SomeD)
      with read_all_mem(1) [OF r(1)] obtain q where q: "q \<in> set up" "alert_toDomain q = Inr (fst x)" by blast
      then have mem: "q \<in> set rows" by (simp add: up_def)
      with ok(1) have "projected_ok axis q (cases_of db1 (al_id q))" by (simp add: alerts_ok_def)
      with alert_toDomain_Inr [OF q(2)] mem show ?thesis by (auto simp: projected_ok_def)
    qed
    with st db1 upsert_results_Inr(1) [OF r(2)] show ?thesis by auto
  qed
  then show "store_ok axis org db1" "st_cases db1 = st_cases db" "length out = length ins"
    "x \<in> set out \<Longrightarrow> \<exists>r\<in>set (st_alerts db1). al_id (fst x) = al_id r \<and>
       al_totalCases (fst x) = int (length (cases_of db1 (al_id r)))" by auto
qed

lemma buildUpserts_ids:
  "buildUpserts draw k obs = Inr us \<Longrightarrow> map up_ID us = map draw [k..<k + length obs]"
proof (induction obs arbitrary: k us)
  case (Cons o' obs)
  then obtain u vs where "buildUpsert (draw k) o' = Inr u" "buildUpserts draw (Suc k) obs = Inr vs" "us = u # vs"
    by (auto simp: rbind_Inr_iff)
  moreover from this have "up_ID u = draw k" by (auto simp: buildUpsert_def rbind_Inr_iff split: if_splits)
  ultimately show ?case using Cons.IH [of "Suc k" vs] by (simp add: upt_conv_Cons del: upt_Suc)
qed simp

section \<open>The view the batch starts from\<close>

lemma latest_view:
  assumes "rows_ok org ids (st_cases db)" "i \<in> set ids"
  shows "latest_row (cases_of db i) = None \<Longrightarrow> view_ok None (cases_of db i)"
    "latest_row (cases_of db i) = Some r \<Longrightarrow> case_toDomain r = Inr m \<Longrightarrow> view_ok (Some m) (cases_of db i) \<and> c_alertID m = i"
proof -
  have chain: "chain_ok (cases_of db i)" using assms by (simp add: rows_ok_def cases_of_alert)
  show "view_ok None (cases_of db i)" if "latest_row (cases_of db i) = None" using that by (simp add: latest_row_None)
  show "view_ok (Some m) (cases_of db i) \<and> c_alertID m = i"
    if l: "latest_row (cases_of db i) = Some r" and m: "case_toDomain r = Inr m"
  proof -
    have "cases_of db i \<noteq> []" using l by (auto simp flip: latest_row_None)
    with latest_row_max [OF chain] l have r: "r \<in> set (cases_of db i)" "c_seq r = int (length (cases_of db i))" by auto
    then have "readable r" "c_alertID r = i" using assms(1) by (auto simp: rows_ok_def cases_of_def)
    moreover have "tracks r m" using NewCase_tracks m \<open>readable r\<close> by (simp add: case_toDomain_def)
    ultimately show ?thesis using r by (auto simp: tracks_def same_row_def)
  qed
qed

lemma latest_one_by_one_none:
  "latest_one_by_one db ids = Inr latest \<Longrightarrow> cases_of db j = [] \<Longrightarrow> map_of latest j = None"
proof (induction ids arbitrary: latest)
  case (Cons l ids)
  then show ?case by (auto simp: rbind_Inr_iff GetLatestByAlert_def latest_row_def split: option.splits)
qed simp

lemma latest_one_by_one_view:
  assumes rows: "rows_ok org al (st_cases db)"
  shows "\<lbrakk>latest_one_by_one db ids = Inr latest; i \<in> set ids; set ids \<subseteq> set al\<rbrakk> \<Longrightarrow> view_ok (map_of latest i) (cases_of db i)"
proof (induction ids arbitrary: latest)
  case (Cons j ids)
  then obtain found rest where f: "GetLatestByAlert db j = Inr found" "latest_one_by_one db ids = Inr rest"
    "latest = (case found of Some c \<Rightarrow> (j, c) # rest | None \<Rightarrow> rest)" by (auto simp: rbind_Inr_iff)
  have j: "j \<in> set al" using Cons.prems by simp
  consider "i \<noteq> j" | "i = j" "latest_row (cases_of db j) = None" | r where "i = j" "latest_row (cases_of db j) = Some r"
    by (cases "i = j"; cases "latest_row (cases_of db j)") auto
  then show ?case
  proof cases
    case 1
    then have "map_of latest i = map_of rest i" using f(3) by (simp split: option.split)
    then show ?thesis using Cons.IH [OF f(2)] Cons.prems(2,3) 1 by simp
  next
    case 2
    then have "cases_of db j = []" by (simp add: latest_row_None)
    then show ?thesis using latest_one_by_one_none [OF Cons.prems(1)] 2(1) by simp
  next
    case (3 r)
    then obtain m where m: "found = Some m" "case_toDomain r = Inr m" using f(1) by (auto simp: GetLatestByAlert_def rbind_Inr_iff)
    show ?thesis using latest_view(2) [OF rows j 3(2) m(2)] m(1) 3(1) f(3) by simp
  qed
qed simp

lemma LatestByAlerts_view:
  assumes rows: "rows_ok org al (st_cases db)" and L: "LatestByAlerts db ids = Inr latest" and i: "i \<in> set ids" "set ids \<subseteq> set al"
  shows "view_ok (map_of latest i) (cases_of db i)"
proof -
  define js where "js = remdups (filter (\<lambda>j. j \<in> set ids) (map c_alertID (st_cases db)))"
  from L i(1) obtain cs where cs: "read_all case_toDomain (List.map_filter (\<lambda>j. latest_row (cases_of db j)) js) = Inr cs"
    and lat: "latest = map (\<lambda>c. (c_alertID c, c)) cs"
    by (cases "ids = []") (auto simp: LatestByAlerts_def rbind_Inr_iff js_def)
  have js: "set js \<subseteq> set al" using i(2) by (auto simp: js_def)
  show ?thesis
  proof (cases "map_of latest i")
    case (Some c)
    then have "c \<in> set cs" "c_alertID c = i" by (auto simp: lat dest: map_of_SomeD)
    with read_all_mem(1) [OF cs] obtain r where r: "r \<in> set (List.map_filter (\<lambda>j. latest_row (cases_of db j)) js)" "case_toDomain r = Inr c"
      by blast
    then obtain j where j: "j \<in> set js" "latest_row (cases_of db j) = Some r" by (auto simp: List.map_filter_def)
    with latest_view(2) [OF rows _ j(2) r(2)] js Some \<open>c_alertID c = i\<close> show ?thesis by auto
  next
    case None
    then have no: "i \<notin> c_alertID ` set cs" by (auto simp: lat map_of_eq_None_iff image_comp)
    have "cases_of db i = []"
    proof (rule ccontr)
      assume some: "cases_of db i \<noteq> []"
      then obtain q where "q \<in> set (st_cases db)" "c_alertID q = i" by (auto simp: cases_of_def filter_empty_conv)
      then have "i \<in> set js" using i(1) by (force simp: js_def)
      moreover obtain r where r: "latest_row (cases_of db i) = Some r" using some latest_row_None by fastforce
      ultimately have "r \<in> set (List.map_filter (\<lambda>j. latest_row (cases_of db j)) js)" by (force simp: List.map_filter_def)
      with read_all_mem(2) [OF cs] obtain c where "c \<in> set cs" "case_toDomain r = Inr c" by blast
      with latest_view(2) [OF rows _ r, of c] i no show False by auto
    qed
    with None show ?thesis by simp
  qed
qed

lemma latestCases_view:
  assumes "rows_ok org al (st_cases db)" "latestCases W db ids = Inr latest" "i \<in> set ids" "set ids \<subseteq> set al"
  shows "view_ok (map_of latest i) (cases_of db i)"
  using assms LatestByAlerts_view latest_one_by_one_view unfolding latestCases_def by (cases "aw_occBatch W") simp_all

section \<open>The flush\<close>

lemma staged_row_ok:
  assumes chain: "chain_ok cs" and v: "view_ok (Some m) cs" and p: "staged_ok p m cs"
  shows "projected_ok axis (projected p a) cs"
proof -
  from v obtain r where r: "r \<in> set cs" "c_seq r = int (length cs)" "tracks r m" by auto
  have one: "c = r" if "c \<in> set cs" "c_seq c = int (length cs)" for c
    using chain_seq_inj [OF chain] that r(1,2) by (simp add: inj_on_def)
  have "al_state (projected p a) = AlertState r" "al_suppressionReason (projected p a) = c_suppressionReason r"
    "al_currentCaseID (projected p a) = (if c_endedAt r = 0 then c_id r else uuid_Nil)"
    "al_totalCases (projected p a) = int (length cs)"
    using p r(3) by (simp_all add: projected_def staged_ok_def tracks_def same_row_def same_standing_def AlertState_def)
  then show ?thesis using r(1) one by (auto simp: projected_ok_def)
qed

lemma SetProjectionBatch_alerts:
  assumes "SetProjectionBatch db ins = Inr db'"
  shows "st_alerts db' = map (\<lambda>a. case map_of ins (al_id a) of Some p \<Rightarrow> projected p a | None \<Rightarrow> a) (st_alerts db)"
    "st_cases db' = st_cases db"
  using assms by (auto simp: SetProjectionBatch_def split: if_splits)

lemma projected_fields [simp]: "al_id (projected p a) = al_id a" "al_key (projected p a) = al_key a"
  by (simp_all add: projected_def)

text \<open>Writing projections keeps the invariant when each row written, and each left alone, is right.\<close>

lemma store_ok_project:
  assumes P: "SetProjectionBatch db ins = Inr db'" and rows: "rows_ok org (map al_id (st_alerts db)) (st_cases db)"
    and dist: "distinct (map al_id (st_alerts db))" "distinct (map al_key (st_alerts db))"
    and put: "\<And>a p. a \<in> set (st_alerts db) \<Longrightarrow> map_of ins (al_id a) = Some p \<Longrightarrow> projected_ok axis (projected p a) (cases_of db (al_id a))"
    and keep: "\<And>a. a \<in> set (st_alerts db) \<Longrightarrow> map_of ins (al_id a) = None \<Longrightarrow> projected_ok axis a (cases_of db (al_id a))"
  shows "store_ok axis org db'"
proof -
  let ?f = "\<lambda>a. case map_of ins (al_id a) of Some p \<Rightarrow> projected p a | None \<Rightarrow> a"
  note A = SetProjectionBatch_alerts [OF P]
  have f: "al_id (?f a) = al_id a" "al_key (?f a) = al_key a" for a by (simp_all split: option.split)
  have ids: "map al_id (st_alerts db') = map al_id (st_alerts db)" "map al_key (st_alerts db') = map al_key (st_alerts db)"
    by (simp_all add: A f)
  have eps: "cases_of db' i = cases_of db i" for i by (simp add: cases_of_def A)
  have "projected_ok axis (?f a) (cases_of db (al_id a))" if "a \<in> set (st_alerts db)" for a
    using put [OF that] keep [OF that] by (simp split: option.split)
  then have "\<forall>a\<in>set (st_alerts db'). projected_ok axis a (cases_of db' (al_id a))" by (simp add: A(1) f eps)
  then show ?thesis using ids rows dist by (simp add: store_ok_def A(2))
qed

lemma flushProjections_ok:
  assumes B: "batch_ok org db1 ids draw K (db, acc, k)" and S: "store_ok axis org db1" and F: "flushProjections db acc = Inr db'"
  shows "store_ok axis org db'"
proof -
  let ?ins = "List.map_filter (\<lambda>i. map_option (Pair i) (ac_projections acc i)) (ac_projectionOrder acc)"
  have look: "map_of (List.map_filter (\<lambda>i. map_option (Pair i) (f i)) is) j = (if j \<in> set is then f j else None)"
    for f :: "uuid \<rightharpoonup> AlertProjection" and "is" j
    by (induction "is") (auto simp: List.map_filter_def split: option.split)
  have ins: "map_of ?ins i = ac_projections acc i" for i using batch_okD(7) [OF B] by (auto simp: look domIff)
  note al = batch_okD(1) [OF B] and rows = batch_okD(2) [OF B]
  have chain: "chain_ok (cases_of db (al_id a))" if "a \<in> set (st_alerts db)" for a
    using rows that al by (simp add: rows_ok_def cases_of_alert)
  show ?thesis
  proof (rule store_ok_project [OF F [unfolded flushProjections_def]])
    fix a p assume a: "a \<in> set (st_alerts db)" and p: "map_of ?ins (al_id a) = Some p"
    with batch_okD(5) [OF B, of "al_id a"] obtain m where "al_id a \<in> ids" "ac_latest acc (al_id a) = Some m"
      "staged_ok p m (cases_of db (al_id a))" by (auto simp: ins)
    then show "projected_ok axis (projected p a) (cases_of db (al_id a))"
      using staged_row_ok [OF chain [OF a]] batch_okD(3) [OF B] by metis
  next
    fix a assume a: "a \<in> set (st_alerts db)" and p: "map_of ?ins (al_id a) = None"
    with batch_okD(5) [OF B, of "al_id a"] have "cases_of db (al_id a) = cases_of db1 (al_id a)" by (simp add: ins)
    with S a al show "projected_ok axis a (cases_of db (al_id a))" by (simp add: store_ok_def)
  qed (use S al rows in \<open>simp_all add: store_ok_def\<close>)
qed

end
