(* ===== verification/Observe_Steps.thy ===== *)
theory Observe_Steps
  imports Observe_Upsert
begin

text \<open>
  Every transaction of the alerts service keeps the invariant of the store: the batch of observations, the
  two sweeps and the acknowledgement. The histories of the store are the runs of these transactions from
  an empty database.
\<close>

section \<open>The batch of observations\<close>

text \<open>The steps of the batch after the projections touch neither alerts nor cases.\<close>

definition same_rows :: "Store \<Rightarrow> Store \<Rightarrow> bool" where
  "same_rows db' db \<longleftrightarrow> st_alerts db' = st_alerts db \<and> st_cases db' = st_cases db"

lemma same_rows_refl [simp]: "same_rows db db"
  by (simp add: same_rows_def)

lemma same_rows_trans: "same_rows db3 db2 \<Longrightarrow> same_rows db2 db1 \<Longrightarrow> same_rows db3 db1"
  by (simp add: same_rows_def)

lemma store_ok_same_rows: "same_rows db' db \<Longrightarrow> store_ok axis org db' = store_ok axis org db"
  by (simp add: same_rows_def store_ok_def cases_of_def)

lemma AppendBatch_rows: "AppendBatch db evs = Inr (n, db') \<Longrightarrow> same_rows db' db"
  by (auto simp: AppendBatch_def Let_def rbind_Inr_iff same_rows_def split: if_splits)

lemma appendEventsBatched_rows: "appendEventsBatched W db acc = Inr (n, db', acc') \<Longrightarrow> same_rows db' db"
  by (auto simp: appendEventsBatched_def rbind_Inr_iff dest: AppendBatch_rows split: if_splits)

lemma flushFrames_rows: "same_rows (flushFrames W db fs) db"
  by (simp add: flushFrames_def same_rows_def)

lemma enqueueEnrich_rows: "enqueueEnrich W db ids = (n, db') \<Longrightarrow> same_rows db' db"
  by (auto simp: enqueueEnrich_def same_rows_def split: if_splits)

lemma announceOpenings_rows: "announceOpenings W db ids = Inr db' \<Longrightarrow> same_rows db' db"
  by (auto simp: announceOpenings_def same_rows_def split: if_splits option.splits)

lemma announceEndings_rows: "announceEndings W db reqs = Inr db' \<Longrightarrow> same_rows db' db"
  by (auto simp: announceEndings_def Let_def same_rows_def split: if_splits option.splits)

lemma enqueueNotify_rows: "enqueueNotify W db reqs waiting = Inr (n, db') \<Longrightarrow> same_rows db' db"
  by (auto simp: enqueueNotify_def rbind_Inr_iff Let_def same_rows_def dest!: announceEndings_rows split: if_splits)

lemma finish_batch_Inr:
  assumes "finish_batch W reason ids (db, acc, k) = Inr (r, db', k')"
  obtains db1 where "flushProjections db (batch_repeats reason ids acc) = Inr db1" "same_rows db' db1" "k' = k"
proof -
  let ?acc = "batch_repeats reason ids acc"
  from assms obtain db1 written db2 acc1 where
    f: "flushProjections db ?acc = Inr db1" "appendEventsBatched W db1 ?acc = Inr (written, db2, acc1)"
    and rest: "(case enqueueEnrich W (flushFrames W db2 (ac_frames acc1)) (ac_enrichIDs acc1) of (enrichN, db3) \<Rightarrow>
     rbind (announceOpenings W db3 (ac_enrichIDs acc1)) (\<lambda>db4.
     rbind (enqueueNotify W db4 (ac_notifies acc1) (if enrichN > 0 then ac_enrichIDs acc1 else [])) (\<lambda>(notifyN, db5).
       Inr (\<lparr>or_Outcomes = ac_outcomes acc1, or_EventsWritten = written, or_JobsEnqueued = enrichN + notifyN\<rparr>,
            db5, k)))) = Inr (r, db', k')"
    by (auto simp: finish_batch_def Let_def rbind_Inr_iff simp del: split_paired_Ex)
  obtain enrichN db3 where e: "enqueueEnrich W (flushFrames W db2 (ac_frames acc1)) (ac_enrichIDs acc1) = (enrichN, db3)"
    by fastforce
  from rest obtain db4 notifyN where g: "announceOpenings W db3 (ac_enrichIDs acc1) = Inr db4"
      "enqueueNotify W db4 (ac_notifies acc1) (if enrichN > 0 then ac_enrichIDs acc1 else []) = Inr (notifyN, db')"
    and k: "k' = k"
    by (auto simp: e rbind_Inr_iff)
  have "same_rows db' db1"
    using appendEventsBatched_rows [OF f(2)] flushFrames_rows [of W db2] enqueueEnrich_rows [OF e]
      announceOpenings_rows [OF g(1)] enqueueNotify_rows [OF g(2)] by (meson same_rows_trans)
  with f(1) k that show thesis by blast
qed

lemma batch_repeats_view: "same_view (batch_repeats reason ids acc) acc"
  by (simp add: batch_repeats_def same_view_def)

lemma first_accum_ok:
  assumes "rows_ok org (map al_id (st_alerts db1)) (st_cases db1)"
    "\<And>i. i \<in> ids \<Longrightarrow> view_ok (map_of latest i) (cases_of db1 i)"
    "\<And>j. k \<le> j \<Longrightarrow> j < K \<Longrightarrow> draw j \<notin> c_id ` set (st_cases db1)"
  shows "batch_ok org db1 ids draw K (db1, first_accum latest, k)"
  by (rule batch_okI) (use assms in \<open>simp_all add: first_accum_def\<close>)

lemma run_observations_ok:
  assumes run: "run_steps (observeOne W draw cfg prior) (db1, acc1, k1) xs = Inr (db, acc, k)"
    and B: "batch_ok (aw_org W) db1 ids draw k (db1, acc1, k1)" and inj: "inj_on draw {..<k}"
    and xs: "\<And>o' alert created. (o', alert, created) \<in> set xs \<Longrightarrow> al_id alert \<in> ids \<and>
      al_id alert \<in> al_id ` set (st_alerts db1) \<and> al_totalCases alert = int (length (cases_of db1 (al_id alert)))"
  shows "batch_ok (aw_org W) db1 ids draw k (db, acc, k)"
proof -
  let ?P = "\<lambda>(db', acc', k'). k' \<le> k \<longrightarrow> batch_ok (aw_org W) db1 ids draw k (db', acc', k')"
  have "?P (db, acc, k)"
  proof (rule run_steps_inv [where P = ?P, OF run])
    show "?P (db1, acc1, k1)" using B by simp
    fix t x t' assume x: "x \<in> set xs" and P: "?P t" and step: "observeOne W draw cfg prior t x = Inr t'"
    obtain db2 acc2 k2 db3 acc3 k3 o' alert created where
      e: "t = (db2, acc2, k2)" "t' = (db3, acc3, k3)" "x = (o', alert, created)" by (metis prod_cases3)
    note step = step [unfolded e]
    show "?P t'"
    proof (unfold e case_prod_conv, rule impI)
      assume k3: "k3 \<le> k"
      then have "batch_ok (aw_org W) db1 ids draw k (db2, acc2, k2)"
        using P observeOne_mono [OF step] by (simp add: e(1))
      with step k3 inj xs x show "batch_ok (aw_org W) db1 ids draw k (db3, acc3, k3)"
        by (intro observeOne_ok [OF _ _ _ _ step]) (simp_all add: e(3))
    qed
  qed
  then show ?thesis by simp
qed

lemma run_observations_mono:
  assumes "run_steps (observeOne W draw cfg prior) (db1, acc1, k1) xs = Inr (db, acc, k)"
  shows "k1 \<le> k"
proof -
  let ?P = "\<lambda>(db', acc', k'). k1 \<le> k'"
  have "?P (db, acc, k)"
  proof (rule run_steps_inv [where P = ?P, OF assms])
    fix t x t' assume P: "?P t" and step: "observeOne W draw cfg prior t x = Inr t'"
    obtain db2 acc2 k2 db3 acc3 k3 o' alert created where
      e: "t = (db2, acc2, k2)" "t' = (db3, acc3, k3)" "x = (o', alert, created)" by (metis prod_cases3)
    show "?P t'" using P observeOne_mono [OF step [unfolded e]] by (simp add: e)
  qed simp
  then show ?thesis by simp
qed

lemma image_disjoint: "A = f ` {..<n::nat} \<Longrightarrow> (\<And>j. j < n \<Longrightarrow> f j \<notin> B) \<Longrightarrow> A \<inter> B = {}"
  by auto

text \<open>A committed batch: the ids it drew are new, and the store is as it should be afterwards.\<close>

lemma observe_tx_ok:
  assumes S: "store_ok axis (aw_org W) db" and O: "observe_tx W draw reason db obs = Inr (r, db', k)"
    and new: "new_case_ids draw k db"
  shows "store_ok axis (aw_org W) db'"
proof -
  from O obtain prior upserts results db1 latest db2 acc2 k2 where
    o: "buildUpserts draw 0 obs = Inr upserts" "UpsertBatch (aw_org W) db upserts = Inr (results, db1)"
      "latestCases W db1 (distinct_keys (map (\<lambda>r. al_id (fst r)) results)) = Inr latest"
      "run_steps (observeOne W draw (lifecycleSettings W) prior) (db1, first_accum latest, length obs) (zip obs results)
         = Inr (db2, acc2, k2)"
      "finish_batch W reason (distinct_keys (map (\<lambda>r. al_id (fst r)) results)) (db2, acc2, k2) = Inr (r, db', k)"
    by (auto simp: observe_tx_def Let_def rbind_Inr_iff)
  let ?ids = "(\<lambda>r. al_id (fst r)) ` set results"
  have ids: "set (distinct_keys (map (\<lambda>r. al_id (fst r)) results)) = ?ids" by (simp add: distinct_keys_def)
  from o(5) obtain db3 where fin: "flushProjections db2 (batch_repeats reason (distinct_keys (map (\<lambda>r. al_id (fst r)) results)) acc2) = Inr db3"
    "same_rows db' db3" "k = k2" by (rule finish_batch_Inr)
  have le: "length obs \<le> k" using run_observations_mono [OF o(4)] fin(3) by simp
  note u = buildUpserts_ids [OF o(1)]
  have "up_ID ` set upserts = draw ` {..<length obs}" using arg_cong [OF u, of set] by (simp add: lessThan_atLeast0)
  moreover have "draw j \<notin> al_id ` set (st_alerts db)" if "j < length obs" for j using new le that by (simp add: new_case_ids_def)
  ultimately have disj: "up_ID ` set upserts \<inter> al_id ` set (st_alerts db) = {}" by (rule image_disjoint)
  have "distinct (map up_ID upserts)"
    using new le by (auto simp: u distinct_map new_case_ids_def intro: inj_on_subset)
  note U = UpsertBatch_ok [OF S o(2) this disj]
  have sub: "?ids \<subseteq> al_id ` set (st_alerts db1)" using U(4) by (auto simp: image_iff)
  have rows: "rows_ok (aw_org W) (map al_id (st_alerts db1)) (st_cases db1)" using U(1) by (simp add: store_ok_def)
  have B1: "batch_ok (aw_org W) db1 ?ids draw k (db1, first_accum latest, length obs)"
  proof (rule first_accum_ok [OF rows])
    fix i assume "i \<in> ?ids"
    then show "view_ok (map_of latest i) (cases_of db1 i)" using sub ids by (intro latestCases_view [OF rows o(3)]) auto
  qed (use new U(2) in \<open>simp add: new_case_ids_def\<close>)
  have xs: "al_id alert \<in> ?ids \<and> al_id alert \<in> al_id ` set (st_alerts db1) \<and>
      al_totalCases alert = int (length (cases_of db1 (al_id alert)))" if "(o', alert, created) \<in> set (zip obs results)" for o' alert created
  proof -
    have mem: "(alert, created) \<in> set results" using that by (rule set_zip_rightD)
    then have "al_id alert \<in> ?ids" by force
    then show ?thesis using U(4) [OF mem] sub by auto
  qed
  have "batch_ok (aw_org W) db1 ?ids draw k (db2, acc2, k)"
    by (rule run_observations_ok [OF o(4) [folded fin(3)] B1 _ xs]) (use new in \<open>simp_all add: new_case_ids_def\<close>)
  then have "batch_ok (aw_org W) db1 ?ids draw k
      (db2, batch_repeats reason (distinct_keys (map (\<lambda>r. al_id (fst r)) results)) acc2, k)"
    using batch_repeats_view order_refl by (rule batch_ok_same_view)
  then have "store_ok axis (aw_org W) db3" using U(1) fin(1) by (rule flushProjections_ok)
  then show ?thesis using store_ok_same_rows [OF fin(2)] by simp
qed

section \<open>One case at a time\<close>

text \<open>A sweep or an acknowledgement rewrites one row and then writes its alert's projection.\<close>

lemma rewrite_project_ok:
  assumes S: "store_ok axis org db" and r: "r \<in> set (st_cases db)" "same_row r' r"
    and db1: "db1 = db\<lparr>st_cases := update_where (\<lambda>c. c_id c = c_id r) (\<lambda>_. r') (st_cases db)\<rparr>"
      "case_move org (map al_id (st_alerts db)) (st_cases db) (st_cases db1)"
    and P: "SetProjection db1 (c_alertID r) p = Inr db2"
    and put: "\<And>a. a \<in> set (st_alerts db) \<Longrightarrow> al_id a = c_alertID r \<Longrightarrow> projected_ok axis (projected p a) (cases_of db1 (c_alertID r))"
  shows "store_ok axis org db2"
proof (rule store_ok_project [OF P [unfolded SetProjection_def]])
  have d: "distinct (map c_id (st_cases db))" using S by (simp add: store_ok_def rows_ok_def)
  show "rows_ok org (map al_id (st_alerts db1)) (st_cases db1)"
    using move_rows_ok [OF db1(2)] S by (simp add: store_ok_def db1(1))
  show "projected_ok axis a (cases_of db1 (al_id a))"
    if a: "a \<in> set (st_alerts db1)" "map_of [(c_alertID r, p)] (al_id a) = None" for a
  proof -
    have "al_id a \<noteq> c_alertID r" using a(2) by (simp split: if_splits)
    then have "cases_of db1 (al_id a) = cases_of db (al_id a)"
      using rewrite_other [OF d r] by (simp add: cases_of_alert db1(1))
    then show ?thesis using S a(1) by (simp add: store_ok_def db1(1))
  qed
qed (use S put in \<open>simp_all add: store_ok_def db1(1) split: if_splits\<close>)

lemma rows_ok_chain: "rows_ok org ids cs \<Longrightarrow> i \<in> set ids \<Longrightarrow> chain_ok (of_alert i cs)"
  by (simp add: rows_ok_def)

lemma open_row_last:
  assumes "rows_ok org ids cs" "r \<in> set cs" "c_endedAt r = 0"
  shows "c_seq r = int (length (of_alert (c_alertID r) cs))" "r \<in> set (of_alert (c_alertID r) cs)" "c_alertID r \<in> set ids"
proof -
  show al: "c_alertID r \<in> set ids" using assms(1,2) by (simp add: rows_ok_def)
  show mem: "r \<in> set (of_alert (c_alertID r) cs)" using assms(2) by (simp add: of_alert_def)
  have "chain_ok (of_alert (c_alertID r) cs)" using assms(1) al by (rule rows_ok_chain)
  then show "c_seq r = int (length (of_alert (c_alertID r) cs))" using mem assms(3) by (simp add: chain_ok_def)
qed

lemma Alert_GetByID_Inr:
  assumes "Alert_GetByID db i = Inr a" "store_ok axis org db"
  shows "al_id a = i" "al_totalCases a = int (length (cases_of db i))" "i \<in> al_id ` set (st_alerts db)"
    "c \<in> set (cases_of db i) \<Longrightarrow> c_seq c = int (length (cases_of db i)) \<Longrightarrow> al_state a = AlertState c"
proof -
  from assms(1) obtain q where q: "q \<in> set (st_alerts db)" "al_id q = i" "alert_toDomain q = Inr a"
    by (auto simp: Alert_GetByID_def dest: find_SomeD split: option.splits)
  have "projected_ok axis q (cases_of db (al_id q))" using assms(2) q(1) by (simp add: store_ok_def)
  with q alert_toDomain_Inr [OF q(3)] show "al_id a = i" "al_totalCases a = int (length (cases_of db i))"
    "c \<in> set (cases_of db i) \<Longrightarrow> c_seq c = int (length (cases_of db i)) \<Longrightarrow> al_state a = AlertState c"
    by (simp_all add: projected_ok_def)
  show "i \<in> al_id ` set (st_alerts db)" using q(1,2) by (rule image_eqI [rotated, OF _ sym])
qed

lemma publish_rows [simp]: "same_rows (publish W f db) db'' = same_rows db db''"
  by (simp add: publish_def same_rows_def)

lemma appendEvents_rows: "appendEvents W db evs = Inr (n, db') \<Longrightarrow> same_rows db' db"
proof -
  have "same_rows (fold (publishEvent W) evs db1) db1" for db1
    by (induction evs arbitrary: db1) (simp_all add: publishEvent_def publish_def same_rows_def)
  then show "appendEvents W db evs = Inr (n, db') \<Longrightarrow> same_rows db' db"
    by (auto simp: appendEvents_def rbind_Inr_iff dest!: AppendBatch_rows intro: same_rows_trans split: if_splits)
qed

lemma record_end_Inr:
  assumes "record_end W db r at state reason = Inr db'"
  obtains alert db1 where "Alert_GetByID db (c_alertID (tr_Case r)) = Inr alert"
    "SetProjection db (al_id alert) (projectionFor alert (tr_Case r) at True 0) = Inr db1" "same_rows db' db1"
proof -
  from assms obtain alert db1 n db2 n' db3 where
    o: "Alert_GetByID db (c_alertID (tr_Case r)) = Inr alert"
      "SetProjection db (al_id alert) (projectionFor alert (tr_Case r) at True 0) = Inr db1"
      "appendEvents W db1 (tr_Events r) = Inr (n, db2)"
      "same_rows db' (publishAlert W (al_id alert) [(''state'', JStr (State_String state))] (publishCase W (tr_Case r) db2))"
    by (auto simp: record_end_def projectFromCase_def rbind_Inr_iff dest!: enqueueNotify_rows)
  from o(4) have "same_rows db' db2" by (auto simp: publishAlert_def publishCase_def publish_def same_rows_def)
  with appendEvents_rows [OF o(3)] o(1,2) that show thesis by (blast intro: same_rows_trans)
qed

text \<open>A sweep's transition of an open case, from the read to the last notice.\<close>

lemma sweep_end_ok:
  assumes S: "store_ok axis org db" and g: "Case_GetByID db i = Inr m" "Case_IsOpen m"
    and A: "Apply U m cmd = Inr tr" and T: "Case_Transition db (c_id (tr_Case tr)) (transitionOf tr w) = Inr db1"
    and R: "record_end W db1 tr at state reason = Inr db2"
  shows "store_ok axis org db2"
proof -
  have rows: "rows_ok org (map al_id (st_alerts db)) (st_cases db)" using S by (simp add: store_ok_def)
  from g(1) obtain r where r: "r \<in> set (st_cases db)" "NewCase r = Inr m" by (rule Case_GetByID_Inr)
  have rd: "readable r" using rows r(1) by (simp add: rows_ok_def)
  have t: "tracks r m" using r(2) rd by (rule NewCase_tracks)
  note M = Case_Transition_move [OF rows T r(1) t A]
  let ?r = "transition_row (transitionOf tr w) r"
  have open_r: "c_endedAt r = 0" using g(2) t by (simp add: Case_IsOpen_def tracks_def same_standing_def)
  note l = open_row_last [OF rows r(1) open_r]
  have same: "same_row ?r r" by (simp add: same_row_def)
  have d: "distinct (map c_id (st_cases db))" using rows by (simp add: rows_ok_def)
  note own = rewrite_own [OF d r(1) same]
  have ep: "c_alertID (tr_Case tr) = c_alertID r"
    using Apply_same_episode [OF A] t by (simp add: same_episode_def tracks_def same_row_def)
  from R obtain alert db3 where e: "Alert_GetByID db1 (c_alertID r) = Inr alert"
    "SetProjection db1 (al_id alert) (projectionFor alert (tr_Case tr) at True 0) = Inr db3" "same_rows db2 db3"
    unfolding ep [symmetric] by (rule record_end_Inr)
  have "Alert_GetByID db (c_alertID r) = Inr alert" using e(1) by (simp add: M(1) Alert_GetByID_def)
  note a = Alert_GetByID_Inr [OF this S]
  have chain: "chain_ok (cases_of db1 (c_alertID r))"
    unfolding cases_of_alert by (rule rows_ok_chain [OF move_rows_ok [OF M(2) rows] l(3)])
  have view: "view_ok (Some (tr_Case tr)) (cases_of db1 (c_alertID r))"
    using own l(1) M(3) by (auto simp: cases_of_alert M(1) intro!: bexI [of _ ?r])
  have staged: "staged_ok (projectionFor alert (tr_Case tr) at True 0) (tr_Case tr) (cases_of db1 (c_alertID r))"
    using own(1) a(2) by (simp add: staged_ok_def projectionFor_def Case_IsOpen_def derefID_def cases_of_alert M(1))
  have "store_ok axis org db3"
    by (rule rewrite_project_ok [OF S r(1) same M(1,2) e(2) [unfolded a(1)] staged_row_ok [OF chain view staged]])
  then show ?thesis using store_ok_same_rows [OF e(3)] by simp
qed

lemma unexpirable_open: "unexpirable row now grace reason cluster proven = [] \<Longrightarrow> Case_IsOpen row"
  by (simp add: unexpirable_def split: if_splits)

text \<open>A sweep's transaction leaves the store alone, or ends an open case.\<close>

lemma expire_won:
  assumes E: "expire W ev db i now cfg reason proven = Inr (b, db')"
  obtains (kept) "\<not> b" "db' = db"
    | (ended) m cmd tr db1 at where "b" "Case_GetByID db i = Inr m" "Case_IsOpen m" "Apply (aw_U W) m cmd = Inr tr"
      "Case_Transition db (c_id (tr_Case tr)) (transitionOf tr noSuppressedBy) = Inr db1"
      "record_end W db1 tr at StateExpired ''expired'' = Inr db'"
proof (cases "db' = db \<and> \<not> b")
  case False
  from E obtain actor at where g: "(case Case_GetByID db i of
       Inl e \<Rightarrow> if errKind e = KindNotFound then Inr (False, db) else Inl e
     | Inr fresh \<Rightarrow>
         if reason = ResolveTimeout \<and> unreapable fresh now (set_ResolveGrace cfg) \<noteq> [] then Inr (False, db)
         else case Sources db (c_id fresh) of
           Inl e \<Rightarrow> if errKind e = KindNotFound then Inr (False, db) else Inl e
         | Inr cluster \<Rightarrow>
             if unexpirable fresh now (set_ResolveGrace cfg) reason cluster proven \<noteq> [] then Inr (False, db)
             else case Apply (aw_U W) fresh (expireCommand actor at ev cfg reason cluster) of
               Inl e \<Rightarrow> if errKind e = KindPrecondition then Inr (False, db) else Inl e
             | Inr r \<Rightarrow>
                 if tr_To r \<noteq> StateExpired \<or> c_resolveReason (tr_Case r) \<noteq> reason \<or> \<not> IsExpiry reason
                 then Inl (errs_New KindInternal ''reaper_would_fabricate_resolution'')
                 else case Case_Transition db (c_id (tr_Case r)) (transitionOf r noSuppressedBy) of
                   Inl e \<Rightarrow> if errKind e = KindConflict then Inr (False, db) else Inl e
                 | Inr db1 \<Rightarrow> rbind (record_end W db1 r at StateExpired ''expired'') (\<lambda>db2. Inr (True, db2))) = Inr (b, db')"
    unfolding expire_def rbind_Inr_iff by blast
  from g False obtain m where m: "Case_GetByID db i = Inr m" by (auto split: sum.splits if_splits)
  with g False obtain cluster where c: "Sources db (c_id m) = Inr cluster" by (auto split: sum.splits if_splits)
  with g m False obtain tr where tr: "Apply (aw_U W) m (expireCommand actor at ev cfg reason cluster) = Inr tr"
      "unexpirable m now (set_ResolveGrace cfg) reason cluster proven = []"
    by (auto split: sum.splits if_splits)
  with g m c False obtain db1 where d: "Case_Transition db (c_id (tr_Case tr)) (transitionOf tr noSuppressedBy) = Inr db1"
    by (auto split: sum.splits if_splits)
  with g m c tr False have "b" "record_end W db1 tr at StateExpired ''expired'' = Inr db'"
    by (auto simp: rbind_Inr_iff split: if_splits)
  then show thesis by (intro ended [OF _ m unexpirable_open [OF tr(2)] tr(1) d])
qed (use kept in blast)

lemma expire_ok:
  assumes S: "store_ok axis org db" and E: "expire W ev db i now cfg reason proven = Inr (b, db')"
  shows "store_ok axis org db'"
  using E
proof (cases rule: expire_won)
  case (ended m cmd tr db1 at)
  show ?thesis by (rule sweep_end_ok [OF S ended(2-6)])
qed (use S in simp)

lemma unclosable_open: "unclosable row now = [] \<Longrightarrow> Case_IsOpen row"
  by (simp add: unclosable_def split: if_splits)

lemma closeDue_won:
  assumes C: "closeDue W ev db i now = Inr (b, db')"
  obtains (kept) "\<not> b" "db' = db"
    | (ended) m cmd tr db1 at where "b" "Case_GetByID db i = Inr m" "Case_IsOpen m" "Apply (aw_U W) m cmd = Inr tr"
      "Case_Transition db (c_id (tr_Case tr)) (transitionOf tr noSuppressedBy) = Inr db1"
      "record_end W db1 tr at StateResolved ''all_resolved'' = Inr db'"
proof (cases "db' = db \<and> \<not> b")
  case False
  from C obtain at cmd where g: "(case Case_GetByID db i of
       Inl e \<Rightarrow> if errKind e = KindNotFound then Inr (False, db) else Inl e
     | Inr fresh \<Rightarrow>
         if unclosable fresh now \<noteq> [] then Inr (False, db)
         else case Apply (aw_U W) fresh cmd of
           Inl e \<Rightarrow> if errKind e = KindPrecondition then Inr (False, db) else Inl e
         | Inr r \<Rightarrow>
             if tr_To r \<noteq> StateResolved \<or> c_resolveReason (tr_Case r) \<noteq> ResolveUpstream
             then Inl (errs_New KindInternal ''delayed_close_would_change_meaning'')
             else case Case_Transition db (c_id (tr_Case r)) (transitionOf r noSuppressedBy) of
               Inl e \<Rightarrow> if errKind e = KindConflict then Inr (False, db) else Inl e
             | Inr db1 \<Rightarrow> rbind (record_end W db1 r at StateResolved ''all_resolved'') (\<lambda>db2. Inr (True, db2))) = Inr (b, db')"
    unfolding closeDue_def rbind_Inr_iff by blast
  from g False obtain m where m: "Case_GetByID db i = Inr m" by (auto split: sum.splits if_splits)
  with g False obtain tr where tr: "Apply (aw_U W) m cmd = Inr tr" "unclosable m now = []"
    by (auto split: sum.splits if_splits)
  with g m False obtain db1 where d: "Case_Transition db (c_id (tr_Case tr)) (transitionOf tr noSuppressedBy) = Inr db1"
    by (auto split: sum.splits if_splits)
  with g m tr False have "b" "record_end W db1 tr at StateResolved ''all_resolved'' = Inr db'"
    by (auto simp: rbind_Inr_iff split: if_splits)
  then show thesis by (intro ended [OF _ m unclosable_open [OF tr(2)] tr(1) d])
qed (use kept in blast)

lemma closeDue_ok:
  assumes S: "store_ok axis org db" and C: "closeDue W ev db i now = Inr (b, db')"
  shows "store_ok axis org db'"
  using C
proof (cases rule: closeDue_won)
  case (ended m cmd tr db1 at)
  show ?thesis by (rule sweep_end_ok [OF S ended(2-6)])
qed (use S in simp)

text \<open>The loops of the sweeps give each candidate its own transaction.\<close>

lemma tryExpire_ok:
  "store_ok axis org (fst st) \<Longrightarrow> store_ok axis org (fst (tryExpire W draw now cfg reason proven i st))"
  by (auto simp: tryExpire_def dest: expire_ok split: sum.splits prod.split)

lemma reap_removed_ok:
  "store_ok axis org (fst st) \<Longrightarrow> store_ok axis org (fst (reap_removed W draw now cfg cs st))"
proof (induction cs arbitrary: st)
  case (Cons c cs)
  obtain db t k where st: "st = (db, t, k)" by (metis prod_cases3)
  show ?case using Cons.prems unfolding st reap_removed.simps by (intro Cons.IH tryExpire_ok) simp
qed simp

lemma reap_guarded_ok:
  "store_ok axis org (fst st) \<Longrightarrow> store_ok axis org (fst (reap_guarded W draw now cfg sources healthy gs st))"
proof (induction gs arbitrary: st)
  case (Cons g gs)
  obtain c reason db t k where g: "g = (c, reason)" "st = (db, t, k)" by (metis prod_cases3 surj_pair)
  have "store_ok axis org (fst (tryExpire W draw now cfg reason (sources (c_id c)) (c_id c) (db, t1, k)))" for t1
    using Cons.prems g(2) by (intro tryExpire_ok) simp
  with Cons.prems Cons.IH show ?case by (simp add: g Let_def split: prod.split)
qed simp

lemma Reap_ok:
  assumes "store_ok axis org db" "Reap W draw db limit = Inr (t, db')"
  shows "store_ok axis org db'"
proof -
  from assms(2) obtain removed gs where
    "db' = fst (reapGuarded W draw (aw_now W) (lifecycleSettings W) gs
       (reap_removed W draw (aw_now W) (lifecycleSettings W) removed (db, newReapTally, 0)))"
    by (auto simp: Reap_def Let_def rbind_Inr_iff case_prod_unfold)
  then show ?thesis using assms(1) by (simp add: reapGuarded_def Let_def reap_guarded_ok reap_removed_ok)
qed

lemma close_due_loop_ok:
  "store_ok axis org (fst st) \<Longrightarrow> store_ok axis org (fst (close_due_loop W draw now cs st))"
proof (induction cs arbitrary: st)
  case (Cons c cs)
  obtain db t k where st: "st = (db, t, k)" by (metis prod_cases3)
  show ?case using Cons closeDue_ok [of axis org db W "draw k" "c_id c" now]
    by (auto simp: st split: sum.split prod.split bool.split)
qed simp

lemma Service_CloseDue_ok:
  "store_ok axis org db \<Longrightarrow> Service_CloseDue W draw db limit = Inr (t, db') \<Longrightarrow> store_ok axis org db'"
  by (auto simp: Service_CloseDue_def Let_def rbind_Inr_iff case_prod_unfold intro!: close_due_loop_ok)

section \<open>Acknowledging\<close>

lemma ack_decision:
  assumes "(if ack then Acknowledge U m cmd else Unacknowledge U m cmd) = Inr (nxt, evs)"
  shows "check nxt = None" "c_ackState nxt \<noteq> AckStateZero" "ack \<longleftrightarrow> c_ackState nxt = AckStateAcked"
    "ack \<Longrightarrow> c_ackNote nxt = ack_Note cmd"
    "nxt = m\<lparr>c_ackState := c_ackState nxt, c_ackedAt := c_ackedAt nxt, c_ackedBy := c_ackedBy nxt,
      c_ackedByLabel := c_ackedByLabel nxt, c_ackNote := c_ackNote nxt\<rparr>"
    "c_id nxt = c_id m" "c_suppressionReason nxt = c_suppressionReason m"
proof -
  have n: "check nxt = None" "nxt = (if ack then ackedCase U m cmd else unackedCase m)"
    using assms Acknowledge_Inr(1,2) [of U m cmd nxt evs] Unacknowledge_Inr(1,2) [of U m cmd nxt evs]
    by (simp_all split: if_splits)
  show "check nxt = None" by (rule n(1))
  show "c_ackState nxt \<noteq> AckStateZero" "ack \<longleftrightarrow> c_ackState nxt = AckStateAcked" "ack \<Longrightarrow> c_ackNote nxt = ack_Note cmd"
    "nxt = m\<lparr>c_ackState := c_ackState nxt, c_ackedAt := c_ackedAt nxt, c_ackedBy := c_ackedBy nxt,
      c_ackedByLabel := c_ackedByLabel nxt, c_ackNote := c_ackNote nxt\<rparr>"
    "c_id nxt = c_id m" "c_suppressionReason nxt = c_suppressionReason m"
    unfolding n(2) by (simp_all add: ackedCase_def unackedCase_def)
qed

lemma SetAck_Inr:
  assumes "SetAck db i a v = Inr db'"
  shows "db' = db\<lparr>st_cases := update_where (\<lambda>c. c_id c = i \<and> c_stateVersion c = v) (ack_row a) (st_cases db)\<rparr>"
    "IsAcked (ak_To a) \<Longrightarrow> TrimSpace (str_or_empty (ak_ByLabel a)) \<noteq> []"
  using assms by (auto simp: SetAck_def split: if_splits)

lemma setAck_Inr:
  assumes "setAck W ev db i actor note' ack reason = Inr (nxt, db')"
  obtains m alert cmd evs db1 db2 where "Case_GetByID db i = Inr m" "Alert_GetByID db (c_alertID m) = Inr alert"
    "Case_IsOpen m" "ack_Note cmd = note'"
    "(if ack then Acknowledge (aw_U W) m cmd else Unacknowledge (aw_U W) m cmd) = Inr (nxt, evs)"
    "SetAck db (c_id nxt) (ack_change ack note' nxt) (c_stateVersion m) = Inr db1"
    "SetProjection db1 (al_id alert) (ack_projection alert nxt) = Inr db2" "same_rows db' db2"
proof -
  from assms obtain m alert at evs db1 db2 n db3 where s: "Case_GetByID db i = Inr m" "Alert_GetByID db (c_alertID m) = Inr alert"
    "Case_IsOpen m"
    "(if ack then Acknowledge (aw_U W) m \<lparr>ack_Actor = actor, ack_At = at, ack_EventID = ev, ack_Note = note', ack_Reason = reason, ack_Payload = []\<rparr>
      else Unacknowledge (aw_U W) m \<lparr>ack_Actor = actor, ack_At = at, ack_EventID = ev, ack_Note = note', ack_Reason = reason, ack_Payload = []\<rparr>) = Inr (nxt, evs)"
    "SetAck db (c_id nxt) (ack_change ack note' nxt) (c_stateVersion m) = Inr db1"
    "SetProjection db1 (al_id alert) (ack_projection alert nxt) = Inr db2" "appendEvents W db2 evs = Inr (n, db3)"
    "same_rows db' (publishAlert W (al_id alert) [(''ack'', JStr (AckState_String (c_ackState nxt)))] (publishCase W nxt db3))"
    by (auto simp: setAck_def Let_def rbind_Inr_iff dest!: enqueueNotify_rows split: if_splits)
  from s(8) have "same_rows db' db3" by (auto simp: publishAlert_def publishCase_def publish_def same_rows_def)
  then have "same_rows db' db2" using appendEvents_rows [OF s(7)] by (rule same_rows_trans)
  then show thesis by (intro that [OF s(1-3) _ s(4-6)]) simp_all
qed

lemma setAck_ok:
  assumes S: "store_ok axis org db" and A: "setAck W ev db i actor note' ack reason = Inr (nxt, db')"
    and plain: "axis \<Longrightarrow> c_suppressionReason nxt = SuppressionZero"
  shows "store_ok axis org db'"
  using A
proof (rule setAck_Inr)
  fix m alert cmd evs db1 db2
  assume m: "Case_GetByID db i = Inr m" and al: "Alert_GetByID db (c_alertID m) = Inr alert" and op: "Case_IsOpen m"
    and note': "ack_Note cmd = note'"
    and D: "(if ack then Acknowledge (aw_U W) m cmd else Unacknowledge (aw_U W) m cmd) = Inr (nxt, evs)"
    and T: "SetAck db (c_id nxt) (ack_change ack note' nxt) (c_stateVersion m) = Inr db1"
    and P: "SetProjection db1 (al_id alert) (ack_projection alert nxt) = Inr db2" and same: "same_rows db' db2"
  have rows: "rows_ok org (map al_id (st_alerts db)) (st_cases db)" using S by (simp add: store_ok_def)
  from m obtain r where r: "r \<in> set (st_cases db)" "NewCase r = Inr m" by (rule Case_GetByID_Inr)
  have rd: "readable r" and d: "distinct (map c_id (st_cases db))" using rows r(1) by (simp_all add: rows_ok_def)
  note eq = NewCase_eq [OF r(2)] and nx = ack_decision [OF D]
  let ?r = "ack_row (ack_change ack note' nxt) r"
  have id: "c_id nxt = c_id r" "c_alertID m = c_alertID r" "c_endedAt r = 0" "c_stateVersion m = c_stateVersion r"
    "c_suppressionReason nxt = c_suppressionReason r"
    using op rd by (simp_all add: nx(6,7) eq Case_IsOpen_def readable_def)
  have lbl: "TrimSpace (c_ackedByLabel nxt) \<noteq> []" if ack
    using SetAck_Inr(2) [OF T] that nx(3) by (simp add: ack_change_def str_or_empty_def oto_defs)
  note t = ack_row_tracks [OF rd r(2) nx(1,5,2,3) nx(4) [unfolded note'] lbl]
  have db1: "db1 = db\<lparr>st_cases := update_where (\<lambda>c. c_id c = c_id r) (\<lambda>_. ?r) (st_cases db)\<rparr>"
    using SetAck_Inr(1) [OF T] update_one(2) [OF d r(1)] by (simp add: id)
  have end_r: "c_endedAt ?r = c_endedAt r" using t(3) by (simp add: same_standing_def)
  have move: "case_move org (map al_id (st_alerts db)) (st_cases db) (st_cases db1)"
    using case_move.rewrite [OF r(1) t(1,2), of org "map al_id (st_alerts db)"] id(3) by (simp add: db1 end_r)
  note l = open_row_last [OF rows r(1) id(3)] and own = rewrite_own [OF d r(1) t(2)]
  note a = Alert_GetByID_Inr [OF al [unfolded id(2)] S]
  have chain: "chain_ok (cases_of db1 (c_alertID r))"
    unfolding cases_of_alert by (rule rows_ok_chain [OF move_rows_ok [OF move rows] l(3)])
  have len: "length (cases_of db1 (c_alertID r)) = length (cases_of db (c_alertID r))" using own(1) by (simp add: cases_of_alert db1)
  have mem: "?r \<in> set (cases_of db1 (c_alertID r))" using own(2) by (simp add: cases_of_alert db1)
  have seq: "c_seq ?r = int (length (cases_of db1 (c_alertID r)))" using l(1) t(2) len by (simp add: same_row_def cases_of_alert)
  have one: "c = ?r" if "c \<in> set (cases_of db1 (c_alertID r))" "c_seq c = int (length (cases_of db1 (c_alertID r)))" for c
    using chain_seq_inj [OF chain] mem seq that by (simp add: inj_on_def)
  have st: "AlertState ?r = AlertState r" "c_suppressionReason ?r = c_suppressionReason r" "c_id ?r = c_id r"
    using t(2,3) by (simp_all add: same_standing_def same_row_def AlertState_def)
  have last: "al_state alert = AlertState r" using a(4) [of r] l by (simp add: cases_of_alert)
  have ne: "cases_of db1 (c_alertID r) \<noteq> []" using length_pos_if_in_set [OF mem] by simp
  have proj: "projected_ok axis (projected (ack_projection alert nxt) q) (cases_of db1 (c_alertID r))" for q
    using ne a(2) last plain
    by (auto simp: projected_ok_def projected_def ack_projection_def derefID_def len st id end_r dest!: one)
  have "same_row ?r r" using t(2) by simp
  then have "store_ok axis org db2" by (rule rewrite_project_ok [OF S r(1) _ db1 move P [unfolded a(1)] proj])
  then show ?thesis using store_ok_same_rows [OF same] by simp
qed

section \<open>Histories of the store\<close>

text \<open>
  A history: transactions of the service one after the other, from a database without alerts. Whatever
  leaves the alerts and the cases alone (sources coming and going, jobs being worked) may happen in between.
  Each transaction may run with other settings and at another time. With \<open>axis\<close>, no suppressed case is
  acknowledged.
\<close>

inductive store_run :: "bool \<Rightarrow> uuid \<Rightarrow> Store \<Rightarrow> bool" for axis org where
  start: "st_alerts db = [] \<Longrightarrow> st_cases db = [] \<Longrightarrow> store_run axis org db"
| elsewhere: "store_run axis org db \<Longrightarrow> same_rows db' db \<Longrightarrow> store_run axis org db'"
| observed: "\<lbrakk>store_run axis org db; aw_org W = org; observe_tx W draw reason db obs = Inr (r, db', k); new_case_ids draw k db\<rbrakk>
    \<Longrightarrow> store_run axis org db'"
| reaped: "store_run axis org db \<Longrightarrow> Reap W draw db limit = Inr (t, db') \<Longrightarrow> store_run axis org db'"
| closed: "store_run axis org db \<Longrightarrow> Service_CloseDue W draw db limit = Inr (t, db') \<Longrightarrow> store_run axis org db'"
| acked: "\<lbrakk>store_run axis org db; setAck W ev db i actor note' ack reason = Inr (c, db');
      axis \<longrightarrow> c_suppressionReason c = SuppressionZero\<rbrakk> \<Longrightarrow> store_run axis org db'"

lemma store_run_ok: "store_run axis org db \<Longrightarrow> store_ok axis org db"
proof (induction rule: store_run.induct)
  case (start db)
  then show ?case by (simp add: store_ok_def rows_ok_def)
next
  case (elsewhere db db')
  then show ?case using store_ok_same_rows by blast
next
  case (observed db W draw reason obs r db' k)
  show ?case using observe_tx_ok [of axis W db] observed by simp
next
  case (acked db W ev i actor note' ack reason c db')
  then show ?case by (intro setAck_ok [OF acked.IH acked.hyps(2)]) simp
qed (blast intro: Reap_ok Service_CloseDue_ok)+

text \<open>The retry loop commits what one of its attempts committed.\<close>

lemma observe_attempts_Inr:
  assumes "observe_attempts W nested draws reason dbs obs n = Inr x"
  shows "\<exists>m\<ge>n. observe_tx W (draws m) reason (dbs m) obs = Inr x"
  using assms
proof (induction W nested draws reason dbs obs n rule: observe_attempts.induct)
  case (1 W nested draws reason dbs obs attempt)
  show ?case
  proof (cases "observe_tx W (draws attempt) reason (dbs attempt) obs")
    case (Inl e)
    with 1 have "\<exists>m\<ge>Suc attempt. observe_tx W (draws m) reason (dbs m) obs = Inr x"
      by (auto simp: observe_attempts.simps [of W nested draws reason dbs obs attempt] split: if_splits)
    then show ?thesis by (auto intro: Suc_leD)
  qed (use 1 in \<open>auto simp: observe_attempts.simps [of W nested draws reason dbs obs attempt]\<close>)
qed

end
