(* ===== verification/Observe_Correct.thy ===== *)
theory Observe_Correct
  imports Observe_Steps Lifecycle_Correct
begin

text \<open>
  What the alerts service promises of its tables, on every history, and what a batch that reports one alert
  twice does. The example is the first report of an alert, from the empty database to the committed store.
\<close>

section \<open>An example batch\<close>

definition ex_key :: AlertKey where "ex_key = ''ak_'' @ replicate 26 (CHR ''0'')"
definition ex_fp :: SourceFingerprint where "ex_fp = replicate 16 (CHR ''b'')"
definition ex_set :: LabelSet where "ex_set = [(''alertname'', ''HighLoad'')]"

lemma ex_storable: "Storable ''HighLoad''"
  by (simp add: Storable_def NUL_def char_of_def ValidString.simps between_def)

lemma ex_set_ok: "NewLabels ex_set = Inr ex_set"
  using ex_storable
  by (simp add: NewLabels_Inr ex_set_def label_bounds labelErr_def LabelNameRe_def is_word_start_def between_def
      is_digit_def SerialisedSize_def canonOverheadPerLabel_def canonLenBytes_def UnstorableReason_Nil_iff)

lemma ex_identity:
  "NewAlertKey ex_key = Inr ex_key" "NewSourceFingerprint ex_fp = Inr ex_fp" "NewClusterKey ''main'' = Inr ''main''"
  "NewAnnotations [] = Inr []" "NewLabelSet ex_set = Inr ex_set" "NewRawSeverity (mustGet ex_set LabelSeverity) = Inr None"
  "LabelSet_Namespace ex_set = []" "LabelSet_Service ex_set = []" "AlertName ex_set = ''HighLoad''"
  "ex_key \<noteq> []" "ex_fp \<noteq> []" "ex_set \<noteq> []"
proof -
  show "NewLabelSet ex_set = Inr ex_set" "NewRawSeverity (mustGet ex_set LabelSeverity) = Inr None"
    "LabelSet_Namespace ex_set = []" "LabelSet_Service ex_set = []" "AlertName ex_set = ''HighLoad''"
    using ex_set_ok by (simp_all add: NewLabelSet_def ex_set_def Labels_Get_def LabelAlertName_def LabelSeverity_def mustGet_def
      LabelNamespace_def LabelService_def LabelSet_Namespace_def LabelSet_Service_def AlertName_def
      NewRawSeverity_def TrimSpace_plain printable_def label_bounds)
  show "NewAlertKey ex_key = Inr ex_key" "NewSourceFingerprint ex_fp = Inr ex_fp" "NewClusterKey ''main'' = Inr ''main''"
    by code_simp+
  show "NewAnnotations [] = Inr []" by (simp add: NewAnnotations_def MaxAnnotations_def)
qed (simp_all add: ex_key_def ex_fp_def ex_set_def)

definition ex_service :: AlertsWorld where
  "ex_service = \<lparr>aw_U = canonical_lib, aw_org = 1, aw_now = 500, aw_settings = None, aw_alertBatch = True,
     aw_occBatch = True, aw_retention = None, aw_enqueuer = False, aw_stream = False, aw_caseOpenings = None,
     aw_caseEndings = None, aw_expireUnheard = False, aw_occSources = True, aw_health = None\<rparr>"

definition ex_obs :: "string \<Rightarrow> time \<Rightarrow> time \<Rightarrow> Observation" where
  "ex_obs status ends t = \<lparr>ob_Source = ''webhook'', ob_Synthetic = False, ob_ClusterID = 7, ob_ClusterKey = ''main'',
     ob_AlertKey = ex_key, ob_SourceFingerprint = ex_fp, ob_Labels = ex_set,
     ob_Annotations = [], ob_GeneratorURL = [], ob_Status = status, ob_SuppressionReason = [],
     ob_SuppressedBy = noSuppressedBy, ob_SourceStartsAt = 100, ob_SourceEndsAt = ends, ob_SourceUpdatedAt = 0,
     ob_Value = None, ob_ObservedAt = t, ob_SkewMS = 0\<rparr>"

definition ex_empty :: Store where
  "ex_empty = \<lparr>st_sources = [], st_alerts = [], st_labels = [], st_labelNames = [], st_cases = [], st_nextNumber = None,
     st_eventKeys = [], st_events = [], st_frames = [], st_jobs = [], st_opened = [], st_ended = []\<rparr>"

definition ex_ids :: "nat \<Rightarrow> uuid" where "ex_ids k = of_nat (10 + k)"

definition ex_row :: "uuid \<Rightarrow> int \<Rightarrow> Alert" where
  "ex_row cur n = \<lparr>al_id = 10, al_orgID = 1, al_clusterID = 7, al_key = ex_key, al_fingerprint = ex_fp,
     al_clusterKey = ''main'', al_labels = ex_set, al_annotations = [], al_generatorURL = [],
     al_state = StateFiring, al_currentCaseID = cur, al_suppressionReason = SuppressionZero, al_suppressedBy = noSuppressedBy,
     al_firstSeenAt = 200, al_lastSeenAt = 200, al_lastStateChangeAt = 200, al_totalCases = n, al_flapScore = 0,
     al_isFlapping = False, al_synthetic = False\<rparr>"

lemma ex_row_read: "0 \<le> n \<Longrightarrow> alert_toDomain (ex_row cur n) = Inr (ex_row cur n)"
  by (simp add: alert_toDomain_def ex_row_def ex_identity NewAlert_def oto_defs float32_negative_def MaxGeneratorURLBytes_def as_internal_def requireID_def Labels_IsZero_def)

lemma ex_triggers: "triggerFor ''firing'' = TriggerObserveFiring" "triggerFor ''resolved'' = TriggerObserveResolved"
  by (simp_all add: triggerFor_def TrimSpace_plain printable_def byte_def lower_char_def between_def char_of_def)

lemma ex_prior: "priorAlerts ex_service ex_empty [ex_obs ''firing'' 0 200] = Inr []"
  by (simp add: priorAlerts_def ex_service_def ex_empty_def GetByAlertKeys_def Let_def)

definition ex_up :: AlertUpsert where
  "ex_up = \<lparr>up_ID = 10, up_ClusterID = 7, up_AlertKey = ex_key, up_Fingerprint = ex_fp, up_AlertName = ''HighLoad'', up_Severity = None,
    up_Namespace = None, up_Service = None, up_ClusterKey = ''main'', up_Labels = ex_set, up_Annotations = [], up_GeneratorURL = None,
    up_State = StateFiring, up_SeenAt = 200, up_Synthetic = False\<rparr>"

lemma ex_upserts: "buildUpsert (ex_ids 0) (ex_obs ''firing'' 0 200) = Inr ex_up"
  by (simp add: buildUpsert_def ex_obs_def ex_identity ex_triggers Labels_IsZero_def ex_ids_def ex_up_def strPtr_def)

definition ex_db1 :: Store where
  "ex_db1 = ex_empty\<lparr>st_alerts := [ex_row 0 0], st_labels := label_rows [ex_row 0 0] [],
     st_labelNames := label_names [ex_row 0 0] [] []\<rparr>"

lemma ex_inserted: "inserted_alert 1 ex_up = ex_row 0 0"
  by (simp add: inserted_alert_def ex_up_def ex_row_def str_or_empty_def)

lemma ex_row_sel: "al_key (ex_row c n) = ex_key" "al_id (ex_row c n) = 10" "al_labels (ex_row c n) = ex_set" "al_synthetic (ex_row c n) = False"
  "al_totalCases (ex_row c n) = n" "al_lastStateChangeAt (ex_row c n) = 200" "al_orgID (ex_row c n) = 1" "al_state (ex_row c n) = StateFiring"
  by (simp_all add: ex_row_def)
lemma ex_up_sel: "up_AlertKey ex_up = ex_key" "upsert_incomplete ex_up = None"
  by (simp_all add: ex_up_def upsert_incomplete_def ex_identity RequireID_def oto_defs Labels_IsZero_def)

lemma ex_upsert_batch: "UpsertBatch 1 ex_empty [ex_up] = Inr ([(ex_row 0 0, True)], ex_db1)"
  by (simp add: UpsertBatch_def upsert_collapse_def ex_up_sel Let_def List.map_filter_def first_some_def upsert_row_def
      ex_empty_def ex_row_sel ex_inserted ex_row_read ex_db1_def)

lemma ex_latest: "latestCases ex_service ex_db1 (distinct_keys [10]) = Inr []"
  by (simp add: latestCases_def ex_service_def ex_db1_def ex_empty_def LatestByAlerts_def List.map_filter_def)

definition ex_c :: Case where
  "ex_c = \<lparr>c_id = 12, c_orgID = 1, c_alertID = 10, c_seq = 1,
               c_number = 1, c_state = CaseOpen,
               c_suppressionReason = SuppressionZero,
               c_suppressedBy = noSuppressedBy,
               c_startedAt = 200, c_endedAt = 0, c_lastObservedAt = 200,
               c_sourceStartsAt = 100, c_sourceEndsAt = 0,
               c_sourceUpdatedAt = 0, c_resolveReason = ResolveZero,
               c_resolvePendingAt = 0, c_resolvePendingEndAt = 0,
               c_stateVersion = 1, c_suppressCount = 0,
               c_ackState = AckStateUnacked, c_ackedBy = 0,
               c_ackedByLabel = [], c_ackedAt = 0, c_ackNote = [],
               c_ruleSnapshotID = 0, c_value = None, c_observedSkew = 0\<rparr>"

definition ex_at :: ObservationTime where "ex_at = \<lparr>occurredAt = 100, recordedAt = 200\<rparr>"
definition ex_in :: Actor where "ex_in = \<lparr>a_kind = ActorIngest, a_id = [], a_label = []\<rparr>"

lemma ex_reading: "observationTime (ex_obs ''firing'' 0 200) 500 = Inr ex_at" "actorFor ''webhook'' = Inr ex_in"
proof -
  show "observationTime (ex_obs ''firing'' 0 200) 500 = Inr ex_at"
    by (simp add: observationTime_def ex_obs_def ex_at_def ex_triggers NewObservationTime_def Let_def oto_defs)
  show "actorFor ''webhook'' = Inr ex_in"
    by (simp add: actorFor_def SystemActor_def NewActor_def ex_in_def oto_defs)
qed

lemma ex_decision: "Decide zeroCase (routingCommand TriggerObserveFiring ex_in ex_at DefaultSettings) =
  Inr \<lparr>d_ID = TransitionT1, d_From = StateNone, d_OpensEpisode = True, d_Seq = 1, d_DropsAck = False\<rparr>"
  by code_simp

definition ex_ev :: "uuid \<Rightarrow> EventType \<Rightarrow> uuid \<Rightarrow> string \<Rightarrow> payload \<Rightarrow> string \<Rightarrow> Event" where
  "ex_ev i ty c summary pl key = \<lparr>ev_id = i, ev_orgID = 1, ev_alertID = 10, ev_caseID = c, ev_groupID = 0, ev_typ = ty, ev_at = ex_at,
     ev_actor = ex_in, ev_summary = summary, ev_payload = pl, ev_dedupeKey = key\<rparr>"

definition ex_evs :: "Event list" where
  "ex_evs = [ex_ev 11 EventAlertCreated 0 ''Alert first seen: HighLoad'' [(''alert_key'', JStr ex_key)] (''alert:'' @ canonical_uuid 10 @ '':created''),
     ex_ev 13 EventCaseOpened 12 ''Case opened'' [] (''case:'' @ canonical_uuid 12 @ '':opened'')]"

lemma ex_created: "alertCreatedEvent (aw_U ex_service) 11 (ex_row 0 0) ex_at ex_in = Inr (hd ex_evs)"
  by (simp add: alertCreatedEvent_def ex_evs_def ex_ev_def ex_row_def ex_service_def ex_at_def ex_in_def ex_ids_def ex_identity ex_eval)

lemma ex_opened: "OpenNewCase (aw_U ex_service) (openParams ex_service 12 13 (ex_row 0 0) (ex_obs ''firing'' 0 200) ex_at ex_in 1) = Inr (ex_c\<lparr>c_number := 0\<rparr>, tl ex_evs)"
  by (simp add: openParams_def ex_evs_def ex_ev_def ex_c_def ex_obs_def ex_row_def ex_service_def ex_at_def ex_in_def ex_ids_def ex_identity ms_duration_def ex_eval)

lemma ex_open_row: "OpenCase 1 ex_db1 (openRow (ex_c\<lparr>c_number := 0\<rparr>) (ex_obs ''firing'' 0 200)) =
  Inr (ex_c, ex_db1\<lparr>st_nextNumber := Some 2, st_cases := [ex_c]\<rparr>)"
  by (simp add: OpenCase_def openRow_def ex_c_def ex_obs_def ex_row_def ex_db1_def ex_empty_def opened_row_def case_toDomain_def as_internal_def
    RequireID_def ms_duration_def ex_eval)

lemma ex_service_sel: "aw_org ex_service = 1" "aw_now ex_service = 500" "aw_stream ex_service = False" "aw_enqueuer ex_service = False"
   "aw_caseOpenings ex_service = None" "aw_caseEndings ex_service = None" "lifecycleSettings ex_service = DefaultSettings"
  by (simp_all add: ex_service_def lifecycleSettings_def)
lemma ex_obs_sel: "ob_Status (ex_obs s e t) = s" "ob_Source (ex_obs s e t) = ''webhook''" "ob_AlertKey (ex_obs s e t) = ex_key"
  by (simp_all add: ex_obs_def)

lemma ex_ids_sel: "ex_ids 0 = 10" "ex_ids (Suc 0) = 11" "ex_ids 2 = 12" "ex_ids 3 = 13" "ex_ids (Suc 2) = 13" "ex_ids (Suc (Suc 0)) = 12"  "ex_ids (Suc (Suc (Suc 0))) = 13"
  by (simp_all add: ex_ids_def)

lemma ex_observed: "\<exists>acc. observeOne ex_service ex_ids DefaultSettings [] (ex_db1, first_accum [], Suc 0) (ex_obs ''firing'' 0 200, ex_row 0 0, True) =
   Inr (ex_db1\<lparr>st_nextNumber := Some 2, st_cases := [ex_c]\<rparr>, acc, Suc (Suc (Suc (Suc 0)))) \<and> ac_projectionOrder acc = [10] \<and> 
  ac_projections acc = [10 \<mapsto> projectionFor (ex_row 0 0) ex_c ex_at True 1] \<and> ac_events acc = ex_evs"
  by (simp add: observeOne_def ex_obs_sel ex_service_sel ex_triggers ex_reading ex_decision ex_created ex_opened ex_open_row created_event_def ex_ids_sel first_accum_def Let_def
    applyOpen_def openEpisode_def settle_one_def stageProjection_def queueFrame_def ex_row_sel ex_evs_def)

lemma ex_projected: "projected (projectionFor (ex_row 0 0) ex_c ex_at True 1) (ex_row 0 0) = ex_row 12 1"
  by (simp add: projected_def projectionFor_def ex_row_def ex_c_def ex_at_def Case_IsOpen_def AlertState_def Case_SuppressedBy_def derefID_def oto_defs)

lemma ex_committed: "\<exists>r. observe_tx ex_service ex_ids [] ex_empty [ex_obs ''firing'' 0 200] =
   Inr (r, ex_db1\<lparr>st_nextNumber := Some 2, st_alerts := [ex_row 12 1], st_cases := [ex_c], st_eventKeys := map ev_dedupeKey ex_evs, st_events := ex_evs\<rparr>, 4)"
proof -
  obtain acc where o: "observeOne ex_service ex_ids DefaultSettings [] (ex_db1, first_accum [], Suc 0) (ex_obs ''firing'' 0 200, ex_row 0 0, True) =
   Inr (ex_db1\<lparr>st_nextNumber := Some 2, st_cases := [ex_c]\<rparr>, acc, 4)" and acc: "ac_projectionOrder acc = [10]" 
  "ac_projections acc = [10 \<mapsto> projectionFor (ex_row 0 0) ex_c ex_at True 1]" "ac_events acc = ex_evs" using ex_observed by (auto simp: numeral_eq_Suc)
  let ?db = "ex_db1\<lparr>st_nextNumber := Some 2, st_cases := [ex_c]\<rparr>"
  have f: "flushProjections ?db acc = Inr (?db\<lparr>st_alerts := [ex_row 12 1]\<rparr>)"
    by (simp add: flushProjections_def acc List.map_filter_def SetProjectionBatch_def RequireID_def ex_db1_def ex_row_sel ex_projected)
      (simp add: projectionFor_def ex_c_def ex_row_def oto_defs AlertState_def)
  have e: "appendEventsBatched ex_service (?db\<lparr>st_alerts := [ex_row 12 1]\<rparr>) acc = Inr (2, ?db\<lparr>st_alerts := [ex_row 12 1], st_eventKeys := map ev_dedupeKey ex_evs, st_events := ex_evs\<rparr>, acc)"
    by (simp add: appendEventsBatched_def acc ex_evs_def ex_ev_def refuseRetired_def Retired_def retiredEventTypes_def AppendBatch_def Let_def queueFrame_def ex_service_sel ex_db1_def ex_empty_def)
  show ?thesis
    by (simp add: observe_tx_def ex_prior ex_upserts ex_service_sel ex_upsert_batch Let_def ex_row_sel ex_latest o finish_batch_def batch_repeats_def f e flushFrames_def enqueueEnrich_def announceOpenings_def
     enqueueNotify_def announceEndings_def)
qed
section \<open>The tables\<close>

text \<open>
  C39. The episodes of an alert, in every history: they are numbered 1, 2, ... without a gap or a repetition up
  to \<^verbatim>\<open>total_cases\<close>, every row is one the domain reads back, the open one (if any) is the last and the one
  the alert row points to, and the alert row says of itself what the last episode says. The suppression
  column is included as long as no suppressed case was acknowledged.
\<close>

theorem episodes_in_order:
  assumes "store_run axis org db" "a \<in> set (st_alerts db)"
  shows "distinct (map c_seq (cases_of db (al_id a))) \<and>
    set (map c_seq (cases_of db (al_id a))) = {1..al_totalCases a} \<and>
    (\<forall>c\<in>set (cases_of db (al_id a)). (\<exists>m. case_toDomain c = Inr m) \<and>
       (c_endedAt c = 0 \<longleftrightarrow> al_currentCaseID a = c_id c) \<and>
       (c_seq c = al_totalCases a \<longrightarrow> al_state a = AlertState c \<and> (axis \<longrightarrow> al_suppressionReason a = c_suppressionReason c)) \<and>
       (c_endedAt c = 0 \<longrightarrow> c_seq c = al_totalCases a))"
proof -
  let ?cs = "cases_of db (al_id a)"
  have S: "store_ok axis org db" using assms(1) by (rule store_run_ok)
  have chain: "chain_ok ?cs" using S assms(2) by (simp add: store_ok_def rows_ok_def cases_of_alert)
  have proj: "projected_ok axis a ?cs" using S assms(2) by (simp add: store_ok_def)
  note inj = chain_seq_inj [OF chain]
  have n: "al_totalCases a = int (length ?cs)" using proj by (simp add: projected_ok_def)
  have "(\<exists>m. case_toDomain c = Inr m) \<and> (c_endedAt c = 0 \<longleftrightarrow> al_currentCaseID a = c_id c) \<and>
      (c_seq c = al_totalCases a \<longrightarrow> al_state a = AlertState c \<and> (axis \<longrightarrow> al_suppressionReason a = c_suppressionReason c)) \<and>
      (c_endedAt c = 0 \<longrightarrow> c_seq c = al_totalCases a)" if c: "c \<in> set ?cs" for c
  proof -
    have mem: "c \<in> set (st_cases db)" using c by (simp add: cases_of_def)
    then have rd: "readable c" using S by (simp add: store_ok_def rows_ok_def)
    obtain l where l: "l \<in> set ?cs" "c_seq l = int (length ?cs)" using chain_last [OF chain] c by (metis empty_iff empty_set)
    have cur: "al_currentCaseID a = (if c_endedAt l = 0 then c_id l else uuid_Nil)" using proj l by (simp add: projected_ok_def)
    have "l \<in> set (st_cases db)" using l(1) by (simp add: cases_of_def)
    then have one: "c_id l = c_id c \<Longrightarrow> l = c"
      using S mem by (simp add: store_ok_def rows_ok_def distinct_map inj_on_def)
    have last: "c_seq c = int (length ?cs) \<Longrightarrow> c = l" using inj c l by (simp add: inj_on_def)
    have "c_endedAt c = 0 \<Longrightarrow> c_seq c = int (length ?cs)" using chain c by (simp add: chain_ok_def)
    moreover have "c_id c \<noteq> 0" using rd by (simp add: readable_iff)
    ultimately have "c_endedAt c = 0 \<longleftrightarrow> al_currentCaseID a = c_id c" using cur one last by (auto split: if_splits)
    moreover have "\<exists>m. case_toDomain c = Inr m" using rd by (auto simp: readable_def case_toDomain_def as_internal_def)
    ultimately show ?thesis using proj c n \<open>c_endedAt c = 0 \<Longrightarrow> c_seq c = int (length ?cs)\<close> by (simp add: projected_ok_def)
  qed
  moreover have "distinct (map c_seq ?cs)" using inj by (simp add: distinct_map)
  moreover have "set (map c_seq ?cs) = {1..al_totalCases a}" using chain n by (simp add: chain_ok_def)
  ultimately show ?thesis by blast
qed

theorem episodes_in_order_witness:
  "\<exists>db a. store_run True 1 db \<and> a \<in> set (st_alerts db) \<and> al_totalCases a = 1 \<and> al_state a = StateFiring \<and>
     set (map c_seq (cases_of db (al_id a))) = {1..1}"
proof -
  obtain r db where o: "observe_tx ex_service ex_ids [] ex_empty [ex_obs ''firing'' 0 200] = Inr (r, db, 4)"
    and db: "st_alerts db = [ex_row 12 1]" using ex_committed by fastforce
  have "{..<4::nat} = {0, 1, 2, 3}" by auto
  then have "new_case_ids ex_ids 4 ex_empty" by (simp add: new_case_ids_def ex_empty_def ex_ids_def)
  moreover have "store_run True 1 ex_empty" by (rule store_run.start) (simp_all add: ex_empty_def)
  ultimately have run: "store_run True 1 db" using store_run.observed [OF _ ex_service_sel(1) o] by simp
  have a: "ex_row 12 1 \<in> set (st_alerts db)" by (simp add: db)
  from episodes_in_order [OF run a] run a show ?thesis by (intro exI [of _ db] exI [of _ "ex_row 12 1"]) (simp add: ex_row_sel)
qed

end
