(* ===== verification/Observe_Conflict.thy ===== *)
theory Observe_Conflict
  imports Observe_Correct
begin

text \<open>
  One alert reported twice in one batch. The first report of an open case moves its row and with it the row's
  version; the batch's own copy of the case keeps the version it was read at. A second report that is a
  transition is then refused by the compare-and-set, and with it the whole batch.
\<close>

section \<open>Reports about an open case\<close>

lemma check_kind: "check c = Some e \<Longrightarrow> errKind e \<noteq> KindPrecondition"
  unfolding check_def by (drule first_err_Some_mem) auto

text \<open>The table has a row for a firing and for a resolved report of an open case, and it opens no episode.\<close>

lemma open_rows:
  assumes "f = StateFiring \<or> f = StateSuppressed" "t = TriggerObserveFiring \<or> t = TriggerObserveResolved"
  shows "list_ex (\<lambda>r. r_from r = f \<and> r_trigger r = t \<and>
      (r_id r = TransitionT5 \<or> t = TriggerObserveFiring \<and> (r_id r = TransitionT2 \<or> r_id r = TransitionT4))) transitionTable"
  using assms by (elim disjE) (simp_all add: transitionTable_def)

lemma open_case_rule:
  assumes "c_state m = CaseOpen" "cmd_Trigger cmd \<in> {TriggerObserveFiring, TriggerObserveResolved}"
  obtains rule where "selectRule m cmd = Inr rule" "r_id rule \<in> {TransitionT2, TransitionT4, TransitionT5}"
proof -
  have "lifecyclePhase m = StateFiring \<or> lifecyclePhase m = StateSuppressed"
    using assms(1) by (simp add: lifecyclePhase_def AlertState_def oto_defs)
  then have "list_ex (\<lambda>r. r_from r = lifecyclePhase m \<and> r_trigger r = cmd_Trigger cmd \<and>
      (r_id r = TransitionT5 \<or> cmd_Trigger cmd = TriggerObserveFiring \<and>
        (r_id r = TransitionT2 \<or> r_id r = TransitionT4))) transitionTable"
    using assms(2) by (intro open_rows) simp_all
  then obtain rule where r: "rule \<in> set transitionTable" "r_from rule = lifecyclePhase m" "r_trigger rule = cmd_Trigger cmd"
    "r_id rule = TransitionT5 \<or> r_id rule = TransitionT2 \<or> r_id rule = TransitionT4"
    unfolding list_ex_iff by blast
  show thesis by (rule that [OF selectRule_eq [OF r(1-3)]]) (use r(4) in auto)
qed

lemma open_case_decides:
  assumes "c_state m = CaseOpen" "cmd_Trigger cmd \<in> {TriggerObserveFiring, TriggerObserveResolved}"
  shows "Decide m cmd \<noteq> Inl e"
  using assms by (rule open_case_rule) (simp add: Decide_def)

lemma open_case_applies:
  assumes "c_state m = CaseOpen" "cmd_Trigger cmd \<in> {TriggerObserveFiring, TriggerObserveResolved}"
    and A: "Apply U m cmd = Inl e"
  shows "errKind e \<noteq> KindPrecondition"
  using assms(1,2)
proof (rule open_case_rule)
  fix rule assume r: "selectRule m cmd = Inr rule" "r_id rule \<in> {TransitionT2, TransitionT4, TransitionT5}"
  have "\<exists>a. applyArm rule m cmd = Inr a"
    using r(2) assms(2) by (auto simp: applyArm_def arm_T2_def arm_T4_def arm_T5_def simp del: split_paired_Ex)
  then obtain nxt extra delta deferred where a: "applyArm rule m cmd = Inr (nxt, extra, delta, deferred)" by auto
  have fin: "errKind e \<noteq> KindPrecondition" if "finishApply U rule m cmd (nxt, extra, delta, deferred) = Inl e"
    using that by (auto simp: finishApply_def Let_def or_fail_Inl_iff rbind_Inl_iff dest: check_kind NewEvent_Inl_kind split: if_splits)
  show "errKind e \<noteq> KindPrecondition"
  proof (cases "first_err
       [(cmd_Trigger cmd = TriggerZero, errs_New KindValidation ''required''),
        (Actor_IsZero (cmd_Actor cmd), errs_New KindValidation ''required''),
        (ObservationTime_IsZero (cmd_At cmd), errs_New KindValidation ''required'')]")
    case None
    then show ?thesis using A r a fin by (auto simp: Apply_def split: if_splits)
  next
    case (Some x)
    then have "errKind x \<noteq> KindPrecondition" by (drule_tac first_err_Some_mem) auto
    then show ?thesis using A Some by (simp add: Apply_def)
  qed
qed

text \<open>So a report of an open case that the batch accepts is written.\<close>

lemma report_is_written:
  assumes O: "observeOne W draw cfg prior (db, acc, k) (o', alert, created) = Inr (db', acc', k')"
    and m: "ac_latest acc (al_id alert) = Some m" "c_state m = CaseOpen"
    and t: "triggerFor (ob_Status o') \<in> {TriggerObserveFiring, TriggerObserveResolved}"
  obtains cmd tr where "Apply (aw_U W) m cmd = Inr tr" "cmd_Trigger cmd = triggerFor (ob_Status o')"
    "persistTransition db tr o' = Inr db'" "ac_latest acc' (al_id alert) = Some (tr_Case tr)"
  using O
proof (cases rule: observeOne_cases)
  case (none acc1 at actor e)
  have "cmd_Trigger (routingCommand (triggerFor (ob_Status o')) actor at cfg) = triggerFor (ob_Status o')"
    by (simp add: routingCommand_def)
  with open_case_decides [OF m(2)] t none(5) m(1) show thesis by simp
next
  case (opens at actor acc1 k1 d ac out1 acc2)
  with m show thesis by simp
next
  case (edge at actor acc1 k1 m')
  then have "m' = m" using m(1) by simp
  from edge(4) show thesis
  proof (cases rule: observe_edge_cases)
    case (none cmd e)
    then show thesis using open_case_applies [OF m(2), of cmd] t \<open>m' = m\<close> by simp
  next
    case (edge cmd tr acc2 out1)
    have "ac_latest acc' (al_id alert) = Some (tr_Case tr)" using settle_view(1) [OF edge(6)] by simp
    then show thesis using that [of cmd tr] \<open>m' = m\<close> edge(1,3,7) by blast
  qed
qed

section \<open>The version of the row\<close>

lemma firing_stays_open:
  assumes A: "Apply U m cmd = Inr tr" and "cmd_Trigger cmd = TriggerObserveFiring" "c_state m = CaseOpen"
  shows "c_state (tr_Case tr) = CaseOpen" "c_stateVersion (tr_Case tr) = c_stateVersion m"
  using A assms(2,3) by (cases rule: Apply_edges; simp)+

lemma resolved_is_T5: "Apply U m cmd = Inr tr \<Longrightarrow> cmd_Trigger cmd = TriggerObserveResolved \<Longrightarrow> tr_ID tr = TransitionT5"
  by (erule Apply_edges) simp_all

lemma expected_version: "Apply U m cmd = Inr tr \<Longrightarrow> t_Expected (transitionOf tr w) = c_stateVersion m"
  by (simp add: Apply_result transitionOf_def PreconditionFor_def Let_def)

lemma written_row_version:
  assumes d: "distinct (map c_id (st_cases db))" and r: "r \<in> set (st_cases db)" "c_id r = c_id (tr_Case tr)"
    and P: "persistTransition db tr o' = Inr db'"
    and c: "c \<in> set (st_cases db')" "c_id c = c_id (tr_Case tr)"
  shows "c_stateVersion c = c_stateVersion r + 1"
proof -
  have one: "c = r" if "c \<in> set (st_cases db)" "c_id c = c_id r" for c
    using d r(1) that by (simp add: distinct_map inj_on_def)
  show ?thesis
  proof (cases "tr_ID tr = TransitionT2")
    case True
    then have "db' = db\<lparr>st_cases := update_where (\<lambda>c. c_id c = c_id r) (observed_row o') (st_cases db)\<rparr>"
      using P r(2) by (auto simp: persistTransition_def Case_Observe_def split: if_splits)
    then show ?thesis using c r(2) one by (auto simp: set_update_where observed_row_def)
  next
    case False
    let ?t = "transitionOf tr (ob_SuppressedBy o')"
    have "list_ex (\<lambda>c. c_id c = c_id r \<and> c_stateVersion c = t_Expected ?t) (st_cases db)"
      and db': "db' = db\<lparr>st_cases := update_where (\<lambda>c. c_id c = c_id r \<and> c_stateVersion c = t_Expected ?t)
        (transition_row ?t) (st_cases db)\<rparr>"
      using P r(2) False by (auto simp: persistTransition_def Case_Transition_def split: if_splits)
    then have "c_stateVersion r = t_Expected ?t" using one by (auto simp: list_ex_iff)
    then show ?thesis using c r(2) one by (auto simp: db' set_update_where transition_row_def)
  qed
qed

section \<open>The rows of a batch\<close>

lemma alert_toDomain_key: "alert_toDomain r = Inr a \<Longrightarrow> al_key a = al_key r"
  by (auto simp: alert_toDomain_def rbind_Inr_iff NewAlertKey_def new_key_def dest!: NewAlert_Inr split: if_splits)

lemma upsert_results_aligned:
  "upsert_results fresh byKey seen ins = Inr out \<Longrightarrow> (u, x) \<in> set (zip ins out) \<Longrightarrow>
    map_of byKey (up_AlertKey u) = Some (fst x)"
  by (induction fresh byKey seen ins arbitrary: out rule: upsert_results.induct)
    (auto simp: rbind_Inr_iff split: option.splits)

lemma UpsertBatch_answer:
  assumes "UpsertBatch org db ins = Inr (out, db1)" "(u, x) \<in> set (zip ins out)"
  shows "\<exists>r\<in>set (st_alerts db1). al_key r = up_AlertKey u \<and> al_id r = al_id (fst x)"
proof -
  from assms(2) have "ins \<noteq> []" by auto
  obtain order winner where c: "upsert_collapse ins = (order, winner)" by fastforce
  let ?up = "filter (\<lambda>r. al_key r \<in> set order) (st_alerts db1)"
  from assms(1) \<open>ins \<noteq> []\<close> obtain as fresh where r: "read_all alert_toDomain ?up = Inr as"
      "upsert_results fresh (map (\<lambda>a. (al_key a, a)) as) [] ins = Inr out"
    by (auto simp: UpsertBatch_def Let_def rbind_Inr_iff c split: if_splits)
  have "(up_AlertKey u, fst x) \<in> set (map (\<lambda>a. (al_key a, a)) as)"
    using upsert_results_aligned [OF r(2) assms(2)] by (rule map_of_SomeD)
  then have "fst x \<in> set as" "al_key (fst x) = up_AlertKey u" by auto
  with read_all_mem(1) [OF r(1)] obtain q where q: "q \<in> set ?up" "alert_toDomain q = Inr (fst x)" by blast
  then have "al_key q = up_AlertKey u" "al_id q = al_id (fst x)"
    using alert_toDomain_key [OF q(2)] alert_toDomain_Inr(1) [OF q(2)] \<open>al_key (fst x) = up_AlertKey u\<close> by simp_all
  with q(1) show ?thesis by auto
qed

lemma upsert_row_keeps:
  assumes "a \<in> set rows"
  shows "\<exists>b\<in>set (upsert_row org u rows). al_id b = al_id a \<and> al_key b = al_key a"
proof (cases "list_ex (\<lambda>r. al_key r = up_AlertKey u) rows")
  case True
  have "(if al_key a = up_AlertKey u then updated_alert u a else a) \<in> set (upsert_row org u rows)"
    using assms True by (auto simp: upsert_row_def update_where_def)
  then show ?thesis by (rule bexI [rotated]) simp
qed (use assms in \<open>auto simp: upsert_row_def\<close>)

lemma upsert_rows_keep:
  "a \<in> set rows \<Longrightarrow> \<exists>b\<in>set (fold (upsert_row org) us rows). al_id b = al_id a \<and> al_key b = al_key a"
proof (induction us arbitrary: rows a)
  case (Cons u us)
  then obtain b where "b \<in> set (upsert_row org u rows)" "al_id b = al_id a" "al_key b = al_key a"
    using upsert_row_keeps by blast
  with Cons.IH [of b "upsert_row org u rows"] show ?case by simp
qed auto

lemma UpsertBatch_keeps:
  assumes "UpsertBatch org db ins = Inr (out, db1)" "a \<in> set (st_alerts db)"
  shows "\<exists>b\<in>set (st_alerts db1). al_id b = al_id a \<and> al_key b = al_key a"
proof (cases "ins = []")
  case False
  obtain order winner where c: "upsert_collapse ins = (order, winner)" by fastforce
  have "st_alerts db1 = fold (upsert_row org) (List.map_filter (map_of winner) order) (st_alerts db)"
    using assms(1) False by (auto simp: UpsertBatch_def Let_def rbind_Inr_iff c split: if_splits)
  then show ?thesis using upsert_rows_keep [OF assms(2)] by simp
qed (use assms in \<open>auto simp: UpsertBatch_def\<close>)

lemma buildUpserts_keys: "buildUpserts draw k obs = Inr us \<Longrightarrow> map up_AlertKey us = map ob_AlertKey obs"
proof (induction obs arbitrary: k us)
  case (Cons o' obs)
  then obtain u vs where "buildUpsert (draw k) o' = Inr u" "buildUpserts draw (Suc k) obs = Inr vs" "us = u # vs"
    by (auto simp: rbind_Inr_iff)
  moreover from this have "up_AlertKey u = ob_AlertKey o'" by (auto simp: buildUpsert_def rbind_Inr_iff split: if_splits)
  ultimately show ?case using Cons.IH [of "Suc k" vs] by simp
qed simp

text \<open>The alerts of a batch: the upsert answers each observation with the row of its key.\<close>

definition open_alert :: "Store \<Rightarrow> AlertKey \<Rightarrow> bool" where
  "open_alert db k \<longleftrightarrow> (\<exists>a\<in>set (st_alerts db). al_key a = k \<and> (\<exists>c\<in>set (cases_of db (al_id a)). c_endedAt c = 0))"

lemma batch_rows:
  assumes S: "store_ok axis org db" "store_ok axis org db1" and U: "UpsertBatch org db ups = Inr (results, db1)"
    and B: "buildUpserts draw 0 obs = Inr ups" and a: "a \<in> set (st_alerts db)"
    and z: "(o', alert, created) \<in> set (zip obs results)" "ob_AlertKey o' = al_key a"
  shows "al_id alert = al_id a"
proof -
  have len: "length ups = length obs" using buildUpserts_keys [OF B] by (metis length_map)
  from z(1) obtain j where j: "j < length obs" "j < length results" "obs ! j = o'" "results ! j = (alert, created)"
    by (auto simp: in_set_zip)
  then have "(ups ! j, alert, created) \<in> set (zip ups results)" using len by (auto simp: in_set_zip intro!: exI [of _ j])
  from UpsertBatch_answer [OF U this] obtain r where r: "r \<in> set (st_alerts db1)" "al_key r = up_AlertKey (ups ! j)"
    "al_id r = al_id alert" by auto
  have "up_AlertKey (ups ! j) = ob_AlertKey o'" using arg_cong [OF buildUpserts_keys [OF B], of "\<lambda>l. l ! j"] j len by simp
  moreover obtain b where b: "b \<in> set (st_alerts db1)" "al_id b = al_id a" "al_key b = al_key a"
    using UpsertBatch_keeps [OF U a] by blast
  ultimately have "al_key r = al_key b" using r(2) z(2) by simp
  then have "r = b" using S(2) r(1) b(1) by (simp add: store_ok_def distinct_map inj_on_def)
  with r(3) b(2) show ?thesis by simp
qed

section \<open>The second report\<close>

lemma open_view:
  assumes R: "rows_ok org ids (st_cases db)" and i: "i \<in> set ids" and v: "view_ok l (cases_of db i)"
    and c: "c \<in> set (cases_of db i)" "c_endedAt c = 0"
  obtains m where "l = Some m" "tracks c m" "c_state m = CaseOpen"
proof -
  have chain: "chain_ok (cases_of db i)" using R i by (simp add: rows_ok_def cases_of_alert)
  from v c(1) obtain m r where m: "l = Some m" "r \<in> set (cases_of db i)" "c_seq r = int (length (cases_of db i))" "tracks r m"
    by (cases l) auto
  have "c_seq c = int (length (cases_of db i))" using chain c by (simp add: chain_ok_def)
  with chain_seq_inj [OF chain] c(1) m(2,3) have "r = c" by (simp add: inj_on_def)
  moreover have "readable c" using R c(1) by (simp add: rows_ok_def cases_of_def)
  then have "c_state c = CaseOpen" using c(2) unfolding readable_iff check_None_iff by (cases "c_state c") auto
  ultimately show thesis using that m by (simp add: tracks_def same_standing_def)
qed

lemma second_report_conflicts:
  assumes d: "distinct (map c_id (st_cases db))" and c: "c \<in> set (st_cases db)" "tracks c m" "c_state m = CaseOpen"
    and m: "ac_latest acc (al_id alert) = Some m" and same: "al_id alert' = al_id alert"
    and t: "triggerFor (ob_Status o1) = TriggerObserveFiring" "triggerFor (ob_Status o2) = TriggerObserveResolved"
    and one: "observeOne W draw cfg prior (db, acc, k) (o1, alert, created) = Inr (db1, acc1, k1)"
  shows "observeOne W draw cfg prior (db1, acc1, k1) (o2, alert', created') \<noteq> Inr (db2, acc2, k2)"
proof
  assume two: "observeOne W draw cfg prior (db1, acc1, k1) (o2, alert', created') = Inr (db2, acc2, k2)"
  obtain cmd tr where w: "Apply (aw_U W) m cmd = Inr tr" "cmd_Trigger cmd = triggerFor (ob_Status o1)"
    "persistTransition db tr o1 = Inr db1" "ac_latest acc1 (al_id alert) = Some (tr_Case tr)"
    by (rule report_is_written [OF one m c(3)]) (use t in simp)
  note o = firing_stays_open [OF w(1) w(2) [unfolded t(1)] c(3)]
  obtain cmd' tr' where w': "Apply (aw_U W) (tr_Case tr) cmd' = Inr tr'" "cmd_Trigger cmd' = triggerFor (ob_Status o2)"
    "persistTransition db1 tr' o2 = Inr db2"
    by (rule report_is_written [OF two w(4) [folded same] o(1)]) (use t in simp)
  have id: "c_id (tr_Case tr) = c_id c" "c_id (tr_Case tr') = c_id c"
    using Apply_same_episode [OF w(1)] Apply_same_episode [OF w'(1)] c(2) by (simp_all add: same_episode_def tracks_def same_row_def)
  have "tr_ID tr' = TransitionT5" using resolved_is_T5 [OF w'(1)] w'(2) t(2) by simp
  then obtain r where r: "r \<in> set (st_cases db1)" "c_id r = c_id c" "c_stateVersion r = c_stateVersion (tr_Case tr)"
    using w'(3) id(2) expected_version [OF w'(1)]
    by (auto simp: persistTransition_def Case_Transition_def list_ex_iff split: if_splits)
  have "c_stateVersion r = c_stateVersion c + 1"
    by (rule written_row_version [OF d c(1) id(1) [symmetric] w(3) r(1)]) (simp add: r(2) id(1))
  with r(3) o(2) c(2) show False by (simp add: tracks_def)
qed

lemma observe_tx_conflict:
  assumes S: "store_ok axis (aw_org W) db" and new: "new_case_ids draw (length obs) db" and obs: "obs = o1 # o2 # rest"
    and op: "open_alert db (ob_AlertKey o1)" and key: "ob_AlertKey o2 = ob_AlertKey o1"
    and t: "triggerFor (ob_Status o1) = TriggerObserveFiring" "triggerFor (ob_Status o2) = TriggerObserveResolved"
  shows "observe_tx W draw reason db obs \<noteq> Inr (r, db', k)"
proof
  assume "observe_tx W draw reason db obs = Inr (r, db', k)"
  then obtain prior upserts results db1 latest st where
    o: "buildUpserts draw 0 obs = Inr upserts" "UpsertBatch (aw_org W) db upserts = Inr (results, db1)"
      "latestCases W db1 (distinct_keys (map (\<lambda>r. al_id (fst r)) results)) = Inr latest"
      "run_steps (observeOne W draw (lifecycleSettings W) prior) (db1, first_accum latest, length obs) (zip obs results) = Inr st"
    by (auto simp: observe_tx_def Let_def rbind_Inr_iff)
  note u = buildUpserts_ids [OF o(1)]
  have "up_ID ` set upserts = draw ` {..<length obs}" using arg_cong [OF u, of set] by (simp add: lessThan_atLeast0)
  moreover have "draw j \<notin> al_id ` set (st_alerts db)" if "j < length obs" for j using new that by (simp add: new_case_ids_def)
  ultimately have disj: "up_ID ` set upserts \<inter> al_id ` set (st_alerts db) = {}" by (rule image_disjoint)
  have "distinct (map up_ID upserts)" using new by (simp add: u distinct_map new_case_ids_def lessThan_atLeast0)
  note U = UpsertBatch_ok [OF S o(2) this disj]
  have "length results = length obs" using U(3) arg_cong [OF u, of length] by simp
  then obtain a1 n1 a2 n2 xs where res: "results = (a1, n1) # (a2, n2) # xs" by (auto simp: obs length_Suc_conv)
  from op obtain a c where a: "a \<in> set (st_alerts db)" "al_key a = ob_AlertKey o1" and c: "c \<in> set (cases_of db (al_id a))" "c_endedAt c = 0"
    by (auto simp: open_alert_def)
  note row = batch_rows [OF S U(1) o(2,1) a(1)]
  have ids: "al_id a1 = al_id a" "al_id a2 = al_id a"
    by (rule row [of o1 a1 n1] row [of o2 a2 n2]; simp add: obs res a(2) key)+
  have rows: "rows_ok (aw_org W) (map al_id (st_alerts db1)) (st_cases db1)" using U(1) by (simp add: store_ok_def)
  have sub: "set (distinct_keys (map (\<lambda>r. al_id (fst r)) results)) \<subseteq> set (map al_id (st_alerts db1))"
    using U(4) by (auto simp: distinct_keys_def image_iff)
  have mem: "al_id a \<in> set (distinct_keys (map (\<lambda>r. al_id (fst r)) results))" by (simp add: distinct_keys_def res ids)
  have c1: "c \<in> set (cases_of db1 (al_id a))" using c(1) by (simp add: cases_of_def U(2))
  obtain m where m: "map_of latest (al_id a) = Some m" "tracks c m" "c_state m = CaseOpen"
    by (rule open_view [OF rows _ latestCases_view [OF rows o(3) mem sub] c1 c(2)]) (use mem sub in auto)
  from o(4) obtain db2 acc2 k2 db3 acc3 k3 where s:
    "observeOne W draw (lifecycleSettings W) prior (db1, first_accum latest, length obs) (o1, a1, n1) = Inr (db2, acc2, k2)"
    "observeOne W draw (lifecycleSettings W) prior (db2, acc2, k2) (o2, a2, n2) = Inr (db3, acc3, k3)"
    by (auto simp: obs res rbind_Inr_iff)
  have "ac_latest (first_accum latest) (al_id a1) = Some m" using m(1) by (simp add: first_accum_def ids)
  moreover have "distinct (map c_id (st_cases db1))" "c \<in> set (st_cases db1)" using rows c1 by (simp_all add: rows_ok_def cases_of_def)
  moreover have "al_id a2 = al_id a1" by (simp add: ids)
  ultimately show False using second_report_conflicts s m(2,3) t by metis
qed



end
