(* ===== verification/Incident.thy ===== *)
theory Incident
  imports Notify_Policy Case_Sweep
begin

text \<open>
  The domain of incidents, \<^verbatim>\<open>internal/incidents/domain\<close>: the derived state and its facts, who decided, the
  refusals (\<^verbatim>\<open>incident.go\<close>), and the correlator with its matchers, its count over a window and its grace
  (\<^verbatim>\<open>correlator.go\<close>). A matcher is the one a policy uses (\<open>Notify_Policy\<close>).
\<close>

section \<open>State and facts\<close>

definition MaxActorLabelBytes :: nat where "MaxActorLabelBytes = 200"
definition MaxCasesPerDraw :: nat where "MaxCasesPerDraw = 100"
definition MaxAlertnames :: nat where "MaxAlertnames = 10"

datatype IncidentState = StateActive | StateQuiet

definition StateOf :: "int \<Rightarrow> IncidentState" where
  "StateOf openMembers = (if openMembers > 0 then StateActive else StateQuiet)"

fun IncidentState_String :: "IncidentState \<Rightarrow> string" where
  "IncidentState_String StateActive = ''active''"
| "IncidentState_String StateQuiet = ''quiet''"

definition AllStates :: "IncidentState list" where
  "AllStates = [StateActive, StateQuiet]"

datatype Fact = FactDrawn | FactCaseAdded | FactCaseRemoved | FactQuiet | FactActiveAgain

fun Fact_String :: "Fact \<Rightarrow> string" where
  "Fact_String FactDrawn = ''drawn''"
| "Fact_String FactCaseAdded = ''case_added''"
| "Fact_String FactCaseRemoved = ''case_removed''"
| "Fact_String FactQuiet = ''quiet''"
| "Fact_String FactActiveAgain = ''active_again''"

definition Incident_Transition :: "int \<Rightarrow> int \<Rightarrow> Fact option" where
  "Incident_Transition openBefore openAfter =
     (let before = StateOf openBefore; after = StateOf openAfter in
      if before = StateActive \<and> after = StateQuiet then Some FactQuiet
      else if before = StateQuiet \<and> after = StateActive then Some FactActiveAgain
      else None)"

section \<open>Attribution\<close>

record Attribution =
  by_userID :: uuid
  by_label :: string
  by_correlatorID :: uuid
  by_suggestedBy :: uuid

definition zeroAttribution :: Attribution where
  "zeroAttribution = \<lparr>by_userID = uuid_Nil, by_label = [], by_correlatorID = uuid_Nil, by_suggestedBy = uuid_Nil\<rparr>"

text \<open>\<^verbatim>\<open>utf8.RuneStart\<close>: a byte that is not a continuation byte. The loop of \<^verbatim>\<open>truncateUTF8\<close>, from the cut downwards.\<close>

definition RuneStart :: "char \<Rightarrow> bool" where
  "RuneStart c \<longleftrightarrow> \<not> between 128 191 c"

fun truncate_at :: "string \<Rightarrow> nat \<Rightarrow> nat" where
  "truncate_at s 0 = 0"
| "truncate_at s (Suc n) = (if RuneStart (s ! Suc n) then Suc n else truncate_at s n)"

definition truncateUTF8 :: "string \<Rightarrow> nat \<Rightarrow> string" where
  "truncateUTF8 s n = (if length s \<le> n then s else take (truncate_at s n) s)"

definition Human :: "uuid \<Rightarrow> string \<Rightarrow> Attribution result" where
  "Human userID label =
     (let l = TrimSpace label in
      if l = [] then Inl (errs_New KindValidation ''not_blank'')
      else Inr (zeroAttribution\<lparr>by_userID := userID,
        by_label := (if length l > MaxActorLabelBytes then truncateUTF8 l MaxActorLabelBytes else l)\<rparr>))"

definition Restore :: "uuid \<Rightarrow> string \<Rightarrow> uuid \<Rightarrow> Attribution result" where
  "Restore userID label correlatorID =
     (if (label = []) = (correlatorID = uuid_Nil) then Inl (errs_New KindInternal ''incident_attribution_invalid'')
      else Inr (zeroAttribution\<lparr>by_userID := userID, by_label := label, by_correlatorID := correlatorID\<rparr>))"

definition Attribution_IsHuman :: "Attribution \<Rightarrow> bool" where
  "Attribution_IsHuman a \<longleftrightarrow> by_correlatorID a = uuid_Nil"

definition Suggested :: "Attribution \<Rightarrow> uuid \<Rightarrow> Attribution result" where
  "Suggested a investigationID =
     (if \<not> Attribution_IsHuman a \<or> investigationID = uuid_Nil
      then Inl (errs_New KindInternal ''incident_suggestion_not_human'')
      else Inr (a\<lparr>by_suggestedBy := investigationID\<rparr>))"

definition Attribution_IsZero :: "Attribution \<Rightarrow> bool" where
  "Attribution_IsZero a \<longleftrightarrow> by_label a = [] \<and> by_correlatorID a = uuid_Nil"

definition ByCorrelator :: "uuid \<Rightarrow> Attribution" where
  "ByCorrelator i = zeroAttribution\<lparr>by_correlatorID := i\<rparr>"

section \<open>Read models and refusals\<close>

record IncidentRef =
  ref_ID :: uuid
  ref_Number :: int

record CaseRef =
  cr_ID :: uuid
  cr_Number :: int
  cr_AlertID :: uuid
  cr_Synthetic :: bool

record IncidentSummary =
  inc_ID :: uuid
  inc_Number :: int
  inc_DrawnAt :: time
  inc_DrawnBy :: Attribution
  inc_MemberCount :: int
  inc_OpenMemberCount :: int
  inc_Alertnames :: "string list"
  inc_Conversation :: bool

definition Incident_State :: "IncidentSummary \<Rightarrow> IncidentState" where
  "Incident_State i = StateOf (inc_OpenMemberCount i)"

record Member =
  mb_CaseID :: uuid
  mb_CaseNumber :: int
  mb_CaseState :: CaseState
  mb_AlertID :: uuid
  mb_Alertname :: string
  mb_Labels :: LabelSet
  mb_AddedAt :: time
  mb_AddedBy :: Attribution
  mb_RemovedAt :: time
  mb_RemovedByLabel :: string
  mb_MovedToNumber :: int

definition Spell_Current :: "Member \<Rightarrow> bool" where
  "Spell_Current m \<longleftrightarrow> IsZero (mb_RemovedAt m)"

record Outbound =
  ou_ChannelID :: uuid
  ou_ChannelName :: string
  ou_ExternalURL :: string
  ou_ExternalID :: string
  ou_RecordedAt :: time

record Detail =
  dt_Incident :: IncidentSummary
  dt_Members :: "Member list"
  dt_Outbound :: "Outbound list"

definition CaseInIncident :: error where "CaseInIncident = errs_New KindConflict ''case_in_incident''"
definition RaceLostToAnotherIncident :: error where "RaceLostToAnotherIncident = errs_New KindConflict ''case_in_incident''"
definition AlreadyAMember :: error where "AlreadyAMember = errs_New KindConflict ''already_a_member''"
definition SyntheticCase :: error where "SyntheticCase = errs_New KindConflict ''case_synthetic''"
definition IncidentNotFound :: error where "IncidentNotFound = errs_New KindNotFound ''incident_not_found''"
definition MemberNotFound :: error where "MemberNotFound = errs_New KindNotFound ''incident_member_not_found''"
definition CaseNotFound :: error where "CaseNotFound = errs_New KindNotFound ''case_not_found''"
definition CorrelatorNotFound :: error where "CorrelatorNotFound = errs_New KindNotFound ''correlator_not_found''"

definition MoveToSelf :: error where
  "MoveToSelf = errs_Validation ''validation_failed'' [Violation ''to_number'' ''move_to_self'']"

lemmas refusals = CaseInIncident_def RaceLostToAnotherIncident_def AlreadyAMember_def SyntheticCase_def
  IncidentNotFound_def MemberNotFound_def CaseNotFound_def CorrelatorNotFound_def MoveToSelf_def

section \<open>Correlators\<close>

definition MaxCorrelatorNameLength :: nat where "MaxCorrelatorNameLength = 120"
definition MaxCorrelatorMatchers :: nat where "MaxCorrelatorMatchers = 32"
definition MinCorrelatorPriority :: int where "MinCorrelatorPriority = 0"
definition MaxCorrelatorPriority :: int where "MaxCorrelatorPriority = 10000"
definition DefaultCorrelatorPriority :: int where "DefaultCorrelatorPriority = 100"
definition DrawMinCount :: int where "DrawMinCount = 2"
definition DrawMaxCount :: int where "DrawMaxCount = 10000"
definition DrawMinWindow :: duration where "DrawMinWindow = Minute"
definition DrawMaxWindow :: duration where "DrawMaxWindow = 24 * Hour"
definition MinQuietGrace :: duration where "MinQuietGrace = Minute"
definition MaxQuietGrace :: duration where "MaxQuietGrace = 24 * Hour"

lemmas correlator_bounds = MaxCorrelatorNameLength_def MaxCorrelatorMatchers_def MinCorrelatorPriority_def
  MaxCorrelatorPriority_def DrawMinCount_def DrawMaxCount_def DrawMinWindow_def DrawMaxWindow_def
  MinQuietGrace_def MaxQuietGrace_def

record DrawCount =
  ct_Min :: int
  ct_Window :: duration

definition DrawCount_Enabled :: "DrawCount \<Rightarrow> bool" where
  "DrawCount_Enabled c \<longleftrightarrow> ct_Min c > 0 \<and> ct_Window c > 0"

definition DrawCount_Clears :: "DrawCount \<Rightarrow> int \<Rightarrow> bool" where
  "DrawCount_Clears c n \<longleftrightarrow> (if \<not> DrawCount_Enabled c then True else n \<ge> ct_Min c)"

definition DrawCount_violations :: "DrawCount \<Rightarrow> violation list" where
  "DrawCount_violations c =
     (if (ct_Min c > 0) \<noteq> (ct_Window c > 0) then [Violation ''count_min'' ''incomplete'']
      else if \<not> DrawCount_Enabled c then []
      else
        (if ct_Min c < DrawMinCount \<or> ct_Min c > DrawMaxCount then [Violation ''count_min'' ''range''] else []) @
        (if ct_Window c < DrawMinWindow \<or> ct_Window c > DrawMaxWindow \<or> go_mod (ct_Window c) Second \<noteq> 0
         then [Violation ''count_window_seconds'' ''range''] else []))"

record Correlator =
  co_ID :: uuid
  co_Name :: string
  co_Priority :: int
  co_Enabled :: bool
  co_Matchers :: "Matcher list"
  co_Count :: DrawCount
  co_QuietGrace :: duration
  co_Conversations :: bool
  co_CreatedAt :: time
  co_UpdatedAt :: time

record CorrelatorIncident =
  ci_Ref :: IncidentRef
  ci_OpenMembers :: int
  ci_QuietSince :: time

definition CorrelatorIncident_State :: "CorrelatorIncident \<Rightarrow> IncidentState" where
  "CorrelatorIncident_State i = StateOf (ci_OpenMembers i)"

definition Joins :: "Correlator \<Rightarrow> CorrelatorIncident \<Rightarrow> time \<Rightarrow> bool" where
  "Joins c li startedAt \<longleftrightarrow>
     (if CorrelatorIncident_State li = StateActive then True
      else if co_QuietGrace c \<le> 0 \<or> IsZero (ci_QuietSince li) then False
      else t_sub startedAt (ci_QuietSince li) \<le> co_QuietGrace c)"

definition Correlator_Matches :: "regexlib \<Rightarrow> Correlator \<Rightarrow> (string \<times> string) list \<Rightarrow> bool result" where
  "Correlator_Matches RX c labels = MatchAll RX (co_Matchers c) labels"

definition Correlator_Validate :: "regexlib \<Rightarrow> Correlator \<Rightarrow> error option" where
  "Correlator_Validate RX c =
     (let n = length (TrimSpace (co_Name c));
          v = (if n < 1 \<or> n > MaxCorrelatorNameLength then [Violation ''name'' ''length''] else []) @
              (if co_Priority c < MinCorrelatorPriority \<or> co_Priority c > MaxCorrelatorPriority
               then [Violation ''priority'' ''range''] else []) @
              (if length (co_Matchers c) > MaxCorrelatorMatchers then [Violation ''matchers'' ''max_items''] else []) @
              concat (map (\<lambda>m. case Matcher_Validate RX m of None \<Rightarrow> [] | Some e \<Rightarrow> errViolations e) (co_Matchers c)) @
              DrawCount_violations (co_Count c) @
              (if co_QuietGrace c \<noteq> 0 \<and> (co_QuietGrace c < MinQuietGrace \<or> co_QuietGrace c > MaxQuietGrace \<or>
                   go_mod (co_QuietGrace c) Second \<noteq> 0)
               then [Violation ''quiet_grace_seconds'' ''range''] else [])
      in violations_err ''correlator_invalid'' v)"

record CorrelatorDraft =
  cd_Name :: string
  cd_Priority :: "int option"
  cd_Enabled :: "bool option"
  cd_Matchers :: "Matcher list"
  cd_Count :: DrawCount
  cd_QuietGrace :: duration
  cd_Conversations :: bool

definition Draft_Correlator :: "CorrelatorDraft \<Rightarrow> Correlator" where
  "Draft_Correlator d =
     \<lparr>co_ID = uuid_Nil, co_Name = cd_Name d,
      co_Priority = (case cd_Priority d of None \<Rightarrow> DefaultCorrelatorPriority | Some p \<Rightarrow> p),
      co_Enabled = (case cd_Enabled d of None \<Rightarrow> True | Some b \<Rightarrow> b), co_Matchers = cd_Matchers d,
      co_Count = cd_Count d, co_QuietGrace = cd_QuietGrace d, co_Conversations = cd_Conversations d,
      co_CreatedAt = 0, co_UpdatedAt = 0\<rparr>"

record CorrelatorPatch =
  cp_Name :: "string option"
  cp_Priority :: "int option"
  cp_Enabled :: "bool option"
  cp_Matchers :: "Matcher list option"
  cp_Count :: "DrawCount option"
  cp_QuietGrace :: "duration option"
  cp_Conversations :: "bool option"

definition Patch_IsEmpty :: "CorrelatorPatch \<Rightarrow> bool" where
  "Patch_IsEmpty p \<longleftrightarrow> cp_Name p = None \<and> cp_Priority p = None \<and> cp_Enabled p = None \<and> cp_Matchers p = None \<and>
     cp_Count p = None \<and> cp_QuietGrace p = None \<and> cp_Conversations p = None"

definition or_keep :: "'a option \<Rightarrow> 'a \<Rightarrow> 'a" where
  "or_keep p x = (case p of None \<Rightarrow> x | Some y \<Rightarrow> y)"

definition Patch_Apply :: "CorrelatorPatch \<Rightarrow> Correlator \<Rightarrow> Correlator" where
  "Patch_Apply p c = c\<lparr>co_Name := or_keep (cp_Name p) (co_Name c), co_Priority := or_keep (cp_Priority p) (co_Priority c),
     co_Enabled := or_keep (cp_Enabled p) (co_Enabled c), co_Matchers := or_keep (cp_Matchers p) (co_Matchers c),
     co_Count := or_keep (cp_Count p) (co_Count c), co_QuietGrace := or_keep (cp_QuietGrace p) (co_QuietGrace c),
     co_Conversations := or_keep (cp_Conversations p) (co_Conversations c)\<rparr>"

record CorrelationCase =
  cc_Ref :: CaseRef
  cc_StartedAt :: time
  cc_Labels :: LabelSet
  cc_InIncident :: bool
  cc_EverRemoved :: bool
  cc_Synthetic :: bool

definition Case_Claimable :: "CorrelationCase \<Rightarrow> bool" where
  "Case_Claimable c \<longleftrightarrow> \<not> cc_InIncident c \<and> \<not> cc_EverRemoved c \<and> \<not> cc_Synthetic c"

section \<open>The span of a count\<close>

record CaseAt =
  ca_Ref :: CaseRef
  ca_StartedAt :: time

text \<open>The inner loop: the right end of a window moves while the next case still starts inside it.\<close>

function span_advance :: "CaseAt list \<Rightarrow> time \<Rightarrow> nat \<Rightarrow> nat" where
  "span_advance xs limit hi =
     (if Suc hi < length xs \<and> \<not> ca_StartedAt (xs ! Suc hi) > limit then span_advance xs limit (Suc hi) else hi)"
  by pat_completeness auto
termination by (relation "measure (\<lambda>(xs, _, hi). length xs - hi)") auto

text \<open>The outer loop over the left ends; \<open>best\<close> is the fullest window so far, \<^verbatim>\<open>bestLo < 0\<close> when there is none.\<close>

function span_scan :: "CaseAt list \<Rightarrow> time \<Rightarrow> duration \<Rightarrow> nat \<Rightarrow> nat \<Rightarrow> (nat \<times> nat) option \<Rightarrow> (nat \<times> nat) option" where
  "span_scan xs anchor window lo hi best =
     (if \<not> lo < length xs then best
      else let start = ca_StartedAt (xs ! lo) in
        if start > anchor then best
        else if t_sub anchor start > window then span_scan xs anchor window (Suc lo) hi best
        else let hi' = span_advance xs (start + window) (if hi < lo then lo else hi) in
          span_scan xs anchor window (Suc lo) hi'
            (case best of None \<Rightarrow> Some (lo, hi') | Some (bl, bh) \<Rightarrow> if hi' - lo > bh - bl then Some (lo, hi') else best))"
  by pat_completeness auto
termination by (relation "measure (\<lambda>(xs, _, _, lo, _, _). length xs - lo)") auto

declare span_advance.simps [simp del] span_scan.simps [simp del]

definition span_order :: "uuidlib \<Rightarrow> CaseAt \<Rightarrow> time \<times> string" where
  "span_order U c = (ca_StartedAt c, uuidString U (cr_ID (ca_Ref c)))"

definition Count_Span :: "uuidlib \<Rightarrow> DrawCount \<Rightarrow> CaseAt \<Rightarrow> CaseAt list \<Rightarrow> CaseAt list option" where
  "Count_Span U c anchor others =
     (if \<not> DrawCount_Enabled c then Some [anchor]
      else let xs = sort_key (span_order U) (others @ [anchor]) in
        case span_scan xs (ca_StartedAt anchor) (ct_Window c) 0 0 None of
          None \<Rightarrow> None
        | Some (lo, hi) \<Rightarrow>
            if \<not> DrawCount_Clears c (int (hi - lo + 1)) then None else Some (take (Suc hi - lo) (drop lo xs)))"

end
