(* ===== verification/Incident_Span.thy ===== *)
theory Incident_Span
  imports Incident "HOL-Library.Multiset"
begin

text \<open>
  The span of a count condition. The two pointers of \<open>Count_Span\<close> find the fullest window of the given length
  through the anchor, so the answer is a property of the set of cases and not of the order their jobs run in.
\<close>

section \<open>The pointers\<close>

definition starts_at :: "CaseAt list \<Rightarrow> nat \<Rightarrow> time" where
  "starts_at xs j = ca_StartedAt (xs ! j)"

definition in_order :: "CaseAt list \<Rightarrow> bool" where
  "in_order xs \<longleftrightarrow> sorted (map ca_StartedAt xs)"

lemma starts_mono: "in_order xs \<Longrightarrow> i \<le> j \<Longrightarrow> j < length xs \<Longrightarrow> starts_at xs i \<le> starts_at xs j"
  using sorted_nth_mono [of "map ca_StartedAt xs" i j] by (simp add: in_order_def starts_at_def)

lemma advance_facts:
  assumes "hi < length xs"
  shows "hi \<le> span_advance xs limit hi \<and> span_advance xs limit hi < length xs \<and>
    (\<forall>j. hi < j \<and> j \<le> span_advance xs limit hi \<longrightarrow> starts_at xs j \<le> limit) \<and>
    (Suc (span_advance xs limit hi) < length xs \<longrightarrow> limit < starts_at xs (Suc (span_advance xs limit hi)))"
  using assms
proof (induction xs limit hi rule: span_advance.induct)
  case (1 xs limit hi)
  show ?case
  proof (cases "Suc hi < length xs \<and> \<not> ca_StartedAt (xs ! Suc hi) > limit")
    case True
    note IH = 1(1) [OF True conjunct1 [OF True]]
    have eq: "span_advance xs limit hi = span_advance xs limit (Suc hi)"
      by (subst span_advance.simps) (use True in simp)
    have "starts_at xs j \<le> limit" if "hi < j" "j \<le> span_advance xs limit (Suc hi)" for j
      using that IH True by (cases "j = Suc hi") (simp_all add: starts_at_def)
    then show ?thesis unfolding eq using IH by (meson Suc_leD)
  next
    case False
    then have eq: "span_advance xs limit hi = hi" by (subst span_advance.simps) auto
    show ?thesis unfolding eq using False 1(2) by (auto simp: starts_at_def)
  qed
qed

text \<open>A left end whose window holds the anchor, and the window of a left end.\<close>

definition left_end :: "CaseAt list \<Rightarrow> time \<Rightarrow> duration \<Rightarrow> nat \<Rightarrow> bool" where
  "left_end xs a w lo \<longleftrightarrow> lo < length xs \<and> starts_at xs lo \<le> a \<and> a - starts_at xs lo \<le> w"

definition window_at :: "CaseAt list \<Rightarrow> duration \<Rightarrow> nat \<Rightarrow> nat \<Rightarrow> bool" where
  "window_at xs w lo hi \<longleftrightarrow> lo \<le> hi \<and> hi < length xs \<and> starts_at xs hi \<le> starts_at xs lo + w \<and>
     (Suc hi < length xs \<longrightarrow> starts_at xs lo + w < starts_at xs (Suc hi))"

lemma window_unique:
  assumes "in_order xs" "window_at xs w lo hi" "window_at xs w lo hi'"
  shows "hi = hi'"
proof (rule ccontr)
  have no: "\<not> h < h'" if h: "window_at xs w lo h" "window_at xs w lo h'" for h h'
  proof
    assume lt: "h < h'"
    have "starts_at xs (Suc h) \<le> starts_at xs h'" using starts_mono [OF assms(1), of "Suc h" h'] lt h(2) by (simp add: window_at_def)
    then show False using h lt by (simp add: window_at_def)
  qed
  assume "hi \<noteq> hi'"
  with no [OF assms(2,3)] no [OF assms(3,2)] show False by simp
qed

text \<open>The invariant of the outer loop, and what it leaves.\<close>

definition best_before :: "CaseAt list \<Rightarrow> time \<Rightarrow> duration \<Rightarrow> nat \<Rightarrow> (nat \<times> nat) option \<Rightarrow> bool" where
  "best_before xs a w lo best \<longleftrightarrow> (case best of
     None \<Rightarrow> \<forall>l<lo. \<not> left_end xs a w l
   | Some (bl, bh) \<Rightarrow> left_end xs a w bl \<and> window_at xs w bl bh \<and>
       (\<forall>l<lo. \<forall>h. left_end xs a w l \<and> window_at xs w l h \<longrightarrow> h - l \<le> bh - bl))"

lemma best_before_skip:
  assumes "best_before xs a w lo best" "\<not> left_end xs a w lo"
  shows "best_before xs a w (Suc lo) best"
  using assms by (auto simp: best_before_def less_Suc_eq split: option.splits)

lemma best_before_step:
  assumes B: "best_before xs a w lo best" and l: "left_end xs a w lo" and win: "window_at xs w lo hi" and ord: "in_order xs"
  shows "best_before xs a w (Suc lo)
    (case best of None \<Rightarrow> Some (lo, hi) | Some (bl, bh) \<Rightarrow> if hi - lo > bh - bl then Some (lo, hi) else best)"
proof -
  have own: "h = hi" if "window_at xs w lo h" for h by (rule window_unique [OF ord that win])
  show ?thesis
  proof (cases best)
    case None
    have "h - l' \<le> hi - lo" if "l' < Suc lo" "left_end xs a w l'" "window_at xs w l' h" for l' h
    proof (cases "l' = lo")
      case False
      then show ?thesis using that B None by (simp add: best_before_def)
    qed (use that own in simp)
    with l win None show ?thesis by (simp add: best_before_def)
  next
    case (Some p)
    obtain bl bh where p: "p = (bl, bh)" by fastforce
    have b: "left_end xs a w bl" "window_at xs w bl bh" "\<And>l h. l < lo \<Longrightarrow> left_end xs a w l \<Longrightarrow> window_at xs w l h \<Longrightarrow> h - l \<le> bh - bl"
      using B by (auto simp: best_before_def Some p)
    show ?thesis
    proof (cases "hi - lo > bh - bl")
      case True
      have "h - l' \<le> hi - lo" if "l' < Suc lo" "left_end xs a w l'" "window_at xs w l' h" for l' h
      proof (cases "l' = lo")
        case False
        then have "h - l' \<le> bh - bl" using that by (intro b(3)) simp_all
        with True show ?thesis by simp
      qed (use that own in simp)
      with True l win show ?thesis by (simp add: best_before_def Some p)
    next
      case False
      have "h - l' \<le> bh - bl" if "l' < Suc lo" "left_end xs a w l'" "window_at xs w l' h" for l' h
      proof (cases "l' = lo")
        case True
        then have "h = hi" using that own by simp
        with True False show ?thesis by simp
      next
        case other: False
        then show ?thesis using that by (intro b(3)) simp_all
      qed
      with False b(1,2) show ?thesis by (simp add: best_before_def Some p)
    qed
  qed
qed

lemma left_end_test:
  assumes "0 < w" "w < max_duration" "lo < length xs"
  shows "left_end xs a w lo \<longleftrightarrow> \<not> ca_StartedAt (xs ! lo) > a \<and> \<not> t_sub a (ca_StartedAt (xs ! lo)) > w"
  using assms t_sub_le_iff [of w a "ca_StartedAt (xs ! lo)"] by (auto simp: left_end_def starts_at_def)

lemma no_later_left_end:
  assumes "in_order xs" "best_before xs a w lo best" "lo < length xs" "ca_StartedAt (xs ! lo) > a"
  shows "best_before xs a w (length xs) best"
proof -
  have no: "\<not> left_end xs a w l" if "lo \<le> l" for l
    using starts_mono [OF assms(1) that] assms(4) by (auto simp: left_end_def starts_at_def)
  have "l < lo" if "left_end xs a w l" for l using no [of l] that by (meson not_le)
  with assms(2) show ?thesis by (auto simp: best_before_def split: option.splits)
qed

lemma span_scan_best:
  assumes "in_order xs" "0 < w" "w < max_duration" "best_before xs a w lo best"
    and "lo < length xs \<longrightarrow> hi < length xs \<and> (lo \<le> hi \<longrightarrow> starts_at xs hi \<le> starts_at xs lo + w)"
  shows "best_before xs a w (length xs) (span_scan xs a w lo hi best)"
  using assms
proof (induction xs a w lo hi best rule: span_scan.induct)
  case (1 xs a w lo hi best)
  note ord = 1(3) and w = 1(4,5) and B = 1(6) and hi = 1(7)
  have next_hi: "starts_at xs h \<le> starts_at xs (Suc lo) + w" if "starts_at xs h \<le> starts_at xs lo + w" "Suc lo < length xs" for h
    using starts_mono [OF ord, of lo "Suc lo"] that by simp
  consider "\<not> lo < length xs" | "lo < length xs" "ca_StartedAt (xs ! lo) > a"
    | "lo < length xs" "\<not> ca_StartedAt (xs ! lo) > a" "t_sub a (ca_StartedAt (xs ! lo)) > w"
    | "lo < length xs" "\<not> ca_StartedAt (xs ! lo) > a" "\<not> t_sub a (ca_StartedAt (xs ! lo)) > w" by blast
  then show ?case
  proof cases
    case 1
    have "best_before xs a w (length xs) best" using B 1 by (auto simp: best_before_def split: option.splits)
    with 1 show ?thesis by (subst span_scan.simps) simp
  next
    case 2
    have "best_before xs a w (length xs) best" by (rule no_later_left_end [OF ord B 2])
    with 2 show ?thesis by (subst span_scan.simps) simp
  next
    case 3
    then have "best_before xs a w (Suc lo) best" using B left_end_test [OF w 3(1)] by (intro best_before_skip) simp_all
    then have "best_before xs a w (length xs) (span_scan xs a w (Suc lo) hi best)"
      using 3 ord w hi next_hi [of hi] by (intro "1.IH"(1) [OF _ refl]) auto
    with 3 show ?thesis by (subst span_scan.simps) simp
  next
    case 4
    define h where "h = (if hi < lo then lo else hi)"
    let ?limit = "ca_StartedAt (xs ! lo) + w" and ?hi = "span_advance xs (ca_StartedAt (xs ! lo) + w) h"
    have l: "left_end xs a w lo" using left_end_test [OF w 4(1)] 4 by simp
    have "h < length xs" using hi 4(1) by (simp add: h_def)
    from advance_facts [OF this, of ?limit] have adv: "h \<le> ?hi" "?hi < length xs"
      "\<And>j. h < j \<Longrightarrow> j \<le> ?hi \<Longrightarrow> starts_at xs j \<le> ?limit" "Suc ?hi < length xs \<Longrightarrow> ?limit < starts_at xs (Suc ?hi)"
      by simp_all
    have "starts_at xs h \<le> ?limit" using hi 4(1) w by (auto simp: starts_at_def h_def)
    then have at: "starts_at xs ?hi \<le> ?limit" using adv(1,3) by (cases "?hi = h") simp_all
    have "lo \<le> h" by (simp add: h_def)
    then have "lo \<le> ?hi" using adv(1) by (rule le_trans)
    with adv at have win: "window_at xs w lo ?hi" by (simp add: window_at_def starts_at_def)
    let ?best = "case best of None \<Rightarrow> Some (lo, ?hi) | Some (bl, bh) \<Rightarrow> if ?hi - lo > bh - bl then Some (lo, ?hi) else best"
    have "best_before xs a w (Suc lo) ?best" by (rule best_before_step [OF B l win ord])
    then have "best_before xs a w (length xs) (span_scan xs a w (Suc lo) ?hi ?best)"
      using 4 ord w adv(2) at next_hi [of ?hi]
      by (intro "1.IH"(2) [OF _ refl _ _ refl, folded h_def]) (simp_all add: starts_at_def)
    moreover have "span_scan xs a w lo hi best = span_scan xs a w (Suc lo) ?hi ?best"
      by (subst span_scan.simps) (use 4 in \<open>simp add: Let_def flip: h_def\<close>)
    ultimately show ?thesis by simp
  qed
qed


section \<open>Windows of cases\<close>

text \<open>The cases that started inside a closed window.\<close>

definition opened_in :: "time \<Rightarrow> duration \<Rightarrow> CaseAt list \<Rightarrow> CaseAt list" where
  "opened_in t w cs = filter (\<lambda>c. t \<le> ca_StartedAt c \<and> ca_StartedAt c \<le> t + w) cs"

lemma set_opened_in: "c \<in> set (opened_in t w cs) \<longleftrightarrow> c \<in> set cs \<and> t \<le> ca_StartedAt c \<and> ca_StartedAt c \<le> t + w"
  by (auto simp: opened_in_def)

lemma opened_in_mset: "mset xs = mset ys \<Longrightarrow> mset (opened_in t w xs) = mset (opened_in t w ys)"
  by (simp add: opened_in_def)

lemma opened_in_length: "mset xs = mset ys \<Longrightarrow> length (opened_in t w xs) = length (opened_in t w ys)"
  using opened_in_mset mset_eq_length by metis

lemma opened_in_card:
  "length (opened_in t w xs) = card {j. j < length xs \<and> t \<le> starts_at xs j \<and> starts_at xs j \<le> t + w}"
  by (simp add: opened_in_def length_filter_conv_card starts_at_def)

text \<open>A window of the scan holds every case of any window through the anchor that starts no earlier.\<close>

lemma window_covers:
  assumes ord: "in_order xs" and a: "i < length xs" "starts_at xs i = a" and t: "t \<le> a" "a \<le> t + w" and w: "0 < w"
  obtains lo hi where "left_end xs a w lo" "window_at xs w lo hi" "length (opened_in t w xs) \<le> hi - lo + 1"
proof -
  define lo where "lo = (LEAST j. t \<le> starts_at xs j)"
  have lo: "t \<le> starts_at xs lo" unfolding lo_def by (rule LeastI [of _ i]) (simp add: a t)
  have least: "lo \<le> j" if "t \<le> starts_at xs j" for j unfolding lo_def by (rule Least_le) (rule that)
  have "lo \<le> i" using least [of i] a t by simp
  then have "lo < length xs" "starts_at xs lo \<le> a" using a starts_mono [OF ord, of lo i] by simp_all
  with lo t have l: "left_end xs a w lo" by (simp add: left_end_def)
  let ?hi = "span_advance xs (starts_at xs lo + w) lo"
  from advance_facts [OF \<open>lo < length xs\<close>, of "starts_at xs lo + w"] have adv: "lo \<le> ?hi" "?hi < length xs"
      "\<And>j. lo < j \<Longrightarrow> j \<le> ?hi \<Longrightarrow> starts_at xs j \<le> starts_at xs lo + w"
      "Suc ?hi < length xs \<Longrightarrow> starts_at xs lo + w < starts_at xs (Suc ?hi)" by simp_all
  have "starts_at xs ?hi \<le> starts_at xs lo + w" using adv(1,3) w by (cases "?hi = lo") simp_all
  with adv have win: "window_at xs w lo ?hi" by (simp add: window_at_def)
  have "j \<le> ?hi" if "j < length xs" "starts_at xs j \<le> t + w" for j
  proof (rule ccontr)
    assume "\<not> j \<le> ?hi"
    then have "starts_at xs (Suc ?hi) \<le> starts_at xs j" "Suc ?hi < length xs" using starts_mono [OF ord, of "Suc ?hi" j] that(1) by simp_all
    then show False using adv(4) that(2) lo by simp
  qed
  then have "{j. j < length xs \<and> t \<le> starts_at xs j \<and> starts_at xs j \<le> t + w} \<subseteq> {lo..?hi}" using least by auto
  then have "length (opened_in t w xs) \<le> card {lo..?hi}" unfolding opened_in_card by (intro card_mono) simp_all
  then show thesis using adv(1) by (intro that [OF l win]) (simp add: Suc_diff_le)
qed

text \<open>The fullest window starts with the first case of its start, so it is all that opened inside it.\<close>

lemma slice_is_window:
  assumes ord: "in_order xs" and b: "left_end xs a w lo" "window_at xs w lo hi" and w: "0 < w"
    and best: "\<And>l h. left_end xs a w l \<Longrightarrow> window_at xs w l h \<Longrightarrow> h - l \<le> hi - lo"
  shows "take (Suc hi - lo) (drop lo xs) = opened_in (starts_at xs lo) w xs"
proof -
  let ?P = "\<lambda>c. starts_at xs lo \<le> ca_StartedAt c \<and> ca_StartedAt c \<le> starts_at xs lo + w"
  have before: "starts_at xs j < starts_at xs lo" if "j < lo" for j
  proof (rule ccontr)
    assume "\<not> starts_at xs j < starts_at xs lo"
    then have eq: "starts_at xs j = starts_at xs lo" using starts_mono [OF ord, of j lo] that b(1) by (simp add: left_end_def)
    then have "left_end xs a w j" "window_at xs w j hi" using b that by (simp_all add: left_end_def window_at_def)
    then have "hi - j \<le> hi - lo" by (rule best)
    moreover have "lo \<le> hi" using b(2) by (simp add: window_at_def)
    ultimately show False using that by linarith
  qed
  have at: "starts_at xs j \<le> starts_at xs lo + w" if "j \<le> hi" for j
    using starts_mono [OF ord that] b(2) by (simp add: window_at_def)
  have after: "starts_at xs lo + w < starts_at xs j" if "hi < j" "j < length xs" for j
    using starts_mono [OF ord, of "Suc hi" j] that b(2) by (simp add: window_at_def)
  have le: "lo \<le> hi" "hi < length xs" using b(2) by (simp_all add: window_at_def)
  have parts: "xs = take lo xs @ take (Suc hi - lo) (drop lo xs) @ drop (Suc hi) xs"
    using le by (metis append_take_drop_id drop_drop le_SucI le_add_diff_inverse2)
  have pre: "filter ?P (take lo xs) = []" using before by (force simp: filter_empty_conv in_set_conv_nth starts_at_def)
  have post: "filter ?P (drop (Suc hi) xs) = []"
  proof (rule filter_False, rule ballI)
    fix c assume "c \<in> set (drop (Suc hi) xs)"
    then obtain j where "c = xs ! (Suc hi + j)" "Suc hi + j < length xs" by (auto simp: in_set_conv_nth)
    then show "\<not> ?P c" using after [of "Suc hi + j"] by (simp add: starts_at_def)
  qed
  have mid: "filter ?P (take (Suc hi - lo) (drop lo xs)) = take (Suc hi - lo) (drop lo xs)"
  proof (rule filter_True, rule ballI)
    fix c assume "c \<in> set (take (Suc hi - lo) (drop lo xs))"
    then obtain j where "j < Suc hi - lo" "c = xs ! (lo + j)" "lo + j < length xs" by (auto simp: in_set_conv_nth)
    then show "?P c" using at [of "lo + j"] starts_mono [OF ord, of lo "lo + j"] by (simp add: starts_at_def)
  qed
  show ?thesis unfolding opened_in_def by (subst (2) parts) (simp only: filter_append pre post mid append_Nil append_Nil2)
qed


lemma span_order_in_order: "in_order (sort_key (span_order U) cs)"
proof -
  have "sorted (map ca_StartedAt ys)" if "sorted (map (span_order U) ys)" for ys
    using that by (induction ys) (auto simp: span_order_def less_eq_prod_def)
  then show ?thesis by (simp add: in_order_def)
qed

lemma Count_Span_cases:
  assumes e: "DrawCount_Enabled c" "ct_Window c < max_duration"
  obtains (none) "Count_Span U c anchor others = None" "\<And>t. t \<le> ca_StartedAt anchor \<Longrightarrow> ca_StartedAt anchor \<le> t + ct_Window c \<Longrightarrow>
      int (length (opened_in t (ct_Window c) (anchor # others))) < ct_Min c"
  | (some) t span where "Count_Span U c anchor others = Some span" "t \<le> ca_StartedAt anchor" "ca_StartedAt anchor \<le> t + ct_Window c"
      "mset span = mset (opened_in t (ct_Window c) (anchor # others))" "in_order span" "ct_Min c \<le> int (length span)"
      "\<And>t'. t' \<le> ca_StartedAt anchor \<Longrightarrow> ca_StartedAt anchor \<le> t' + ct_Window c \<Longrightarrow>
        length (opened_in t' (ct_Window c) (anchor # others)) \<le> length span"
proof -
  let ?a = "ca_StartedAt anchor" and ?w = "ct_Window c"
  define xs where "xs = sort_key (span_order U) (others @ [anchor])"
  have ord: "in_order xs" unfolding xs_def by (rule span_order_in_order)
  have ms: "mset xs = mset (anchor # others)" by (simp add: xs_def)
  have w: "0 < ?w" using e(1) by (simp add: DrawCount_Enabled_def)
  have "anchor \<in> set xs" by (simp add: xs_def)
  then obtain i where i: "i < length xs" "starts_at xs i = ?a" by (auto simp: in_set_conv_nth starts_at_def)
  have "best_before xs ?a ?w 0 None" by (simp add: best_before_def)
  then have B: "best_before xs ?a ?w (length xs) (span_scan xs ?a ?w 0 0 None)"
    by (intro span_scan_best [OF ord w e(2)]) (use w in \<open>simp_all\<close>)
  have "left_end xs ?a ?w i" using i w by (simp add: left_end_def)
  with B obtain lo hi where s: "span_scan xs ?a ?w 0 0 None = Some (lo, hi)"
    using i(1) by (auto simp: best_before_def split: option.splits)
  with B have b: "left_end xs ?a ?w lo" "window_at xs ?w lo hi"
    "\<And>l h. left_end xs ?a ?w l \<Longrightarrow> window_at xs ?w l h \<Longrightarrow> h - l \<le> hi - lo"
    by (auto simp: best_before_def left_end_def)
  let ?span = "take (Suc hi - lo) (drop lo xs)"
  have eq: "?span = opened_in (starts_at xs lo) ?w xs" by (rule slice_is_window [OF ord b(1,2) w b(3)])
  have le: "lo \<le> hi" "hi < length xs" using b(2) by (simp_all add: window_at_def)
  then have len: "length ?span = hi - lo + 1" by simp
  have most: "length (opened_in t ?w (anchor # others)) \<le> length ?span" if "t \<le> ?a" "?a \<le> t + ?w" for t
  proof -
    from window_covers [OF ord i that w] obtain l h where "left_end xs ?a ?w l" "window_at xs ?w l h"
      "length (opened_in t ?w xs) \<le> h - l + 1" .
    with b(3) [of l h] opened_in_length [OF ms, of t ?w] show ?thesis unfolding len by simp
  qed
  have CS: "Count_Span U c anchor others = (if \<not> DrawCount_Clears c (int (hi - lo + 1)) then None else Some ?span)"
    using e(1) s by (simp add: Count_Span_def flip: xs_def)
  show thesis
  proof (cases "DrawCount_Clears c (int (hi - lo + 1))")
    case True
    have "in_order ?span" using ord by (simp add: in_order_def sorted_wrt_take sorted_wrt_drop flip: take_map drop_map)
    with True CS eq opened_in_mset [OF ms] b(1) most len e(1) show thesis
      by (intro some [of ?span "starts_at xs lo"]) (auto simp: left_end_def DrawCount_Clears_def)
  next
    case False
    then have few: "int (hi - lo + 1) < ct_Min c" using e(1) by (simp add: DrawCount_Clears_def)
    have "int (length (opened_in t ?w (anchor # others))) < ct_Min c" if "t \<le> ?a" "?a \<le> t + ?w" for t
      using most [OF that] few unfolding len by linarith
    with False CS show thesis by (intro none) simp_all
  qed
qed


section \<open>The count condition\<close>

lemma accepted_count:
  "DrawCount_violations c = [] \<Longrightarrow> DrawCount_Enabled c \<Longrightarrow> ct_Window c < max_duration"
  by (auto simp: DrawCount_violations_def DrawMaxWindow_def Hour_def max_duration_def split: if_splits)

lemma opened_in_sub: "mset xs \<subseteq># mset ys \<Longrightarrow> length (opened_in t w xs) \<le> length (opened_in t w ys)"
  by (metis mset_filter multiset_filter_mono opened_in_def size_mset size_mset_mono)

text \<open>
  C17. The count condition asks what it says, and the answer does not depend on which job runs last. With an
  accepted condition, \<^verbatim>\<open>Span\<close> answers exactly when some window of its length through the case holds the required
  number of cases, and then with all the cases of the fullest such window, in order of their start, the case
  itself among them. And each of those cases, evaluated in its place against any candidates that include the
  others, is answered as well.
\<close>

theorem span_is_the_fullest_window:
  assumes "DrawCount_violations c = []" "DrawCount_Enabled c"
  shows "(case Count_Span U c anchor others of
      None \<Rightarrow> \<forall>t. t \<le> ca_StartedAt anchor \<and> ca_StartedAt anchor \<le> t + ct_Window c \<longrightarrow>
        int (length (opened_in t (ct_Window c) (anchor # others))) < ct_Min c
    | Some span \<Rightarrow> ct_Min c \<le> int (length span) \<and> anchor \<in> set span \<and> sorted (map ca_StartedAt span) \<and>
        (\<exists>t. t \<le> ca_StartedAt anchor \<and> ca_StartedAt anchor \<le> t + ct_Window c \<and>
           mset span = mset (opened_in t (ct_Window c) (anchor # others))) \<and>
        (\<forall>t. t \<le> ca_StartedAt anchor \<and> ca_StartedAt anchor \<le> t + ct_Window c \<longrightarrow>
           length (opened_in t (ct_Window c) (anchor # others)) \<le> length span) \<and>
        (\<forall>b others'. b \<in> set span \<and> mset span \<subseteq># mset (b # others') \<longrightarrow> Count_Span U c b others' \<noteq> None))"
proof (rule Count_Span_cases [OF assms(2) accepted_count [OF assms], of U anchor others])
  fix t span
  assume s: "Count_Span U c anchor others = Some span" "t \<le> ca_StartedAt anchor" "ca_StartedAt anchor \<le> t + ct_Window c"
    "mset span = mset (opened_in t (ct_Window c) (anchor # others))" "in_order span" "ct_Min c \<le> int (length span)"
    "\<And>t'. t' \<le> ca_StartedAt anchor \<Longrightarrow> ca_StartedAt anchor \<le> t' + ct_Window c \<Longrightarrow>
       length (opened_in t' (ct_Window c) (anchor # others)) \<le> length span"
  have set: "set span = set (opened_in t (ct_Window c) (anchor # others))" using s(4) by (rule mset_eq_setD)
  have "Count_Span U c b others' \<noteq> None" if b: "b \<in> set span" "mset span \<subseteq># mset (b # others')" for b others'
  proof (rule Count_Span_cases [OF assms(2) accepted_count [OF assms], of U b others'])
    assume few: "\<And>t. t \<le> ca_StartedAt b \<Longrightarrow> ca_StartedAt b \<le> t + ct_Window c \<Longrightarrow>
      int (length (opened_in t (ct_Window c) (b # others'))) < ct_Min c"
    have "opened_in t (ct_Window c) span = span" unfolding opened_in_def
      by (rule filter_True) (use set in \<open>simp add: set_opened_in\<close>)
    then have "length span \<le> length (opened_in t (ct_Window c) (b # others'))" using opened_in_sub [OF b(2)] by metis
    moreover have "t \<le> ca_StartedAt b" "ca_StartedAt b \<le> t + ct_Window c" using b(1) set by (simp_all add: set_opened_in)
    ultimately have False using few [of t] s(6) by simp
    then show ?thesis ..
  qed simp
  moreover have "anchor \<in> set span" using set s(2,3) by (simp add: set_opened_in)
  ultimately show ?thesis using s by (auto simp: in_order_def)
qed auto

definition ex_count :: DrawCount where "ex_count = \<lparr>ct_Min = 3, ct_Window = 600 * Second\<rparr>"

definition ex_case_at :: "uuid \<Rightarrow> int \<Rightarrow> CaseAt" where
  "ex_case_at i s = \<lparr>ca_Ref = \<lparr>cr_ID = i, cr_Number = 1, cr_AlertID = 7, cr_Synthetic = False\<rparr>, ca_StartedAt = s * Second\<rparr>"

theorem span_is_the_fullest_window_witness:
  "\<exists>span. Count_Span canonical_lib ex_count (ex_case_at 2 1500) [ex_case_at 1 1000, ex_case_at 3 1550, ex_case_at 4 2080] = Some span \<and>
     3 \<le> int (length span) \<and> ex_case_at 2 1500 \<in> set span"
proof -
  have ok: "DrawCount_violations ex_count = []" "DrawCount_Enabled ex_count" by code_simp+
  have "ct_Window ex_count = 600 * Second" "ct_Min ex_count = 3" by (simp_all add: ex_count_def)
  moreover have "length (opened_in (1000 * Second) (600 * Second)
      [ex_case_at 2 1500, ex_case_at 1 1000, ex_case_at 3 1550, ex_case_at 4 2080]) = 3"
    by (simp add: opened_in_def ex_case_at_def Second_def)
  ultimately show ?thesis
    using span_is_the_fullest_window [OF ok, where U = canonical_lib and anchor = "ex_case_at 2 1500" and
        others = "[ex_case_at 1 1000, ex_case_at 3 1550, ex_case_at 4 2080]"]
    by (auto simp: ex_case_at_def Second_def split: option.splits dest!: spec [of _ "1000 * 1000000000"])
qed

end
