(* ===== verification/Incident_Store.thy ===== *)
theory Incident_Store
  imports Incident
begin

text \<open>
  The tables of the incidents module and the statements of its repositories
  (\<^verbatim>\<open>internal/incidents/repository/incident.go\<close>, \<^verbatim>\<open>correlator.go\<close>), for the rows of one tenant. The statements also read
  the alerts and their cases, which are the alerts module's \<open>Store\<close>. A \<^verbatim>\<open>NULL\<close> id, time or label is the zero value.
  The row locks leave no trace: a transaction is one step. The two unique indexes the code answers to, one live
  membership per case and one live correlator per name, are part of the statements.
\<close>

section \<open>The tables\<close>

record IncidentRow =
  ir_id :: uuid
  ir_number :: int
  ir_drawnAt :: time
  ir_drawnBy :: uuid
  ir_drawnByLabel :: string
  ir_drawnByCorrelator :: uuid
  ir_factSequence :: int

record MemberRow =
  mr_id :: uuid
  mr_incident :: uuid
  mr_case :: uuid
  mr_addedAt :: time
  mr_addedBy :: uuid
  mr_addedByLabel :: string
  mr_addedByCorrelator :: uuid
  mr_removedAt :: time
  mr_removedBy :: uuid
  mr_removedByLabel :: string
  mr_movedTo :: uuid

record CorrelatorRow =
  kr_id :: uuid
  kr_name :: string
  kr_priority :: int
  kr_enabled :: bool
  kr_matchers :: "Matcher list"
  kr_countMin :: "int option"
  kr_countWindowS :: "int option"
  kr_quietGraceS :: "int option"
  kr_conversations :: bool
  kr_createdAt :: time
  kr_updatedAt :: time
  kr_deletedAt :: time

record MatchRow =
  mx_case :: uuid
  mx_correlator :: uuid
  mx_startedAt :: time
  mx_matchedAt :: time

text \<open>The jobs an incident's fact becomes (\<^verbatim>\<open>notify.incident\<close>, \<^verbatim>\<open>investigations.incident\<close>).\<close>

datatype IncidentJob =
    NotifyIncident (ij_Incident: uuid) (ij_Reason: string) (ij_Occasion: uuid) (ij_Sequence: int)
  | InvestigationsIncident (ij_Incident: uuid) (ij_Trigger: string)

record IncidentDB =
  idb_alerts :: Store
  idb_incidents :: "IncidentRow list"
  idb_members :: "MemberRow list"
  idb_nextNumber :: "int option"
  idb_correlators :: "CorrelatorRow list"
  idb_matches :: "MatchRow list"
  idb_outbound :: "(uuid \<times> Outbound) list"
  idb_jobs :: "IncidentJob list"

text \<open>
  What the incidents service is told: the world of the timeline it narrates to, its own clock, the engine of the
  matchers, which wide characters print (\<^verbatim>\<open>strconv.IsPrint\<close>), and two functions of the database: the folding of
  \<^verbatim>\<open>citext\<close> and the sort keys of its collation.
\<close>

record IncidentsWorld =
  iw_A :: AlertsWorld
  iw_now :: time
  iw_R :: regexlib
  iw_IsPrint :: "string \<Rightarrow> bool"
  iw_Fold :: "string \<Rightarrow> string"
  iw_Collate :: "string \<Rightarrow> string"

definition IncidentsWorld_U :: "IncidentsWorld \<Rightarrow> uuidlib" where
  "IncidentsWorld_U W = aw_U (iw_A W)"

section \<open>Membership\<close>

definition member_live :: "MemberRow \<Rightarrow> bool" where
  "member_live m \<longleftrightarrow> mr_removedAt m = 0"

definition find_case :: "IncidentDB \<Rightarrow> uuid \<Rightarrow> Case option" where
  "find_case db i = find (\<lambda>c. c_id c = i) (st_cases (idb_alerts db))"

definition find_alert :: "IncidentDB \<Rightarrow> uuid \<Rightarrow> Alert option" where
  "find_alert db i = find (\<lambda>a. al_id a = i) (st_alerts (idb_alerts db))"

definition case_open :: "IncidentDB \<Rightarrow> uuid \<Rightarrow> bool" where
  "case_open db i \<longleftrightarrow> (case find_case db i of None \<Rightarrow> False | Some c \<Rightarrow> c_state c = CaseOpen)"

definition current_members :: "IncidentDB \<Rightarrow> uuid \<Rightarrow> MemberRow list" where
  "current_members db i = filter (\<lambda>m. mr_incident m = i \<and> member_live m) (idb_members db)"

definition OpenMembers :: "IncidentDB \<Rightarrow> uuid \<Rightarrow> int" where
  "OpenMembers db i = int (length (filter (\<lambda>m. case_open db (mr_case m)) (current_members db i)))"

definition Incident_NextSequence :: "IncidentDB \<Rightarrow> uuid \<Rightarrow> (int \<times> IncidentDB) result" where
  "Incident_NextSequence db i =
     (case find (\<lambda>r. ir_id r = i) (idb_incidents db) of
        None \<Rightarrow> Inl IncidentNotFound
      | Some r \<Rightarrow> Inr (ir_factSequence r + 1,
          db\<lparr>idb_incidents := update_where (\<lambda>r. ir_id r = i) (\<lambda>r. r\<lparr>ir_factSequence := ir_factSequence r + 1\<rparr>)
               (idb_incidents db)\<rparr>))"

definition Holding :: "IncidentDB \<Rightarrow> uuid list \<Rightarrow> uuid list" where
  "Holding db caseIDs =
     remdups (map mr_incident (filter (\<lambda>m. mr_case m \<in> set caseIDs \<and> member_live m) (idb_members db)))"

definition incident_ref :: "IncidentRow \<Rightarrow> IncidentRef" where
  "incident_ref r = \<lparr>ref_ID = ir_id r, ref_Number = ir_number r\<rparr>"

definition Incident_Ref :: "IncidentDB \<Rightarrow> int \<Rightarrow> IncidentRef result" where
  "Incident_Ref db number =
     (case find (\<lambda>r. ir_number r = number) (idb_incidents db) of
        None \<Rightarrow> Inl IncidentNotFound | Some r \<Rightarrow> Inr (incident_ref r))"

definition refByID :: "IncidentDB \<Rightarrow> uuid \<Rightarrow> IncidentRef result" where
  "refByID db i =
     (case find (\<lambda>r. ir_id r = i) (idb_incidents db) of
        None \<Rightarrow> Inl IncidentNotFound | Some r \<Rightarrow> Inr (incident_ref r))"

text \<open>\<^verbatim>\<open>Cases\<close>: the cases of the organisation joined with their alerts, as a map from the ids asked for.\<close>

definition Incident_Cases :: "IncidentDB \<Rightarrow> uuid list \<Rightarrow> uuid \<Rightarrow> CaseRef option" where
  "Incident_Cases db ids i =
     (if i \<notin> set ids then None
      else case find_case db i of
        None \<Rightarrow> None
      | Some c \<Rightarrow> map_option (\<lambda>a. \<lparr>cr_ID = c_id c, cr_Number = c_number c, cr_AlertID = c_alertID c,
          cr_Synthetic = al_synthetic a\<rparr>) (find_alert db (c_alertID c)))"

definition LiveMemberships :: "IncidentDB \<Rightarrow> uuid list \<Rightarrow> uuid \<Rightarrow> IncidentRef option" where
  "LiveMemberships db caseIDs i =
     map_of (List.map_filter (\<lambda>m. if mr_case m \<in> set caseIDs \<and> member_live m
         then map_option (\<lambda>r. (mr_case m, incident_ref r)) (find (\<lambda>r. ir_id r = mr_incident m) (idb_incidents db))
         else None) (idb_members db)) i"

definition ConversationHolding :: "IncidentDB \<Rightarrow> uuid \<Rightarrow> IncidentRef option" where
  "ConversationHolding db caseID =
     (case find (\<lambda>m. mr_case m = caseID \<and> member_live m) (idb_members db) of
        None \<Rightarrow> None
      | Some m \<Rightarrow> (case find (\<lambda>r. ir_id r = mr_incident m) (idb_incidents db) of
          None \<Rightarrow> None
        | Some r \<Rightarrow> (case find (\<lambda>k. kr_id k = ir_drawnByCorrelator r) (idb_correlators db) of
            None \<Rightarrow> None
          | Some k \<Rightarrow> if kr_conversations k then Some (incident_ref r) else None)))"

text \<open>\<^verbatim>\<open>attributionArgs\<close>: the three columns an attribution is written as.\<close>

definition attributionArgs :: "Attribution \<Rightarrow> uuid \<times> string \<times> uuid" where
  "attributionArgs a =
     (if \<not> Attribution_IsHuman a then (uuid_Nil, [], by_correlatorID a) else (by_userID a, by_label a, uuid_Nil))"

definition Incident_Insert :: "IncidentDB \<Rightarrow> uuid \<Rightarrow> time \<Rightarrow> Attribution \<Rightarrow> IncidentRef \<times> IncidentDB" where
  "Incident_Insert db i at by' =
     (let number = (case idb_nextNumber db of None \<Rightarrow> 1 | Some n \<Rightarrow> n);
          (userID, label, correlatorID) = attributionArgs by';
          row = \<lparr>ir_id = i, ir_number = number, ir_drawnAt = at, ir_drawnBy = userID, ir_drawnByLabel = label,
                 ir_drawnByCorrelator = correlatorID, ir_factSequence = 0\<rparr>
      in (incident_ref row, db\<lparr>idb_nextNumber := Some (number + 1), idb_incidents := idb_incidents db @ [row]\<rparr>))"

definition AddMember :: "IncidentDB \<Rightarrow> uuid \<Rightarrow> uuid \<Rightarrow> uuid \<Rightarrow> time \<Rightarrow> Attribution \<Rightarrow> IncidentDB result" where
  "AddMember db i incidentID caseID at by' =
     (if list_ex (\<lambda>m. mr_case m = caseID \<and> member_live m) (idb_members db) then Inl RaceLostToAnotherIncident
      else let (userID, label, correlatorID) = attributionArgs by' in
        Inr (db\<lparr>idb_members := idb_members db @
          [\<lparr>mr_id = i, mr_incident = incidentID, mr_case = caseID, mr_addedAt = at, mr_addedBy = userID,
            mr_addedByLabel = label, mr_addedByCorrelator = correlatorID, mr_removedAt = 0, mr_removedBy = uuid_Nil,
            mr_removedByLabel = [], mr_movedTo = uuid_Nil\<rparr>]\<rparr>))"

definition removed_member :: "time \<Rightarrow> Attribution \<Rightarrow> uuid \<Rightarrow> MemberRow \<Rightarrow> MemberRow" where
  "removed_member at by' movedTo m = m\<lparr>mr_removedAt := max at (mr_addedAt m), mr_removedBy := by_userID by',
     mr_removedByLabel := by_label by', mr_movedTo := movedTo\<rparr>"

definition RemoveMember :: "IncidentDB \<Rightarrow> uuid \<Rightarrow> uuid \<Rightarrow> time \<Rightarrow> Attribution \<Rightarrow> uuid \<Rightarrow> IncidentDB result" where
  "RemoveMember db incidentID caseID at by' movedTo =
     (if \<not> Attribution_IsHuman by' then Inl (errs_New KindInternal ''incident_removal_not_human'')
      else if \<not> list_ex (\<lambda>m. mr_incident m = incidentID \<and> mr_case m = caseID \<and> member_live m) (idb_members db)
      then Inl MemberNotFound
      else Inr (db\<lparr>idb_members := update_where (\<lambda>m. mr_incident m = incidentID \<and> mr_case m = caseID \<and> member_live m)
                    (removed_member at by' movedTo) (idb_members db)\<rparr>))"

section \<open>Reading an incident\<close>

definition summary_alertnames :: "IncidentsWorld \<Rightarrow> IncidentDB \<Rightarrow> Case list \<Rightarrow> string list" where
  "summary_alertnames W db cs =
     take MaxAlertnames (sort_key (iw_Collate W) (remdups
       (List.map_filter (\<lambda>c. map_option (\<lambda>a. AlertName (al_labels a)) (find_alert db (c_alertID c))) cs)))"

definition summary_toDomain :: "IncidentsWorld \<Rightarrow> IncidentDB \<Rightarrow> IncidentRow \<Rightarrow> IncidentSummary result" where
  "summary_toDomain W db r =
     rbind (Restore (ir_drawnBy r) (ir_drawnByLabel r) (ir_drawnByCorrelator r)) (\<lambda>by'.
       let cs = List.map_filter (\<lambda>m. find_case db (mr_case m)) (current_members db (ir_id r)) in
       Inr \<lparr>inc_ID = ir_id r, inc_Number = ir_number r, inc_DrawnAt = ir_drawnAt r, inc_DrawnBy = by',
            inc_MemberCount = int (length cs), inc_OpenMemberCount = int (length (filter (\<lambda>c. c_state c = CaseOpen) cs)),
            inc_Alertnames = summary_alertnames W db cs,
            inc_Conversation = (case find (\<lambda>k. kr_id k = ir_drawnByCorrelator r) (idb_correlators db) of
              None \<Rightarrow> False | Some k \<Rightarrow> kr_conversations k)\<rparr>)"

fun summaries :: "IncidentsWorld \<Rightarrow> IncidentDB \<Rightarrow> IncidentRow list \<Rightarrow> IncidentSummary list result" where
  "summaries W db [] = Inr []"
| "summaries W db (r # rs) = rbind (summary_toDomain W db r) (\<lambda>i. rbind (summaries W db rs) (\<lambda>is. Inr (i # is)))"

text \<open>
  \<^verbatim>\<open>List\<close>: newest first, after the incident the cursor names. The page and the id to continue from, if there is more.
\<close>

definition Incident_List :: "IncidentsWorld \<Rightarrow> IncidentDB \<Rightarrow> int \<Rightarrow> uuid \<Rightarrow> bool \<Rightarrow>
  (IncidentSummary list \<times> uuid option) result" where
  "Incident_List W db limit after includeEmpty =
     (let n = (if limit \<le> 0 then 25 else nat limit);
          before = (\<lambda>r. after = uuid_Nil \<or> (case find (\<lambda>q. ir_id q = after) (idb_incidents db) of
            None \<Rightarrow> False | Some q \<Rightarrow> ir_number r < ir_number q));
          rows = take (n + 1) (sort_key (\<lambda>r. - ir_number r) (filter (\<lambda>r. before r \<and>
            (includeEmpty \<or> current_members db (ir_id r) \<noteq> [])) (idb_incidents db)))
      in rbind (summaries W db rows) (\<lambda>out.
           if length out > n then Inr (take n out, Some (inc_ID (out ! (n - 1)))) else Inr (out, None)))"

definition member_toDomain :: "IncidentDB \<Rightarrow> MemberRow \<Rightarrow> Case \<Rightarrow> Alert \<Rightarrow> Member result" where
  "member_toDomain db m c a =
     (if CaseState_IsZero (c_state c) then Inl (errs_New KindInternal ''incident_member_case_state_invalid'')
      else rbind (Restore (mr_addedBy m) (mr_addedByLabel m) (mr_addedByCorrelator m)) (\<lambda>by'.
        Inr \<lparr>mb_CaseID = mr_case m, mb_CaseNumber = c_number c, mb_CaseState = c_state c, mb_AlertID = c_alertID c,
             mb_Alertname = AlertName (al_labels a), mb_Labels = al_labels a, mb_AddedAt = mr_addedAt m, mb_AddedBy = by',
             mb_RemovedAt = mr_removedAt m, mb_RemovedByLabel = mr_removedByLabel m,
             mb_MovedToNumber = (case find (\<lambda>r. ir_id r = mr_movedTo m) (idb_incidents db) of
               None \<Rightarrow> 0 | Some r \<Rightarrow> ir_number r)\<rparr>))"

fun members_toDomain :: "IncidentDB \<Rightarrow> MemberRow list \<Rightarrow> Member list result" where
  "members_toDomain db [] = Inr []"
| "members_toDomain db (m # ms) =
     (case find_case db (mr_case m) of
        None \<Rightarrow> members_toDomain db ms
      | Some c \<Rightarrow> (case find_alert db (c_alertID c) of
          None \<Rightarrow> members_toDomain db ms
        | Some a \<Rightarrow> rbind (member_toDomain db m c a) (\<lambda>d. rbind (members_toDomain db ms) (\<lambda>ds. Inr (d # ds)))))"

definition incident_outbound :: "IncidentDB \<Rightarrow> uuid \<Rightarrow> Outbound list" where
  "incident_outbound db i = sort_key (\<lambda>o'. (ou_RecordedAt o', ou_ChannelID o'))
     (map snd (filter (\<lambda>p. fst p = i) (idb_outbound db)))"

definition Incident_Get :: "IncidentsWorld \<Rightarrow> IncidentDB \<Rightarrow> int \<Rightarrow> Detail result" where
  "Incident_Get W db number =
     (case find (\<lambda>r. ir_number r = number) (idb_incidents db) of
        None \<Rightarrow> Inl IncidentNotFound
      | Some r \<Rightarrow> rbind (summary_toDomain W db r) (\<lambda>inc.
          rbind (members_toDomain db (sort_key (\<lambda>m. (mr_addedAt m, mr_id m))
                   (filter (\<lambda>m. mr_incident m = ir_id r) (idb_members db)))) (\<lambda>members.
            Inr \<lparr>dt_Incident = inc, dt_Members = members, dt_Outbound = incident_outbound db (ir_id r)\<rparr>)))"

definition Incident_GetByID :: "IncidentsWorld \<Rightarrow> IncidentDB \<Rightarrow> uuid \<Rightarrow> Detail result" where
  "Incident_GetByID W db i = rbind (refByID db i) (\<lambda>ref. Incident_Get W db (ref_Number ref))"

section \<open>Correlators\<close>

definition correlator_toDomain :: "CorrelatorRow \<Rightarrow> Correlator" where
  "correlator_toDomain r =
     \<lparr>co_ID = kr_id r, co_Name = kr_name r, co_Priority = kr_priority r, co_Enabled = kr_enabled r,
      co_Matchers = kr_matchers r,
      co_Count = (case (kr_countMin r, kr_countWindowS r) of
          (Some m, Some w) \<Rightarrow> \<lparr>ct_Min = m, ct_Window = w * Second\<rparr> | _ \<Rightarrow> \<lparr>ct_Min = 0, ct_Window = 0\<rparr>),
      co_QuietGrace = (case kr_quietGraceS r of Some g \<Rightarrow> g * Second | None \<Rightarrow> 0),
      co_Conversations = kr_conversations r, co_CreatedAt = kr_createdAt r, co_UpdatedAt = kr_updatedAt r\<rparr>"

definition graceArg :: "duration \<Rightarrow> int option" where
  "graceArg g = (if g \<le> 0 then None else Some (go_div g Second))"

definition countArgs :: "DrawCount \<Rightarrow> int option \<times> int option" where
  "countArgs c = (if \<not> DrawCount_Enabled c then (None, None) else (Some (ct_Min c), Some (go_div (ct_Window c) Second)))"

definition correlator_order :: "CorrelatorRow \<Rightarrow> int \<times> time \<times> uuid" where
  "correlator_order r = (kr_priority r, kr_createdAt r, kr_id r)"

definition Correlator_List :: "IncidentDB \<Rightarrow> Correlator list" where
  "Correlator_List db = map correlator_toDomain
     (sort_key correlator_order (filter (\<lambda>r. kr_deletedAt r = 0) (idb_correlators db)))"

definition Correlator_Live :: "IncidentDB \<Rightarrow> Correlator list" where
  "Correlator_Live db = map correlator_toDomain
     (sort_key correlator_order (filter (\<lambda>r. kr_enabled r \<and> kr_deletedAt r = 0) (idb_correlators db)))"

definition Correlator_Get :: "IncidentDB \<Rightarrow> uuid \<Rightarrow> Correlator result" where
  "Correlator_Get db i =
     (case find (\<lambda>r. kr_id r = i \<and> kr_deletedAt r = 0) (idb_correlators db) of
        None \<Rightarrow> Inl CorrelatorNotFound | Some r \<Rightarrow> Inr (correlator_toDomain r))"

text \<open>The columns an \<^verbatim>\<open>INSERT\<close> and an \<^verbatim>\<open>UPDATE\<close> both write.\<close>

definition written_correlator :: "Correlator \<Rightarrow> CorrelatorRow \<Rightarrow> CorrelatorRow" where
  "written_correlator c r = r\<lparr>kr_name := co_Name c, kr_priority := co_Priority c, kr_enabled := co_Enabled c,
     kr_matchers := co_Matchers c, kr_countMin := fst (countArgs (co_Count c)), kr_countWindowS := snd (countArgs (co_Count c)),
     kr_quietGraceS := graceArg (co_QuietGrace c), kr_conversations := co_Conversations c\<rparr>"

definition blank_correlator :: "uuid \<Rightarrow> time \<Rightarrow> CorrelatorRow" where
  "blank_correlator i at = \<lparr>kr_id = i, kr_name = [], kr_priority = 0, kr_enabled = False, kr_matchers = [],
     kr_countMin = None, kr_countWindowS = None, kr_quietGraceS = None, kr_conversations = False, kr_createdAt = at,
     kr_updatedAt = at, kr_deletedAt = 0\<rparr>"

definition name_taken :: "IncidentsWorld \<Rightarrow> IncidentDB \<Rightarrow> uuid \<Rightarrow> string \<Rightarrow> bool" where
  "name_taken W db i name =
     list_ex (\<lambda>r. kr_deletedAt r = 0 \<and> kr_id r \<noteq> i \<and> iw_Fold W (kr_name r) = iw_Fold W name) (idb_correlators db)"

definition Correlator_Create :: "IncidentsWorld \<Rightarrow> IncidentDB \<Rightarrow> uuid \<Rightarrow> Correlator \<Rightarrow> time \<Rightarrow>
  (Correlator \<times> IncidentDB) result" where
  "Correlator_Create W db i c at =
     (if name_taken W db i (co_Name c) then Inl (errs_New KindConflict ''correlators_name_uniq'')
      else let row = written_correlator c (blank_correlator i at) in
        Inr (correlator_toDomain row, db\<lparr>idb_correlators := idb_correlators db @ [row]\<rparr>))"

definition Correlator_Update :: "IncidentsWorld \<Rightarrow> IncidentDB \<Rightarrow> Correlator \<Rightarrow> time \<Rightarrow> (Correlator \<times> IncidentDB) result" where
  "Correlator_Update W db c at =
     (let live = (\<lambda>r. kr_id r = co_ID c \<and> kr_deletedAt r = 0);
          write = (\<lambda>r. (written_correlator c r)\<lparr>kr_updatedAt := max at (kr_createdAt r)\<rparr>)
      in case find live (idb_correlators db) of
           None \<Rightarrow> Inl CorrelatorNotFound
         | Some r \<Rightarrow>
             if name_taken W db (co_ID c) (co_Name c) then Inl (errs_New KindConflict ''correlators_name_uniq'')
             else Inr (correlator_toDomain (write r),
                       db\<lparr>idb_correlators := update_where live write (idb_correlators db)\<rparr>))"

definition Correlator_Delete :: "IncidentDB \<Rightarrow> uuid \<Rightarrow> time \<Rightarrow> IncidentDB result" where
  "Correlator_Delete db i at =
     (if \<not> list_ex (\<lambda>r. kr_id r = i \<and> kr_deletedAt r = 0) (idb_correlators db) then Inl CorrelatorNotFound
      else Inr (db\<lparr>idb_correlators := update_where (\<lambda>r. kr_id r = i \<and> kr_deletedAt r = 0)
        (\<lambda>r. r\<lparr>kr_deletedAt := max at (kr_createdAt r), kr_updatedAt := max at (kr_createdAt r)\<rparr>) (idb_correlators db)\<rparr>))"

section \<open>What the evaluator reads and writes\<close>

definition Store_CorrelationCase :: "IncidentDB \<Rightarrow> uuid \<Rightarrow> CorrelationCase result" where
  "Store_CorrelationCase db caseID =
     (case find_case db caseID of
        None \<Rightarrow> Inl CaseNotFound
      | Some c \<Rightarrow> (case find_alert db (c_alertID c) of
          None \<Rightarrow> Inl CaseNotFound
        | Some a \<Rightarrow> Inr
            \<lparr>cc_Ref = \<lparr>cr_ID = c_id c, cr_Number = c_number c, cr_AlertID = c_alertID c, cr_Synthetic = False\<rparr>,
             cc_StartedAt = c_startedAt c, cc_Labels = al_labels a,
             cc_InIncident = list_ex (\<lambda>m. mr_case m = caseID \<and> member_live m) (idb_members db),
             cc_EverRemoved = list_ex (\<lambda>m. mr_case m = caseID \<and> \<not> member_live m) (idb_members db),
             cc_Synthetic = al_synthetic a\<rparr>))"

definition RecordMatch :: "IncidentDB \<Rightarrow> uuid \<Rightarrow> CorrelationCase \<Rightarrow> time \<Rightarrow> IncidentDB" where
  "RecordMatch db correlatorID c at =
     (if list_ex (\<lambda>x. mx_case x = cr_ID (cc_Ref c)) (idb_matches db) then db
      else db\<lparr>idb_matches := idb_matches db @ [\<lparr>mx_case = cr_ID (cc_Ref c), mx_correlator = correlatorID,
                mx_startedAt = cc_StartedAt c, mx_matchedAt = at\<rparr>]\<rparr>)"

definition WindowCandidates :: "IncidentDB \<Rightarrow> uuid \<Rightarrow> time \<Rightarrow> time \<Rightarrow> uuid \<Rightarrow> CaseAt list" where
  "WindowCandidates db correlatorID from to except =
     List.map_filter (\<lambda>x. map_option (\<lambda>c. \<lparr>ca_Ref = \<lparr>cr_ID = c_id c, cr_Number = c_number c, cr_AlertID = c_alertID c,
           cr_Synthetic = False\<rparr>, ca_StartedAt = mx_startedAt x\<rparr>) (find_case db (mx_case x)))
       (sort_key (\<lambda>x. (mx_startedAt x, mx_case x)) (filter (\<lambda>x. mx_correlator x = correlatorID \<and> from \<le> mx_startedAt x \<and>
          mx_startedAt x \<le> to \<and> mx_case x \<noteq> except \<and> \<not> list_ex (\<lambda>m. mr_case m = mx_case x) (idb_members db))
         (idb_matches db)))"

text \<open>\<^verbatim>\<open>max\<close> over no row, and over rows that hold \<^verbatim>\<open>NULL\<close> only, is \<^verbatim>\<open>NULL\<close>.\<close>

definition sql_max :: "time list \<Rightarrow> time" where
  "sql_max ts = fold greatest ts 0"

definition quiet_since :: "IncidentDB \<Rightarrow> IncidentRow \<Rightarrow> time" where
  "quiet_since db r =
     coalesce (greatest
         (sql_max (List.map_filter (\<lambda>m. map_option c_endedAt (find_case db (mr_case m))) (current_members db (ir_id r))))
         (sql_max (map mr_removedAt (filter (\<lambda>m. mr_incident m = ir_id r) (idb_members db)))))
       (ir_drawnAt r)"

definition LatestDrawn :: "IncidentDB \<Rightarrow> uuid \<Rightarrow> CorrelatorIncident option" where
  "LatestDrawn db correlatorID =
     (case sort_key (\<lambda>r. - ir_number r) (filter (\<lambda>r. ir_drawnByCorrelator r = correlatorID) (idb_incidents db)) of
        [] \<Rightarrow> None
      | r # _ \<Rightarrow> Some \<lparr>ci_Ref = incident_ref r, ci_OpenMembers = OpenMembers db (ir_id r), ci_QuietSince = quiet_since db r\<rparr>)"

end
