(* ===== verification/Incident_Service.thy ===== *)
theory Incident_Service
  imports Incident_Store
begin

text \<open>
  The verbs of the incidents module: a human's draw, add, remove and move and the observer of ending cases
  (\<^verbatim>\<open>internal/incidents/service/service.go\<close>), and the correlators with their evaluator (\<^verbatim>\<open>correlators.go\<close>). Every verb
  narrates onto the timeline through \<^verbatim>\<open>AppendTimelineEvent\<close> (\<^verbatim>\<open>alerts/service/seam.go\<close>) and declares its facts
  as jobs; the two adapters between the modules are those of \<^verbatim>\<open>internal/app/adapters.go\<close>.

  The state of a transaction is the database and the number of ids drawn so far.
\<close>

type_synonym itx = "IncidentDB \<times> nat"

section \<open>Quoting\<close>

text \<open>\<^verbatim>\<open>%q\<close>, that is \<^verbatim>\<open>strconv.Quote\<close>, on bytes; whether a rune beyond ASCII prints is a parameter.\<close>

definition rune_value :: "string \<Rightarrow> int" where
  "rune_value p = (case p of [] \<Rightarrow> 0 | [c] \<Rightarrow> of_char c
     | c # cs \<Rightarrow> foldl (\<lambda>v d. v * 64 + of_char d mod 64) (of_char c mod 2 ^ (7 - length p)) cs)"

definition quote_rune :: "(string \<Rightarrow> bool) \<Rightarrow> string \<Rightarrow> string" where
  "quote_rune isPrint p =
     (let v = rune_value p in
      if v = 34 \<or> v = 92 then byte 92 # p
      else if (if length p = 1 then 32 \<le> v \<and> v \<le> 126 else isPrint p) then p
      else if v = 7 then [byte 92, CHR ''a''] else if v = 8 then [byte 92, CHR ''b'']
      else if v = 12 then [byte 92, CHR ''f''] else if v = 10 then [byte 92, CHR ''n'']
      else if v = 13 then [byte 92, CHR ''r''] else if v = 9 then [byte 92, CHR ''t'']
      else if v = 11 then [byte 92, CHR ''v'']
      else if v < 32 \<or> v = 127 then [byte 92, CHR ''x''] @ hexdigits 2 v
      else if v < 65536 then [byte 92, CHR ''u''] @ hexdigits 4 v
      else [byte 92, CHR ''U''] @ hexdigits 8 v)"

function quote_body :: "(string \<Rightarrow> bool) \<Rightarrow> string \<Rightarrow> string" where
  "quote_body isPrint s =
     (if s = [] then []
      else case rune_len s of
        None \<Rightarrow> [byte 92, CHR ''x''] @ hexdigits 2 (of_char (hd s)) @ quote_body isPrint (drop 1 s)
      | Some n \<Rightarrow> quote_rune isPrint (take n s) @ quote_body isPrint (drop n s))"
  by pat_completeness auto
termination
  by (relation "measure (\<lambda>(_, s). length s)") (auto dest: rune_len_pos)

declare quote_body.simps [simp del]

definition Quote :: "(string \<Rightarrow> bool) \<Rightarrow> string \<Rightarrow> string" where
  "Quote isPrint s = byte 34 # quote_body isPrint s @ [byte 34]"

section \<open>The timeline\<close>

record TimelineEventRequest =
  te_Type :: EventType
  te_AlertID :: uuid
  te_CaseID :: uuid
  te_Summary :: string
  te_Payload :: payload
  te_DedupeKey :: string
  te_ActorKind :: string
  te_ActorID :: string
  te_ActorLabel :: string

definition AppendTimelineEvent :: "AlertsWorld \<Rightarrow> uuid \<Rightarrow> Store \<Rightarrow> TimelineEventRequest \<Rightarrow> Store result" where
  "AppendTimelineEvent A eventID db req =
     (if Retired (te_Type req) then Inl (errs_New KindInternal ''event_type_retired'')
      else rbind (NewActorKind (if te_ActorKind req = [] then ActorKind_String ActorSystem else te_ActorKind req)) (\<lambda>kind.
        rbind (NewActor kind (te_ActorID req) (te_ActorLabel req)) (\<lambda>actor.
        rbind (NewObservationTime (aw_now A) (aw_now A)) (\<lambda>at.
        rbind (NewEvent \<lparr>ev_id = eventID, ev_orgID = aw_org A, ev_alertID = te_AlertID req, ev_caseID = te_CaseID req,
                 ev_groupID = uuid_Nil, ev_typ = te_Type req, ev_at = at, ev_actor = actor, ev_summary = te_Summary req,
                 ev_payload = te_Payload req, ev_dedupeKey = te_DedupeKey req\<rparr>) (\<lambda>ev.
        rbind (appendEvents A db [ev]) (\<lambda>(_, db'). Inr db'))))))"

record CaseFact =
  cf_Type :: EventType
  cf_CaseID :: uuid
  cf_AlertID :: uuid
  cf_Summary :: string
  cf_Payload :: payload
  cf_By :: Attribution
  cf_CorrelatorName :: string

text \<open>The actor of a fact: a linked user, a human with a label alone, or a correlator, which must be named.\<close>

definition fact_actor :: "uuidlib \<Rightarrow> CaseFact \<Rightarrow> (ActorKind \<times> string \<times> string) result" where
  "fact_actor U f =
     (if \<not> Attribution_IsHuman (cf_By f)
      then if TrimSpace (cf_CorrelatorName f) = [] then Inl (errs_New KindInternal ''incident_fact_correlator_unnamed'')
           else Inr (ActorSystem, uuidString U (by_correlatorID (cf_By f)), ''Correlator '' @ cf_CorrelatorName f)
      else if by_userID (cf_By f) \<noteq> uuid_Nil then Inr (ActorUser, uuidString U (by_userID (cf_By f)), by_label (cf_By f))
      else Inr (ActorSlack, [], by_label (cf_By f)))"

definition RecordIncidentFact :: "IncidentsWorld \<Rightarrow> (nat \<Rightarrow> uuid) \<Rightarrow> itx \<Rightarrow> CaseFact \<Rightarrow> itx result" where
  "RecordIncidentFact W draw st f = (case st of (db, k) \<Rightarrow>
     rbind (fact_actor (IncidentsWorld_U W) f) (\<lambda>(kind, actorID, label).
     rbind (AppendTimelineEvent (iw_A W) (draw k) (idb_alerts db)
              \<lparr>te_Type = cf_Type f, te_AlertID = cf_AlertID f, te_CaseID = cf_CaseID f, te_Summary = cf_Summary f,
               te_Payload = cf_Payload f, te_DedupeKey = [], te_ActorKind = ActorKind_String kind, te_ActorID = actorID,
               te_ActorLabel = label\<rparr>) (\<lambda>alerts.
       Inr (db\<lparr>idb_alerts := alerts\<rparr>, Suc k))))"

section \<open>The outbox\<close>

record Announcement =
  an_IncidentID :: uuid
  an_Fact :: Fact
  an_Occasion :: uuid
  an_Sequence :: int

text \<open>A fact's spelling read as a reason: \<^verbatim>\<open>notifdomain.Reason(f.Fact)\<close>.\<close>

definition Reason_of :: "string \<Rightarrow> Reason" where
  "Reason_of s = (case find (\<lambda>r. Reason_String r = s) allReasons of Some r \<Rightarrow> r | None \<Rightarrow> ReasonOther s)"

definition announce_notify :: "IncidentDB \<Rightarrow> Announcement \<Rightarrow> IncidentDB result" where
  "announce_notify db a =
     (let reason = Reason_of (Fact_String (an_Fact a)) in
      if \<not> Reason_Valid reason \<or> Reason_Subject reason \<noteq> SubjectIncident
      then Inl (errs_New KindInternal ''incident_fact_unmapped'')
      else Inr (db\<lparr>idb_jobs := idb_jobs db @
        [NotifyIncident (an_IncidentID a) (Reason_String reason) (an_Occasion a) (an_Sequence a)]\<rparr>))"

definition announce_investigate :: "IncidentDB \<Rightarrow> Announcement \<Rightarrow> IncidentDB" where
  "announce_investigate db a =
     (case an_Fact a of
        FactDrawn \<Rightarrow> db\<lparr>idb_jobs := idb_jobs db @ [InvestigationsIncident (an_IncidentID a) ''drawn'']\<rparr>
      | FactCaseAdded \<Rightarrow> db\<lparr>idb_jobs := idb_jobs db @ [InvestigationsIncident (an_IncidentID a) ''membership'']\<rparr>
      | FactCaseRemoved \<Rightarrow> db\<lparr>idb_jobs := idb_jobs db @ [InvestigationsIncident (an_IncidentID a) ''membership'']\<rparr>
      | _ \<Rightarrow> db)"

definition Announce :: "IncidentDB \<Rightarrow> Announcement \<Rightarrow> IncidentDB result" where
  "Announce db a = rbind (announce_notify db a) (\<lambda>db'. Inr (announce_investigate db' a))"

definition announce :: "(nat \<Rightarrow> uuid) \<Rightarrow> itx \<Rightarrow> uuid \<Rightarrow> Fact \<Rightarrow> itx result" where
  "announce draw st i f = (case st of (db, k) \<Rightarrow>
     rbind (Incident_NextSequence db i) (\<lambda>(seq, db1).
     rbind (Announce db1 \<lparr>an_IncidentID = i, an_Fact = f, an_Occasion = draw k, an_Sequence = seq\<rparr>) (\<lambda>db2.
       Inr (db2, Suc k))))"

definition announceMembership :: "(nat \<Rightarrow> uuid) \<Rightarrow> itx \<Rightarrow> uuid \<Rightarrow> Fact \<Rightarrow> int \<Rightarrow> itx result" where
  "announceMembership draw st i f openBefore =
     (let openAfter = OpenMembers (fst st) i in
      rbind (announce draw st i f) (\<lambda>st1.
        case Incident_Transition openBefore openAfter of
          Some s \<Rightarrow> announce draw st1 i s
        | None \<Rightarrow> Inr st1))"

definition NextFactSequence :: "IncidentDB \<Rightarrow> uuid \<Rightarrow> (int \<times> IncidentDB) result" where
  "NextFactSequence db i = Incident_NextSequence db i"

text \<open>
  A fact another module declares of an incident takes its number from the same counter: the Investigator's findings
  (\<^verbatim>\<open>internal/app/investigator.go\<close>), and likewise the transitions of its remedies.
\<close>

definition declare_fact :: "IncidentDB \<Rightarrow> uuid \<Rightarrow> string \<Rightarrow> uuid \<Rightarrow> IncidentDB result" where
  "declare_fact db i reason occasion =
     rbind (NextFactSequence db i) (\<lambda>(seq, db1).
       Inr (db1\<lparr>idb_jobs := idb_jobs db1 @ [NotifyIncident i reason occasion seq]\<rparr>))"

definition DeclareIncidentFinding :: "IncidentDB \<Rightarrow> uuid \<Rightarrow> uuid \<Rightarrow> IncidentDB result" where
  "DeclareIncidentFinding db i investigationID = declare_fact db i ''finding'' investigationID"

section \<open>The sentences\<close>

definition who :: "Attribution \<Rightarrow> string" where
  "who a = (if Attribution_IsHuman a then by_label a else ''a Correlator'')"

definition suggestedNote :: "Attribution \<Rightarrow> string" where
  "suggestedNote a = (if by_suggestedBy a = uuid_Nil then [] else '', applying an Investigation'' @ [byte 39] @ ''s Suggestion'')"

definition withProvenance :: "uuidlib \<Rightarrow> Attribution \<Rightarrow> payload \<Rightarrow> payload" where
  "withProvenance U a p =
     (if by_suggestedBy a \<noteq> uuid_Nil then p @ [(''suggested_by_investigation_id'', JStr (uuidString U (by_suggestedBy a)))] else p)"

definition incident_payload :: "uuidlib \<Rightarrow> IncidentRef \<Rightarrow> payload" where
  "incident_payload U i = [(''incident_id'', JStr (uuidString U (ref_ID i))), (''incident_number'', JInt (ref_Number i))]"

definition drawn_fact :: "uuidlib \<Rightarrow> IncidentRef \<Rightarrow> Attribution \<Rightarrow> CaseRef \<Rightarrow> CaseFact" where
  "drawn_fact U i by' c = \<lparr>cf_Type = EventIncidentCaseAdded, cf_CaseID = cr_ID c, cf_AlertID = cr_AlertID c,
     cf_Summary = ''Drawn into Incident #'' @ itoa (ref_Number i) @ '' by '' @ who by',
     cf_Payload = incident_payload U i @ [(''drawn'', JBool True)], cf_By = by', cf_CorrelatorName = []\<rparr>"

definition added_fact :: "uuidlib \<Rightarrow> IncidentRef \<Rightarrow> Attribution \<Rightarrow> CaseRef \<Rightarrow> CaseFact" where
  "added_fact U i by' c = \<lparr>cf_Type = EventIncidentCaseAdded, cf_CaseID = cr_ID c, cf_AlertID = cr_AlertID c,
     cf_Summary = ''Added to Incident #'' @ itoa (ref_Number i) @ '' by '' @ who by' @ suggestedNote by',
     cf_Payload = withProvenance U by' (incident_payload U i @ [(''drawn'', JBool False)]), cf_By = by', cf_CorrelatorName = []\<rparr>"

definition removed_fact :: "uuidlib \<Rightarrow> IncidentRef \<Rightarrow> Attribution \<Rightarrow> CaseRef \<Rightarrow> CaseFact" where
  "removed_fact U i by' c = \<lparr>cf_Type = EventIncidentCaseRemoved, cf_CaseID = cr_ID c, cf_AlertID = cr_AlertID c,
     cf_Summary = ''Removed from Incident #'' @ itoa (ref_Number i) @ '' by '' @ who by',
     cf_Payload = incident_payload U i, cf_By = by', cf_CorrelatorName = []\<rparr>"

definition moved_fact :: "uuidlib \<Rightarrow> IncidentRef \<Rightarrow> IncidentRef \<Rightarrow> Attribution \<Rightarrow> CaseRef \<Rightarrow> CaseFact" where
  "moved_fact U src dst by' c = \<lparr>cf_Type = EventIncidentCaseMoved, cf_CaseID = cr_ID c, cf_AlertID = cr_AlertID c,
     cf_Summary = ''Moved from Incident #'' @ itoa (ref_Number src) @ '' to #'' @ itoa (ref_Number dst) @ '' by '' @ who by' @
       suggestedNote by',
     cf_Payload = withProvenance U by'
       [(''from_incident_id'', JStr (uuidString U (ref_ID src))), (''from_number'', JInt (ref_Number src)),
        (''to_incident_id'', JStr (uuidString U (ref_ID dst))), (''to_number'', JInt (ref_Number dst))],
     cf_By = by', cf_CorrelatorName = []\<rparr>"

definition correlated_fact :: "IncidentsWorld \<Rightarrow> string \<Rightarrow> bool \<Rightarrow> IncidentRef \<Rightarrow> Correlator \<Rightarrow> CaseRef \<Rightarrow> CaseFact" where
  "correlated_fact W verb drawn i k c = \<lparr>cf_Type = EventIncidentCaseAdded, cf_CaseID = cr_ID c, cf_AlertID = cr_AlertID c,
     cf_Summary = verb @ '' Incident #'' @ itoa (ref_Number i) @ '' by Correlator '' @ Quote (iw_IsPrint W) (co_Name k),
     cf_Payload = incident_payload (IncidentsWorld_U W) i @
       [(''drawn'', JBool drawn), (''correlator_id'', JStr (uuidString (IncidentsWorld_U W) (co_ID k)))],
     cf_By = ByCorrelator (co_ID k), cf_CorrelatorName = co_Name k\<rparr>"

section \<open>The human verbs\<close>

fun dedup_cases :: "uuid list \<Rightarrow> uuid list \<Rightarrow> uuid list" where
  "dedup_cases seen [] = []"
| "dedup_cases seen (i # is) =
     (if i = uuid_Nil \<or> i \<in> set seen then dedup_cases seen is else i # dedup_cases (i # seen) is)"

definition distinctCases :: "uuid list \<Rightarrow> uuid list result" where
  "distinctCases ids =
     (if ids = [] then Inl (errs_Validation ''validation_failed'' [Violation ''case_ids'' ''min_items''])
      else let out = dedup_cases [] ids in
        if length out > MaxCasesPerDraw then Inl (errs_Validation ''validation_failed'' [Violation ''case_ids'' ''max_items''])
        else if out = [] then Inl CaseNotFound
        else Inr out)"

fun resolve_loop :: "(uuid \<Rightarrow> CaseRef option) \<Rightarrow> uuid list \<Rightarrow> CaseRef list result" where
  "resolve_loop found [] = Inr []"
| "resolve_loop found (i # is) =
     (case found i of
        None \<Rightarrow> Inl CaseNotFound
      | Some c \<Rightarrow> if cr_Synthetic c then Inl SyntheticCase
                  else rbind (resolve_loop found is) (\<lambda>cs. Inr (c # cs)))"

definition resolveCases :: "IncidentDB \<Rightarrow> uuid list \<Rightarrow> CaseRef list result" where
  "resolveCases db ids = resolve_loop (Incident_Cases db ids) ids"

definition memberCase :: "IncidentDB \<Rightarrow> uuid \<Rightarrow> CaseRef result" where
  "memberCase db caseID = (case Incident_Cases db [caseID] caseID of None \<Rightarrow> Inl MemberNotFound | Some c \<Rightarrow> Inr c)"

text \<open>One case of a draw: the membership and its sentence. Both authors draw with it.\<close>

definition draw_case :: "IncidentsWorld \<Rightarrow> (nat \<Rightarrow> uuid) \<Rightarrow> uuid \<Rightarrow> time \<Rightarrow> Attribution \<Rightarrow> itx \<Rightarrow> uuid \<times> CaseFact \<Rightarrow> itx result" where
  "draw_case W draw incidentID at by' st x = (case (st, x) of ((db, k), (caseID, f)) \<Rightarrow>
     rbind (AddMember db (draw k) incidentID caseID at by') (\<lambda>db1. RecordIncidentFact W draw (db1, Suc k) f))"

definition Draw_tx :: "IncidentsWorld \<Rightarrow> (nat \<Rightarrow> uuid) \<Rightarrow> IncidentDB \<Rightarrow> uuid list \<Rightarrow> Attribution \<Rightarrow> (IncidentRef \<times> itx) result" where
  "Draw_tx W draw db ids by' =
     rbind (resolveCases db ids) (\<lambda>cases.
       if list_ex (\<lambda>c. LiveMemberships db ids (cr_ID c) \<noteq> None) cases then Inl CaseInIncident
       else case Incident_Insert db (draw 0) (iw_now W) by' of (drawn, db1) \<Rightarrow>
         rbind (announce draw (db1, 1) (ref_ID drawn) FactDrawn) (\<lambda>st.
         rbind (run_steps (draw_case W draw (ref_ID drawn) (iw_now W) by') st
                  (map (\<lambda>c. (cr_ID c, drawn_fact (IncidentsWorld_U W) drawn by' c)) cases)) (\<lambda>st'.
           Inr (drawn, st'))))"

text \<open>
  What a verb returns: the answer, which is read after the commit, and the database it leaves. A transaction that
  failed leaves the one it found.
\<close>

definition after_commit :: "IncidentsWorld \<Rightarrow> IncidentDB \<Rightarrow> (int \<times> itx) result \<Rightarrow> Detail result \<times> IncidentDB" where
  "after_commit W db r = (case r of Inl e \<Rightarrow> (Inl e, db) | Inr (number, db', k) \<Rightarrow> (Incident_Get W db' number, db'))"

definition Incident_Draw :: "IncidentsWorld \<Rightarrow> (nat \<Rightarrow> uuid) \<Rightarrow> IncidentDB \<Rightarrow> uuid list \<Rightarrow> Attribution \<Rightarrow> Detail result \<times> IncidentDB" where
  "Incident_Draw W draw db caseIDs by' =
     after_commit W db
      (if \<not> Attribution_IsHuman by' then Inl (errs_New KindInternal ''incident_draw_not_human'')
       else rbind (distinctCases caseIDs) (\<lambda>ids.
         rbind (Draw_tx W draw db ids by') (\<lambda>(drawn, st). Inr (ref_Number drawn, st))))"

definition Add_tx :: "IncidentsWorld \<Rightarrow> (nat \<Rightarrow> uuid) \<Rightarrow> IncidentDB \<Rightarrow> int \<Rightarrow> uuid \<Rightarrow> Attribution \<Rightarrow> itx result" where
  "Add_tx W draw db number caseID by' =
     rbind (Incident_Ref db number) (\<lambda>i.
     rbind (resolveCases db [caseID]) (\<lambda>cases.
       let c = hd cases in
       case LiveMemberships db [caseID] caseID of
         Some holder \<Rightarrow> if ref_ID holder = ref_ID i then Inl AlreadyAMember else Inl CaseInIncident
       | None \<Rightarrow>
           let before = OpenMembers db (ref_ID i) in
           rbind (AddMember db (draw 0) (ref_ID i) caseID (iw_now W) by') (\<lambda>db1.
           rbind (announceMembership draw (db1, 1) (ref_ID i) FactCaseAdded before) (\<lambda>st.
             RecordIncidentFact W draw st (added_fact (IncidentsWorld_U W) i by' c)))))"

definition Incident_Add :: "IncidentsWorld \<Rightarrow> (nat \<Rightarrow> uuid) \<Rightarrow> IncidentDB \<Rightarrow> int \<Rightarrow> uuid \<Rightarrow> Attribution \<Rightarrow>
  Detail result \<times> IncidentDB" where
  "Incident_Add W draw db number caseID by' =
     after_commit W db (rbind (Add_tx W draw db number caseID by') (\<lambda>st. Inr (number, st)))"

definition Remove_tx :: "IncidentsWorld \<Rightarrow> (nat \<Rightarrow> uuid) \<Rightarrow> IncidentDB \<Rightarrow> int \<Rightarrow> uuid \<Rightarrow> Attribution \<Rightarrow> itx result" where
  "Remove_tx W draw db number caseID by' =
     rbind (Incident_Ref db number) (\<lambda>i.
     rbind (memberCase db caseID) (\<lambda>c.
       let before = OpenMembers db (ref_ID i) in
       rbind (RemoveMember db (ref_ID i) caseID (iw_now W) by' uuid_Nil) (\<lambda>db1.
       rbind (announceMembership draw (db1, 0) (ref_ID i) FactCaseRemoved before) (\<lambda>st.
         RecordIncidentFact W draw st (removed_fact (IncidentsWorld_U W) i by' c)))))"

definition Incident_Remove :: "IncidentsWorld \<Rightarrow> (nat \<Rightarrow> uuid) \<Rightarrow> IncidentDB \<Rightarrow> int \<Rightarrow> uuid \<Rightarrow> Attribution \<Rightarrow>
  Detail result \<times> IncidentDB" where
  "Incident_Remove W draw db number caseID by' =
     after_commit W db (rbind (Remove_tx W draw db number caseID by') (\<lambda>st. Inr (number, st)))"

definition Move_tx :: "IncidentsWorld \<Rightarrow> (nat \<Rightarrow> uuid) \<Rightarrow> IncidentDB \<Rightarrow> int \<Rightarrow> int \<Rightarrow> uuid \<Rightarrow> Attribution \<Rightarrow> itx result" where
  "Move_tx W draw db from to caseID by' =
     rbind (Incident_Ref db from) (\<lambda>src.
     rbind (Incident_Ref db to) (\<lambda>dst.
     rbind (memberCase db caseID) (\<lambda>c.
       let srcBefore = OpenMembers db (ref_ID src); dstBefore = OpenMembers db (ref_ID dst) in
       rbind (RemoveMember db (ref_ID src) caseID (iw_now W) by' (ref_ID dst)) (\<lambda>db1.
       rbind (AddMember db1 (draw 0) (ref_ID dst) caseID (iw_now W) by') (\<lambda>db2.
       rbind (announceMembership draw (db2, 1) (ref_ID src) FactCaseRemoved srcBefore) (\<lambda>st1.
       rbind (announceMembership draw st1 (ref_ID dst) FactCaseAdded dstBefore) (\<lambda>st2.
         RecordIncidentFact W draw st2 (moved_fact (IncidentsWorld_U W) src dst by' c))))))))"

definition Incident_Move :: "IncidentsWorld \<Rightarrow> (nat \<Rightarrow> uuid) \<Rightarrow> IncidentDB \<Rightarrow> int \<Rightarrow> int \<Rightarrow> uuid \<Rightarrow> Attribution \<Rightarrow>
  Detail result \<times> IncidentDB" where
  "Incident_Move W draw db from to caseID by' =
     after_commit W db
      (if from = to then Inl MoveToSelf
       else rbind (Move_tx W draw db from to caseID by') (\<lambda>st. Inr (to, st)))"

definition HoldingCase :: "IncidentsWorld \<Rightarrow> IncidentDB \<Rightarrow> uuid \<Rightarrow> IncidentSummary list result" where
  "HoldingCase W db caseID =
     (case LiveMemberships db [caseID] caseID of
        None \<Rightarrow> Inr []
      | Some ref \<Rightarrow> rbind (Incident_GetByID W db (ref_ID ref)) (\<lambda>d. Inr [dt_Incident d]))"

definition ConversationFor :: "IncidentDB \<Rightarrow> uuid \<Rightarrow> IncidentRef option" where
  "ConversationFor db caseID = ConversationHolding db caseID"

section \<open>The observer of ending cases\<close>

definition ended_incident :: "(nat \<Rightarrow> uuid) \<Rightarrow> itx \<Rightarrow> uuid \<Rightarrow> itx result" where
  "ended_incident draw st i = (if OpenMembers (fst st) i > 0 then Inr st else announce draw st i FactQuiet)"

definition CasesEnded :: "(nat \<Rightarrow> uuid) \<Rightarrow> itx \<Rightarrow> uuid list \<Rightarrow> itx result" where
  "CasesEnded draw st caseIDs =
     (if caseIDs = [] then Inr st else run_steps (ended_incident draw) st (Holding (fst st) caseIDs))"

section \<open>Correlators\<close>

definition Correlators_Create :: "IncidentsWorld \<Rightarrow> uuid \<Rightarrow> IncidentDB \<Rightarrow> CorrelatorDraft \<Rightarrow> (Correlator \<times> IncidentDB) result" where
  "Correlators_Create W i db d =
     (let k = Draft_Correlator d in
      or_fail (Correlator_Validate (iw_R W) k) (Correlator_Create W db i k (iw_now W)))"

definition Correlators_Update :: "IncidentsWorld \<Rightarrow> IncidentDB \<Rightarrow> uuid \<Rightarrow> CorrelatorPatch \<Rightarrow> (Correlator \<times> IncidentDB) result" where
  "Correlators_Update W db i p =
     (if Patch_IsEmpty p then Inl (errs_Validation ''validation_failed'' [Violation [] ''min_properties''])
      else rbind (Correlator_Get db i) (\<lambda>existing.
        let merged = Patch_Apply p existing in
        or_fail (Correlator_Validate (iw_R W) merged) (Correlator_Update W db merged (iw_now W))))"

definition Correlators_Delete :: "IncidentsWorld \<Rightarrow> IncidentDB \<Rightarrow> uuid \<Rightarrow> IncidentDB result" where
  "Correlators_Delete W db i = Correlator_Delete db i (iw_now W)"

datatype Verdict = VerdictUnclaimable | VerdictNoMatch | VerdictBelowCount | VerdictDrew | VerdictJoined

fun Verdict_String :: "Verdict \<Rightarrow> string" where
  "Verdict_String VerdictUnclaimable = ''unclaimable''"
| "Verdict_String VerdictNoMatch = ''no_match''"
| "Verdict_String VerdictBelowCount = ''below_count''"
| "Verdict_String VerdictDrew = ''drew''"
| "Verdict_String VerdictJoined = ''joined''"

record Correlation =
  cn_Verdict :: Verdict
  cn_CorrelatorID :: uuid
  cn_Incident :: IncidentRef

definition no_incident :: IncidentRef where
  "no_incident = \<lparr>ref_ID = uuid_Nil, ref_Number = 0\<rparr>"

definition declined :: "Verdict \<Rightarrow> uuid \<Rightarrow> Correlation" where
  "declined v k = \<lparr>cn_Verdict = v, cn_CorrelatorID = k, cn_Incident = no_incident\<rparr>"

fun firstMatch :: "regexlib \<Rightarrow> Correlator list \<Rightarrow> (string \<times> string) list \<Rightarrow> Correlator option result" where
  "firstMatch R [] labels = Inr None"
| "firstMatch R (k # ks) labels =
     rbind (Correlator_Matches R k labels) (\<lambda>ok. if ok then Inr (Some k) else firstMatch R ks labels)"

definition correlator_draw :: "IncidentsWorld \<Rightarrow> (nat \<Rightarrow> uuid) \<Rightarrow> IncidentDB \<Rightarrow> Correlator \<Rightarrow> CaseAt list \<Rightarrow>
  (IncidentRef \<times> itx) result" where
  "correlator_draw W draw db k cases =
     (let by' = ByCorrelator (co_ID k) in
      case Incident_Insert db (draw 0) (iw_now W) by' of (drawn, db1) \<Rightarrow>
        rbind (announce draw (db1, 1) (ref_ID drawn) FactDrawn) (\<lambda>st.
        rbind (run_steps (draw_case W draw (ref_ID drawn) (iw_now W) by') st
                 (map (\<lambda>c. (cr_ID (ca_Ref c), correlated_fact W ''Drawn into'' True drawn k (ca_Ref c))) cases)) (\<lambda>st'.
          Inr (drawn, st'))))"

definition correlator_join :: "IncidentsWorld \<Rightarrow> (nat \<Rightarrow> uuid) \<Rightarrow> IncidentDB \<Rightarrow> Correlator \<Rightarrow> IncidentRef \<Rightarrow> CaseRef \<Rightarrow> itx result" where
  "correlator_join W draw db k i c =
     (let before = OpenMembers db (ref_ID i) in
      rbind (AddMember db (draw 0) (ref_ID i) (cr_ID c) (iw_now W) (ByCorrelator (co_ID k))) (\<lambda>db1.
      rbind (announceMembership draw (db1, 1) (ref_ID i) FactCaseAdded before) (\<lambda>st.
        RecordIncidentFact W draw st (correlated_fact W ''Added to'' False i k c))))"

text \<open>
  What the correlator that matched does with the case once it is recorded: joins its latest incident, draws a new
  one, or waits for its count.
\<close>

definition correlate_claimed :: "IncidentsWorld \<Rightarrow> (nat \<Rightarrow> uuid) \<Rightarrow> IncidentDB \<Rightarrow> Correlator \<Rightarrow> CorrelationCase \<Rightarrow>
  (Correlation \<times> itx) result" where
  "correlate_claimed W draw db k cs =
     (let draws = (
        let others = (if DrawCount_Enabled (co_Count k)
              then WindowCandidates db (co_ID k) (cc_StartedAt cs - ct_Window (co_Count k))
                     (cc_StartedAt cs + ct_Window (co_Count k)) (cr_ID (cc_Ref cs))
              else []) in
        case Count_Span (IncidentsWorld_U W) (co_Count k) \<lparr>ca_Ref = cc_Ref cs, ca_StartedAt = cc_StartedAt cs\<rparr> others of
          None \<Rightarrow> Inr (declined VerdictBelowCount (co_ID k), (db, 0))
        | Some span \<Rightarrow> rbind (correlator_draw W draw db k span) (\<lambda>(drawn, st).
            Inr (\<lparr>cn_Verdict = VerdictDrew, cn_CorrelatorID = co_ID k, cn_Incident = drawn\<rparr>, st)))
      in case LatestDrawn db (co_ID k) of
           Some li \<Rightarrow>
             if Joins k li (cc_StartedAt cs)
             then rbind (correlator_join W draw db k (ci_Ref li) (cc_Ref cs)) (\<lambda>st.
               Inr (\<lparr>cn_Verdict = VerdictJoined, cn_CorrelatorID = co_ID k, cn_Incident = ci_Ref li\<rparr>, st))
             else draws
         | None \<Rightarrow> draws)"

definition Correlate :: "IncidentsWorld \<Rightarrow> (nat \<Rightarrow> uuid) \<Rightarrow> IncidentDB \<Rightarrow> uuid \<Rightarrow> (Correlation \<times> itx) result" where
  "Correlate W draw db caseID =
     rbind (Store_CorrelationCase db caseID) (\<lambda>cs.
       if \<not> Case_Claimable cs then Inr (declined VerdictUnclaimable uuid_Nil, (db, 0))
       else rbind (firstMatch (iw_R W) (Correlator_Live db) (cc_Labels cs)) (\<lambda>first.
         case first of
           None \<Rightarrow> Inr (declined VerdictNoMatch uuid_Nil, (db, 0))
         | Some f \<Rightarrow>
             (case Correlator_Get db (co_ID f) of
                Inl e \<Rightarrow> if errKind e = KindNotFound then Inr (declined VerdictNoMatch uuid_Nil, (db, 0)) else Inl e
              | Inr k \<Rightarrow> correlate_claimed W draw (RecordMatch db (co_ID k) cs (iw_now W)) k cs)))"

end
