(* ===== verification/Incident_Run.thy ===== *)
theory Incident_Run
  imports Incident_Service Observe_Steps
begin

text \<open>
  What the verbs of the incidents module do to its tables, and the two invariants every history keeps: the
  membership table (\<open>members_ok\<close>) and, for each incident, the story its declared facts tell (\<open>story_ok\<close>).
\<close>

section \<open>Known cases\<close>

text \<open>A case that may be in an incident: it has a row, its alert has one, and the alert is not a drill's.\<close>

definition enrolled :: "Store \<Rightarrow> uuid \<Rightarrow> bool" where
  "enrolled s i \<longleftrightarrow> (\<exists>c a. find (\<lambda>c. c_id c = i) (st_cases s) = Some c \<and>
     find (\<lambda>a. al_id a = c_alertID c) (st_alerts s) = Some a \<and> \<not> al_synthetic a)"

definition open_in :: "Store \<Rightarrow> uuid \<Rightarrow> bool" where
  "open_in s i \<longleftrightarrow> (case find (\<lambda>c. c_id c = i) (st_cases s) of None \<Rightarrow> False | Some c \<Rightarrow> c_state c = CaseOpen)"

lemma case_open_in: "case_open db i = open_in (idb_alerts db) i"
  by (simp add: case_open_def open_in_def find_case_def)

lemma same_rows_cases:
  assumes "same_rows s' s"
  shows "enrolled s' i = enrolled s i" "open_in s' i = open_in s i"
  using assms by (simp_all add: same_rows_def enrolled_def open_in_def)

section \<open>Membership\<close>

text \<open>A machine adds a case only when no row of the case is there yet.\<close>

fun machine_first :: "uuid set \<Rightarrow> (uuid \<times> uuid) list \<Rightarrow> bool" where
  "machine_first seen [] = True"
| "machine_first seen ((c, k) # xs) = ((k \<noteq> uuid_Nil \<longrightarrow> c \<notin> seen) \<and> machine_first (insert c seen) xs)"

lemma machine_first_append:
  "machine_first seen (xs @ [(c, k)]) \<longleftrightarrow> machine_first seen xs \<and> (k \<noteq> uuid_Nil \<longrightarrow> c \<notin> seen \<union> fst ` set xs)"
  by (induction seen xs rule: machine_first.induct) auto

lemma machine_first_split:
  "machine_first seen (xs @ (c, k) # ys) \<Longrightarrow> k \<noteq> uuid_Nil \<Longrightarrow> c \<notin> seen \<union> fst ` set xs"
  by (induction seen xs rule: machine_first.induct) auto

definition member_key :: "MemberRow \<Rightarrow> uuid \<times> uuid" where
  "member_key m = (mr_case m, mr_addedByCorrelator m)"

definition next_number :: "int option \<Rightarrow> int" where
  "next_number n = (case n of None \<Rightarrow> 1 | Some n \<Rightarrow> n)"

definition members_ok :: "IncidentDB \<Rightarrow> bool" where
  "members_ok db \<longleftrightarrow> distinct (map ir_id (idb_incidents db)) \<and> distinct (map ir_number (idb_incidents db)) \<and>
     1 \<le> next_number (idb_nextNumber db) \<and>
     (\<forall>n\<in>ir_number ` set (idb_incidents db). 1 \<le> n \<and> n < next_number (idb_nextNumber db)) \<and>
     distinct (map mr_case (filter member_live (idb_members db))) \<and>
     (\<forall>m\<in>set (idb_members db). mr_incident m \<in> ir_id ` set (idb_incidents db) \<and> enrolled (idb_alerts db) (mr_case m)) \<and>
     (\<forall>x\<in>set (idb_matches db). enrolled (idb_alerts db) (mx_case x)) \<and>
     machine_first {} (map member_key (idb_members db))"

text \<open>What \<open>members_ok\<close> reads of a database, and hence what leaves it alone.\<close>

definition same_tables :: "IncidentDB \<Rightarrow> IncidentDB \<Rightarrow> bool" where
  "same_tables db' db \<longleftrightarrow> same_rows (idb_alerts db') (idb_alerts db) \<and>
     map ir_id (idb_incidents db') = map ir_id (idb_incidents db) \<and>
     map ir_number (idb_incidents db') = map ir_number (idb_incidents db) \<and>
     idb_members db' = idb_members db \<and> idb_nextNumber db' = idb_nextNumber db \<and> idb_matches db' = idb_matches db"

lemma same_tables_refl [simp]: "same_tables db db"
  by (simp add: same_tables_def)

lemma same_tables_trans: "same_tables db3 db2 \<Longrightarrow> same_tables db2 db1 \<Longrightarrow> same_tables db3 db1"
  by (auto simp: same_tables_def intro: same_rows_trans)

lemma map_eq_images: "map f xs = map f ys \<Longrightarrow> f ` set xs = f ` set ys"
  by (metis list.set_map)

lemma members_ok_same:
  assumes "same_tables db' db"
  shows "members_ok db' = members_ok db"
proof -
  have "enrolled (idb_alerts db') = enrolled (idb_alerts db)"
    using assms by (auto simp: same_tables_def same_rows_cases(1))
  moreover have "map ir_id (idb_incidents db') = map ir_id (idb_incidents db)"
    "map ir_number (idb_incidents db') = map ir_number (idb_incidents db)" "idb_members db' = idb_members db"
    "idb_nextNumber db' = idb_nextNumber db" "idb_matches db' = idb_matches db"
    using assms unfolding same_tables_def by simp_all
  moreover note this(1,2) [THEN map_eq_images]
  ultimately show ?thesis
    unfolding members_ok_def by (simp only:)
qed

lemma same_tables_counts:
  assumes "same_tables db' db"
  shows "OpenMembers db' i = OpenMembers db i"
proof -
  have "open_in (idb_alerts db') = open_in (idb_alerts db)"
    using assms by (auto simp: same_tables_def same_rows_cases(2))
  then show ?thesis using assms by (simp add: OpenMembers_def current_members_def same_tables_def case_open_in)
qed

section \<open>The facts\<close>

text \<open>The facts declared of an incident with their numbers, in the order of the outbox.\<close>

definition fact_of :: "uuid \<Rightarrow> IncidentJob \<Rightarrow> (string \<times> int) option" where
  "fact_of i j = (case j of NotifyIncident x r _ s \<Rightarrow> if x = i then Some (r, s) else None | _ \<Rightarrow> None)"

definition facts_of :: "IncidentDB \<Rightarrow> uuid \<Rightarrow> (string \<times> int) list" where
  "facts_of db i = List.map_filter (fact_of i) (idb_jobs db)"

definition seq_of :: "IncidentDB \<Rightarrow> uuid \<Rightarrow> int" where
  "seq_of db i = (case find (\<lambda>r. ir_id r = i) (idb_incidents db) of None \<Rightarrow> 0 | Some r \<Rightarrow> ir_factSequence r)"

text \<open>What a fact says of the state: \<^verbatim>\<open>quiet\<close> and \<^verbatim>\<open>active_again\<close> are changes, the others are none.\<close>

definition tell :: "IncidentState \<Rightarrow> string \<Rightarrow> IncidentState option" where
  "tell s f =
     (if f = ''quiet'' then (if s = StateActive then Some StateQuiet else None)
      else if f = ''active_again'' then (if s = StateQuiet then Some StateActive else None)
      else Some s)"

fun replay :: "IncidentState \<Rightarrow> string list \<Rightarrow> IncidentState option" where
  "replay s [] = Some s"
| "replay s (f # fs) = (case tell s f of None \<Rightarrow> None | Some s' \<Rightarrow> replay s' fs)"

lemma replay_append: "replay s (fs @ [f]) = (case replay s fs of None \<Rightarrow> None | Some s' \<Rightarrow> tell s' f)"
  by (induction s fs rule: replay.induct) (auto split: option.splits)

definition story_ok :: "(string \<times> int) list \<Rightarrow> int \<Rightarrow> IncidentState \<Rightarrow> bool" where
  "story_ok fs n s \<longleftrightarrow> map snd fs = [1..n] \<and> fs \<noteq> [] \<and> fst (hd fs) = ''drawn'' \<and> ''drawn'' \<notin> fst ` set (tl fs) \<and>
     (\<exists>born. replay born (map fst fs) = Some s)"

lemma story_ok_next:
  assumes "story_ok fs n s" "tell s f = Some s'" "f \<noteq> ''drawn''"
  shows "story_ok (fs @ [(f, n + 1)]) (n + 1) s'"
proof -
  have "0 \<le> n" using assms(1) by (auto simp: story_ok_def upto.simps [of 1 n] split: if_splits)
  then have "[1..n + 1] = [1..n] @ [n + 1]" using upto_rec2 [of 1 "n + 1"] by simp
  moreover from assms(1) obtain born where "replay born (map fst fs) = Some s" by (auto simp: story_ok_def)
  then have "replay born (map fst (fs @ [(f, n + 1)])) = Some s'" using assms(2) by (simp add: replay_append)
  ultimately show ?thesis using assms(1,3) by (cases fs) (auto simp: story_ok_def)
qed

section \<open>Declaring\<close>

lemma facts_of_append:
  "facts_of (db\<lparr>idb_jobs := idb_jobs db @ js\<rparr>) i = facts_of db i @ List.map_filter (fact_of i) js"
  by (simp add: facts_of_def List.map_filter_def)

lemma NextSequence_Inr:
  assumes "Incident_NextSequence db i = Inr (seq, db')"
  shows "i \<in> ir_id ` set (idb_incidents db)" "seq = seq_of db i + 1" "same_tables db' db" "facts_of db' = facts_of db"
    "seq_of db' j = (if j = i then seq else seq_of db j)"
proof -
  from assms obtain r where r: "find (\<lambda>r. ir_id r = i) (idb_incidents db) = Some r" "seq = ir_factSequence r + 1"
    "db' = db\<lparr>idb_incidents := update_where (\<lambda>r. ir_id r = i) (\<lambda>r. r\<lparr>ir_factSequence := ir_factSequence r + 1\<rparr>) (idb_incidents db)\<rparr>"
    by (auto simp: Incident_NextSequence_def split: option.splits)
  show "i \<in> ir_id ` set (idb_incidents db)" using find_SomeD [OF r(1)] by auto
  show "seq = seq_of db i + 1" using r by (simp add: seq_of_def)
  show "same_tables db' db" by (simp add: same_tables_def r(3))
  show "facts_of db' = facts_of db" by (simp add: facts_of_def [abs_def] r(3))
  show "seq_of db' j = (if j = i then seq else seq_of db j)"
  proof (cases "find (\<lambda>r. ir_id r = j) (idb_incidents db)")
    case None
    with r(1) have "j \<noteq> i" by auto
    with None show ?thesis by (simp add: seq_of_def r(3) find_update_where)
  next
    case (Some x)
    with find_SomeD [OF Some] have x: "ir_id x = j" by simp
    show ?thesis
    proof (cases "j = i")
      case True
      with Some r(1) have "x = r" by simp
      with True Some r(2) x show ?thesis by (simp add: seq_of_def r(3) find_update_where)
    next
      case False
      with Some x show ?thesis by (simp add: seq_of_def r(3) find_update_where)
    qed
  qed
qed

lemma announce_Inr:
  assumes "announce draw (db, k) i f = Inr (db', k')"
  shows "i \<in> ir_id ` set (idb_incidents db)" "same_tables db' db" "k' = Suc k"
    "facts_of db' j = (if j = i then facts_of db i @ [(Fact_String f, seq_of db i + 1)] else facts_of db j)"
    "seq_of db' j = (if j = i then seq_of db i + 1 else seq_of db j)"
proof -
  from assms obtain seq db1 where n: "Incident_NextSequence db i = Inr (seq, db1)" "k' = Suc k"
    and a: "Announce db1 \<lparr>an_IncidentID = i, an_Fact = f, an_Occasion = draw k, an_Sequence = seq\<rparr> = Inr db'"
    by (auto simp: announce_def rbind_Inr_iff)
  note N = NextSequence_Inr [OF n(1)]
  have R: "Reason_String (Reason_of (Fact_String f)) = Fact_String f"
    by (cases f) (simp_all add: Reason_of_def allReasons_def)
  obtain js where js: "db' = db1\<lparr>idb_jobs := idb_jobs db1 @ NotifyIncident i (Fact_String f) (draw k) seq # js\<rparr>"
      "List.map_filter (fact_of j) js = []" for j
  proof -
    have "\<exists>js. db' = db1\<lparr>idb_jobs := idb_jobs db1 @ NotifyIncident i (Fact_String f) (draw k) seq # js\<rparr> \<and>
        (\<forall>j. List.map_filter (fact_of j) js = [])"
      using a R by (cases f) (auto simp: Announce_def announce_notify_def announce_investigate_def rbind_Inr_iff Let_def
          fact_of_def List.map_filter_def split: if_splits)
    then show thesis using that by blast
  qed
  show "i \<in> ir_id ` set (idb_incidents db)" by (rule N(1))
  show "same_tables db' db" using N(3) by (simp add: js same_tables_def)
  show "k' = Suc k" by (rule n(2))
  show "facts_of db' j = (if j = i then facts_of db i @ [(Fact_String f, seq_of db i + 1)] else facts_of db j)"
    using js(2) [of j] by (auto simp: js(1) facts_of_append N(4) N(2) fact_of_def List.map_filter_def)
  show "seq_of db' j = (if j = i then seq_of db i + 1 else seq_of db j)"
    using N(5) [of j] N(2) by (simp add: js(1) seq_of_def)
qed

text \<open>A fact in its place continues the story; it leaves the stories of the others alone.\<close>

definition told :: "IncidentDB \<Rightarrow> uuid \<Rightarrow> IncidentState \<Rightarrow> bool" where
  "told db i s \<longleftrightarrow> story_ok (facts_of db i) (seq_of db i) s"

definition same_story :: "IncidentDB \<Rightarrow> IncidentDB \<Rightarrow> uuid \<Rightarrow> bool" where
  "same_story db' db i \<longleftrightarrow> facts_of db' i = facts_of db i \<and> seq_of db' i = seq_of db i"

lemma same_story_trans: "same_story db3 db2 i \<Longrightarrow> same_story db2 db1 i \<Longrightarrow> same_story db3 db1 i"
  by (simp add: same_story_def)

lemma same_story_told: "same_story db' db i \<Longrightarrow> told db' i s = told db i s"
  by (simp add: same_story_def told_def)

lemma announce_told:
  assumes "announce draw (db, k) i f = Inr (db', k')"
  shows "\<lbrakk>told db i s; tell s (Fact_String f) = Some s'; f \<noteq> FactDrawn\<rbrakk> \<Longrightarrow> told db' i s'" "j \<noteq> i \<Longrightarrow> same_story db' db j"
proof -
  note A = announce_Inr [OF assms]
  show "j \<noteq> i \<Longrightarrow> same_story db' db j" by (simp add: same_story_def A)
  assume t: "told db i s" "tell s (Fact_String f) = Some s'" "f \<noteq> FactDrawn"
  have "Fact_String f \<noteq> ''drawn''" using t(3) by (cases f) simp_all
  then show "told db' i s'" using story_ok_next [OF t(1) [unfolded told_def] t(2)] by (simp add: told_def A)
qed

lemma announceMembership_told:
  assumes M: "announceMembership draw (db, k) i f before = Inr (db', k')"
    and t: "told db i (StateOf before)" and f: "f = FactCaseAdded \<or> f = FactCaseRemoved"
  shows "told db' i (StateOf (OpenMembers db' i))" "same_tables db' db" "j \<noteq> i \<Longrightarrow> same_story db' db j"
proof -
  let ?after = "OpenMembers db i"
  from M obtain db1 k1 where a: "announce draw (db, k) i f = Inr (db1, k1)"
    and rest: "(case Incident_Transition before ?after of Some s \<Rightarrow> announce draw (db1, k1) i s | None \<Rightarrow> Inr (db1, k1)) = Inr (db', k')"
    by (auto simp: announceMembership_def Let_def rbind_Inr_iff)
  note A = announce_Inr [OF a] and T = announce_told [OF a]
  have t1: "told db1 i (StateOf before)" by (rule T(1) [OF t]) (use f in \<open>auto simp: tell_def\<close>)
  have "told db' i (StateOf ?after) \<and> same_tables db' db \<and> (j \<noteq> i \<longrightarrow> same_story db' db j)"
  proof (cases "Incident_Transition before ?after")
    case None
    then have "StateOf before = StateOf ?after"
      by (cases "StateOf before"; cases "StateOf ?after") (auto simp: Incident_Transition_def Let_def)
    then show ?thesis using None rest t1 A(2) T(2) by simp
  next
    case (Some s)
    with rest have b: "announce draw (db1, k1) i s = Inr (db', k')" by simp
    note B = announce_Inr [OF b] and T' = announce_told [OF b]
    have "tell (StateOf before) (Fact_String s) = Some (StateOf ?after)" "s \<noteq> FactDrawn"
      using Some by (auto simp: Incident_Transition_def Let_def tell_def split: if_splits)
    then have "told db' i (StateOf ?after)" using T'(1) [OF t1] by simp
    then show ?thesis using same_tables_trans [OF B(2) A(2)] same_story_trans T(2) T'(2) by blast
  qed
  then show "told db' i (StateOf (OpenMembers db' i))" "same_tables db' db" "j \<noteq> i \<Longrightarrow> same_story db' db j"
    using same_tables_counts by auto
qed

text \<open>The sentence on the timeline changes none of it.\<close>

lemma RecordIncidentFact_Inr:
  assumes "RecordIncidentFact W draw (db, k) f = Inr (db', k')"
  shows "same_tables db' db" "same_story db' db j"
proof -
  from assms obtain ev s where "appendEvents (iw_A W) (idb_alerts db) [ev] = Inr s" "db' = db\<lparr>idb_alerts := snd s\<rparr>"
    by (auto simp: RecordIncidentFact_def AppendTimelineEvent_def rbind_Inr_iff split: if_splits)
  then have "same_rows (snd s) (idb_alerts db)" "db' = db\<lparr>idb_alerts := snd s\<rparr>" by (cases s; auto dest: appendEvents_rows)+
  then show "same_tables db' db" "same_story db' db j" by (simp_all add: same_tables_def same_story_def facts_of_def seq_of_def)
qed


section \<open>Stories under way\<close>

text \<open>
  In the middle of a transaction the facts may lag behind the tables: \<open>n\<close> is the number of open members each
  incident's facts have told so far.
\<close>

definition stories :: "IncidentDB \<Rightarrow> (uuid \<Rightarrow> int) \<Rightarrow> bool" where
  "stories db n \<longleftrightarrow>
     (\<forall>i. if i \<in> ir_id ` set (idb_incidents db) then told db i (StateOf (n i)) else facts_of db i = [])"

definition incidents_ok :: "IncidentDB \<Rightarrow> bool" where
  "incidents_ok db \<longleftrightarrow> members_ok db \<and> stories db (OpenMembers db)"

lemma same_tables_ids: "same_tables db' db \<Longrightarrow> ir_id ` set (idb_incidents db') = ir_id ` set (idb_incidents db)"
  by (auto simp: same_tables_def dest: map_eq_images)

lemma same_tables_open: "same_tables db' db \<Longrightarrow> OpenMembers db' = OpenMembers db"
  by (rule ext) (rule same_tables_counts)

lemma stories_cong:
  assumes "stories db n" "idb_incidents db' = idb_incidents db" "facts_of db' = facts_of db"
    "\<And>i. i \<in> ir_id ` set (idb_incidents db) \<Longrightarrow> StateOf (n' i) = StateOf (n i)"
  shows "stories db' n'"
  using assms unfolding stories_def told_def seq_of_def by (metis (no_types, lifting))

lemma storiesD: "stories db n \<Longrightarrow> i \<in> ir_id ` set (idb_incidents db) \<Longrightarrow> told db i (StateOf (n i))"
  "stories db n \<Longrightarrow> i \<notin> ir_id ` set (idb_incidents db) \<Longrightarrow> facts_of db i = []"
  unfolding stories_def by metis+

lemma storiesI:
  "\<lbrakk>\<And>i. i \<in> ir_id ` set (idb_incidents db) \<Longrightarrow> told db i (StateOf (n i));
    \<And>i. i \<notin> ir_id ` set (idb_incidents db) \<Longrightarrow> facts_of db i = []\<rbrakk> \<Longrightarrow> stories db n"
  unfolding stories_def by simp

lemma facts_of_same_jobs: "idb_jobs db' = idb_jobs db \<Longrightarrow> facts_of db' = facts_of db"
  by (rule ext) (simp add: facts_of_def)

text \<open>A step that tells only \<open>i\<close>'s story.\<close>

lemma stories_one:
  assumes s: "stories db n" and T: "same_tables db' db" and i: "i \<in> ir_id ` set (idb_incidents db)" "told db' i (StateOf x)"
    and other: "\<And>j. j \<noteq> i \<Longrightarrow> same_story db' db j"
  shows "stories db' (n(i := x))"
proof (rule storiesI, unfold same_tables_ids [OF T])
  fix j assume j: "j \<in> ir_id ` set (idb_incidents db)"
  show "told db' j (StateOf ((n(i := x)) j))"
    by (cases "j = i") (simp_all add: i(2) same_story_told [OF other] storiesD(1) [OF s j])
next
  fix j assume j: "j \<notin> ir_id ` set (idb_incidents db)"
  with i(1) have "j \<noteq> i" by blast
  then show "facts_of db' j = []" using other [of j] storiesD(2) [OF s j] by (simp add: same_story_def)
qed

lemma same_story_stories:
  assumes s: "stories db n" and T: "same_tables db' db" and same: "\<And>j. same_story db' db j"
  shows "stories db' n"
proof (rule storiesI, unfold same_tables_ids [OF T])
  fix j assume "j \<in> ir_id ` set (idb_incidents db)"
  then show "told db' j (StateOf (n j))" using storiesD(1) [OF s] same_story_told [OF same] by blast
next
  fix j assume "j \<notin> ir_id ` set (idb_incidents db)"
  then show "facts_of db' j = []" using storiesD(2) [OF s] same [of j] by (simp add: same_story_def)
qed

lemma announce_stories:
  assumes a: "announce draw (db, k) i f = Inr (db', k')" and s: "stories db n"
    and f: "f \<noteq> FactDrawn" "tell (StateOf (n i)) (Fact_String f) = Some (StateOf x)"
  shows "stories db' (n(i := x))"
proof -
  note A = announce_Inr [OF a] and T = announce_told [OF a]
  show ?thesis by (rule stories_one [OF s A(2,1) T(1) [OF storiesD(1) [OF s A(1)] f(2,1)] T(2)])
qed

lemma announceMembership_stories:
  assumes M: "announceMembership draw (db, k) i f (n i) = Inr (db', k')" and s: "stories db n"
    and f: "f = FactCaseAdded \<or> f = FactCaseRemoved" and i: "i \<in> ir_id ` set (idb_incidents db)"
  shows "stories db' (n(i := OpenMembers db i))" "same_tables db' db"
proof -
  note A = announceMembership_told [OF M storiesD(1) [OF s i] f]
  show "same_tables db' db" by (rule A(2))
  show "stories db' (n(i := OpenMembers db i))"
    by (rule stories_one [OF s A(2) i A(1) [unfolded same_tables_counts [OF A(2)]] A(3)])
qed

lemma RecordIncidentFact_stories:
  assumes "RecordIncidentFact W draw (db, k) f = Inr (db', k')" "stories db n"
  shows "stories db' n" "same_tables db' db"
  using same_story_stories [OF assms(2)] RecordIncidentFact_Inr [OF assms(1)] by blast+

section \<open>Members come and go\<close>

lemma members_okD:
  assumes "members_ok db"
  shows "m \<in> set (idb_members db) \<Longrightarrow> mr_incident m \<in> ir_id ` set (idb_incidents db) \<and> enrolled (idb_alerts db) (mr_case m)"
    "x \<in> set (idb_matches db) \<Longrightarrow> enrolled (idb_alerts db) (mx_case x)" "distinct (map ir_id (idb_incidents db))"
    "distinct (map ir_number (idb_incidents db))" "distinct (map mr_case (filter member_live (idb_members db)))"
  using assms unfolding members_ok_def by blast+

lemma AddMember_Inr:
  assumes "AddMember db i inc c at by' = Inr db'"
  obtains m where "db' = db\<lparr>idb_members := idb_members db @ [m]\<rparr>" "mr_incident m = inc" "mr_case m = c"
    "mr_addedByCorrelator m = by_correlatorID by'" "member_live m" "c \<notin> mr_case ` set (filter member_live (idb_members db))"
proof -
  obtain u l where a: "attributionArgs by' = (u, l, by_correlatorID by')"
    by (cases "attributionArgs by'") (auto simp: attributionArgs_def Attribution_IsHuman_def split: if_splits)
  let ?m = "\<lparr>mr_id = i, mr_incident = inc, mr_case = c, mr_addedAt = at, mr_addedBy = u, mr_addedByLabel = l,
    mr_addedByCorrelator = by_correlatorID by', mr_removedAt = 0, mr_removedBy = uuid_Nil, mr_removedByLabel = [],
    mr_movedTo = uuid_Nil\<rparr>"
  from assms have "db' = db\<lparr>idb_members := idb_members db @ [?m]\<rparr>" "c \<notin> mr_case ` set (filter member_live (idb_members db))"
    by (auto simp: AddMember_def a list_ex_iff split: if_splits)
  then show thesis by (intro that [of ?m]) (simp_all add: member_live_def)
qed

lemma AddMember_ok:
  assumes A: "AddMember db k inc c at by' = Inr db'" and ok: "members_ok db"
    and inc: "inc \<in> ir_id ` set (idb_incidents db)" and c: "enrolled (idb_alerts db) c"
    and first: "by_correlatorID by' \<noteq> uuid_Nil \<Longrightarrow> \<forall>m\<in>set (idb_members db). mr_case m = c \<longrightarrow> member_live m"
  shows "members_ok db'"
proof -
  obtain m where m: "db' = db\<lparr>idb_members := idb_members db @ [m]\<rparr>" "mr_incident m = inc" "mr_case m = c"
    "mr_addedByCorrelator m = by_correlatorID by'" "member_live m" "c \<notin> mr_case ` set (filter member_live (idb_members db))"
    using AddMember_Inr [OF A] by blast
  have "c \<notin> mr_case ` set (idb_members db)" if "by_correlatorID by' \<noteq> uuid_Nil"
    using first [OF that] m(6) by auto
  then have "machine_first {} (map member_key (idb_members db'))"
    using ok by (auto simp: members_ok_def m(1,3,4) member_key_def machine_first_append image_image)
  moreover have "distinct (map mr_case (filter member_live (idb_members db')))"
    using ok m(5,6) by (auto simp: members_ok_def m(1,3))
  ultimately show ?thesis using ok inc c by (auto simp: members_ok_def m(1,2,3))
qed

lemma AddMember_frame:
  assumes "AddMember db k inc c at by' = Inr db'"
  shows "idb_incidents db' = idb_incidents db" "idb_alerts db' = idb_alerts db" "facts_of db' = facts_of db"
    "idb_matches db' = idb_matches db" "j \<noteq> inc \<Longrightarrow> OpenMembers db' j = OpenMembers db j"
    "\<forall>m\<in>set (idb_members db'). \<not> member_live m \<longrightarrow> m \<in> set (idb_members db)"
  using assms by (auto elim!: AddMember_Inr simp: facts_of_def [abs_def] OpenMembers_def current_members_def case_open_in)

lemma filter_live_update:
  assumes "\<And>m. P m \<Longrightarrow> member_live m \<and> \<not> member_live (f m)"
  shows "filter member_live (update_where P f ms) = filter (\<lambda>m. \<not> P m) (filter member_live ms)"
  using assms by (induction ms) (auto simp: update_where_def)

lemma RemoveMember_Inr:
  assumes R: "RemoveMember db inc c at by' mv = Inr db'" and at: "0 < at" and ok: "members_ok db"
  shows "members_ok db'" "idb_incidents db' = idb_incidents db" "idb_alerts db' = idb_alerts db" "facts_of db' = facts_of db"
    "j \<noteq> inc \<Longrightarrow> OpenMembers db' j = OpenMembers db j" "inc \<in> ir_id ` set (idb_incidents db)" "enrolled (idb_alerts db) c"
    "by_correlatorID by' = uuid_Nil"
proof -
  let ?P = "\<lambda>m. mr_incident m = inc \<and> mr_case m = c \<and> member_live m"
  let ?f = "removed_member at by' mv"
  from R have db': "db' = db\<lparr>idb_members := update_where ?P ?f (idb_members db)\<rparr>"
    and h: "by_correlatorID by' = uuid_Nil" and ex: "\<exists>m\<in>set (idb_members db). ?P m"
    by (auto simp: RemoveMember_def Attribution_IsHuman_def list_ex_iff split: if_splits)
  show "by_correlatorID by' = uuid_Nil" by (rule h)
  show "idb_incidents db' = idb_incidents db" "idb_alerts db' = idb_alerts db" "facts_of db' = facts_of db"
    by (simp_all add: db' facts_of_def [abs_def])
  show "inc \<in> ir_id ` set (idb_incidents db)" "enrolled (idb_alerts db) c"
    using ex ok by (auto simp: members_ok_def)
  have dead: "\<not> member_live (?f m)" for m using at by (simp add: member_live_def removed_member_def)
  have live: "filter member_live (update_where ?P ?f (idb_members db)) = filter (\<lambda>m. \<not> ?P m) (filter member_live (idb_members db))"
    using dead by (intro filter_live_update) auto
  have keys: "map member_key (update_where ?P ?f (idb_members db)) = map member_key (idb_members db)"
    by (simp add: update_where_sel member_key_def removed_member_def)
  have set: "m \<in> set (update_where ?P ?f (idb_members db)) \<Longrightarrow> \<exists>m'\<in>set (idb_members db). mr_incident m' = mr_incident m \<and> mr_case m' = mr_case m" for m
    by (auto simp: set_update_where removed_member_def)
  have d: "distinct (map mr_case (filter (\<lambda>m. \<not> ?P m) (filter member_live (idb_members db))))"
    using ok unfolding members_ok_def by (blast intro: distinct_map_filter)
  have "\<forall>m\<in>set (idb_members db'). mr_incident m \<in> ir_id ` set (idb_incidents db') \<and> enrolled (idb_alerts db') (mr_case m)"
  proof
    fix m assume "m \<in> set (idb_members db')"
    then obtain m' where "m' \<in> set (idb_members db)" "mr_incident m' = mr_incident m" "mr_case m' = mr_case m"
      using set [of m] by (auto simp: db')
    then show "mr_incident m \<in> ir_id ` set (idb_incidents db') \<and> enrolled (idb_alerts db') (mr_case m)"
      using members_okD(1) [OF ok, of m'] by (simp add: db')
  qed
  then show "members_ok db'"
    using ok d live keys by (simp add: members_ok_def db')
  assume j: "j \<noteq> inc"
  have "filter (\<lambda>m. mr_incident m = j \<and> member_live m) (update_where ?P ?f ms) = filter (\<lambda>m. mr_incident m = j \<and> member_live m) ms" for ms
    using j dead by (induction ms) (auto simp: update_where_def)
  then have "current_members db' j = current_members db j" by (simp add: current_members_def db')
  then show "OpenMembers db' j = OpenMembers db j" by (simp add: OpenMembers_def case_open_in db')
qed


section \<open>Drawing\<close>

lemma Incident_Insert_drawn:
  assumes I: "Incident_Insert db i at by' = (drawn, db1)" and fresh: "i \<notin> ir_id ` set (idb_incidents db)"
    and a: "announce draw (db1, k) (ref_ID drawn) FactDrawn = Inr (db2, k')"
    and ok: "members_ok db" and s: "stories db n"
  shows "ref_ID drawn = i" "members_ok db2" "stories db2 (n(i := x))" "i \<in> ir_id ` set (idb_incidents db2)"
    "idb_members db2 = idb_members db" "enrolled (idb_alerts db2) = enrolled (idb_alerts db)"
    "j \<noteq> i \<Longrightarrow> OpenMembers db2 j = OpenMembers db j"
proof -
  obtain r where r: "db1 = db\<lparr>idb_nextNumber := Some (ir_number r + 1), idb_incidents := idb_incidents db @ [r]\<rparr>"
    "ir_id r = i" "ir_factSequence r = 0" "ir_number r = next_number (idb_nextNumber db)" "ref_ID drawn = i"
    using I by (auto simp: Incident_Insert_def Let_def incident_ref_def next_number_def split: prod.splits)
  show "ref_ID drawn = i" by (rule r(5))
  note A = announce_Inr [OF a, unfolded r(5)]
  note ids = same_tables_ids [OF A(2)]
  have ids': "ir_id ` set (idb_incidents db2) = insert i (ir_id ` set (idb_incidents db))" by (simp add: ids r(1,2))
  then show "i \<in> ir_id ` set (idb_incidents db2)" by simp
  have num: "1 \<le> ir_number r" "\<forall>n\<in>ir_number ` set (idb_incidents db). 1 \<le> n \<and> n < ir_number r"
    using ok unfolding members_ok_def r(4) by blast+
  have "members_ok db1"
    unfolding members_ok_def r(1)
    using ok num fresh by (auto simp: members_ok_def r(2) next_number_def)
  then show "members_ok db2" using members_ok_same [OF A(2)] by simp
  show "idb_members db2 = idb_members db" using A(2) by (simp add: same_tables_def r(1))
  show "enrolled (idb_alerts db2) = enrolled (idb_alerts db)"
    using A(2) by (auto simp: same_tables_def r(1) same_rows_cases(1))
  show "j \<noteq> i \<Longrightarrow> OpenMembers db2 j = OpenMembers db j"
    using same_tables_counts [OF A(2)] by (simp add: r(1) OpenMembers_def current_members_def case_open_in)
  have new: "facts_of db i = []" "find (\<lambda>x. ir_id x = i) (idb_incidents db) = None"
    using storiesD(2) [OF s fresh] fresh by (auto simp: find_None_iff)
  have f1: "facts_of db1 = facts_of db" by (rule facts_of_same_jobs) (simp add: r(1))
  have q1: "seq_of db1 j = (if j = i then 0 else seq_of db j)" for j
    using new(2) r(2,3) by (auto simp: seq_of_def r(1) find_app split: option.split)
  show "stories db2 (n(i := x))"
  proof (rule storiesI, unfold ids')
    fix j assume j: "j \<in> insert i (ir_id ` set (idb_incidents db))"
    show "told db2 j (StateOf ((n(i := x)) j))"
    proof (cases "j = i")
      case True
      have "replay (StateOf x) [''drawn''] = Some (StateOf x)" by (simp add: tell_def)
      then show ?thesis using True A(4) [of j] A(5) [of j] new(1) by (auto simp: told_def story_ok_def f1 q1)
    next
      case False
      with j storiesD(1) [OF s, of j] A(4) [of j] A(5) [of j] show ?thesis by (simp add: told_def f1 q1)
    qed
  next
    fix j assume "j \<notin> insert i (ir_id ` set (idb_incidents db))"
    then show "facts_of db2 j = []" using storiesD(2) [OF s, of j] A(4) [of j] by (simp add: f1)
  qed
qed

text \<open>One case of the draw, and all of them.\<close>

definition draw_inv :: "uuid \<Rightarrow> IncidentDB \<Rightarrow> (uuid \<Rightarrow> int) \<Rightarrow> IncidentDB \<Rightarrow> bool" where
  "draw_inv i db n t \<longleftrightarrow> members_ok t \<and> stories t n \<and> i \<in> ir_id ` set (idb_incidents t) \<and>
     enrolled (idb_alerts t) = enrolled (idb_alerts db) \<and> (\<forall>j. j \<noteq> i \<longrightarrow> OpenMembers t j = OpenMembers db j) \<and>
     (\<forall>m\<in>set (idb_members t). \<not> member_live m \<longrightarrow> m \<in> set (idb_members db))"

definition may_add :: "IncidentDB \<Rightarrow> Attribution \<Rightarrow> uuid \<Rightarrow> bool" where
  "may_add db by' c \<longleftrightarrow> enrolled (idb_alerts db) c \<and>
     (by_correlatorID by' \<noteq> uuid_Nil \<longrightarrow> (\<forall>m\<in>set (idb_members db). mr_case m = c \<longrightarrow> member_live m))"

lemma draw_case_inv:
  assumes d: "draw_case W draw i at by' (t, k) (c, f) = Inr (t', k')" and inv: "draw_inv i db n t" and c: "may_add db by' c"
  shows "draw_inv i db n t'"
proof -
  from d obtain t1 where a: "AddMember t (draw k) i c at by' = Inr t1" and r: "RecordIncidentFact W draw (t1, Suc k) f = Inr (t', k')"
    by (auto simp: draw_case_def rbind_Inr_iff)
  note F = AddMember_frame [OF a]
  from inv have i: "members_ok t" "stories t n" "i \<in> ir_id ` set (idb_incidents t)"
    "enrolled (idb_alerts t) = enrolled (idb_alerts db)" "\<forall>j. j \<noteq> i \<longrightarrow> OpenMembers t j = OpenMembers db j"
    "\<forall>m\<in>set (idb_members t). \<not> member_live m \<longrightarrow> m \<in> set (idb_members db)"
    unfolding draw_inv_def by blast+
  have e: "enrolled (idb_alerts t) c" using c i(4) by (simp add: may_add_def)
  have first: "\<forall>m\<in>set (idb_members t). mr_case m = c \<longrightarrow> member_live m" if "by_correlatorID by' \<noteq> uuid_Nil"
    using c that i(6) unfolding may_add_def by blast
  have "members_ok t1" by (rule AddMember_ok [OF a i(1,3) e first])
  moreover have "stories t1 n" by (rule stories_cong [OF i(2) F(1,3)]) simp
  note R = RecordIncidentFact_stories [OF r this]
  moreover have "i \<in> ir_id ` set (idb_incidents t')" using i(3) by (simp add: same_tables_ids [OF R(2)] F(1))
  moreover have "enrolled (idb_alerts t') = enrolled (idb_alerts db)"
    using R(2) i(4) by (auto simp: same_tables_def same_rows_cases(1) F(2))
  moreover have "OpenMembers t' j = OpenMembers db j" if "j \<noteq> i" for j
    using that i(5) F(5) same_tables_counts [OF R(2)] by simp
  moreover have "\<forall>m\<in>set (idb_members t'). \<not> member_live m \<longrightarrow> m \<in> set (idb_members db)"
    using F(6) i(6) R(2) unfolding same_tables_def by metis
  ultimately show ?thesis using R members_ok_same [OF R(2)] unfolding draw_inv_def by blast
qed

lemma drawn_incidents_ok:
  assumes I: "Incident_Insert db i at by' = (drawn, db1)" and fresh: "i \<notin> ir_id ` set (idb_incidents db)"
    and a: "announce draw (db1, k) (ref_ID drawn) FactDrawn = Inr st"
    and d: "run_steps (draw_case W draw (ref_ID drawn) at by') st xs = Inr (db', k')"
    and c: "\<And>c f. (c, f) \<in> set xs \<Longrightarrow> may_add db by' c" and ok: "incidents_ok db"
  shows "incidents_ok db'"
proof -
  obtain db2 k2 where st: "st = (db2, k2)" by fastforce
  from ok have m: "members_ok db" "stories db (OpenMembers db)" by (simp_all add: incidents_ok_def)
  note D = Incident_Insert_drawn [OF I fresh a [unfolded st] m]
  have "draw_inv i db ((OpenMembers db)(i := x)) (fst (db', k'))" for x
  proof (rule run_steps_inv [where P = "\<lambda>s. draw_inv i db ((OpenMembers db)(i := x)) (fst s)", OF d])
    show "draw_inv i db ((OpenMembers db)(i := x)) (fst st)"
      using D(2-7) unfolding draw_inv_def st by simp
    fix t p t' assume "p \<in> set xs" "draw_inv i db ((OpenMembers db)(i := x)) (fst t)"
      "draw_case W draw (ref_ID drawn) at by' t p = Inr t'"
    then show "draw_inv i db ((OpenMembers db)(i := x)) (fst t')"
      using draw_case_inv c D(1) by (metis prod.collapse)
  qed
  from this [of "OpenMembers db' i"] have inv: "draw_inv i db ((OpenMembers db)(i := OpenMembers db' i)) db'" by simp
  then have "(OpenMembers db)(i := OpenMembers db' i) = OpenMembers db'" by (auto simp: draw_inv_def)
  with inv show ?thesis by (simp add: draw_inv_def incidents_ok_def)
qed

end
