(* ===== verification/Incident_Verbs.thy ===== *)
theory Incident_Verbs
  imports Incident_Run
begin

text \<open>
  Every verb of the incidents module keeps \<open>incidents_ok\<close>: a human's draw, add, remove and move, the observer of
  ending cases, and the evaluator of the correlators.
\<close>

section \<open>Cases the verbs are given\<close>

lemma find_distinct: "distinct (map f xs) \<Longrightarrow> x \<in> set xs \<Longrightarrow> find (\<lambda>y. f y = f x) xs = Some x"
  by (induction xs) (auto simp: image_iff)

lemma find_case_SomeD: "find_case db i = Some c \<Longrightarrow> c_id c = i"
  by (auto simp: find_case_def dest: find_SomeD)

lemma enrolledI:
  assumes "find_case db i = Some c" "find_alert db (c_alertID c) = Some a" "\<not> al_synthetic a"
  shows "enrolled (idb_alerts db) i"
  using assms by (auto simp: enrolled_def find_case_def find_alert_def)

lemma Incident_Cases_SomeD:
  assumes "Incident_Cases db ids i = Some c" "\<not> cr_Synthetic c"
  shows "cr_ID c = i" "enrolled (idb_alerts db) i"
  using assms by (auto simp: Incident_Cases_def intro: enrolledI dest: find_case_SomeD split: if_splits option.splits)

lemma resolve_loop_Inr:
  assumes "resolve_loop (Incident_Cases db ids) is = Inr cs"
  shows "map cr_ID cs = is" "\<forall>i\<in>set is. enrolled (idb_alerts db) i"
  using assms
  by (induction "is" arbitrary: cs) (auto simp: rbind_Inr_iff Incident_Cases_SomeD split: option.splits if_splits)

lemma resolveCases_Inr:
  assumes "resolveCases db ids = Inr cs"
  shows "map cr_ID cs = ids" "i \<in> set ids \<Longrightarrow> enrolled (idb_alerts db) i"
  using resolve_loop_Inr assms unfolding resolveCases_def by blast+

lemma Incident_Ref_Inr:
  assumes "Incident_Ref db number = Inr r"
  shows "ref_ID r \<in> ir_id ` set (idb_incidents db)" "ref_Number r = number"
    "\<exists>x\<in>set (idb_incidents db). ir_number x = number \<and> ir_id x = ref_ID r"
  using assms by (auto simp: Incident_Ref_def incident_ref_def dest!: find_SomeD split: option.splits)

section \<open>The human verbs\<close>

text \<open>What a verb leaves when its transaction failed is what it found.\<close>

lemma after_commit_db:
  assumes "after_commit W db r = (x, db')" "\<And>number t k. r = Inr (number, t, k) \<Longrightarrow> incidents_ok t" "incidents_ok db"
  shows "incidents_ok db'"
  using assms by (auto simp: after_commit_def split: sum.splits)

lemma Draw_tx_ok:
  assumes D: "Draw_tx W draw db ids by' = Inr (drawn, db', k')" and h: "Attribution_IsHuman by'"
    and fresh: "draw 0 \<notin> ir_id ` set (idb_incidents db)" and ok: "incidents_ok db"
  shows "incidents_ok db'"
proof -
  obtain db1 where I: "Incident_Insert db (draw 0) (iw_now W) by' = (drawn, db1)"
    using D by (auto simp: Draw_tx_def rbind_Inr_iff split: if_splits prod.splits)
  from D I obtain cs st where cs: "resolveCases db ids = Inr cs"
    and a: "announce draw (db1, 1) (ref_ID drawn) FactDrawn = Inr st"
    and d: "run_steps (draw_case W draw (ref_ID drawn) (iw_now W) by') st
              (map (\<lambda>c. (cr_ID c, drawn_fact (IncidentsWorld_U W) drawn by' c)) cs) = Inr (db', k')"
    by (auto simp: Draw_tx_def rbind_Inr_iff split: if_splits)
  show ?thesis
  proof (rule drawn_incidents_ok [OF I fresh a d _ ok])
    fix c f assume "(c, f) \<in> set (map (\<lambda>c. (cr_ID c, drawn_fact (IncidentsWorld_U W) drawn by' c)) cs)"
    then have "c \<in> set (map cr_ID cs)" by auto
    then have "enrolled (idb_alerts db) c" using resolveCases_Inr [OF cs] by simp
    then show "may_add db by' c" using h by (simp add: may_add_def Attribution_IsHuman_def)
  qed
qed

text \<open>A new member and what it declares: the adding half of every verb that adds to an incident.\<close>

lemma joined:
  assumes A: "AddMember db k inc c at by' = Inr db1" and M: "announceMembership draw (db1, k') inc FactCaseAdded (n inc) = Inr (db2, k2)"
    and ok: "members_ok db" and s: "stories db n" and c: "may_add db by' c" and inc: "inc \<in> ir_id ` set (idb_incidents db)"
  shows "members_ok db2" "stories db2 (n(inc := OpenMembers db2 inc))" "j \<noteq> inc \<Longrightarrow> OpenMembers db2 j = OpenMembers db j"
proof -
  note F = AddMember_frame [OF A]
  have s1: "stories db1 n" by (rule stories_cong [OF s F(1,3)]) simp
  have i1: "inc \<in> ir_id ` set (idb_incidents db1)" using inc by (simp add: F(1))
  note S = announceMembership_stories [OF M s1 disjI1 [OF refl] i1]
  have "members_ok db1" using AddMember_ok [OF A ok inc] c unfolding may_add_def by blast
  then show "members_ok db2" using members_ok_same [OF S(2)] by simp
  show "stories db2 (n(inc := OpenMembers db2 inc))" using S(1) by (simp add: same_tables_open [OF S(2)])
  show "j \<noteq> inc \<Longrightarrow> OpenMembers db2 j = OpenMembers db j" using F(5) by (simp add: same_tables_open [OF S(2)])
qed

lemma recorded:
  assumes R: "RecordIncidentFact W draw (db, k) f = Inr (db', k')" and ok: "members_ok db" "stories db (OpenMembers db)"
  shows "incidents_ok db'"
  using RecordIncidentFact_stories [OF R ok(2)] ok(1)
  by (simp add: incidents_ok_def members_ok_same same_tables_open)

lemma joined_ok:
  assumes A: "AddMember db k inc c at by' = Inr db1"
    and M: "announceMembership draw (db1, k') inc FactCaseAdded (OpenMembers db inc) = Inr (db2, k2)"
    and R: "RecordIncidentFact W draw (db2, k2) f = Inr (db', k3)"
    and ok: "incidents_ok db" and c: "may_add db by' c" and inc: "inc \<in> ir_id ` set (idb_incidents db)"
  shows "incidents_ok db'"
proof -
  from ok have m: "members_ok db" "stories db (OpenMembers db)" by (simp_all add: incidents_ok_def)
  note J = joined [OF A M m c inc]
  have "(OpenMembers db)(inc := OpenMembers db2 inc) = OpenMembers db2" using J(3) by auto
  then show ?thesis using recorded [OF R J(1)] J(2) by simp
qed

text \<open>A sentence that names no correlator is a human's.\<close>

lemma RecordIncidentFact_human:
  assumes "RecordIncidentFact W draw st f = Inr st'" "cf_CorrelatorName f = []"
  shows "Attribution_IsHuman (cf_By f)"
  using assms by (cases st) (auto simp: RecordIncidentFact_def fact_actor_def split: if_splits)

lemma Add_tx_ok:
  assumes A: "Add_tx W draw db number c by' = Inr (db', k')" and ok: "incidents_ok db"
  shows "incidents_ok db'"
proof -
  from A obtain i cs db1 db2 k2 f where i: "Incident_Ref db number = Inr i" and cs: "resolveCases db [c] = Inr cs"
    and a: "AddMember db (draw 0) (ref_ID i) c (iw_now W) by' = Inr db1"
    and m: "announceMembership draw (db1, 1) (ref_ID i) FactCaseAdded (OpenMembers db (ref_ID i)) = Inr (db2, k2)"
    and r: "RecordIncidentFact W draw (db2, k2) f = Inr (db', k')" and f: "cf_By f = by'" "cf_CorrelatorName f = []"
    by (auto simp: Add_tx_def Let_def rbind_Inr_iff added_fact_def split: option.splits if_splits)
  note h = RecordIncidentFact_human [OF r f(2), unfolded f(1)]
  have "may_add db by' c" using h resolveCases_Inr(2) [OF cs] by (simp add: may_add_def Attribution_IsHuman_def)
  then show ?thesis by (rule joined_ok [OF a m r ok _ Incident_Ref_Inr(1) [OF i]])
qed

lemma removed:
  assumes R: "RemoveMember db inc c at by' mv = Inr db1" and at: "0 < at" and ok: "members_ok db" and s: "stories db n"
  shows "members_ok db1" "stories db1 n" "j \<noteq> inc \<Longrightarrow> OpenMembers db1 j = OpenMembers db j"
    "inc \<in> ir_id ` set (idb_incidents db1)" "enrolled (idb_alerts db1) c" "Attribution_IsHuman by'"
    "ir_id ` set (idb_incidents db1) = ir_id ` set (idb_incidents db)"
  using RemoveMember_Inr [OF R at ok] stories_cong [OF s RemoveMember_Inr(2,4) [OF R at ok], of n]
  by (simp_all add: Attribution_IsHuman_def)

lemma Remove_tx_ok:
  assumes X: "Remove_tx W draw db number c by' = Inr (db', k')" and at: "0 < iw_now W" and ok: "incidents_ok db"
  shows "incidents_ok db'"
proof -
  from X obtain i db1 db2 k2 f where "Incident_Ref db number = Inr i" and x: "RemoveMember db (ref_ID i) c (iw_now W) by' uuid_Nil = Inr db1"
    and m: "announceMembership draw (db1, 0) (ref_ID i) FactCaseRemoved (OpenMembers db (ref_ID i)) = Inr (db2, k2)"
    and r: "RecordIncidentFact W draw (db2, k2) f = Inr (db', k')"
    by (auto simp: Remove_tx_def Let_def rbind_Inr_iff)
  from ok have o: "members_ok db" "stories db (OpenMembers db)" by (simp_all add: incidents_ok_def)
  note Q = removed [OF x at o]
  note S = announceMembership_stories [OF m Q(2) disjI2 [OF refl] Q(4)]
  have "(OpenMembers db)(ref_ID i := OpenMembers db1 (ref_ID i)) = OpenMembers db1" using Q(3) by auto
  then show ?thesis using recorded [OF r] S Q(1) by (simp add: members_ok_same same_tables_open)
qed

lemma Move_tx_ok:
  assumes X: "Move_tx W draw db from to c by' = Inr (db', k')" and at: "0 < iw_now W" and ok: "incidents_ok db"
    and ne: "from \<noteq> to"
  shows "incidents_ok db'"
proof -
  from X obtain src dst db1 db2 db3 k3 db4 k4 f where refs: "Incident_Ref db from = Inr src" "Incident_Ref db to = Inr dst"
    and x: "RemoveMember db (ref_ID src) c (iw_now W) by' (ref_ID dst) = Inr db1"
    and a: "AddMember db1 (draw 0) (ref_ID dst) c (iw_now W) by' = Inr db2"
    and m: "announceMembership draw (db2, 1) (ref_ID src) FactCaseRemoved (OpenMembers db (ref_ID src)) = Inr (db3, k3)"
    and m': "announceMembership draw (db3, k3) (ref_ID dst) FactCaseAdded (OpenMembers db (ref_ID dst)) = Inr (db4, k4)"
    and r: "RecordIncidentFact W draw (db4, k4) f = Inr (db', k')"
    by (auto simp: Move_tx_def Let_def rbind_Inr_iff)
  from ok have o: "members_ok db" "stories db (OpenMembers db)" by (simp_all add: incidents_ok_def)
  have ids: "ref_ID src \<noteq> ref_ID dst"
  proof -
    have "inj_on ir_id (set (idb_incidents db))" using members_okD(3) [OF o(1)] by (simp add: distinct_map)
    then show ?thesis
      using Incident_Ref_Inr(3) [OF refs(1)] Incident_Ref_Inr(3) [OF refs(2)] ne by (metis inj_onD)
  qed
  note Q = removed [OF x at o]
  note F = AddMember_frame [OF a]
  have dst: "ref_ID dst \<in> ir_id ` set (idb_incidents db1)" using Incident_Ref_Inr(1) [OF refs(2)] by (simp add: Q(7))
  have m2: "members_ok db2"
    by (rule AddMember_ok [OF a Q(1) dst Q(5)]) (use Q(6) in \<open>simp add: Attribution_IsHuman_def\<close>)
  have s2: "stories db2 (OpenMembers db)" by (rule stories_cong [OF Q(2) F(1,3)]) simp
  have i2: "ref_ID src \<in> ir_id ` set (idb_incidents db2)" "ref_ID dst \<in> ir_id ` set (idb_incidents db2)"
    using Q(4) dst by (simp_all add: F(1))
  note S = announceMembership_stories [OF m s2 disjI2 [OF refl] i2(1)]
  let ?n = "(OpenMembers db)(ref_ID src := OpenMembers db2 (ref_ID src))"
  have m3: "announceMembership draw (db3, k3) (ref_ID dst) FactCaseAdded (?n (ref_ID dst)) = Inr (db4, k4)" using m' ids by simp
  have i3: "ref_ID dst \<in> ir_id ` set (idb_incidents db3)" using i2(2) by (simp add: same_tables_ids [OF S(2)])
  note S' = announceMembership_stories [OF m3 S(1) disjI1 [OF refl] i3]
  have "?n(ref_ID dst := OpenMembers db3 (ref_ID dst)) = OpenMembers db4"
    using F(5) Q(3) same_tables_open [OF S(2)] same_tables_open [OF S'(2)] by auto
  then show ?thesis
    using recorded [OF r] S'(1) m2 by (simp add: members_ok_same [OF S'(2)] members_ok_same [OF S(2)])
qed


section \<open>The observer of ending cases\<close>

lemma ended_incidents:
  assumes "run_steps (ended_incident draw) (db, k) is = Inr (db', k')" "stories db n"
    "\<forall>i\<in>set is. 0 < n i \<and> i \<in> ir_id ` set (idb_incidents db)" "distinct is"
  shows "same_tables db' db \<and> stories db' (\<lambda>i. if i \<in> set is then OpenMembers db i else n i)"
  using assms
proof (induction "is" arbitrary: db k n)
  case (Cons i "is")
  from Cons.prems(1) obtain db1 k1 where e: "ended_incident draw (db, k) i = Inr (db1, k1)"
    and r: "run_steps (ended_incident draw) (db1, k1) is = Inr (db', k')"
    by (auto simp: rbind_Inr_iff)
  let ?n = "n(i := OpenMembers db i)"
  have one: "same_tables db1 db \<and> stories db1 ?n"
  proof (cases "OpenMembers db i > 0")
    case True
    then have "db1 = db" using e by (simp add: ended_incident_def)
    moreover have "stories db ?n"
      by (rule stories_cong [OF Cons.prems(2)]) (use True Cons.prems(3) in \<open>auto simp: StateOf_def\<close>)
    ultimately show ?thesis by simp
  next
    case False
    then have a: "announce draw (db, k) i FactQuiet = Inr (db1, k1)" using e by (simp add: ended_incident_def)
    have "tell (StateOf (n i)) (Fact_String FactQuiet) = Some (StateOf (OpenMembers db i))"
      using False Cons.prems(3) by (simp add: tell_def StateOf_def)
    then show ?thesis using announce_stories [OF a Cons.prems(2)] announce_Inr(2) [OF a] by simp
  qed
  have "same_tables db' db1 \<and> stories db' (\<lambda>j. if j \<in> set is then OpenMembers db1 j else ?n j)"
    by (rule Cons.IH [OF r conjunct2 [OF one]]) (use Cons.prems(3,4) one in \<open>auto simp: same_tables_ids\<close>)
  moreover have "(\<lambda>j. if j \<in> set is then OpenMembers db1 j else ?n j) = (\<lambda>j. if j \<in> set (i # is) then OpenMembers db j else n j)"
    using one by (auto simp: same_tables_open)
  ultimately show ?case using one same_tables_trans by auto
qed simp

text \<open>
  A transaction of the alerts module, as far as incidents can see it: cases and alerts stay, a case that ended stays
  ended, a case that was open and ended is announced, and no case is announced that had ended before.
\<close>

definition signal_step :: "Store \<Rightarrow> Store \<Rightarrow> uuid list \<Rightarrow> bool" where
  "signal_step s s' ended \<longleftrightarrow> (\<forall>i. enrolled s i \<longrightarrow> enrolled s' i) \<and>
     (\<forall>i. enrolled s i \<longrightarrow> \<not> open_in s i \<longrightarrow> \<not> open_in s' i) \<and>
     (\<forall>i. enrolled s i \<longrightarrow> open_in s i \<longrightarrow> \<not> open_in s' i \<longrightarrow> i \<in> set ended) \<and>
     (\<forall>i\<in>set ended. enrolled s i \<longrightarrow> open_in s i)"

lemma Holding_mem: "i \<in> set (Holding db ids) \<longleftrightarrow> (\<exists>m\<in>set (idb_members db). mr_case m \<in> set ids \<and> member_live m \<and> mr_incident m = i)"
  by (auto simp: Holding_def)

lemma OpenMembers_pos:
  "0 < OpenMembers db i \<longleftrightarrow> (\<exists>m\<in>set (idb_members db). mr_incident m = i \<and> member_live m \<and> open_in (idb_alerts db) (mr_case m))"
  by (auto simp: OpenMembers_def current_members_def case_open_in filter_empty_conv)

lemma CasesEnded_ok:
  assumes E: "CasesEnded draw (db\<lparr>idb_alerts := s\<rparr>, k) ended = Inr (db', k')" and sig: "signal_step (idb_alerts db) s ended"
    and ok: "incidents_ok db"
  shows "incidents_ok db'"
proof -
  let ?d = "db\<lparr>idb_alerts := s\<rparr>"
  from ok have o: "members_ok db" "stories db (OpenMembers db)" by (simp_all add: incidents_ok_def)
  note M = members_okD [OF o(1)]
  have md: "members_ok ?d" using o(1) sig unfolding members_ok_def signal_step_def by simp
  have sd: "stories ?d (OpenMembers db)" by (rule stories_cong [OF o(2)]) (simp_all add: facts_of_def [abs_def])
  have held: "0 < OpenMembers db i \<and> i \<in> ir_id ` set (idb_incidents ?d)" if i: "i \<in> set (Holding ?d ended)" for i
  proof -
    obtain m where m: "m \<in> set (idb_members db)" "mr_case m \<in> set ended" "member_live m" "mr_incident m = i"
      using i by (auto simp: Holding_mem)
    then have "open_in (idb_alerts db) (mr_case m)" using sig M(1) [OF m(1)] unfolding signal_step_def by blast
    then show ?thesis using m M(1) [OF m(1)] by (auto simp: OpenMembers_pos)
  qed
  have idle: "StateOf (OpenMembers db i) = StateOf (OpenMembers ?d i)" if i: "i \<notin> set (Holding ?d ended)" for i
  proof -
    have "open_in s (mr_case m) = open_in (idb_alerts db) (mr_case m)"
      if "m \<in> set (idb_members db)" "mr_incident m = i" "member_live m" for m
      using that i M(1) [OF that(1)] sig unfolding Holding_mem signal_step_def by auto
    then have "0 < OpenMembers db i \<longleftrightarrow> 0 < OpenMembers ?d i" unfolding OpenMembers_pos by auto
    then show ?thesis by (simp add: StateOf_def)
  qed
  have run: "run_steps (ended_incident draw) (?d, k) (Holding ?d ended) = Inr (db', k')"
    using E by (auto simp: CasesEnded_def Holding_def split: if_splits)
  have R: "same_tables db' ?d \<and> stories db' (\<lambda>i. if i \<in> set (Holding ?d ended) then OpenMembers ?d i else OpenMembers db i)"
    by (rule ended_incidents [OF run sd]) (use held in \<open>auto simp: Holding_def\<close>)
  have "stories db' (OpenMembers ?d)"
    using R idle by (intro stories_cong [OF conjunct2 [OF R] refl refl]) auto
  then show ?thesis
    using md by (simp add: incidents_ok_def members_ok_same [OF conjunct1 [OF R]] same_tables_open [OF conjunct1 [OF R]])
qed

section \<open>The correlators\<close>

lemma Count_Span_subset:
  assumes "Count_Span U c a os = Some xs"
  shows "set xs \<subseteq> insert a (set os)"
  using assms
  by (auto simp: Count_Span_def Let_def split: if_splits option.splits prod.splits dest!: in_set_takeD in_set_dropD)

lemma RecordMatch_ok:
  assumes "incidents_ok db" "enrolled (idb_alerts db) (cr_ID (cc_Ref c))"
  shows "incidents_ok (RecordMatch db k c at)"
proof -
  have m: "members_ok (RecordMatch db k c at)"
    using assms unfolding incidents_ok_def members_ok_def RecordMatch_def by simp
  have "OpenMembers (RecordMatch db k c at) = OpenMembers db"
    by (rule ext) (simp add: RecordMatch_def OpenMembers_def current_members_def case_open_in)
  moreover have "stories (RecordMatch db k c at) (OpenMembers db)"
    by (rule stories_cong [of db "OpenMembers db"]) (use assms(1) in \<open>simp_all add: incidents_ok_def RecordMatch_def facts_of_def [abs_def]\<close>)
  ultimately show ?thesis using m by (simp add: incidents_ok_def)
qed

lemma LatestDrawn_SomeD:
  assumes "LatestDrawn db k = Some li"
  shows "ref_ID (ci_Ref li) \<in> ir_id ` set (idb_incidents db)"
proof -
  obtain r rs where r: "sort_key (\<lambda>r. - ir_number r) (filter (\<lambda>r. ir_drawnByCorrelator r = k) (idb_incidents db)) = r # rs"
    and li: "ref_ID (ci_Ref li) = ir_id r"
    using assms by (auto simp: LatestDrawn_def incident_ref_def split: list.splits)
  have "r \<in> set (sort_key (\<lambda>r. - ir_number r) (filter (\<lambda>r. ir_drawnByCorrelator r = k) (idb_incidents db)))"
    unfolding r by simp
  then show ?thesis by (auto simp: li)
qed

lemma WindowCandidates_may_add:
  assumes "c \<in> set (WindowCandidates db k from to except)" "members_ok db"
  shows "may_add db by' (cr_ID (ca_Ref c))"
proof -
  obtain x y where x: "x \<in> set (idb_matches db)" "\<not> list_ex (\<lambda>m. mr_case m = mx_case x) (idb_members db)"
    and y: "find_case db (mx_case x) = Some y" "cr_ID (ca_Ref c) = c_id y"
    using assms(1) by (auto simp: WindowCandidates_def List.map_filter_def)
  then show ?thesis
    using members_okD(2) [OF assms(2) x(1)] find_case_SomeD [OF y(1)] by (auto simp: may_add_def list_ex_iff)
qed

lemma Store_CorrelationCase_Inr:
  assumes "Store_CorrelationCase db i = Inr c" "Case_Claimable c"
  shows "cr_ID (cc_Ref c) = i" "enrolled (idb_alerts db) i" "may_add db by' i"
proof -
  show e: "cr_ID (cc_Ref c) = i" "enrolled (idb_alerts db) i"
    using assms by (auto simp: Store_CorrelationCase_def Case_Claimable_def intro: enrolledI dest: find_case_SomeD split: option.splits)
  show "may_add db by' i"
    using assms e(2) by (auto simp: may_add_def Store_CorrelationCase_def Case_Claimable_def list_ex_iff split: option.splits)
qed

lemma correlate_claimed_ok:
  assumes C: "correlate_claimed W draw db k cs = Inr (v, db', k')" and ok: "incidents_ok db"
    and c: "\<And>by'. may_add db by' (cr_ID (cc_Ref cs))" and fresh: "draw 0 \<notin> ir_id ` set (idb_incidents db)"
  shows "incidents_ok db'"
proof -
  have draws: "incidents_ok db'" if d: "correlator_draw W draw db k span = Inr (drawn, db', k')"
    and sp: "\<And>x. x \<in> set span \<Longrightarrow> may_add db (ByCorrelator (co_ID k)) (cr_ID (ca_Ref x))" for span drawn
  proof -
    obtain db1 st where I: "Incident_Insert db (draw 0) (iw_now W) (ByCorrelator (co_ID k)) = (drawn, db1)"
      and a: "announce draw (db1, 1) (ref_ID drawn) FactDrawn = Inr st"
      and r: "run_steps (draw_case W draw (ref_ID drawn) (iw_now W) (ByCorrelator (co_ID k))) st
        (map (\<lambda>c. (cr_ID (ca_Ref c), correlated_fact W ''Drawn into'' True drawn k (ca_Ref c))) span) = Inr (db', k')"
      using d by (auto simp: correlator_draw_def Let_def rbind_Inr_iff split: prod.splits)
    show ?thesis by (rule drawn_incidents_ok [OF I fresh a r _ ok]) (use sp in auto)
  qed
  have join: "incidents_ok db'" if j: "correlator_join W draw db k (ci_Ref li) (cc_Ref cs) = Inr (db', k')"
    and li: "LatestDrawn db (co_ID k) = Some li" for li
  proof -
    obtain db1 db2 k2 f where a: "AddMember db (draw 0) (ref_ID (ci_Ref li)) (cr_ID (cc_Ref cs)) (iw_now W) (ByCorrelator (co_ID k)) = Inr db1"
      and m: "announceMembership draw (db1, 1) (ref_ID (ci_Ref li)) FactCaseAdded (OpenMembers db (ref_ID (ci_Ref li))) = Inr (db2, k2)"
      and r: "RecordIncidentFact W draw (db2, k2) f = Inr (db', k')"
      using j by (auto simp: correlator_join_def Let_def rbind_Inr_iff)
    show ?thesis by (rule joined_ok [OF a m r ok c LatestDrawn_SomeD [OF li]])
  qed
  have span: "may_add db (ByCorrelator (co_ID k)) (cr_ID (ca_Ref x))"
    if "Count_Span U d \<lparr>ca_Ref = cc_Ref cs, ca_StartedAt = t\<rparr> os = Some xs" "x \<in> set xs"
      "set os \<subseteq> set (WindowCandidates db (co_ID k) lo hi ex)" for U d t os xs x lo hi ex
  proof -
    have "x = \<lparr>ca_Ref = cc_Ref cs, ca_StartedAt = t\<rparr> \<or> x \<in> set (WindowCandidates db (co_ID k) lo hi ex)"
      using Count_Span_subset [OF that(1)] that(2,3) by blast
    then show ?thesis using c WindowCandidates_may_add ok by (auto simp: incidents_ok_def)
  qed
  have "incidents_ok db'" if "(case Count_Span (IncidentsWorld_U W) (co_Count k) \<lparr>ca_Ref = cc_Ref cs, ca_StartedAt = cc_StartedAt cs\<rparr>
        (if DrawCount_Enabled (co_Count k)
         then WindowCandidates db (co_ID k) (cc_StartedAt cs - ct_Window (co_Count k)) (cc_StartedAt cs + ct_Window (co_Count k))
                (cr_ID (cc_Ref cs)) else []) of
        None \<Rightarrow> Inr (declined VerdictBelowCount (co_ID k), (db, 0))
      | Some span \<Rightarrow> rbind (correlator_draw W draw db k span) (\<lambda>(drawn, st).
          Inr (\<lparr>cn_Verdict = VerdictDrew, cn_CorrelatorID = co_ID k, cn_Incident = drawn\<rparr>, st))) = Inr (v, db', k')"
  proof (cases "Count_Span (IncidentsWorld_U W) (co_Count k) \<lparr>ca_Ref = cc_Ref cs, ca_StartedAt = cc_StartedAt cs\<rparr>
        (if DrawCount_Enabled (co_Count k)
         then WindowCandidates db (co_ID k) (cc_StartedAt cs - ct_Window (co_Count k)) (cc_StartedAt cs + ct_Window (co_Count k))
                (cr_ID (cc_Ref cs)) else [])")
    case (Some xs)
    have "may_add db (ByCorrelator (co_ID k)) (cr_ID (ca_Ref x))" if "x \<in> set xs" for x
      by (rule span [OF Some that, of "cc_StartedAt cs - ct_Window (co_Count k)" "cc_StartedAt cs + ct_Window (co_Count k)"
            "cr_ID (cc_Ref cs)"]) auto
    then show ?thesis using that Some by (auto simp: rbind_Inr_iff intro: draws)
  qed (use that ok in simp)
  with C show ?thesis
    by (auto simp: correlate_claimed_def Let_def rbind_Inr_iff split: option.splits if_splits intro: join)
qed

lemma Correlate_ok:
  assumes C: "Correlate W draw db i = Inr (v, db', k')" and ok: "incidents_ok db"
    and fresh: "draw 0 \<notin> ir_id ` set (idb_incidents db)"
  shows "incidents_ok db'"
proof -
  from C obtain cs where cs: "Store_CorrelationCase db i = Inr cs" by (auto simp: Correlate_def rbind_Inr_iff)
  show ?thesis
  proof (cases "Case_Claimable cs")
    case False
    then show ?thesis using C cs ok by (simp add: Correlate_def)
  next
    case True
    note S = Store_CorrelationCase_Inr [OF cs True]
    have claimed: "incidents_ok db'"
      if "correlate_claimed W draw (RecordMatch db (co_ID k) cs (iw_now W)) k cs = Inr (v, db', k')" for k
    proof (rule correlate_claimed_ok [OF that])
      show "incidents_ok (RecordMatch db (co_ID k) cs (iw_now W))" using ok S(1,2) by (intro RecordMatch_ok) simp_all
      show "may_add (RecordMatch db (co_ID k) cs (iw_now W)) by' (cr_ID (cc_Ref cs))" for by'
        using S(1,3) by (simp add: may_add_def RecordMatch_def)
      show "draw 0 \<notin> ir_id ` set (idb_incidents (RecordMatch db (co_ID k) cs (iw_now W)))" using fresh by (simp add: RecordMatch_def)
    qed
    obtain first where "firstMatch (iw_R W) (Correlator_Live db) (cc_Labels cs) = Inr first"
      using C cs True by (auto simp: Correlate_def rbind_Inr_iff)
    with C cs True have X: "(case first of
          None \<Rightarrow> Inr (declined VerdictNoMatch uuid_Nil, (db, 0))
        | Some f \<Rightarrow>
            (case Correlator_Get db (co_ID f) of
               Inl e \<Rightarrow> if errKind e = KindNotFound then Inr (declined VerdictNoMatch uuid_Nil, (db, 0)) else Inl e
             | Inr k \<Rightarrow> correlate_claimed W draw (RecordMatch db (co_ID k) cs (iw_now W)) k cs)) = Inr (v, db', k')"
      by (simp add: Correlate_def)
    show ?thesis
    proof (cases first)
      case (Some f)
      with X ok claimed show ?thesis by (cases "Correlator_Get db (co_ID f)") (auto split: if_splits)
    qed (use X ok in simp)
  qed
qed

end
