(* ===== verification/Incident_Correct.thy ===== *)
theory Incident_Correct
  imports Incident_Verbs Observe_Correct
begin

text \<open>
  The histories of the incidents module as a relation on its database, and what holds in all of them: C7 (membership)
  and C14 (the facts tell the state). C13 is the refusal of a human who has no row in \<^verbatim>\<open>users\<close>.
\<close>

section \<open>Histories\<close>

text \<open>
  Transactions of the module in any order, with a clock and a supply of ids of their own each, between transactions of
  the alerts module; other modules declare facts of their own reasons and record receipts. An incident is drawn under
  a fresh id.
\<close>

inductive incident_reach :: "IncidentDB \<Rightarrow> bool" where
  start: "\<lbrakk>idb_incidents db = []; idb_members db = []; idb_matches db = []; idb_nextNumber db = None; idb_jobs db = []\<rbrakk>
    \<Longrightarrow> incident_reach db"
| signals: "\<lbrakk>incident_reach db; signal_step (idb_alerts db) s ended; CasesEnded draw (db\<lparr>idb_alerts := s\<rparr>, 0) ended = Inr (db', k)\<rbrakk>
    \<Longrightarrow> incident_reach db'"
| drew: "\<lbrakk>incident_reach db; draw 0 \<notin> ir_id ` set (idb_incidents db); Incident_Draw W draw db ids by' = (x, db')\<rbrakk>
    \<Longrightarrow> incident_reach db'"
| added: "\<lbrakk>incident_reach db; Incident_Add W draw db number c by' = (x, db')\<rbrakk> \<Longrightarrow> incident_reach db'"
| removed: "\<lbrakk>incident_reach db; 0 < iw_now W; Incident_Remove W draw db number c by' = (x, db')\<rbrakk> \<Longrightarrow> incident_reach db'"
| moved: "\<lbrakk>incident_reach db; 0 < iw_now W; Incident_Move W draw db src dst c by' = (x, db')\<rbrakk> \<Longrightarrow> incident_reach db'"
| correlated: "\<lbrakk>incident_reach db; draw 0 \<notin> ir_id ` set (idb_incidents db); Correlate W draw db c = Inr (v, db', k)\<rbrakk>
    \<Longrightarrow> incident_reach db'"
| created: "\<lbrakk>incident_reach db; Correlators_Create W i db d = Inr (k, db')\<rbrakk> \<Longrightarrow> incident_reach db'"
| updated: "\<lbrakk>incident_reach db; Correlators_Update W db i p = Inr (k, db')\<rbrakk> \<Longrightarrow> incident_reach db'"
| deleted: "\<lbrakk>incident_reach db; Correlators_Delete W db i = Inr db'\<rbrakk> \<Longrightarrow> incident_reach db'"
| declared: "\<lbrakk>incident_reach db; declare_fact db i reason occasion = Inr db'; reason \<notin> set (map Fact_String [FactDrawn, FactQuiet, FactActiveAgain])\<rbrakk>
    \<Longrightarrow> incident_reach db'"
| receipt: "incident_reach db \<Longrightarrow> incident_reach (db\<lparr>idb_outbound := o'\<rparr>)"

lemma incidents_ok_correlators:
  assumes "incidents_ok db"
  shows "incidents_ok (db\<lparr>idb_correlators := ks\<rparr>)" "incidents_ok (db\<lparr>idb_outbound := o'\<rparr>)"
proof -
  have s: "same_tables (db\<lparr>idb_correlators := ks\<rparr>) db" "same_tables (db\<lparr>idb_outbound := o'\<rparr>) db"
    by (simp_all add: same_tables_def)
  have "same_story (db\<lparr>idb_correlators := ks\<rparr>) db j" "same_story (db\<lparr>idb_outbound := o'\<rparr>) db j" for j
    by (simp_all add: same_story_def facts_of_def seq_of_def)
  then show "incidents_ok (db\<lparr>idb_correlators := ks\<rparr>)" "incidents_ok (db\<lparr>idb_outbound := o'\<rparr>)"
    using assms same_story_stories s
    by (auto simp: incidents_ok_def members_ok_same [OF s(1)] members_ok_same [OF s(2)] same_tables_open [OF s(1)] same_tables_open [OF s(2)])
qed

lemma declare_fact_ok:
  assumes D: "declare_fact db i reason occ = Inr db'" and r: "reason \<notin> set (map Fact_String [FactDrawn, FactQuiet, FactActiveAgain])"
    and ok: "incidents_ok db"
  shows "incidents_ok db'"
proof -
  obtain seq db1 where n: "Incident_NextSequence db i = Inr (seq, db1)"
    and db': "db' = db1\<lparr>idb_jobs := idb_jobs db1 @ [NotifyIncident i reason occ seq]\<rparr>"
    using D by (auto simp: declare_fact_def NextFactSequence_def rbind_Inr_iff)
  note N = NextSequence_Inr [OF n]
  have T: "same_tables db' db" using N(3) by (simp add: db' same_tables_def)
  have f: "facts_of db' j = (if j = i then facts_of db i @ [(reason, seq_of db i + 1)] else facts_of db j)" for j
    by (simp add: db' facts_of_append N(2,4) fact_of_def List.map_filter_def)
  have q: "seq_of db' j = (if j = i then seq_of db i + 1 else seq_of db j)" for j
    using N(5) [of j] N(2) by (simp add: db' seq_of_def)
  from ok have o: "members_ok db" "stories db (OpenMembers db)" by (simp_all add: incidents_ok_def)
  have t: "told db' i (StateOf (OpenMembers db i))"
    using story_ok_next [OF storiesD(1) [OF o(2) N(1), unfolded told_def], of reason] r by (auto simp: told_def f q tell_def)
  have "stories db' ((OpenMembers db)(i := OpenMembers db i))"
    by (rule stories_one [OF o(2) T N(1) t]) (simp add: same_story_def f q)
  then show ?thesis using o(1) by (simp add: incidents_ok_def members_ok_same [OF T] same_tables_open [OF T])
qed

theorem reach_incidents_ok: "incident_reach db \<Longrightarrow> incidents_ok db"
proof (induction rule: incident_reach.induct)
  case (start db)
  then show ?case
    by (simp add: incidents_ok_def members_ok_def stories_def next_number_def facts_of_def List.map_filter_def)
next
  case (signals db s ended draw db' k)
  show ?case by (rule CasesEnded_ok [OF signals(3,2,4)])
next
  case (drew db draw W ids by' x db')
  then show ?case
    by (auto simp: Incident_Draw_def rbind_Inr_iff intro: Draw_tx_ok elim!: after_commit_db split: if_splits)
next
  case (added db W draw number c by' x db')
  then show ?case by (auto simp: Incident_Add_def rbind_Inr_iff intro: Add_tx_ok elim!: after_commit_db)
next
  case (removed db W draw number c by' x db')
  then show ?case by (auto simp: Incident_Remove_def rbind_Inr_iff intro: Remove_tx_ok elim!: after_commit_db)
next
  case (moved db W draw src dst c by' x db')
  then show ?case by (auto simp: Incident_Move_def rbind_Inr_iff intro: Move_tx_ok elim!: after_commit_db split: if_splits)
next
  case (correlated db draw W c v db' k)
  show ?case by (rule Correlate_ok [OF correlated(3,4,2)])
next
  case (created db W i d k db')
  then show ?case
    by (auto simp: Correlators_Create_def Correlator_Create_def or_fail_def Let_def incidents_ok_correlators split: if_splits option.splits)
next
  case (updated db W i p k db')
  then show ?case
    by (auto simp: Correlators_Update_def Correlator_Update_def or_fail_def Let_def rbind_Inr_iff incidents_ok_correlators split: if_splits option.splits)
next
  case (deleted db W i db')
  then show ?case by (auto simp: Correlators_Delete_def Correlator_Delete_def incidents_ok_correlators split: if_splits)
next
  case (declared db i reason occasion db')
  show ?case by (rule declare_fact_ok [OF declared(2,3,4)])
next
  case (receipt db o')
  then show ?case by (simp add: incidents_ok_correlators)
qed

section \<open>An example\<close>

text \<open>Ann draws the open case 12 into an incident, and then the case ends.\<close>

definition ex_incidents :: IncidentsWorld where
  "ex_incidents = \<lparr>iw_A = ex_service, iw_now = 500, iw_R = ex_regex, iw_IsPrint = (\<lambda>_. True), iw_Fold = (\<lambda>s. s), iw_Collate = (\<lambda>s. s)\<rparr>"

definition ex_ann :: Attribution where "ex_ann = zeroAttribution\<lparr>by_userID := 5, by_label := ''ann''\<rparr>"

definition ex_board :: IncidentDB where
  "ex_board = \<lparr>idb_alerts = ex_empty\<lparr>st_alerts := [ex_row 12 1], st_cases := [ex_c]\<rparr>, idb_incidents = [], idb_members = [],
     idb_nextNumber = None, idb_correlators = [], idb_matches = [], idb_outbound = [], idb_jobs = []\<rparr>"


definition ex_cref :: CaseRef where "ex_cref = \<lparr>cr_ID = 12, cr_Number = 1, cr_AlertID = 10, cr_Synthetic = False\<rparr>"

definition ex_ref :: IncidentRef where "ex_ref = \<lparr>ref_ID = 10, ref_Number = 1\<rparr>"

lemma actor_user: "NewActorKind ''user'' = Inr ActorUser"
  by code_simp

lemma ex_distinct: "distinctCases [12] = Inr [12]"
  by (simp add: distinctCases_def MaxCasesPerDraw_def)

lemma ex_resolved: "resolveCases ex_board [12] = Inr [ex_cref]"
  by (simp add: resolveCases_def Incident_Cases_def find_case_def find_alert_def ex_board_def ex_cref_def ex_c_def ex_row_sel)

definition ex_event :: Event where
  "ex_event = \<lparr>ev_id = 13, ev_orgID = 1, ev_alertID = 10, ev_caseID = 12, ev_groupID = 0, ev_typ = EventIncidentCaseAdded,
     ev_at = \<lparr>occurredAt = 500, recordedAt = 500\<rparr>, ev_actor = \<lparr>a_kind = ActorUser, a_id = canonical_uuid 5, a_label = ''ann''\<rparr>,
     ev_summary = ''Drawn into Incident #1 by ann'', ev_payload = incident_payload canonical_lib ex_ref @ [(''drawn'', JBool True)],
     ev_dedupeKey = []\<rparr>"

lemma ex_kind: "Retired EventIncidentCaseAdded = False"
  by code_simp

lemma ex_sum: "''Drawn into Incident #'' @ itoa 1 @ '' by '' @ ''ann'' = ''Drawn into Incident #1 by ann''"
  by code_simp

lemma ex_at': "NewObservationTime 500 500 = Inr \<lparr>occurredAt = 500, recordedAt = 500\<rparr>"
  by code_simp

lemma ex_actor: "NewActor ActorUser (canonical_uuid 5) ''ann'' = Inr \<lparr>a_kind = ActorUser, a_id = canonical_uuid 5, a_label = ''ann''\<rparr>"
  by code_simp

lemma ex_sentence: "TrimSpace ''Drawn into Incident #1 by ann'' = ''Drawn into Incident #1 by ann''" "EventTypeRe ''incident.case_added''"
  "EventType_IsZero EventIncidentCaseAdded = False"
  by code_simp+

lemma ex_new: "NewEvent ex_event = Inr ex_event"
  unfolding NewEvent_def ex_event_def
  by (simp add: oto_defs MaxEventSummaryBytes_def requireID_def MaxDedupeKeyBytes_def Let_def ex_sentence)

lemma ex_append: "AppendBatch db [ex_event] = Inr (1, db\<lparr>st_events := st_events db @ [ex_event]\<rparr>)"
  by (simp add: AppendBatch_def ex_event_def Let_def)

definition ex_drawn :: IncidentDB where
  "ex_drawn = ex_board\<lparr>idb_alerts := (idb_alerts ex_board)\<lparr>st_events := [ex_event]\<rparr>,
     idb_incidents := [\<lparr>ir_id = 10, ir_number = 1, ir_drawnAt = 500, ir_drawnBy = 5, ir_drawnByLabel = ''ann'',
       ir_drawnByCorrelator = 0, ir_factSequence = 1\<rparr>],
     idb_members := [\<lparr>mr_id = 12, mr_incident = 10, mr_case = 12, mr_addedAt = 500, mr_addedBy = 5, mr_addedByLabel = ''ann'',
       mr_addedByCorrelator = 0, mr_removedAt = 0, mr_removedBy = 0, mr_removedByLabel = [], mr_movedTo = 0\<rparr>],
     idb_nextNumber := Some 2,
     idb_jobs := [NotifyIncident 10 ''drawn'' 11 1, InvestigationsIncident 10 ''drawn'']\<rparr>"

lemma ex_record: "RecordIncidentFact ex_incidents ex_ids (db, 3) (drawn_fact canonical_lib ex_ref ex_ann ex_cref) =
  Inr (db\<lparr>idb_alerts := (idb_alerts db)\<lparr>st_events := st_events (idb_alerts db) @ [ex_event]\<rparr>\<rparr>, 4)"
proof -
  have "AppendTimelineEvent ex_service 13 s
      \<lparr>te_Type = EventIncidentCaseAdded, te_AlertID = 10, te_CaseID = 12, te_Summary = ''Drawn into Incident #1 by ann'',
       te_Payload = incident_payload canonical_lib ex_ref @ [(''drawn'', JBool True)], te_DedupeKey = [], te_ActorKind = ''user'',
       te_ActorID = canonical_uuid 5, te_ActorLabel = ''ann''\<rparr> = Inr (s\<lparr>st_events := st_events s @ [ex_event]\<rparr>)" for s
    using ex_new ex_append [of s] ex_kind
    by (simp add: AppendTimelineEvent_def actor_user ex_actor ex_service_sel ex_at' ex_event_def appendEvents_def refuseRetired_def
        publishEvent_def publish_def)
  moreover have "drawn_fact canonical_lib ex_ref ex_ann ex_cref = \<lparr>cf_Type = EventIncidentCaseAdded, cf_CaseID = 12, cf_AlertID = 10,
      cf_Summary = ''Drawn into Incident #1 by ann'', cf_Payload = incident_payload canonical_lib ex_ref @ [(''drawn'', JBool True)],
      cf_By = ex_ann, cf_CorrelatorName = []\<rparr>"
    using ex_sum by (simp add: drawn_fact_def ex_ref_def ex_cref_def who_def ex_ann_def zeroAttribution_def Attribution_IsHuman_def)
  ultimately show ?thesis
    by (simp add: RecordIncidentFact_def fact_actor_def ex_ann_def zeroAttribution_def Attribution_IsHuman_def ex_incidents_def
        IncidentsWorld_U_def ex_service_def canonical_lib_def ex_ids_sel)
qed

lemma ex_subject: "Reason_Valid ReasonDrawn \<and> Reason_Subject ReasonDrawn = SubjectIncident" "Reason_Valid ReasonQuiet \<and> Reason_Subject ReasonQuiet = SubjectIncident"
  by code_simp+

lemma ex_reason: "Reason_of ''drawn'' = ReasonDrawn" "Reason_of ''quiet'' = ReasonQuiet"
  by (simp_all add: Reason_of_def allReasons_def)

lemma ex_draw: "snd (Incident_Draw ex_incidents ex_ids ex_board [12] ex_ann) = ex_drawn"
proof -
  let ?row = "\<lparr>ir_id = 10, ir_number = 1, ir_drawnAt = 500, ir_drawnBy = 5, ir_drawnByLabel = ''ann'', ir_drawnByCorrelator = 0, ir_factSequence = 0\<rparr>"
  let ?db1 = "ex_board\<lparr>idb_nextNumber := Some 2, idb_incidents := [?row]\<rparr>"
  let ?db2 = "?db1\<lparr>idb_incidents := [?row\<lparr>ir_factSequence := 1\<rparr>], idb_jobs := idb_jobs ex_drawn\<rparr>"
  have ann: "Attribution_IsHuman ex_ann" "attributionArgs ex_ann = (5, ''ann'', 0)"
    by (simp_all add: ex_ann_def zeroAttribution_def Attribution_IsHuman_def attributionArgs_def)
  have W: "iw_now ex_incidents = 500" "IncidentsWorld_U ex_incidents = canonical_lib"
    by (simp_all add: ex_incidents_def IncidentsWorld_U_def ex_service_def)
  have i: "Incident_Insert ex_board 10 500 ex_ann = (ex_ref, ?db1)"
    by (simp add: Incident_Insert_def ann ex_board_def incident_ref_def ex_ref_def)
  have a: "announce ex_ids (?db1, 1) 10 FactDrawn = Inr (?db2, 2)"
    by (simp add: announce_def Incident_NextSequence_def update_where_def Announce_def announce_notify_def announce_investigate_def
        ex_reason ex_subject ex_ids_sel ex_board_def ex_drawn_def)
  have d: "draw_case ex_incidents ex_ids 10 500 ex_ann (?db2, 2) (12, drawn_fact canonical_lib ex_ref ex_ann ex_cref) = Inr (ex_drawn, 4)"
    by (simp add: draw_case_def AddMember_def ann ex_ids_sel ex_record ex_drawn_def ex_board_def ex_empty_def)
  have "Draw_tx ex_incidents ex_ids ex_board [12] ex_ann = Inr (ex_ref, ex_drawn, 4)"
    using i a d
    by (simp add: Draw_tx_def ex_resolved W ex_ids_sel ex_ref_def ex_cref_def) (simp add: LiveMemberships_def List.map_filter_def ex_board_def)
  then show ?thesis by (simp add: Incident_Draw_def ex_distinct after_commit_def ann)
qed

text \<open>The one member's case ends: the incident goes quiet.\<close>

definition ex_over :: Store where
  "ex_over = (idb_alerts ex_drawn)\<lparr>st_cases := [ex_c\<lparr>c_state := CaseClosed, c_endedAt := 600, c_resolveReason := ResolveUpstream\<rparr>]\<rparr>"

definition ex_quiet :: IncidentDB where
  "ex_quiet = ex_drawn\<lparr>idb_alerts := ex_over, idb_incidents := map (\<lambda>r. r\<lparr>ir_factSequence := 2\<rparr>) (idb_incidents ex_drawn),
     idb_jobs := idb_jobs ex_drawn @ [NotifyIncident 10 ''quiet'' 20 2]\<rparr>"

lemma ex_ended: "CasesEnded (\<lambda>k. of_nat (20 + k)) (ex_drawn\<lparr>idb_alerts := ex_over\<rparr>, 0) [12] = Inr (ex_quiet, 1)"
  by (simp add: CasesEnded_def Holding_def ended_incident_def OpenMembers_def current_members_def case_open_def find_case_def
      member_live_def announce_def Incident_NextSequence_def update_where_def Announce_def announce_notify_def announce_investigate_def
      ex_reason ex_subject ex_quiet_def ex_drawn_def ex_over_def ex_c_def ex_board_def)

lemma ex_signal: "signal_step (idb_alerts ex_drawn) ex_over [12]"
  by (auto simp: signal_step_def enrolled_def open_in_def ex_over_def ex_drawn_def ex_board_def ex_c_def ex_row_sel split: if_splits)

lemma ex_reached: "incident_reach ex_drawn" "incident_reach ex_quiet"
proof -
  have "incident_reach ex_board" by (rule incident_reach.start) (simp_all add: ex_board_def)
  then show d: "incident_reach ex_drawn"
    by (rule incident_reach.drew [of _ ex_ids ex_incidents "[12]" ex_ann "fst (Incident_Draw ex_incidents ex_ids ex_board [12] ex_ann)"])
      (simp_all add: ex_board_def [abs_def] flip: ex_draw)
  show "incident_reach ex_quiet" by (rule incident_reach.signals [OF d ex_signal ex_ended])
qed

section \<open>The facts tell the state\<close>



section \<open>Membership\<close>

lemma one_of_distinct: "distinct (map f xs) \<Longrightarrow> length (filter (\<lambda>x. f x = c) xs) \<le> 1"
proof (induction xs)
  case (Cons x xs)
  show ?case
  proof (cases "f x = c")
    case True
    with Cons.prems have "filter (\<lambda>x. f x = c) xs = []" by (auto simp: filter_empty_conv image_iff)
    with True show ?thesis by simp
  qed (use Cons in simp)
qed simp

text \<open>
  C7. Who is in which incident, in every history: a case is a current member of at most one incident; a
  correlator adds a case only as the first that ever happens to it, so what a human removed no machine adds again; no
  case of a drill's alert is ever a member; every membership belongs to one incident, and no two incidents share a number.
\<close>

theorem one_incident_per_case:
  assumes "incident_reach db"
  shows "(\<forall>c. length (filter (\<lambda>m. mr_case m = c \<and> member_live m) (idb_members db)) \<le> 1) \<and>
    (\<forall>earlier m later. idb_members db = earlier @ m # later \<longrightarrow> mr_addedByCorrelator m \<noteq> uuid_Nil \<longrightarrow>
       mr_case m \<notin> mr_case ` set earlier) \<and>
    (\<forall>m\<in>set (idb_members db). length (filter (\<lambda>r. ir_id r = mr_incident m) (idb_incidents db)) = 1 \<and>
       (\<exists>c a. find_case db (mr_case m) = Some c \<and> find_alert db (c_alertID c) = Some a \<and> \<not> al_synthetic a)) \<and>
    distinct (map ir_number (idb_incidents db))"
proof (intro conjI allI impI ballI)
  have ok: "members_ok db" using reach_incidents_ok [OF assms] by (simp add: incidents_ok_def)
  note M = members_okD [OF ok]
  show "length (filter (\<lambda>m. mr_case m = c \<and> member_live m) (idb_members db)) \<le> 1" for c
    using one_of_distinct [OF M(5), of c] by (simp add: conj_commute)
  show "distinct (map ir_number (idb_incidents db))" by (rule M(4))
  show "mr_case m \<notin> mr_case ` set earlier" if "idb_members db = earlier @ m # later" "mr_addedByCorrelator m \<noteq> uuid_Nil"
    for earlier m later
    using machine_first_split [of "{}" "map member_key earlier" "mr_case m" "mr_addedByCorrelator m" "map member_key later"]
      ok that by (simp add: members_ok_def member_key_def image_image)
  fix m assume m: "m \<in> set (idb_members db)"
  from M(1) [OF m] have "filter (\<lambda>r. ir_id r = mr_incident m) (idb_incidents db) \<noteq> []" by (auto simp: filter_empty_conv)
  then show "length (filter (\<lambda>r. ir_id r = mr_incident m) (idb_incidents db)) = 1"
    using one_of_distinct [OF M(3), of "mr_incident m"] by (cases "filter (\<lambda>r. ir_id r = mr_incident m) (idb_incidents db)") auto
  show "\<exists>c a. find_case db (mr_case m) = Some c \<and> find_alert db (c_alertID c) = Some a \<and> \<not> al_synthetic a"
    using M(1) [OF m] by (simp add: enrolled_def find_case_def find_alert_def)
qed

theorem one_incident_per_case_witness:
  "map mr_case (idb_members ex_quiet) = [12] \<and>
   length (filter (\<lambda>m. mr_case m = 12 \<and> member_live m) (idb_members ex_quiet)) \<le> 1 \<and>
   distinct (map ir_number (idb_incidents ex_quiet))"
  using one_incident_per_case [OF ex_reached(2)] by (simp add: ex_quiet_def ex_drawn_def)

section \<open>A human without an account\<close>

lemma actor_slack: "NewActorKind ''slack'' = Inr ActorSlack"
  by code_simp

lemma RecordIncidentFact_no_account:
  assumes "Attribution_IsHuman (cf_By f)" "by_userID (cf_By f) = uuid_Nil"
  shows "\<exists>e. RecordIncidentFact W draw st f = Inl e"
proof -
  have "\<exists>e. rbind (AppendTimelineEvent A i db
      \<lparr>te_Type = ty, te_AlertID = a, te_CaseID = c, te_Summary = s, te_Payload = p, te_DedupeKey = k,
       te_ActorKind = ''slack'', te_ActorID = [], te_ActorLabel = l\<rparr>) g = Inl e" for A i db ty a c s p k l and g :: "Store \<Rightarrow> itx result"
    by (simp add: AppendTimelineEvent_def actor_slack NewActor_def oto_defs)
  with assms show ?thesis by (cases st) (simp add: RecordIncidentFact_def fact_actor_def)
qed

lemma not_Inr: "(\<And>y. r \<noteq> Inr y) \<Longrightarrow> \<exists>e. r = Inl e"
  by (cases r) auto

lemma after_commit_Inl: "\<exists>e. r = Inl e \<Longrightarrow> \<exists>e. after_commit W db r = (Inl e, db)"
  by (auto simp: after_commit_def)

lemma distinctCases_some: "distinctCases ids = Inr out \<Longrightarrow> out \<noteq> []"
  by (auto simp: distinctCases_def Let_def split: if_splits)

lemma no_record:
  assumes "Attribution_IsHuman by'" "by_userID by' = uuid_Nil" "cf_By f = by'"
  shows "RecordIncidentFact W draw st f \<noteq> Inr y"
  using RecordIncidentFact_no_account [of f W draw st] assms by auto

text \<open>
  C13. A human without a row in \<^verbatim>\<open>users\<close>, whom \<^verbatim>\<open>Human\<close> admits, changes no incident: every verb refuses
  him, because the sentence it writes onto the timeline names him as an actor without an id, and leaves the tables as
  they were. Nothing of the incident, the number or the facts remains.
\<close>

theorem no_account_no_change:
  assumes "Attribution_IsHuman by'" "by_userID by' = uuid_Nil"
  shows "(\<exists>e. Incident_Draw W draw db caseIDs by' = (Inl e, db)) \<and>
    (\<exists>e. Incident_Add W draw db number caseID by' = (Inl e, db)) \<and>
    (\<exists>e. Incident_Remove W draw db number caseID by' = (Inl e, db)) \<and>
    (\<exists>e. Incident_Move W draw db src dst caseID by' = (Inl e, db))"
proof -
  note never = no_record [OF assms]
  have "Draw_tx W draw db ids by' \<noteq> Inr y" if ids: "ids \<noteq> []" for ids y
  proof
    assume "Draw_tx W draw db ids by' = Inr y"
    then obtain cs d st st' where cs: "resolveCases db ids = Inr cs" and r: "run_steps (draw_case W draw (ref_ID d) (iw_now W) by') st
        (map (\<lambda>c. (cr_ID c, drawn_fact (IncidentsWorld_U W) d by' c)) cs) = Inr st'"
      by (auto simp: Draw_tx_def rbind_Inr_iff split: if_splits prod.splits)
    have "cs \<noteq> []" using resolveCases_Inr(1) [OF cs] ids by auto
    with r show False
      by (cases cs; cases st) (auto simp: draw_case_def rbind_Inr_iff never drawn_fact_def)
  qed
  then have "\<exists>e. Incident_Draw W draw db caseIDs by' = (Inl e, db)"
    unfolding Incident_Draw_def by (intro after_commit_Inl not_Inr) (auto simp: rbind_Inr_iff dest!: distinctCases_some)
  moreover have "\<exists>e. Incident_Add W draw db number caseID by' = (Inl e, db)"
    unfolding Incident_Add_def Add_tx_def
    by (intro after_commit_Inl not_Inr) (auto simp: rbind_Inr_iff Let_def never added_fact_def split: option.splits if_splits)
  moreover have "\<exists>e. Incident_Remove W draw db number caseID by' = (Inl e, db)"
    unfolding Incident_Remove_def Remove_tx_def
    by (intro after_commit_Inl not_Inr) (auto simp: rbind_Inr_iff Let_def never removed_fact_def)
  moreover have "\<exists>e. Incident_Move W draw db src dst caseID by' = (Inl e, db)"
    unfolding Incident_Move_def Move_tx_def
    by (intro after_commit_Inl not_Inr) (auto simp: rbind_Inr_iff Let_def never moved_fact_def split: if_splits)
  ultimately show ?thesis by blast
qed

theorem no_account_no_change_witness:
  "Human 0 ''ann'' = Inr (ex_ann\<lparr>by_userID := 0\<rparr>) \<and>
   (\<exists>e. Incident_Draw ex_incidents ex_ids ex_board [12] (ex_ann\<lparr>by_userID := 0\<rparr>) = (Inl e, ex_board)) \<and>
   snd (Incident_Draw ex_incidents ex_ids ex_board [12] ex_ann) \<noteq> ex_board"
proof -
  have "Human 0 ''ann'' = Inr (ex_ann\<lparr>by_userID := 0\<rparr>)" by code_simp
  moreover have "\<exists>e. Incident_Draw ex_incidents ex_ids ex_board [12] (ex_ann\<lparr>by_userID := 0\<rparr>) = (Inl e, ex_board)"
    using no_account_no_change [of "ex_ann\<lparr>by_userID := 0\<rparr>" ex_incidents ex_ids ex_board "[12]"]
    by (simp add: ex_ann_def zeroAttribution_def Attribution_IsHuman_def)
  moreover have "ex_drawn \<noteq> ex_board" by (simp add: ex_drawn_def ex_board_def)
  ultimately show ?thesis by (simp add: ex_draw)
qed

end
