(* ===== verification/Incident_Signals.thy ===== *)
theory Incident_Signals
  imports Incident_Verbs
begin

text \<open>
  Two transactions of the alerts module that end cases, the reaper's and the delayed close's, are steps the incidents
  module expects (\<open>signal_step\<close>): they announce, and close, the one case they end.
\<close>

lemma find_map_same: "(\<And>x. P (f x) = P x) \<Longrightarrow> find P (map f xs) = map_option f (find P xs)"
  by (induction xs) auto

lemma find_overwrite:
  assumes "find (\<lambda>c. g c = k) xs = Some r" "g r' = k"
  shows "find (\<lambda>c. g c = j) (update_where (\<lambda>c. g c = k) (\<lambda>_. r') xs) = (if j = k then Some r' else find (\<lambda>c. g c = j) xs)"
proof (cases "j = k")
  case True
  with assms show ?thesis by (induction xs) (auto simp: update_where_def split: if_splits)
next
  case False
  with assms(2) have "find (\<lambda>c. g c = j) (update_where (\<lambda>c. g c = k) (\<lambda>_. r') xs) = find (\<lambda>c. g c = j) xs"
    by (induction xs) (auto simp: update_where_def)
  with False show ?thesis by simp
qed

lemma enrolled_cong:
  assumes "\<And>i. map_option c_alertID (find (\<lambda>c. c_id c = i) (st_cases s')) = map_option c_alertID (find (\<lambda>c. c_id c = i) (st_cases s))"
    "\<And>i. map_option al_synthetic (find (\<lambda>a. al_id a = i) (st_alerts s')) = map_option al_synthetic (find (\<lambda>a. al_id a = i) (st_alerts s))"
  shows "enrolled s' i = enrolled s i"
proof -
  have e: "enrolled s i \<longleftrightarrow> (\<exists>a. map_option c_alertID (find (\<lambda>c. c_id c = i) (st_cases s)) = Some a \<and>
      map_option al_synthetic (find (\<lambda>x. al_id x = a) (st_alerts s)) = Some False)" for s
    by (auto simp: enrolled_def)
  show ?thesis unfolding e using assms by simp
qed

lemma SetProjection_signal:
  assumes "SetProjection db i p = Inr db'"
  shows "st_cases db' = st_cases db" "st_ended db' = st_ended db"
    "map_option al_synthetic (find (\<lambda>a. al_id a = j) (st_alerts db')) = map_option al_synthetic (find (\<lambda>a. al_id a = j) (st_alerts db))"
proof -
  note P = assms [unfolded SetProjection_def]
  show "st_cases db' = st_cases db" by (rule SetProjectionBatch_alerts(2) [OF P])
  show "st_ended db' = st_ended db" using P by (auto simp: SetProjectionBatch_def split: if_splits)
  let ?f = "\<lambda>a. case map_of [(i, p)] (al_id a) of Some p \<Rightarrow> projected p a | None \<Rightarrow> a"
  have "al_id (?f a) = al_id a" "al_synthetic (?f a) = al_synthetic a" for a by (simp_all add: projected_def split: option.split)
  then show "map_option al_synthetic (find (\<lambda>a. al_id a = j) (st_alerts db')) = map_option al_synthetic (find (\<lambda>a. al_id a = j) (st_alerts db))"
    unfolding SetProjectionBatch_alerts(1) [OF P] by (subst find_map_same) (simp_all add: option.map_comp comp_def)
qed

lemma publish_ended [simp]: "st_ended (publish W f db) = st_ended db"
  by (simp add: publish_def)

lemma appendEvents_ended: "appendEvents W db evs = Inr (n, db') \<Longrightarrow> st_ended db' = st_ended db"
proof -
  have "st_ended (fold (publishEvent W) evs db1) = st_ended db1" for db1
    by (induction evs arbitrary: db1) (simp_all add: publishEvent_def)
  then show "appendEvents W db evs = Inr (n, db') \<Longrightarrow> st_ended db' = st_ended db"
    by (auto simp: appendEvents_def AppendBatch_def Let_def rbind_Inr_iff split: if_splits)
qed

lemma record_end_ended:
  assumes R: "record_end W db r at state reason = Inr db'" and W: "aw_caseEndings W = Some f"
    and r: "c_id (tr_Case r) \<noteq> uuid_Nil" "reason = ''expired'' \<or> reason = ''all_resolved''"
  shows "st_ended db' = st_ended db @ [c_id (tr_Case r)]"
proof -
  from R obtain alert db1 n db2 n' where P: "projectFromCase db alert (tr_Case r) at True 0 = Inr db1"
    and E: "appendEvents W db1 (tr_Events r) = Inr (n, db2)"
    and N: "enqueueNotify W (publishAlert W (al_id alert) [(''state'', JStr (State_String state))] (publishCase W (tr_Case r) db2))
      [\<lparr>nr_caseID = c_id (tr_Case r), nr_reason = reason, nr_alertID = Some (al_id alert), nr_actor = ''reaper'', nr_occasionID = uuid_Nil\<rparr>] []
      = Inr (n', db')"
    by (auto simp: record_end_def rbind_Inr_iff)
  have "st_ended db2 = st_ended db" using appendEvents_ended [OF E] SetProjection_signal(2) [OF P [unfolded projectFromCase_def]] by simp
  moreover have "st_ended db' = st_ended db2 @ [c_id (tr_Case r)]"
    using N r by (auto simp: enqueueNotify_def announceEndings_def W rbind_Inr_iff or_fail_def publishAlert_def publishCase_def Let_def
        split: if_splits option.splits)
  ultimately show ?thesis by simp
qed

text \<open>A readable case is open as long as it has no end.\<close>

lemma readable_open: "readable r \<Longrightarrow> c_endedAt r = 0 \<longleftrightarrow> c_state r = CaseOpen"
  unfolding readable_iff check_None_iff by (cases "c_state r") auto

lemma sweep_signal:
  assumes S: "store_ok axis org db" and W: "aw_caseEndings W = Some f"
    and g: "Case_GetByID db i = Inr m" "Case_IsOpen m"
    and A: "Apply U m cmd = Inr tr" and T: "Case_Transition db (c_id (tr_Case tr)) (transitionOf tr w) = Inr db1"
    and R: "record_end W db1 tr at state reason = Inr db2" and reason: "reason = ''expired'' \<or> reason = ''all_resolved''"
  shows "signal_step db db2 [i]" "st_ended db2 = st_ended db @ [i]"
proof -
  have rows: "rows_ok org (map al_id (st_alerts db)) (st_cases db)" using S by (simp add: store_ok_def)
  from g(1) obtain r where r: "r \<in> set (st_cases db)" "c_id r = i" "NewCase r = Inr m" by (rule Case_GetByID_Inr)
  have rd: "readable r" using rows r(1) by (simp add: rows_ok_def)
  have t: "tracks r m" using r(3) rd by (rule NewCase_tracks)
  note M = Case_Transition_move [OF rows T r(1) t A]
  let ?r = "transition_row (transitionOf tr w) r"
  have i: "c_id (tr_Case tr) = i" "i \<noteq> uuid_Nil"
    using Apply_same_episode [OF A] t r(2) rd by (auto simp: same_episode_def tracks_def same_row_def readable_iff)
  obtain alert db3 where e: "SetProjection db1 (al_id alert) (projectionFor alert (tr_Case tr) at True 0) = Inr db3" "same_rows db2 db3"
    using R by (rule record_end_Inr)
  have cases2: "st_cases db2 = update_where (\<lambda>c. c_id c = i) (\<lambda>_. ?r) (st_cases db)"
    using e(2) SetProjection_signal(1) [OF e(1)] r(2) by (simp add: same_rows_def M(1))
  have d: "distinct (map c_id (st_cases db))" using rows by (simp add: rows_ok_def)
  have at_i: "find (\<lambda>c. c_id c = i) (st_cases db) = Some r" using d r(1) unfolding r(2) [symmetric] by (rule find_distinct)
  have find: "find (\<lambda>c. c_id c = j) (st_cases db2) = (if j = i then Some ?r else find (\<lambda>c. c_id c = j) (st_cases db))" for j
    unfolding cases2 using at_i by (rule find_overwrite) (simp add: r(2))
  have enr: "enrolled db2 j = enrolled db j" for j
  proof (rule enrolled_cong)
    show "map_option c_alertID (find (\<lambda>c. c_id c = j) (st_cases db2)) = map_option c_alertID (find (\<lambda>c. c_id c = j) (st_cases db))" for j
      unfolding find using at_i by simp
    show "map_option al_synthetic (find (\<lambda>a. al_id a = j) (st_alerts db2)) = map_option al_synthetic (find (\<lambda>a. al_id a = j) (st_alerts db))" for j
      using e(2) SetProjection_signal(3) [OF e(1)] by (simp add: same_rows_def M(1))
  qed
  have open_i: "open_in db i"
  proof -
    have "c_endedAt r = 0" using g(2) t by (simp add: Case_IsOpen_def tracks_def same_standing_def)
    then show ?thesis using readable_open [OF rd] by (simp add: open_in_def at_i)
  qed
  have others: "j \<noteq> i \<Longrightarrow> open_in db2 j = open_in db j" for j by (simp add: open_in_def find)
  have "open_in db2 j \<Longrightarrow> open_in db j" for j using open_i others [of j] by (cases "j = i") simp_all
  then show "signal_step db db2 [i]" unfolding signal_step_def using enr open_i others by auto
  show "st_ended db2 = st_ended db @ [i]"
    using record_end_ended [OF R W _ reason] i by (simp add: M(1))
qed

lemma signal_step_refl: "signal_step db db []"
  by (simp add: signal_step_def)

lemma expire_signal:
  assumes S: "store_ok axis org db" and W: "aw_caseEndings W = Some f" and C: "expire W ev db i now cfg reason proven = Inr (b, db')"
  shows "signal_step db db' (if b then [i] else [])" "st_ended db' = st_ended db @ (if b then [i] else [])"
proof -
  have "signal_step db db' (if b then [i] else []) \<and> st_ended db' = st_ended db @ (if b then [i] else [])"
    using C
  proof (cases rule: expire_won)
    case (ended m cmd tr db1 at)
    then show ?thesis using sweep_signal [OF S W ended(2-6)] by simp
  qed (simp add: signal_step_refl)
  then show "signal_step db db' (if b then [i] else [])" "st_ended db' = st_ended db @ (if b then [i] else [])" by simp_all
qed

lemma closeDue_signal:
  assumes S: "store_ok axis org db" and W: "aw_caseEndings W = Some f" and C: "closeDue W ev db i now = Inr (b, db')"
  shows "signal_step db db' (if b then [i] else [])" "st_ended db' = st_ended db @ (if b then [i] else [])"
proof -
  have "signal_step db db' (if b then [i] else []) \<and> st_ended db' = st_ended db @ (if b then [i] else [])"
    using C
  proof (cases rule: closeDue_won)
    case (ended m cmd tr db1 at)
    then show ?thesis using sweep_signal [OF S W ended(2-6)] by simp
  qed (simp add: signal_step_refl)
  then show "signal_step db db' (if b then [i] else [])" "st_ended db' = st_ended db @ (if b then [i] else [])" by simp_all
qed

end
