(* ===== verification/Spec2Isabelle.thy ===== *)
theory Spec2Isabelle
  imports Lifecycle_Correct Identity_Correct Snooze_Correct Alert_Model Delivery Dispatch_System Dispatch_Outcome
    Suppression_Correct Notify_Correct Observe_Correct Observe_Conflict Incident_Span Incident_Correct Incident_Signals
begin

text \<open>
  oto turns the alerts of Prometheus-like sources into cases with a life of their own and tells people about them
  in conversations. This development models the life of a case
  (\<^verbatim>\<open>internal/alerts\<close>: its domain, the statements of its repositories, the service that runs them), the incidents that
  gather cases into one story (\<^verbatim>\<open>internal/incidents\<close>), and the delivery of messages into ordered conversations
  (\<^verbatim>\<open>internal/notification\<close>, \<^verbatim>\<open>internal/platform/jobs/ordering\<close>).

  \<^bold>\<open>Parts and theories.\<close>

  \<^item> \<open>Oto_Prelude\<close>: errors as values (\<^verbatim>\<open>platform/errs\<close>), the \<open>result\<close> type and its bind, Go times and durations, the
    fact collections. \<open>Go_Strings\<close>: byte strings, decimal printing, uuids (their printer and parser are a parameter,
    \<open>uuidlib\<close>).
  \<^item> \<open>Alert_Enums\<close>, \<open>Alert_Event\<close>, \<open>Alert_Case\<close>: \<^verbatim>\<open>enums.go\<close>, \<^verbatim>\<open>event.go\<close>, \<^verbatim>\<open>case.go\<close>. Closed sets with their
    parsers, the event validator, the case with its invariant \<open>check\<close>.
  \<^item> \<open>Lifecycle\<close>: \<^verbatim>\<open>lifecycle.go\<close>, the whole machine: the transition table, \<open>Apply\<close> with one definition per arm,
    \<open>Decide\<close>, \<open>OpenNewCase\<close>, \<open>Acknowledge\<close>, \<open>Unacknowledge\<close>. \<open>Lifecycle_Facts\<close> has the facts of single
    transitions, \<open>Lifecycle_Runs\<close> the histories of a case as a step relation, \<open>Lifecycle_Correct\<close> the
    properties C1 to C6 and C8 to C12: a refinement of an abstract machine, the row invariant, closed cases stay closed, unique
    dedupe keys, the grace period of a resolution, the agreement of \<open>Decide\<close> with \<open>Apply\<close>, the errors.
  \<^item> \<open>Alert_Labels\<close>, \<open>Alert_Keys\<close>: \<^verbatim>\<open>labels.go\<close>, \<^verbatim>\<open>canon.go\<close>, \<^verbatim>\<open>keys.go\<close>, \<^verbatim>\<open>validate/patterns.go\<close>. Labels, sanitising,
    the canonical serialisation, keys. \<open>Identity_Correct\<close> (C15, C16, C18, C19): the serialisation is injective on accepted
    label sets, and the keys identify exactly what they should under freedom from collisions of the hash, which is
    a parameter.
  \<^item> \<open>Alert_Model\<close>: \<^verbatim>\<open>alert.go\<close>, the projections of \<^verbatim>\<open>contracts.go\<close>, \<^verbatim>\<open>casepolicy.go\<close>. \<open>Snooze\<close>: \<^verbatim>\<open>snooze.go\<close>, with
    \<open>Snooze_Correct\<close> (C20, C21) on the bounds of a snooze and its single end.
  \<^item> \<open>Case_Store\<close>: the tables of \<^verbatim>\<open>alerts/repository\<close> as lists of records (alerts, their labels, cases, the timeline, the change
    notices, the queued jobs) and one operation per SQL statement of \<^verbatim>\<open>alert.go\<close>, \<^verbatim>\<open>case.go\<close> and \<^verbatim>\<open>event.go\<close> that the service
    runs, compare-and-set included. \<open>Observe\<close>: the ingest path, \<^verbatim>\<open>service/lifecycle.go\<close> with \<^verbatim>\<open>service.go\<close> and \<^verbatim>\<open>deps.go\<close>;
    \<open>observe_tx\<close> is the transaction of one batch, \<open>ObserveBatch\<close> the retry loop around it (three attempts, none inside a
    caller's transaction). \<open>Case_Sweep\<close>: \<^verbatim>\<open>service/sweep.go\<close>, the reaper and the delayed close with their candidate queries,
    and the acknowledgement of \<^verbatim>\<open>actions.go\<close>.
  \<^item> \<open>Case_Table\<close> reads the statements as moves of the table of cases (\<open>case_move\<close>) that keep it in order;
    \<open>Observe_Batch\<close> has the invariant of the tables (\<open>store_ok\<close>) and what the loop of a batch keeps of it,
    \<open>Observe_Upsert\<close> its two ends, \<open>Observe_Steps\<close> every transaction and their histories (\<open>store_run\<close>).
    \<open>Observe_Correct\<close> has C39: in every history the episodes of an alert are numbered without a gap, at most the last is
    open, and the alert row says what it says. \<open>Observe_Conflict\<close> has C40: a batch that reports an open alert firing and
    then resolved is refused on every attempt.
  \<^item> \<open>Incident\<close>: \<^verbatim>\<open>incidents/domain\<close>: the derived state of an incident and its facts, attributions, correlators. \<open>Incident_Span\<close>
    has C17: the two-pointer loop of \<^verbatim>\<open>Count.Span\<close> finds the fullest window around the anchor, if any clears the count.
    \<open>Incident_Store\<close>: the tables and statements of \<^verbatim>\<open>incidents/repository\<close>; they share the alerts' \<open>Store\<close>.
    \<open>Incident_Service\<close>: \<^verbatim>\<open>incidents/service\<close>, a human's verbs, the observer of ending cases and the evaluator of the correlators, with
    the adapters of \<^verbatim>\<open>internal/app\<close> through which they write the timeline (\<^verbatim>\<open>alerts/service/seam.go\<close>) and the outbox.
    \<open>Incident_Run\<close> has the invariants of the tables and what the statements keep of them, \<open>Incident_Verbs\<close> that every
    verb keeps both. \<open>Incident_Correct\<close> has the histories (\<open>incident_reach\<close>), which interleave the module with the
    transactions of the alerts module (\<open>signal_step\<close>), and C7 (who is in which incident), C13 (a human without an account) and
    C14 (the numbered facts tell the state that no row stores). \<open>Incident_Signals\<close>: the reaper's and the delayed close's
    transactions are such steps of the alerts module, and announce the case they end.
  \<^item> \<open>Delivery\<close>: \<^verbatim>\<open>notification.go\<close> and \<^verbatim>\<open>thread.go\<close>: statuses, error classes, budgets, the retry schedule (C22, C23).
  \<^item> \<open>Thread_Store\<close>: the tables \<^verbatim>\<open>channel_threads\<close>, \<^verbatim>\<open>notification_deliveries\<close>, \<^verbatim>\<open>notifications\<close>, \<^verbatim>\<open>channels\<close> and the
    timeline as lists of records, and one operation per SQL statement of \<^verbatim>\<open>notification/repository\<close> that the dispatcher runs.
  \<^item> \<open>Thread_Ordering\<close>: the gate of \<^verbatim>\<open>jobs/ordering\<close>. What it needs of its store is the locale \<open>ordering_store\<close>, interpreted on
    the repository's operations; C24 says when the gate lets a delivery pass, C25 that recovery ends and what it
    passes over.
  \<^item> \<open>Dispatch\<close>: \<^verbatim>\<open>service/dispatch.go\<close>, both transactions with every branch, and \<^verbatim>\<open>createDelivery\<close>. \<open>Dispatch_Order\<close> has the
    invariant of the tables and that every handler keeps it, \<open>Dispatch_System\<close> the workers as a step
    relation (C26: conversations stay in order), \<open>Dispatch_Outcome\<close> what the second transaction
    leaves behind (C27, C28).
  \<^item> \<open>Notify_Reason\<close>: \<^verbatim>\<open>reason.go\<close>, \<^verbatim>\<open>verbosity.go\<close>, \<^verbatim>\<open>mode.go\<close>, \<^verbatim>\<open>suppression.go\<close>, \<^verbatim>\<open>idempotency.go\<close>: why a notification exists, what it
    plans at a destination (C29), why it stays silent; \<open>Suppression_Correct\<close> (C30) relates the two precedences of the code.
  \<^item> \<open>Digest_Windows\<close>: \<^verbatim>\<open>digest.go\<close>, windows that tile time (C31) and a bounded backlog (C32).
  \<^item> \<open>Notify_Policy\<close>: \<^verbatim>\<open>matcher.go\<close>, \<^verbatim>\<open>policy.go\<close>, \<^verbatim>\<open>service/policy.go\<close>: matchers (the regular expression engine is a parameter), the
    validation of a policy (C33), routing and its preview.
  \<^item> \<open>Notify\<close>: \<^verbatim>\<open>service/notify.go\<close> and \<^verbatim>\<open>service/incident.go\<close>: the transactions that turn a fact about a case or an incident into a
    notification and its deliveries. \<open>Notify_Run\<close> follows the code once inside the locales \<open>fan_rel\<close> and \<open>notify_rel\<close>, which are
    interpreted on several relations; \<open>Notify_Correct\<close> has C34 (preview is routing), C35 (a repeated intent is quiet), C36
    (every transaction is a run of the system of C26), C37 (the outbox), C38 (what a repeat forgets).

  \<^bold>\<open>Conventions.\<close> A handler returns \<open>error + value\<close>; a transaction that returns an error is rolled back, so only \<open>Inr\<close>
  carries tables. A transaction is one atomic step (the code takes the thread's advisory lock) and reads one clock value.
  Times and durations are integers of nanoseconds; the code's 64-bit range is shown not to be left where it matters (C23).
  What a transaction reads a second time under a row lock it reads once in the model.
  Every loop is a terminating function; recovery recurses on the distance between the head and the next number.

  \<^bold>\<open>Not modelled.\<close> HTTP handlers and generated types, SQL listing queries, view building and rendering (parameters of the
  dispatcher), providers (a parameter), the random jitter of \<^verbatim>\<open>Backoff\<close> (a parameter), metrics and logs, ingestion (decoding webhooks and
  queueing batches), comments and the service side of snoozes, enrichment, rules, silences, drills, identity, wiring and tools.
\<close>

end
